(* ===== verification/Cps_Prelude.thy ===== *)
theory Cps_Prelude
  imports Main "HOL-Library.Word" "HOL-Library.Monad_Syntax"
begin

text \<open>
  Shared vocabulary of the development: the machine types the C++ code uses, the wrap-around
  arithmetic of \<open>size_t\<close>, the memory primitives of the C library (\<open>memcpy\<close>, \<open>memmove\<close>,
  \<open>memcmp\<close>) on byte and element arrays, and the generic list lemmas the components rest on.

  Convention. A value \<open>None\<close> of an operation's result means that the run of the C++ code has no
  defined continuation: a failed \<open>STD_ASSERT\<close>, an access outside an array, a use of a freed
  object, or a loop that never returns. A C++ result such as \<open>false\<close>, \<open>NULL\<close> or a return code
  is an ordinary value inside \<open>Some\<close>.
\<close>

section \<open>Machine types\<close>

type_synonym u8 = "8 word"
type_synonym u16 = "16 word"
type_synonym u32 = "32 word"
type_synonym u64 = "64 word"
type_synonym bytes = "u8 list"

named_theorems mem_simps \<open>lengths, prefixes and suffixes of arrays after the memory primitives\<close>
named_theorems size_simps \<open>\<open>size_t\<close> arithmetic where it does not wrap\<close>

section \<open>\<open>size_t\<close> arithmetic\<close>

text \<open>
  A \<open>size_t\<close> is a \<open>nat\<close> below \<open>2 ^ 64\<close>; the two operations below are the C++ \<open>+\<close> and \<open>-\<close>
  on it, with the wrap-around written out.
\<close>

definition size_lim :: nat where
  "size_lim = 2 ^ 64"

definition sz_add :: "nat \<Rightarrow> nat \<Rightarrow> nat" where
  "sz_add a b = (a + b) mod size_lim"

definition sz_sub :: "nat \<Rightarrow> nat \<Rightarrow> nat" where
  "sz_sub a b = (a + (size_lim - b mod size_lim)) mod size_lim"

text \<open>The conversion of a \<open>size_t\<close> to a 32-bit \<open>int\<close> keeps its low 32 bits.\<close>

definition to_int32 :: "nat \<Rightarrow> int" where
  "to_int32 n = (let m = n mod 2 ^ 32 in if m < 2 ^ 31 then int m else int m - 2 ^ 32)"

lemma size_lim_pos [simp]: "0 < size_lim"
  by (simp add: size_lim_def)

lemma sz_add_exact [size_simps]: "a + b < size_lim \<Longrightarrow> sz_add a b = a + b"
  by (simp add: sz_add_def)

lemma sz_sub_exact [size_simps]: "b \<le> a \<Longrightarrow> a < size_lim \<Longrightarrow> sz_sub a b = a - b"
proof -
  assume "b \<le> a" "a < size_lim"
  then have "a + (size_lim - b mod size_lim) = (a - b) + size_lim" by simp
  then show ?thesis using \<open>a < size_lim\<close> by (simp add: sz_sub_def)
qed

lemma sz_add_lt [simp]: "sz_add a b < size_lim"
  by (simp add: sz_add_def)

lemma sz_sub_lt [simp]: "sz_sub a b < size_lim"
  by (simp add: sz_sub_def)

lemma to_int32_small: "n < 2 ^ 31 \<Longrightarrow> to_int32 n = int n"
  by (simp add: to_int32_def)

text \<open>Adding a wrapped difference is exact whenever the true result is a \<open>size_t\<close>.\<close>

lemma sz_add_sz_sub [size_simps]:
  assumes "c \<le> a + b" and "a + b - c < size_lim" and "c < size_lim"
  shows "sz_add a (sz_sub b c) = a + b - c"
proof -
  have "sz_add a (sz_sub b c) = (a + (b + (size_lim - c))) mod size_lim"
    using assms(3) by (simp add: sz_add_def sz_sub_def mod_add_right_eq)
  also have "a + (b + (size_lim - c)) = (a + b - c) + size_lim"
    using assms(1,3) by simp
  finally show ?thesis using assms(2) by simp
qed

section \<open>Memory primitives\<close>

text \<open>
  \<open>memcpy\<close> writes a block at an offset of an array; \<open>memmove\<close> copies a block inside one array,
  the blocks may overlap. Both are undefined (\<open>None\<close>) when a block leaves the array.
\<close>

definition memcpy :: "'a list \<Rightarrow> nat \<Rightarrow> 'a list \<Rightarrow> 'a list option" where
  "memcpy mem dst blk =
     (if dst + length blk \<le> length mem
      then Some (take dst mem @ blk @ drop (dst + length blk) mem) else None)"

definition memmove :: "'a list \<Rightarrow> nat \<Rightarrow> nat \<Rightarrow> nat \<Rightarrow> 'a list option" where
  "memmove mem dst src n =
     (if src + n \<le> length mem then memcpy mem dst (take n (drop src mem)) else None)"

text \<open>
  \<open>memcmp\<close> compares as unsigned bytes; C fixes only the sign of the result, which the model
  gives as \<open>-1\<close>, \<open>0\<close> or \<open>1\<close>.
\<close>

fun memcmp :: "bytes \<Rightarrow> bytes \<Rightarrow> nat \<Rightarrow> int" where
  "memcmp xs ys 0 = 0"
| "memcmp (x # xs) (y # ys) (Suc n) =
     (if x < y then -1 else if y < x then 1 else memcmp xs ys n)"
| "memcmp _ _ _ = 0"

lemma memcpy_eq_Some [mem_simps]:
  "memcpy mem dst blk = Some m \<longleftrightarrow>
     dst + length blk \<le> length mem \<and> m = take dst mem @ blk @ drop (dst + length blk) mem"
  by (auto simp: memcpy_def)

lemma memmove_eq_Some [mem_simps]:
  "memmove mem dst src n = Some m \<longleftrightarrow>
     src + n \<le> length mem \<and> dst + n \<le> length mem \<and>
     m = take dst mem @ take n (drop src mem) @ drop (dst + n) mem"
proof (cases "src + n \<le> length mem")
  case True
  then have "length (take n (drop src mem)) = n" by simp
  with True show ?thesis by (simp add: memmove_def memcpy_eq_Some)
qed (simp add: memmove_def)

lemma memcpy_length: "memcpy mem dst blk = Some m \<Longrightarrow> length m = length mem"
  by (auto simp: memcpy_def split: if_splits)

lemma memmove_length: "memmove mem dst src n = Some m \<Longrightarrow> length m = length mem"
  by (auto simp: memmove_eq_Some)

lemma memcmp_zero_iff:
  "n \<le> length xs \<Longrightarrow> n \<le> length ys \<Longrightarrow> memcmp xs ys n = 0 \<longleftrightarrow> take n xs = take n ys"
proof (induction xs ys n rule: memcmp.induct)
  case (2 x xs y ys n)
  then show ?case by (auto simp: not_less order.order_iff_strict)
qed auto

lemma memcmp_antisym: "memcmp xs ys n = - memcmp ys xs n"
  by (induction xs ys n rule: memcmp.induct) (auto simp: not_less)

section \<open>Little-endian storage of integers\<close>

text \<open>
  The supported targets are little-endian, so \<open>htole16\<close>, \<open>htole32\<close> and \<open>htole64\<close> and their
  inverses are the identity on values and an integer's bytes in memory are these.
\<close>

lemma unat_lt_256: "unat (b :: u8) < 256"
proof -
  have "unat b < 2 ^ LENGTH(8)" by (rule unsigned_less)
  then show ?thesis by simp
qed

lemma unat_lt_u32: "unat (w :: u32) < 4294967296"
proof -
  have "unat w < 2 ^ LENGTH(32)" by (rule unsigned_less)
  then show ?thesis by simp
qed

lemma unat_lt_u16: "unat (w :: u16) < 65536"
proof -
  have "unat w < 2 ^ LENGTH(16)" by (rule unsigned_less)
  then show ?thesis by simp
qed

lemma unat_lt_u64: "unat (w :: u64) < 18446744073709551616"
proof -
  have "unat w < 2 ^ LENGTH(64)" by (rule unsigned_less)
  then show ?thesis by simp
qed

definition le_bytes :: "nat \<Rightarrow> nat \<Rightarrow> bytes" where
  "le_bytes n v = map (\<lambda>i. of_nat (v div 256 ^ i)) [0..<n]"

fun le_val :: "bytes \<Rightarrow> nat" where
  "le_val [] = 0"
| "le_val (b # bs) = unat b + 256 * le_val bs"

definition u32_bytes :: "u32 \<Rightarrow> bytes" where
  "u32_bytes w = le_bytes 4 (unat w)"

definition bytes_u32 :: "bytes \<Rightarrow> u32" where
  "bytes_u32 bs = of_nat (le_val (take 4 bs))"

lemma length_le_bytes [simp]: "length (le_bytes n v) = n"
  by (simp add: le_bytes_def)

lemma le_bytes_Suc: "le_bytes (Suc n) v = of_nat v # le_bytes n (v div 256)"
proof -
  have "[0..<Suc n] = 0 # map Suc [0..<n]" by (simp add: upt_conv_Cons map_Suc_upt del: upt_Suc)
  then show ?thesis by (simp add: le_bytes_def div_mult2_eq comp_def del: upt_Suc)
qed

lemma le_val_le_bytes: "le_val (le_bytes n v) = v mod 256 ^ n"
proof (induction n arbitrary: v)
  case 0
  then show ?case by (simp add: le_bytes_def)
next
  case (Suc n)
  have "le_val (le_bytes (Suc n) v) = v mod 256 + 256 * (v div 256 mod 256 ^ n)"
    by (simp add: le_bytes_Suc Suc unat_of_nat)
  also have "\<dots> = v mod 256 ^ Suc n"
    by (simp add: mod_mult2_eq)
  finally show ?case .
qed

lemma le_val_bound: "le_val bs < 256 ^ length bs"
proof (induction bs)
  case (Cons b bs)
  have "unat b < 256" using unat_lt_256 .
  moreover from Cons have "le_val bs + 1 \<le> 256 ^ length bs" by simp
  then have "256 * (le_val bs + 1) \<le> 256 * 256 ^ length bs" by (rule mult_le_mono2)
  ultimately show ?case by simp
qed simp

lemma le_bytes_le_val: "le_bytes (length bs) (le_val bs) = bs"
proof (induction bs)
  case (Cons b bs)
  have "unat b < 256" using unat_lt_256 .
  then have "(unat b + 256 * le_val bs) div 256 = le_val bs" by simp
  moreover have "(256 :: u8) = 0" by simp
  then have "(of_nat (unat b + 256 * le_val bs) :: u8) = of_nat (unat b) + 0 * of_nat (le_val bs)"
    unfolding of_nat_add of_nat_mult of_nat_numeral by (rule arg_cong)
  then have "(of_nat (unat b + 256 * le_val bs) :: u8) = b" by simp
  ultimately show ?case using Cons by (simp add: le_bytes_Suc)
qed (simp add: le_bytes_def)

lemma length_u32_bytes [simp]: "length (u32_bytes w) = 4"
  by (simp add: u32_bytes_def)

lemma bytes_u32_u32_bytes [simp]: "bytes_u32 (u32_bytes w) = w"
proof -
  have "unat w mod 256 ^ 4 = unat w" by (simp add: unat_lt_u32)
  then show ?thesis by (simp add: bytes_u32_def u32_bytes_def le_val_le_bytes)
qed

lemma u32_bytes_inj: "u32_bytes v = u32_bytes w \<Longrightarrow> v = w"
  using bytes_u32_u32_bytes by metis

lemma u32_bytes_bytes_u32: "length bs = 4 \<Longrightarrow> u32_bytes (bytes_u32 bs) = bs"
proof -
  assume len: "length bs = 4"
  then have "le_val bs < 2 ^ 32" using le_val_bound [of bs] by simp
  then have "unat (of_nat (le_val bs) :: u32) = le_val bs" by (simp add: unat_of_nat)
  then show ?thesis using len le_bytes_le_val [of bs] by (simp add: bytes_u32_def u32_bytes_def)
qed

section \<open>Lists\<close>

lemma drop_take_append [mem_simps]:
  "p \<le> length xs \<Longrightarrow> drop p (take p xs @ ys) = ys"
  by simp

lemma take_eq_shorter:
  assumes "take n xs = take n ys" and "k \<le> n"
  shows "take k xs = take k ys"
proof -
  have "take k (take n xs) = take k (take n ys)" using assms(1) by simp
  then show ?thesis using assms(2) by (simp add: min_def)
qed

lemma take_drop_eq_take:
  assumes "take n (drop p xs) = take n (drop q ys)" and "i + k \<le> n"
  shows "take k (drop (p + i) xs) = take k (drop (q + i) ys)"
proof -
  have "take k (drop i (take n (drop p xs))) = take k (drop i (take n (drop q ys)))"
    using assms(1) by simp
  then show ?thesis using assms(2)
    by (simp add: drop_take min_def add.commute split: if_splits)
qed

lemma concat_const_length:
  "(\<And>x. length (f x) = n) \<Longrightarrow> length (concat (map f xs)) = n * length xs"
  by (induction xs) auto

lemma concat_map_inj:
  assumes "\<And>x. length (f x) = n" and "\<And>x y. f x = f y \<Longrightarrow> x = y"
    and "length xs = length ys"
  shows "concat (map f xs) = concat (map f ys) \<longleftrightarrow> xs = ys"
  using assms(3)
proof (induction xs ys rule: list_induct2)
  case (Cons x xs y ys)
  then show ?case using assms(1,2) by (auto simp: append_eq_append_conv)
qed simp

lemma take_concat_map:
  assumes "\<And>x. length (f x) = n"
  shows "take (n * k) (concat (map f xs)) = concat (map f (take k xs))"
proof (induction k arbitrary: xs)
  case (Suc k)
  then show ?case using assms by (cases xs) auto
qed simp

end
