(* ===== verification/Cps_Key.thy ===== *)
theory Cps_Key
  imports Cps_Prelude
begin

unbundle bit_operations_syntax

text \<open>
  CPS keys: \<^verbatim>\<open>inc/opx/cps_key_internals.h\<close>, \<^verbatim>\<open>inc/opx/cps_api_key.h\<close>, the key operations of
  \<^verbatim>\<open>src/cps_api_key.cpp\<close>, \<^verbatim>\<open>src/cps_api_key_utils.cpp\<close> and the key functions of
  \<^verbatim>\<open>src/cps_api_operation_common.cpp\<close>.

  A \<open>cps_api_key_t\<close> is an array of 256 bytes read as 64 elements of 32 bits: element 0 holds the
  number of key elements, element 1 the attribute (the operation of a transaction entry), the key
  elements start at element 2. The theory gives the accessors with their assertions, the editing
  operations, the comparison and the hash, and shows that on well-formed keys they implement
  insertion, removal, prefix matching and equality of element lists.
\<close>

section \<open>Layout and accessors\<close>

type_synonym cps_api_key_t = "u32 list"

definition CPS_OBJ_KEY_BYTE_MAX_LEN :: nat where
  "CPS_OBJ_KEY_BYTE_MAX_LEN = 256"

definition CPS_OBJ_KEY_ELEM_SIZE :: nat where
  "CPS_OBJ_KEY_ELEM_SIZE = 4"

definition CPS_OBJ_KEY_LEN_POS :: nat where
  "CPS_OBJ_KEY_LEN_POS = 0"

definition CPS_OBJ_KEY_ATTR_POS :: nat where
  "CPS_OBJ_KEY_ATTR_POS = 1"

definition CPS_OBJ_KEY_ELEM_START :: nat where
  "CPS_OBJ_KEY_ELEM_START = CPS_OBJ_KEY_ATTR_POS + 1"

definition CPS_OBJ_KEY_HEADER_SIZE :: nat where
  "CPS_OBJ_KEY_HEADER_SIZE = CPS_OBJ_KEY_ELEM_START * CPS_OBJ_KEY_ELEM_SIZE"

definition CPS_OBJ_MAX_KEY_LEN :: nat where
  "CPS_OBJ_MAX_KEY_LEN =
     CPS_OBJ_KEY_BYTE_MAX_LEN div CPS_OBJ_KEY_ELEM_SIZE - CPS_OBJ_KEY_ELEM_START"

lemmas key_layout =
  CPS_OBJ_KEY_BYTE_MAX_LEN_def CPS_OBJ_KEY_ELEM_SIZE_def CPS_OBJ_KEY_LEN_POS_def
  CPS_OBJ_KEY_ATTR_POS_def CPS_OBJ_KEY_ELEM_START_def CPS_OBJ_KEY_HEADER_SIZE_def
  CPS_OBJ_MAX_KEY_LEN_def

definition cps_api_key_elem_raw_get :: "cps_api_key_t \<Rightarrow> nat \<Rightarrow> u32 option" where
  "cps_api_key_elem_raw_get key offset =
     (if offset < length key then Some (key ! offset) else None)"

definition cps_api_key_elem_raw_set ::
  "cps_api_key_t \<Rightarrow> nat \<Rightarrow> u32 \<Rightarrow> cps_api_key_t option" where
  "cps_api_key_elem_raw_set key offset field =
     (if offset < length key then Some (key[offset := field]) else None)"

definition cps_api_key_get_len_in_bytes :: "cps_api_key_t \<Rightarrow> nat option" where
  "cps_api_key_get_len_in_bytes key =
     map_option (\<lambda>l. unat l * CPS_OBJ_KEY_ELEM_SIZE)
       (cps_api_key_elem_raw_get key CPS_OBJ_KEY_LEN_POS)"

definition cps_api_key_get_len :: "cps_api_key_t \<Rightarrow> nat option" where
  "cps_api_key_get_len key = map_option unat (cps_api_key_elem_raw_get key CPS_OBJ_KEY_LEN_POS)"

definition cps_api_key_set_len :: "cps_api_key_t \<Rightarrow> nat \<Rightarrow> cps_api_key_t option" where
  "cps_api_key_set_len key len =
     (if len < CPS_OBJ_MAX_KEY_LEN
      then cps_api_key_elem_raw_set key CPS_OBJ_KEY_LEN_POS (of_nat len) else None)"

definition cps_api_key_valid_offset :: "cps_api_key_t \<Rightarrow> nat \<Rightarrow> bool option" where
  "cps_api_key_valid_offset key offset = map_option (\<lambda>l. offset < l) (cps_api_key_get_len key)"

definition cps_api_key_get_attr :: "cps_api_key_t \<Rightarrow> u32 option" where
  "cps_api_key_get_attr key = cps_api_key_elem_raw_get key CPS_OBJ_KEY_ATTR_POS"

definition cps_api_key_set_attr :: "cps_api_key_t \<Rightarrow> u32 \<Rightarrow> cps_api_key_t option" where
  "cps_api_key_set_attr key attr = cps_api_key_elem_raw_set key CPS_OBJ_KEY_ATTR_POS attr"

text \<open>The array that \<open>cps_api_key_elem_start\<close> points to.\<close>

definition cps_api_key_elem_start :: "cps_api_key_t \<Rightarrow> u32 list" where
  "cps_api_key_elem_start key = drop CPS_OBJ_KEY_ELEM_START key"

definition cps_api_key_set :: "cps_api_key_t \<Rightarrow> nat \<Rightarrow> u32 \<Rightarrow> cps_api_key_t option" where
  "cps_api_key_set key offset field =
     (if offset < CPS_OBJ_MAX_KEY_LEN
      then cps_api_key_elem_raw_set key (offset + CPS_OBJ_KEY_ELEM_START) field else None)"

definition cps_api_key_element_at :: "cps_api_key_t \<Rightarrow> nat \<Rightarrow> u32 option" where
  "cps_api_key_element_at key offset =
     cps_api_key_elem_raw_get key (CPS_OBJ_KEY_ELEM_START + offset)"

text \<open>
  The copy moves the header and as many elements as the source's length field says; nothing
  checks that field, so a corrupt length makes the copy leave the arrays.
\<close>

definition cps_api_key_copy :: "cps_api_key_t \<Rightarrow> cps_api_key_t \<Rightarrow> cps_api_key_t option" where
  "cps_api_key_copy dest src = do {
     b \<leftarrow> cps_api_key_get_len_in_bytes src;
     let n = (b + CPS_OBJ_KEY_HEADER_SIZE) div CPS_OBJ_KEY_ELEM_SIZE;
     if n \<le> length src then memcpy dest 0 (take n src) else None
   }"

definition cps_api_key_init_from_array ::
  "cps_api_key_t \<Rightarrow> u32 list \<Rightarrow> nat \<Rightarrow> cps_api_key_t option" where
  "cps_api_key_init_from_array key elems len = do {
     k \<leftarrow> (if len \<le> length elems then memcpy key CPS_OBJ_KEY_ELEM_START (take len elems) else None);
     cps_api_key_set_len k len
   }"

section \<open>Editing a key\<close>

definition cps_api_key_insert_element ::
  "cps_api_key_t \<Rightarrow> nat \<Rightarrow> u32 \<Rightarrow> (bool \<times> cps_api_key_t) option" where
  "cps_api_key_insert_element key ix elem = do {
     cur_len \<leftarrow> cps_api_key_get_len key;
     if cur_len + 1 \<ge> CPS_OBJ_MAX_KEY_LEN then Some (False, key)
     else if ix > cur_len then Some (False, key)
     else do {
       let src = CPS_OBJ_KEY_ELEM_START + ix;
       let dest = src + 1;
       k \<leftarrow> memmove key dest src (cur_len - ix);
       k \<leftarrow> cps_api_key_set_len k (cur_len + 1);
       k \<leftarrow> cps_api_key_set k ix elem;
       Some (True, k)
     }
   }"

definition cps_api_key_remove_element :: "cps_api_key_t \<Rightarrow> nat \<Rightarrow> cps_api_key_t option" where
  "cps_api_key_remove_element key ix = do {
     cur_len \<leftarrow> cps_api_key_get_len key;
     if ix \<ge> cur_len then Some key
     else do {
       let dest = CPS_OBJ_KEY_ELEM_START + ix;
       let src = dest + 1;
       k \<leftarrow> memmove key dest src (cur_len - 1 - ix);
       cps_api_key_set_len k (cur_len - 1)
     }
   }"

text \<open>The loop of \<open>cps_api_key_init_from_attr_array\<close>: store each id, cut to 32 bits, unchecked.\<close>

fun key_store_elems :: "cps_api_key_t \<Rightarrow> nat \<Rightarrow> u64 list \<Rightarrow> cps_api_key_t option" where
  "key_store_elems key dest [] = Some key"
| "key_store_elems key dest (e # es) =
     (if dest < length key then key_store_elems (key[dest := ucast e]) (Suc dest) es else None)"

definition cps_api_key_init_from_attr_array ::
  "cps_api_key_t \<Rightarrow> u64 list \<Rightarrow> nat \<Rightarrow> cps_api_key_t option" where
  "cps_api_key_init_from_attr_array key elems offset = do {
     k \<leftarrow> key_store_elems key (CPS_OBJ_KEY_ELEM_START + offset) elems;
     cps_api_key_set_len k (length elems + offset)
   }"

section \<open>Comparing and hashing\<close>

definition cps_api_key_array_matches ::
  "u32 list \<Rightarrow> nat \<Rightarrow> u32 list \<Rightarrow> nat \<Rightarrow> bool \<Rightarrow> int option" where
  "cps_api_key_array_matches lhs src_n rhs comp_n exact =
     (let src_len = src_n * 4; comp_len = comp_n * 4;
          match_len = to_int32 (if src_len > comp_len then comp_len else src_len);
          n = nat match_len;
          res = memcmp (concat (map u32_bytes lhs)) (concat (map u32_bytes rhs)) n
      in if match_len < 0 \<or> n > 4 * length lhs \<or> n > 4 * length rhs then None
         else if exact \<and> src_len \<noteq> comp_len
           then Some (if res \<noteq> 0 then res else to_int32 (sz_sub src_len comp_len))
         else if comp_len > src_len then Some (if res \<noteq> 0 then res else 1)
         else Some res)"

definition cps_api_key_matches :: "cps_api_key_t \<Rightarrow> cps_api_key_t \<Rightarrow> bool \<Rightarrow> int option" where
  "cps_api_key_matches key comparison exact = do {
     l \<leftarrow> cps_api_key_get_len key;
     c \<leftarrow> cps_api_key_get_len comparison;
     cps_api_key_array_matches (cps_api_key_elem_start key) l
       (cps_api_key_elem_start comparison) c exact
   }"

text \<open>
  The rotating hash. \<open>h\<close> is \<open>std::hash<uint64_t>\<close>, which the C++ standard leaves to the
  implementation, so it is a parameter.
\<close>

fun cps_api_hash_array_loop :: "(u64 \<Rightarrow> u64) \<Rightarrow> u64 \<Rightarrow> u32 list \<Rightarrow> u64" where
  "cps_api_hash_array_loop h hash [] = hash"
| "cps_api_hash_array_loop h hash (e # es) =
     cps_api_hash_array_loop h ((push_bit 8 hash OR drop_bit 56 hash) XOR h (ucast e)) es"

definition cps_api_hash_array :: "(u64 \<Rightarrow> u64) \<Rightarrow> u32 list \<Rightarrow> nat \<Rightarrow> u64 option" where
  "cps_api_hash_array h ptr len =
     (if len \<le> length ptr then Some (cps_api_hash_array_loop h 0 (take len ptr)) else None)"

definition cps_api_key_hash :: "(u64 \<Rightarrow> u64) \<Rightarrow> cps_api_key_t \<Rightarrow> u64 option" where
  "cps_api_key_hash h key = do {
     len \<leftarrow> cps_api_key_get_len key;
     cps_api_hash_array h (cps_api_key_elem_start key) len
   }"

section \<open>Qualifier, category and operation of a key\<close>

definition CPS_OBJ_KEY_INST_POS :: nat where
  "CPS_OBJ_KEY_INST_POS = 0"

definition CPS_OBJ_KEY_CAT_POS :: nat where
  "CPS_OBJ_KEY_CAT_POS = 1"

definition CPS_OBJ_KEY_SUBCAT_POS :: nat where
  "CPS_OBJ_KEY_SUBCAT_POS = 2"

definition CPS_OBJ_KEY_APP_INST_POS :: nat where
  "CPS_OBJ_KEY_APP_INST_POS = 3"

lemmas key_positions =
  CPS_OBJ_KEY_INST_POS_def CPS_OBJ_KEY_CAT_POS_def CPS_OBJ_KEY_SUBCAT_POS_def
  CPS_OBJ_KEY_APP_INST_POS_def

definition cps_api_key_get_qual :: "cps_api_key_t \<Rightarrow> u32 option" where
  "cps_api_key_get_qual key = cps_api_key_element_at key CPS_OBJ_KEY_INST_POS"

definition cps_api_key_get_cat :: "cps_api_key_t \<Rightarrow> u32 option" where
  "cps_api_key_get_cat key = cps_api_key_element_at key CPS_OBJ_KEY_CAT_POS"

definition cps_api_key_get_subcat :: "cps_api_key_t \<Rightarrow> u32 option" where
  "cps_api_key_get_subcat key = cps_api_key_element_at key CPS_OBJ_KEY_SUBCAT_POS"

definition cps_api_key_set_qualifier :: "cps_api_key_t \<Rightarrow> u32 \<Rightarrow> cps_api_key_t option" where
  "cps_api_key_set_qualifier key qual = cps_api_key_set key CPS_OBJ_KEY_INST_POS qual"

definition cps_api_object_set_type_operation ::
  "cps_api_key_t \<Rightarrow> u32 \<Rightarrow> cps_api_key_t option" where
  "cps_api_object_set_type_operation key op = cps_api_key_set_attr key op"

definition cps_api_object_type_operation :: "cps_api_key_t \<Rightarrow> u32 option" where
  "cps_api_object_type_operation key = cps_api_key_get_attr key"

text \<open>The loop of \<open>cps_api_key_init\<close> over its variable arguments.\<close>

fun key_init_insts ::
  "cps_api_key_t \<Rightarrow> nat \<Rightarrow> nat \<Rightarrow> u32 list \<Rightarrow> (cps_api_key_t \<times> nat) option" where
  "key_init_insts key ix key_len [] = Some (key, key_len)"
| "key_init_insts key ix key_len (v # vs) = do {
     k \<leftarrow> cps_api_key_set key (CPS_OBJ_KEY_APP_INST_POS + ix) v;
     key_init_insts k (Suc ix) (Suc key_len) vs
   }"

definition cps_api_key_init ::
  "cps_api_key_t \<Rightarrow> u32 \<Rightarrow> u32 \<Rightarrow> u32 \<Rightarrow> u32 list \<Rightarrow> cps_api_key_t option" where
  "cps_api_key_init key qual cat subcat insts = do {
     key \<leftarrow> cps_api_key_set_attr key 0;
     (key, key_len) \<leftarrow>
       (if qual \<noteq> 0
        then map_option (\<lambda>k. (k, 1)) (cps_api_key_set key CPS_OBJ_KEY_INST_POS qual)
        else Some (key, 0));
     (key, key_len) \<leftarrow>
       (if key_len > CPS_OBJ_KEY_INST_POS \<and> cat \<noteq> 0
        then map_option (\<lambda>k. (k, key_len + 1)) (cps_api_key_set key CPS_OBJ_KEY_CAT_POS cat)
        else Some (key, key_len));
     (key, key_len) \<leftarrow>
       (if key_len > CPS_OBJ_KEY_CAT_POS \<and> subcat \<noteq> 0
        then map_option (\<lambda>k. (k, key_len + 1)) (cps_api_key_set key CPS_OBJ_KEY_SUBCAT_POS subcat)
        else Some (key, key_len));
     (key, key_len) \<leftarrow>
       (if key_len > CPS_OBJ_KEY_SUBCAT_POS then key_init_insts key 0 key_len insts
        else Some (key, key_len));
     cps_api_key_set_len key key_len
   }"

section \<open>The key as a list of elements\<close>

text \<open>
  A well-formed key has the full array and a length the setters accept; its elements are the
  list that clients mean by the key.
\<close>

definition key_wf :: "cps_api_key_t \<Rightarrow> bool" where
  "key_wf k \<longleftrightarrow> length k = 64 \<and> unat (k ! 0) < 62"

definition key_elems :: "cps_api_key_t \<Rightarrow> u32 list" where
  "key_elems k = take (unat (k ! 0)) (drop 2 k)"

text \<open>
  Some places keep only the used front part of a key (\<open>cps_api_key_cache::insert\<close> allocates just
  that many bytes); such a key is readable although it is shorter than the full array.
\<close>

definition key_ok :: "cps_api_key_t \<Rightarrow> bool" where
  "key_ok k \<longleftrightarrow> 2 + unat (k ! 0) \<le> length k \<and> unat (k ! 0) < 62"

lemma key_wf_ok [simp]: "key_wf k \<Longrightarrow> key_ok k"
  by (simp add: key_wf_def key_ok_def)

lemma key_ok_len: "key_ok k \<Longrightarrow> length (key_elems k) = unat (k ! 0)"
  by (auto simp: key_ok_def key_elems_def)

lemmas key_wf_len = key_ok_len [OF key_wf_ok]

lemma key_get_len [simp]: "key_ok k \<Longrightarrow> cps_api_key_get_len k = Some (length (key_elems k))"
  by (auto simp: cps_api_key_get_len_def cps_api_key_elem_raw_get_def key_layout key_ok_def
      key_elems_def)

lemma key_get_len_in_bytes [simp]:
  "key_ok k \<Longrightarrow> cps_api_key_get_len_in_bytes k = Some (4 * length (key_elems k))"
  by (auto simp: cps_api_key_get_len_in_bytes_def cps_api_key_elem_raw_get_def key_layout
      key_ok_def key_elems_def)

lemma key_elems_le: "key_ok k \<Longrightarrow> length (key_elems k) < 62"
  by (simp add: key_ok_len) (simp add: key_ok_def)

lemma key_elem_start_take:
  "key_ok k \<Longrightarrow> take (length (key_elems k)) (cps_api_key_elem_start k) = key_elems k"
  by (simp add: cps_api_key_elem_start_def key_layout key_ok_len) (simp add: key_elems_def
      numeral_2_eq_2)

lemma length_elem_start: "key_ok k \<Longrightarrow> length (key_elems k) \<le> length (cps_api_key_elem_start k)"
  by (auto simp: cps_api_key_elem_start_def key_layout key_ok_len) (auto simp: key_ok_def)

lemma unat_of_nat_u32: "n < 4294967296 \<Longrightarrow> unat (of_nat n :: u32) = n"
  by (simp add: unat_of_nat)

text \<open>Setting the length keeps the array and exposes that many elements.\<close>

lemma key_set_len:
  assumes "length k = 64" and "n < 62"
  obtains k' where "cps_api_key_set_len k n = Some k'" and "key_wf k'"
    and "key_elems k' = take n (drop 2 k)" and "k' ! 1 = k ! 1" and "drop 1 k' = drop 1 k"
proof
  let ?k = "k[0 := of_nat n]"
  show "cps_api_key_set_len k n = Some ?k"
    using assms by (simp add: cps_api_key_set_len_def cps_api_key_elem_raw_set_def key_layout)
  show "key_wf ?k" using assms by (simp add: key_wf_def unat_of_nat_u32)
  show "key_elems ?k = take n (drop 2 k)"
    using assms by (simp add: key_elems_def unat_of_nat_u32)
  show "?k ! 1 = k ! 1" and "drop 1 ?k = drop 1 k" using assms by simp_all
qed

lemma key_set_len_abort: "62 \<le> n \<Longrightarrow> cps_api_key_set_len k n = None"
  by (simp add: cps_api_key_set_len_def key_layout)

lemma key_set_elem:
  assumes "key_wf k" and "i < length (key_elems k)"
  obtains k' where "cps_api_key_set k i v = Some k'" and "key_wf k'"
    and "key_elems k' = (key_elems k)[i := v]" and "k' ! 1 = k ! 1"
proof
  let ?k = "k[i + 2 := v]"
  have i: "i < 62" using assms key_elems_le [OF key_wf_ok [OF assms(1)]] by simp
  then show "cps_api_key_set k i v = Some ?k"
    using assms by (simp add: cps_api_key_set_def cps_api_key_elem_raw_set_def key_layout key_wf_def)
  show "key_wf ?k" using assms by (simp add: key_wf_def)
  show "key_elems ?k = (key_elems k)[i := v]"
    by (simp add: key_elems_def drop_update_swap take_update_swap)
  show "?k ! 1 = k ! 1" by simp
qed

lemma key_element_at:
  "key_wf k \<Longrightarrow> i < length (key_elems k) \<Longrightarrow> cps_api_key_element_at k i = Some (key_elems k ! i)"
  by (auto simp: cps_api_key_element_at_def cps_api_key_elem_raw_get_def key_layout key_wf_def
      key_elems_def)

section \<open>Insertion and removal\<close>

lemma take_append_exact: "length xs = n \<Longrightarrow> take n (xs @ ys) = xs"
  by simp

lemma list_insert_by_shift:
  assumes "ix \<le> n" and "n < length xs"
  shows "(take (Suc n) (take (Suc ix) xs @ take (n - ix) (drop ix xs) @ zs))[ix := e] =
     take ix (take n xs) @ e # drop ix (take n xs)"
proof -
  have cut: "take (Suc n) (take (Suc ix) xs @ take (n - ix) (drop ix xs) @ zs) =
      take (Suc ix) xs @ take (n - ix) (drop ix xs)"
    unfolding append_assoc [symmetric] by (rule take_append_exact) (use assms in simp)
  have split: "take (Suc ix) xs = take ix xs @ [xs ! ix]"
    using assms by (simp add: take_Suc_conv_app_nth)
  show ?thesis unfolding cut unfolding split
    using assms by (simp add: list_update_append drop_take min_def)
qed

lemma list_remove_by_shift:
  assumes "ix < n" and "n \<le> length xs"
  shows "take (n - 1) (take ix xs @ take (n - 1 - ix) (drop (Suc ix) xs) @ zs) =
     take ix (take n xs) @ drop (Suc ix) (take n xs)"
proof -
  have cut: "take (n - 1) (take ix xs @ take (n - 1 - ix) (drop (Suc ix) xs) @ zs) =
      take ix xs @ take (n - 1 - ix) (drop (Suc ix) xs)"
    unfolding append_assoc [symmetric] by (rule take_append_exact) (use assms in simp)
  show ?thesis unfolding cut using assms by (simp add: drop_take min_def)
qed

text \<open>Insertion with room left and at a position inside the key.\<close>

lemma key_insert_element_spec:
  assumes "key_wf k" and "length (key_elems k) < 61" and "ix \<le> length (key_elems k)"
  shows "\<exists>k'. cps_api_key_insert_element k ix e = Some (True, k') \<and> key_wf k' \<and>
     key_elems k' = take ix (key_elems k) @ e # drop ix (key_elems k) \<and> k' ! 1 = k ! 1"
proof -
  let ?n = "length (key_elems k)"
  have k64: "length k = 64" and key_elems_take: "take ?n (drop 2 k) = key_elems k"
    using assms(1) by (simp_all add: key_wf_def key_elems_def)
  define m where "m = take (3 + ix) k @ take (?n - ix) (drop (2 + ix) k) @ drop (3 + ?n) k"
  have mv: "memmove k (2 + ix + 1) (2 + ix) (?n - ix) = Some m"
    using assms k64 by (simp add: memmove_eq_Some m_def eval_nat_numeral)
  have m64: "length m = 64" using mv k64 by (simp add: memmove_length)
  obtain k1 where k1: "cps_api_key_set_len m (?n + 1) = Some k1" "key_wf k1"
    "key_elems k1 = take (?n + 1) (drop 2 m)" "k1 ! 1 = m ! 1"
    using key_set_len [OF m64, of "?n + 1"] assms(2) by auto
  have l1: "length (key_elems k1) = ?n + 1" using k1(3) m64 assms(2) by simp
  obtain k2 where k2: "cps_api_key_set k1 ix e = Some k2" "key_wf k2"
    "key_elems k2 = (key_elems k1)[ix := e]" "k2 ! 1 = k1 ! 1"
    using key_set_elem [OF k1(2), of ix e] l1 assms(3) by auto
  have m1: "m ! 1 = k ! 1" using k64 by (simp add: m_def nth_append)
  have dr: "drop 2 m =
      take (Suc ix) (drop 2 k) @ take (?n - ix) (drop ix (drop 2 k)) @ drop (3 + ?n) k"
    using k64 assms by (simp add: m_def drop_take eval_nat_numeral)
  have "(key_elems k1)[ix := e] = take ix (key_elems k) @ e # drop ix (key_elems k)"
    using list_insert_by_shift [of ix ?n "drop 2 k" "drop (3 + ?n) k" e] k64 assms(2,3)
    unfolding k1(3) dr by (simp add: key_elems_take)
  then show ?thesis
    using assms mv k1 k2 m1
    by (simp add: cps_api_key_insert_element_def key_layout Let_def not_le not_less)
qed

text \<open>Removal at a position inside the key.\<close>

lemma key_remove_element_spec:
  assumes "key_wf k" and "ix < length (key_elems k)"
  shows "\<exists>k'. cps_api_key_remove_element k ix = Some k' \<and> key_wf k' \<and>
     key_elems k' = take ix (key_elems k) @ drop (Suc ix) (key_elems k) \<and> k' ! 1 = k ! 1"
proof -
  let ?n = "length (key_elems k)"
  have k64: "length k = 64" and key_elems_take: "take ?n (drop 2 k) = key_elems k"
    using assms(1) by (simp_all add: key_wf_def key_elems_def)
  have n: "?n < 62" using assms(1) by (simp add: key_elems_le)
  define m where
    "m = take (2 + ix) k @ take (?n - 1 - ix) (drop (3 + ix) k) @ drop (2 + ix + (?n - 1 - ix)) k"
  have mv: "memmove k (2 + ix) (3 + ix) (?n - 1 - ix) = Some m"
    using assms(2) k64 n by (simp add: memmove_eq_Some m_def)
  have m64: "length m = 64" using mv k64 by (simp add: memmove_length)
  obtain k1 where k1: "cps_api_key_set_len m (?n - 1) = Some k1" "key_wf k1"
    "key_elems k1 = take (?n - 1) (drop 2 m)" "k1 ! 1 = m ! 1"
    by (rule key_set_len [OF m64, of "?n - 1"]) (use n in auto)
  have m1: "m ! 1 = k ! 1" using k64 by (simp add: m_def nth_append)
  have dr: "drop 2 m = take ix (drop 2 k) @ take (?n - 1 - ix) (drop (Suc ix) (drop 2 k))
      @ drop (2 + ix + (?n - 1 - ix)) k"
    using k64 assms n by (simp add: m_def drop_take eval_nat_numeral)
  have "key_elems k1 = take ix (key_elems k) @ drop (Suc ix) (key_elems k)"
    using list_remove_by_shift [of ix ?n "drop 2 k"] k64 assms(2) n
    unfolding k1(3) dr by (simp add: key_elems_take)
  then show ?thesis
    using assms mv k1 m1
    by (simp add: cps_api_key_remove_element_def key_layout Let_def eval_nat_numeral)
qed

lemma key_insert_element_full:
  "key_wf k \<Longrightarrow> length (key_elems k) \<ge> 61 \<or> ix > length (key_elems k) \<Longrightarrow>
   cps_api_key_insert_element k ix e = Some (False, k)"
  by (auto simp: cps_api_key_insert_element_def key_layout Let_def)

text \<open>
  \<open>cps_api_key_insert_element\<close> on a well-formed key always returns, and returns true
  exactly when the key has fewer than 61 elements and the position is inside the key or at its
  end. Then the elements are the old ones with the new one at that position, the key stays
  well-formed and the operation attribute is kept; otherwise the key is unchanged.
\<close>

theorem key_insert_element_correct:
  assumes "key_wf k"
  shows "\<exists>r k'. cps_api_key_insert_element k ix e = Some (r, k') \<and> key_wf k' \<and>
     (r \<longleftrightarrow> length (key_elems k) < 61 \<and> ix \<le> length (key_elems k)) \<and>
     (if r then key_elems k' = take ix (key_elems k) @ e # drop ix (key_elems k) \<and> k' ! 1 = k ! 1
      else k' = k)"
proof (cases "length (key_elems k) < 61 \<and> ix \<le> length (key_elems k)")
  case True
  then show ?thesis using key_insert_element_spec [OF assms, of ix e] by auto
next
  case False
  then show ?thesis using key_insert_element_full [OF assms, of ix e] assms by auto
qed

theorem key_insert_element_correct_witness:
  "\<exists>r k'. cps_api_key_insert_element ([2, 0, 7, 9] @ replicate 60 0) 1 8 = Some (r, k') \<and>
     key_wf k' \<and> r \<and> key_elems k' = [7, 8, 9]"
proof -
  have wf: "key_wf ([2, 0, 7, 9] @ replicate 60 0)" by (simp add: key_wf_def)
  from key_insert_element_correct [OF wf, of 1 8] show ?thesis
    by (auto simp: key_elems_def split: if_splits)
qed

text \<open>
  Removing the element that a successful \<open>cps_api_key_insert_element\<close> put into a
  well-formed key gives back a well-formed key with the elements it had before.
\<close>

theorem key_insert_remove_roundtrip:
  assumes "key_wf k" and "cps_api_key_insert_element k ix e = Some (True, k')"
  shows "\<exists>k''. cps_api_key_remove_element k' ix = Some k'' \<and> key_wf k'' \<and>
     key_elems k'' = key_elems k"
proof -
  have fits: "length (key_elems k) < 61" "ix \<le> length (key_elems k)"
    using assms
    by (auto simp: cps_api_key_insert_element_def key_layout Let_def not_le not_less split: if_splits)
  obtain k2 where k2: "key_wf k'" "key_elems k' = take ix (key_elems k) @ e # drop ix (key_elems k)"
    using key_insert_element_spec [OF assms(1) fits, of e] assms(2) by auto
  have "ix < length (key_elems k')" using fits k2(2) by simp
  from key_remove_element_spec [OF k2(1) this] show ?thesis
    using fits by (auto simp: k2(2))
qed

theorem key_insert_remove_roundtrip_witness:
  "\<exists>k''. cps_api_key_remove_element ([3, 0, 7, 8, 9] @ replicate 59 0) 1 = Some k'' \<and> key_wf k'' \<and>
     key_elems k'' = [7, 9]"
proof -
  have wf: "key_wf ([2, 0, 7, 9] @ replicate 60 0)" by (simp add: key_wf_def)
  have ins: "cps_api_key_insert_element ([2, 0, 7, 9] @ replicate 60 0) 1 8 =
      Some (True, [3, 0, 7, 8, 9] @ replicate 59 0)"
    by code_simp
  from key_insert_remove_roundtrip [OF wf ins] show ?thesis by (simp add: key_elems_def)
qed

section \<open>Matching is equality or the prefix order of elements\<close>

lemma memcmp_elems_zero:
  assumes "n \<le> length xs" and "n \<le> length ys"
  shows "memcmp (concat (map u32_bytes xs)) (concat (map u32_bytes ys)) (4 * n) = 0
     \<longleftrightarrow> take n xs = take n ys"
proof -
  have len: "length (concat (map u32_bytes zs)) = 4 * length zs" for zs
    by (rule concat_const_length) simp
  have "memcmp (concat (map u32_bytes xs)) (concat (map u32_bytes ys)) (4 * n) = 0 \<longleftrightarrow>
      concat (map u32_bytes (take n xs)) = concat (map u32_bytes (take n ys))"
    using assms by (simp add: memcmp_zero_iff len take_concat_map)
  also have "\<dots> \<longleftrightarrow> take n xs = take n ys"
    by (rule concat_map_inj [where n = 4]) (use assms u32_bytes_inj in auto)
  finally show ?thesis .
qed

lemma to_int32_diff_nonzero:
  assumes "a < 2 ^ 31" and "b < 2 ^ 31" and "a \<noteq> b"
  shows "to_int32 (sz_sub a b) \<noteq> 0"
proof -
  have "sz_sub a b mod 2 ^ 32 \<noteq> 0"
  proof (cases "b \<le> a")
    case True
    with assms show ?thesis by (simp add: sz_sub_exact size_lim_def)
  next
    case False
    then have "sz_sub a b = 2 ^ 64 - (b - a)"
      using assms by (simp add: sz_sub_def size_lim_def)
    moreover have "(2 ^ 64 - (b - a)) mod 2 ^ 32 = 2 ^ 32 - (b - a)"
      using assms False by (intro mod_nat_eqI) (auto simp: dvd_def intro: exI [of _ "2 ^ 32 - 1"])
    ultimately show ?thesis using assms False by simp
  qed
  then show ?thesis by (auto simp: to_int32_def Let_def)
qed

lemma key_array_matches:
  assumes "n \<le> length xs" and "m \<le> length ys" and "n < 2 ^ 28" and "m < 2 ^ 28"
  shows "\<exists>r. cps_api_key_array_matches xs n ys m exact = Some r \<and>
     (r = 0 \<longleftrightarrow> (if exact then take n xs = take m ys else m \<le> n \<and> take m xs = take m ys))"
proof -
  let ?k = "min n m"
  let ?res = "memcmp (concat (map u32_bytes xs)) (concat (map u32_bytes ys)) (4 * ?k)"
  have small: "4 * ?k < 2 ^ 31" "4 * n < 2 ^ 31" "4 * m < 2 ^ 31" using assms(3,4) by simp_all
  have len: "to_int32 (if n * 4 > m * 4 then m * 4 else n * 4) = int (4 * ?k)"
    using to_int32_small [OF small(1)] by (auto simp: min_def mult.commute split: if_splits)
  have res: "?res = 0 \<longleftrightarrow> take ?k xs = take ?k ys"
    using assms(1,2) by (intro memcmp_elems_zero) auto
  have ne: "n \<noteq> m \<Longrightarrow> to_int32 (sz_sub (n * 4) (m * 4)) \<noteq> 0"
    using to_int32_diff_nonzero [of "n * 4" "m * 4"] small by (simp add: mult.commute)
  have bound: "4 * ?k \<le> 4 * length xs" "4 * ?k \<le> 4 * length ys" using assms(1,2) by auto
  have eq: "take n xs = take m ys \<longleftrightarrow> n = m \<and> take n xs = take n ys"
    using assms(1,2) by (metis length_take min.absorb2)
  show ?thesis
    unfolding cps_api_key_array_matches_def Let_def len nat_int
    using res ne bound eq by (auto simp: min_def split: if_splits)
qed

lemma key_matches_sem:
  assumes "key_ok k" and "key_ok c"
  shows "\<exists>r. cps_api_key_matches k c exact = Some r \<and>
     (r = 0 \<longleftrightarrow> (if exact then key_elems k = key_elems c
                 else take (length (key_elems c)) (key_elems k) = key_elems c))"
proof -
  let ?n = "length (key_elems k)" and ?m = "length (key_elems c)"
  have b: "?n \<le> length (cps_api_key_elem_start k)" "?m \<le> length (cps_api_key_elem_start c)"
    "?n < 2 ^ 28" "?m < 2 ^ 28"
    using length_elem_start key_elems_le assms by fastforce+
  have pre: "?m \<le> ?n \<and> take ?m (cps_api_key_elem_start k) = key_elems c \<longleftrightarrow>
      take ?m (key_elems k) = key_elems c"
  proof (cases "?m \<le> ?n")
    case True
    then have "take ?m (key_elems k) = take ?m (cps_api_key_elem_start k)"
      using key_elem_start_take [OF assms(1)] by (metis min.absorb1 take_take)
    with True show ?thesis by simp
  next
    case False
    then show ?thesis by (metis length_take min.cobounded1 nat_le_linear take_all)
  qed
  note st = key_elem_start_take [OF assms(1)] key_elem_start_take [OF assms(2)]
  from key_array_matches [OF b, of exact] show ?thesis
    unfolding st pre by (simp add: cps_api_key_matches_def assms)
qed

section \<open>The hash depends on the elements only\<close>

lemma key_hash:
  "key_ok k \<Longrightarrow> cps_api_key_hash h k = Some (cps_api_hash_array_loop h 0 (key_elems k))"
  by (simp add: cps_api_key_hash_def cps_api_hash_array_def key_elem_start_take length_elem_start
      less_imp_le key_elems_le)



section \<open>Building keys\<close>

lemma key_store_elems:
  "dest + length es \<le> length key \<Longrightarrow>
   key_store_elems key dest es =
     Some (take dest key @ map ucast es @ drop (dest + length es) key)"
proof (induction es arbitrary: key dest)
  case (Cons e es)
  then have "key_store_elems key dest (e # es) =
      Some (take (Suc dest) (key[dest := ucast e]) @ map ucast es @
        drop (Suc dest + length es) (key[dest := ucast e]))"
    by simp
  with Cons.prems show ?case by (simp add: take_Suc_conv_app_nth)
qed simp

text \<open>Filling a key from attribute ids: the ids follow the reserved front positions.\<close>

lemma key_init_from_attr_array:
  assumes "length k = 64" and "length ids + offset < 62"
  obtains k' where "cps_api_key_init_from_attr_array k ids offset = Some k'" and "key_wf k'"
    and "key_elems k' = take offset (drop 2 k) @ map ucast ids" and "k' ! 1 = k ! 1"
proof -
  let ?m = "take (2 + offset) k @ map ucast ids @ drop (2 + offset + length ids) k"
  have st: "key_store_elems k (2 + offset) ids = Some ?m"
    using assms by (intro key_store_elems) simp
  have m64: "length ?m = 64" using assms by simp
  obtain k' where k': "cps_api_key_set_len ?m (length ids + offset) = Some k'" "key_wf k'"
    "key_elems k' = take (length ids + offset) (drop 2 ?m)" "k' ! 1 = ?m ! 1"
    by (rule key_set_len [OF m64 assms(2)])
  have "drop 2 ?m = (take offset (drop 2 k) @ map ucast ids) @ drop (2 + offset + length ids) k"
    using assms by (simp add: drop_take)
  then have "key_elems k' = take offset (drop 2 k) @ map ucast ids"
    unfolding k'(3) using assms by (simp only:) (rule take_append_exact, simp)
  moreover have "?m ! 1 = k ! 1" using assms by (simp add: nth_append)
  ultimately show ?thesis
    using that k' st by (simp add: cps_api_key_init_from_attr_array_def key_layout)
qed

lemma key_copy:
  assumes "key_ok src" and "length dest = 64"
  obtains k where "cps_api_key_copy dest src = Some k" and "key_wf k"
    and "key_elems k = key_elems src" and "k ! 1 = src ! 1"
proof -
  let ?n = "unat (src ! 0)"
  let ?k = "take (?n + 2) src @ drop (?n + 2) dest"
  have s: "?n + 2 \<le> length src" "?n < 62" using assms(1) by (simp_all add: key_ok_def)
  have "cps_api_key_copy dest src = Some ?k"
    using assms s by (simp add: cps_api_key_copy_def key_layout memcpy_def Let_def key_ok_len)
  moreover have h: "?k ! 0 = src ! 0" "?k ! 1 = src ! 1" using s by (simp_all add: nth_append)
  moreover have "key_wf ?k" using s assms(2) h by (simp add: key_wf_def)
  moreover have "key_elems ?k = key_elems src"
    using s by (simp add: key_elems_def h drop_take nth_append)
  ultimately show ?thesis using that by blast
qed

text \<open>
  \<open>cps_api_key_copy\<close> of a readable key gives, over any previous contents of the
  destination, a well-formed key with the same elements, the same operation attribute, and the
  same hash, that matches the source exactly.
\<close>

theorem key_copy_correct:
  assumes "key_ok src" and "length dest = 64"
  shows "\<exists>k. cps_api_key_copy dest src = Some k \<and> key_wf k \<and> key_elems k = key_elems src \<and>
     cps_api_object_type_operation k = cps_api_object_type_operation src \<and>
     cps_api_key_hash h k = cps_api_key_hash h src \<and> cps_api_key_matches k src True = Some 0"
proof -
  obtain k where k: "cps_api_key_copy dest src = Some k" "key_wf k" "key_elems k = key_elems src"
    "k ! 1 = src ! 1"
    by (rule key_copy [OF assms])
  have "cps_api_key_matches k src True = Some 0"
    using key_matches_sem [OF key_wf_ok [OF k(2)] assms(1), of True] k(3) by auto
  moreover have "cps_api_object_type_operation k = cps_api_object_type_operation src"
    using k(2,4) assms(1)
    by (simp add: cps_api_object_type_operation_def cps_api_key_get_attr_def key_layout
        cps_api_key_elem_raw_get_def key_wf_def key_ok_def)
  ultimately show ?thesis using k assms by (simp add: key_hash)
qed

theorem key_copy_correct_witness:
  "\<exists>k. cps_api_key_copy (replicate 64 5) ([2, 3, 7, 9] @ replicate 60 0) = Some k \<and>
     key_elems k = [7, 9]"
proof -
  have "key_ok ([2, 3, 7, 9] @ replicate 60 0)" by (simp add: key_ok_def)
  from key_copy_correct [OF this, of "replicate 64 5"] show ?thesis
    by (auto simp: key_elems_def)
qed

end
