(* ===== verification/Cps_Key_Cache.thy ===== *)
theory Cps_Key_Cache
  imports Cps_Key
begin

text \<open>
  The template \<open>cps_api_key_cache<data_type>\<close> of \<^verbatim>\<open>inc/opx/private/cps_api_key_cache.h\<close>: a hash map
  from the hash of a key to the vector of the entries whose keys have that hash.

  The cache is modelled as the list of its buckets in iteration order. The theory shows that,
  whatever the hash function, the cache is a map from element lists to data in which the entry
  inserted first wins, and that the inexact search finds the longest stored prefix. Clients use
  the cache through the locale \<open>key_store\<close>.
\<close>

section \<open>Data\<close>

record 'd field_entry =
  fe_key :: cps_api_key_t
  fe_allocated :: bool
  fe_data :: 'd

type_synonym 'd bucket = "'d field_entry list"
type_synonym 'd cache = "(u64 \<times> 'd bucket) list"

text \<open>\<open>std::unordered_map\<close>: lookup, and replacement of the value of a key (appended when new).\<close>

definition umap_find :: "('k \<times> 'v) list \<Rightarrow> 'k \<Rightarrow> 'v option" where
  "umap_find m k = map_of m k"

fun umap_set :: "('k \<times> 'v) list \<Rightarrow> 'k \<Rightarrow> 'v \<Rightarrow> ('k \<times> 'v) list" where
  "umap_set [] k v = [(k, v)]"
| "umap_set ((a, b) # m) k v = (if a = k then (a, v) # m else (a, b) # umap_set m k v)"

lemma umap_find_set [simp]: "umap_find (umap_set m k v) j = (if j = k then Some v else umap_find m j)"
  by (induction m k v rule: umap_set.induct) (auto simp: umap_find_def)

lemma set_umap_set: "set (map fst (umap_set m k v)) = insert k (set (map fst m))"
  by (induction m k v rule: umap_set.induct) auto

lemma distinct_umap_set: "distinct (map fst m) \<Longrightarrow> distinct (map fst (umap_set m k v))"
proof (induction m k v rule: umap_set.induct)
  case (2 a b m k v)
  then show ?case using set_umap_set [of m k v] by auto
qed simp

section \<open>Operations\<close>

text \<open>The search loop over a bucket, for a key given as an array and a length.\<close>

fun find_in_bucket_array :: "'d bucket \<Rightarrow> nat \<Rightarrow> u32 list \<Rightarrow> nat \<Rightarrow> nat option option" where
  "find_in_bucket_array [] ix key len = Some None"
| "find_in_bucket_array (e # es) ix key len = do {
     src_len \<leftarrow> cps_api_key_get_len (fe_key e);
     r \<leftarrow> cps_api_key_array_matches (cps_api_key_elem_start (fe_key e)) src_len key len True;
     if r = 0 then Some (Some ix) else find_in_bucket_array es (Suc ix) key len
   }"

text \<open>
  \<open>find_entry\<close> on an array. The result names the bucket by its hash and the position in it.
  The last parameter of the C++ function is not used there and is left out.
\<close>

definition find_entry_array ::
  "(u64 \<Rightarrow> u64) \<Rightarrow> 'd cache \<Rightarrow> u32 list \<Rightarrow> nat \<Rightarrow> (u64 \<times> nat) option option" where
  "find_entry_array h c key len = do {
     hash \<leftarrow> cps_api_hash_array h key len;
     (case umap_find c hash of
        None \<Rightarrow> Some None
      | Some v \<Rightarrow> map_option (map_option (\<lambda>ix. (hash, ix))) (find_in_bucket_array v 0 key len))
   }"

fun find_in_bucket :: "'d bucket \<Rightarrow> nat \<Rightarrow> cps_api_key_t \<Rightarrow> nat option option" where
  "find_in_bucket [] ix key = Some None"
| "find_in_bucket (e # es) ix key = do {
     r \<leftarrow> cps_api_key_matches (fe_key e) key True;
     if r = 0 then Some (Some ix) else find_in_bucket es (Suc ix) key
   }"

text \<open>
  \<open>find_entry\<close> with a key length: a positive length searches for that prefix of the key, taken in
  a local copy. The part of the local array the copy does not write is never read.
\<close>

definition find_entry_len ::
  "(u64 \<Rightarrow> u64) \<Rightarrow> 'd cache \<Rightarrow> cps_api_key_t \<Rightarrow> nat \<Rightarrow> (u64 \<times> nat) option option" where
  "find_entry_len h c key key_len = do {
     key \<leftarrow> (if key_len > 0 then do {
               k \<leftarrow> cps_api_key_copy (replicate 64 0) key;
               cps_api_key_set_len k key_len
             } else Some key);
     hash \<leftarrow> cps_api_key_hash h key;
     (case umap_find c hash of
        None \<Rightarrow> Some None
      | Some v \<Rightarrow> map_option (map_option (\<lambda>ix. (hash, ix))) (find_in_bucket v 0 key))
   }"

fun find_entry_prefix ::
  "(u64 \<Rightarrow> u64) \<Rightarrow> 'd cache \<Rightarrow> cps_api_key_t \<Rightarrow> nat \<Rightarrow> (u64 \<times> nat) option option" where
  "find_entry_prefix h c key 0 = Some None"
| "find_entry_prefix h c key (Suc key_len) = do {
     r \<leftarrow> find_entry_len h c key (Suc key_len);
     (case r of Some p \<Rightarrow> Some (Some p) | None \<Rightarrow> find_entry_prefix h c key key_len)
   }"

definition find_entry ::
  "(u64 \<Rightarrow> u64) \<Rightarrow> 'd cache \<Rightarrow> cps_api_key_t \<Rightarrow> bool \<Rightarrow> (u64 \<times> nat) option option" where
  "find_entry h c key exact =
     (if exact then find_entry_len h c key 0
      else do {
        key_len \<leftarrow> cps_api_key_get_len key;
        find_entry_prefix h c key key_len
      })"

text \<open>
  \<open>insert\<close>. \<open>mem_ok\<close> says whether the allocation of the entry's key succeeds; the entry keeps
  the used part of the key when it is allocated, and the caller's array otherwise.
\<close>

definition cache_insert ::
  "(u64 \<Rightarrow> u64) \<Rightarrow> bool \<Rightarrow> 'd cache \<Rightarrow> cps_api_key_t \<Rightarrow> 'd \<Rightarrow> bool \<Rightarrow> (bool \<times> 'd cache) option" where
  "cache_insert h mem_ok c key dt alloc = do {
     hash \<leftarrow> cps_api_key_hash h key;
     b \<leftarrow> cps_api_key_get_len_in_bytes key;
     let n = (b + CPS_OBJ_KEY_HEADER_SIZE) div CPS_OBJ_KEY_ELEM_SIZE;
     let v = (case umap_find c hash of None \<Rightarrow> [] | Some v \<Rightarrow> v);
     if alloc then
       if \<not> mem_ok then Some (False, c)
       else if n \<le> length key then
         Some (True, umap_set c hash
           (v @ [\<lparr>fe_key = take n key, fe_allocated = True, fe_data = dt\<rparr>]))
       else None
     else Some (True, umap_set c hash (v @ [\<lparr>fe_key = key, fe_allocated = False, fe_data = dt\<rparr>]))
   }"

definition list_erase :: "'a list \<Rightarrow> nat \<Rightarrow> 'a list" where
  "list_erase xs i = take i xs @ drop (Suc i) xs"

definition cache_erase ::
  "(u64 \<Rightarrow> u64) \<Rightarrow> 'd cache \<Rightarrow> cps_api_key_t \<Rightarrow> 'd cache option" where
  "cache_erase h c key = do {
     r \<leftarrow> find_entry h c key True;
     (case r of
        None \<Rightarrow> Some c
      | Some (hash, ix) \<Rightarrow>
          (case umap_find c hash of
             None \<Rightarrow> None
           | Some v \<Rightarrow> Some (umap_set c hash (list_erase v ix))))
   }"

definition entry_data :: "'d cache \<Rightarrow> (u64 \<times> nat) option \<Rightarrow> 'd option option" where
  "entry_data c r =
     (case r of
        None \<Rightarrow> Some None
      | Some (hash, ix) \<Rightarrow>
          (case umap_find c hash of
             None \<Rightarrow> None
           | Some v \<Rightarrow> if ix < length v then Some (Some (fe_data (v ! ix))) else None))"

definition cache_find ::
  "(u64 \<Rightarrow> u64) \<Rightarrow> 'd cache \<Rightarrow> cps_api_key_t \<Rightarrow> bool \<Rightarrow> 'd option option" where
  "cache_find h c key exact = do {
     r \<leftarrow> find_entry h c key exact;
     entry_data c r
   }"

definition cache_find_array ::
  "(u64 \<Rightarrow> u64) \<Rightarrow> 'd cache \<Rightarrow> u32 list \<Rightarrow> nat \<Rightarrow> 'd option option" where
  "cache_find_array h c key len = do {
     r \<leftarrow> find_entry_array h c key len;
     entry_data c r
   }"

text \<open>\<open>at\<close> returns a pointer to the entry's data; a write through it is \<open>cache_at_update\<close>.\<close>

definition cache_at ::
  "(u64 \<Rightarrow> u64) \<Rightarrow> 'd cache \<Rightarrow> cps_api_key_t \<Rightarrow> bool \<Rightarrow> (u64 \<times> nat) option option" where
  "cache_at h c key exact = find_entry h c key exact"

definition cache_at_update :: "'d cache \<Rightarrow> u64 \<times> nat \<Rightarrow> ('d \<Rightarrow> 'd) \<Rightarrow> 'd cache option" where
  "cache_at_update c p f =
     (case umap_find c (fst p) of
        None \<Rightarrow> None
      | Some v \<Rightarrow>
          if snd p < length v
          then Some (umap_set c (fst p) (v[snd p := (v ! snd p)\<lparr>fe_data := f (fe_data (v ! snd p))\<rparr>]))
          else None)"

text \<open>
  \<open>walk\<close>: the callback sees each bucket and may change it; a bucket the callback refuses or leaves
  empty is erased, and the iteration starts again from the beginning.
\<close>

function cache_walk ::
  "('d bucket \<Rightarrow> 's \<Rightarrow> bool \<times> 'd bucket \<times> 's) \<Rightarrow> 's \<Rightarrow> 'd cache \<Rightarrow> 'd cache \<Rightarrow> 'd cache \<times> 's" where
  "cache_walk cb s seen [] = (seen, s)"
| "cache_walk cb s seen ((hash, v) # rest) =
     (case cb v s of (res, v', s') \<Rightarrow>
        if \<not> res \<or> v' = [] then cache_walk cb s' [] (seen @ rest)
        else cache_walk cb s' (seen @ [(hash, v')]) rest)"
  by pat_completeness auto
termination
  by (relation "measures [\<lambda>(cb, s, seen, rest). length seen + length rest,
        \<lambda>(cb, s, seen, rest). length rest]") auto

section \<open>The cache as a map from element lists\<close>

abbreviation elems_hash :: "(u64 \<Rightarrow> u64) \<Rightarrow> u32 list \<Rightarrow> u64" where
  "elems_hash h es \<equiv> cps_api_hash_array_loop h 0 es"

definition bucket_inv :: "(u64 \<Rightarrow> u64) \<Rightarrow> u64 \<Rightarrow> 'd bucket \<Rightarrow> bool" where
  "bucket_inv h hv v \<longleftrightarrow>
     (\<forall>e \<in> set v. key_ok (fe_key e) \<and> elems_hash h (key_elems (fe_key e)) = hv)"

definition cache_inv :: "(u64 \<Rightarrow> u64) \<Rightarrow> 'd cache \<Rightarrow> bool" where
  "cache_inv h c \<longleftrightarrow> distinct (map fst c) \<and> (\<forall>hv v. umap_find c hv = Some v \<longrightarrow> bucket_inv h hv v)"

definition bucket_map :: "'d bucket \<Rightarrow> u32 list \<Rightarrow> 'd option" where
  "bucket_map v es = map_option fe_data (find (\<lambda>e. key_elems (fe_key e) = es) v)"

definition cache_map :: "(u64 \<Rightarrow> u64) \<Rightarrow> 'd cache \<Rightarrow> u32 list \<Rightarrow> 'd option" where
  "cache_map h c es =
     (case umap_find c (elems_hash h es) of None \<Rightarrow> None | Some v \<Rightarrow> bucket_map v es)"

lemma cache_inv_empty [simp]: "cache_inv h []"
  by (simp add: cache_inv_def umap_find_def)

lemma cache_map_empty [simp]: "cache_map h [] = Map.empty"
  by (simp add: cache_map_def umap_find_def fun_eq_iff)

lemma cache_inv_set:
  "cache_inv h c \<Longrightarrow> bucket_inv h hv v \<Longrightarrow> cache_inv h (umap_set c hv v)"
  by (auto simp: cache_inv_def distinct_umap_set)

text \<open>The two search loops find the first entry whose elements are the wanted ones.\<close>

definition found_at :: "'d bucket \<Rightarrow> nat \<Rightarrow> u32 list \<Rightarrow> nat option \<Rightarrow> bool" where
  "found_at v i es r \<longleftrightarrow>
     (case r of
        None \<Rightarrow> bucket_map v es = None
      | Some j \<Rightarrow> i \<le> j \<and> j - i < length v \<and> key_elems (fe_key (v ! (j - i))) = es \<and>
          bucket_map v es = Some (fe_data (v ! (j - i))) \<and>
          (\<forall>l < j - i. key_elems (fe_key (v ! l)) \<noteq> es))"

lemma found_at_Cons_other:
  assumes "key_elems (fe_key e) \<noteq> es" and "found_at v (Suc i) es r"
  shows "found_at (e # v) i es r"
proof (cases r)
  case None
  then show ?thesis using assms by (simp add: found_at_def bucket_map_def)
next
  case (Some j)
  then have j: "Suc i \<le> j" using assms(2) by (simp add: found_at_def)
  then have "j - i = Suc (j - Suc i)" by simp
  then show ?thesis using assms Some j
    by (auto simp: found_at_def bucket_map_def nth_Cons split: nat.splits)
qed

lemma find_in_bucket_found:
  assumes "\<forall>e \<in> set v. key_ok (fe_key e)" and "key_ok key"
  shows "\<exists>r. find_in_bucket v i key = Some r \<and> found_at v i (key_elems key) r"
  using assms(1)
proof (induction v arbitrary: i)
  case Nil
  then show ?case by (simp add: found_at_def bucket_map_def)
next
  case (Cons e v)
  obtain m where m: "cps_api_key_matches (fe_key e) key True = Some m"
    "m = 0 \<longleftrightarrow> key_elems (fe_key e) = key_elems key"
    using key_matches_sem [of "fe_key e" key True] Cons.prems assms(2) by auto
  obtain r where r: "find_in_bucket v (Suc i) key = Some r" "found_at v (Suc i) (key_elems key) r"
    using Cons by auto
  show ?case
  proof (cases "m = 0")
    case True
    then show ?thesis using m by (simp add: found_at_def bucket_map_def)
  next
    case False
    then show ?thesis using m r found_at_Cons_other [of e "key_elems key" v i r] by simp
  qed
qed

lemma find_in_bucket_array_found:
  assumes "\<forall>e \<in> set v. key_ok (fe_key e)" and "len \<le> length key" and "len < 2 ^ 28"
  shows "\<exists>r. find_in_bucket_array v i key len = Some r \<and> found_at v i (take len key) r"
  using assms(1)
proof (induction v arbitrary: i)
  case Nil
  then show ?case by (simp add: found_at_def bucket_map_def)
next
  case (Cons e v)
  let ?k = "fe_key e"
  have ok: "key_ok ?k" using Cons.prems by simp
  then have b: "length (key_elems ?k) < 2 ^ 28" using key_elems_le [of ?k] by simp
  obtain m where m: "cps_api_key_array_matches (cps_api_key_elem_start ?k) (length (key_elems ?k))
      key len True = Some m" "m = 0 \<longleftrightarrow> key_elems ?k = take len key"
    using key_array_matches [OF length_elem_start [OF ok] assms(2) b assms(3), of True]
    by (auto simp: key_elem_start_take ok)
  obtain r where r: "find_in_bucket_array v (Suc i) key len = Some r"
    "found_at v (Suc i) (take len key) r"
    using Cons by auto
  show ?case
  proof (cases "m = 0")
    case True
    then show ?thesis using m ok by (simp add: found_at_def bucket_map_def)
  next
    case False
    then show ?thesis using m r ok found_at_Cons_other [of e "take len key" v i r] by simp
  qed
qed

text \<open>What a completed search says about the cache.\<close>

definition entry_for :: "(u64 \<Rightarrow> u64) \<Rightarrow> 'd cache \<Rightarrow> u32 list \<Rightarrow> (u64 \<times> nat) option \<Rightarrow> bool" where
  "entry_for h c es r \<longleftrightarrow>
     (case r of
        None \<Rightarrow> cache_map h c es = None
      | Some (hv, ix) \<Rightarrow> hv = elems_hash h es \<and>
          (\<exists>v. umap_find c hv = Some v \<and> found_at v 0 es (Some ix)))"

lemma entry_for_data:
  "entry_for h c es r \<Longrightarrow> entry_data c r = Some (cache_map h c es)"
  by (auto simp: entry_for_def entry_data_def cache_map_def found_at_def split: option.splits)

lemma entry_for_bucket:
  assumes "hv = elems_hash h es"
    and "\<And>v. umap_find c hv = Some v \<Longrightarrow> \<exists>r. f v = Some r \<and> found_at v 0 es r"
  shows "\<exists>r. (case umap_find c hv of None \<Rightarrow> Some None
      | Some v \<Rightarrow> map_option (map_option (\<lambda>ix. (hv, ix))) (f v)) = Some r \<and> entry_for h c es r"
proof (cases "umap_find c hv")
  case None
  then show ?thesis using assms(1) by (simp add: entry_for_def cache_map_def)
next
  case (Some v)
  then obtain r where r: "f v = Some r" "found_at v 0 es r" using assms(2) by blast
  then show ?thesis using Some assms(1)
    by (cases r) (auto simp: entry_for_def cache_map_def found_at_def)
qed

lemma cache_inv_bucket_ok:
  "cache_inv h c \<Longrightarrow> umap_find c hv = Some v \<Longrightarrow> \<forall>e \<in> set v. key_ok (fe_key e)"
  by (auto simp: cache_inv_def bucket_inv_def)

lemma find_entry_exact:
  assumes "cache_inv h c" and "key_ok key"
  shows "\<exists>r. find_entry h c key True = Some r \<and> entry_for h c (key_elems key) r"
  using entry_for_bucket [of "elems_hash h (key_elems key)" h "key_elems key" c
      "\<lambda>v. find_in_bucket v 0 key"]
    find_in_bucket_found [OF cache_inv_bucket_ok [OF assms(1)] assms(2), of _ _ 0]
  by (simp add: find_entry_def find_entry_len_def key_hash [OF assms(2)])

lemma find_entry_array:
  assumes "cache_inv h c" and "len \<le> length key" and "len < 2 ^ 28"
  shows "\<exists>r. find_entry_array h c key len = Some r \<and> entry_for h c (take len key) r"
  using entry_for_bucket [of "elems_hash h (take len key)" h "take len key" c
      "\<lambda>v. find_in_bucket_array v 0 key len"]
    find_in_bucket_array_found [OF cache_inv_bucket_ok [OF assms(1)] assms(2,3), of _ _ 0]
  by (simp add: find_entry_array_def cps_api_hash_array_def assms(2))

lemma find_entry_len_prefix:
  assumes "cache_inv h c" and "key_ok key" and "0 < n" and "n \<le> length (key_elems key)"
  shows "\<exists>r. find_entry_len h c key n = Some r \<and> entry_for h c (take n (key_elems key)) r"
proof -
  obtain k where k: "cps_api_key_copy (replicate 64 0) key = Some k" "key_wf k"
    "key_elems k = key_elems key"
    by (rule key_copy [OF assms(2), of "replicate 64 0"]) auto
  have n: "n < 62" using assms(4) key_elems_le [OF assms(2)] by simp
  obtain k' where k': "cps_api_key_set_len k n = Some k'" "key_wf k'"
    "key_elems k' = take n (drop 2 k)"
    by (rule key_set_len [of k n]) (use k(2) n in \<open>auto simp: key_wf_def\<close>)
  have "n \<le> unat (k ! 0)" using assms(4) k(3) key_wf_len [OF k(2)] by simp
  then have "take n (drop 2 k) = take n (key_elems k)" unfolding key_elems_def by simp
  then have el: "key_elems k' = take n (key_elems key)" using k' k by simp
  have ok: "key_ok k'" using k'(2) by simp
  show ?thesis
    using entry_for_bucket [of "elems_hash h (key_elems k')" h "key_elems k'" c
        "\<lambda>v. find_in_bucket v 0 k'"]
      find_in_bucket_found [OF cache_inv_bucket_ok [OF assms(1)] ok, of _ _ 0]
    by (simp add: find_entry_len_def k(1) k'(1) key_hash [OF ok] assms(3) flip: el)
qed

text \<open>The inexact search tries the prefixes of the key from the longest to the shortest.\<close>

lemma find_entry_prefix_longest:
  assumes "cache_inv h c" and "key_ok key" and "n \<le> length (key_elems key)"
  shows "\<exists>r. find_entry_prefix h c key n = Some r \<and>
    (case r of
       None \<Rightarrow> \<forall>k. 0 < k \<and> k \<le> n \<longrightarrow> cache_map h c (take k (key_elems key)) = None
     | Some p \<Rightarrow> \<exists>k. 0 < k \<and> k \<le> n \<and> entry_for h c (take k (key_elems key)) r \<and>
         (\<forall>j. k < j \<and> j \<le> n \<longrightarrow> cache_map h c (take j (key_elems key)) = None))"
  using assms(3)
proof (induction n)
  case (Suc n)
  obtain r where r: "find_entry_len h c key (Suc n) = Some r"
    "entry_for h c (take (Suc n) (key_elems key)) r"
    using find_entry_len_prefix [OF assms(1,2) _ Suc.prems] by auto
  show ?case
  proof (cases r)
    case None
    then have none: "cache_map h c (take (Suc n) (key_elems key)) = None"
      using r(2) by (simp add: entry_for_def)
    obtain q where q: "find_entry_prefix h c key n = Some q"
      "case q of
         None \<Rightarrow> \<forall>k. 0 < k \<and> k \<le> n \<longrightarrow> cache_map h c (take k (key_elems key)) = None
       | Some p \<Rightarrow> \<exists>k. 0 < k \<and> k \<le> n \<and> entry_for h c (take k (key_elems key)) q \<and>
           (\<forall>j. k < j \<and> j \<le> n \<longrightarrow> cache_map h c (take j (key_elems key)) = None)"
      using Suc by auto
    have eq: "find_entry_prefix h c key (Suc n) = Some q" using None r(1) q(1) by simp
    show ?thesis
    proof (cases q)
      case None
      then show ?thesis using eq q(2) none by (auto simp: le_Suc_eq)
    next
      case (Some p)
      then obtain k where k: "0 < k" "k \<le> n" "entry_for h c (take k (key_elems key)) q"
        "\<forall>j. k < j \<and> j \<le> n \<longrightarrow> cache_map h c (take j (key_elems key)) = None"
        using q(2) by auto
      then have "\<forall>j. k < j \<and> j \<le> Suc n \<longrightarrow> cache_map h c (take j (key_elems key)) = None"
        using none by (auto simp: le_Suc_eq)
      with k have "\<exists>k. 0 < k \<and> k \<le> Suc n \<and> entry_for h c (take k (key_elems key)) q \<and>
          (\<forall>j. k < j \<and> j \<le> Suc n \<longrightarrow> cache_map h c (take j (key_elems key)) = None)"
        by (intro exI [of _ k]) simp
      then show ?thesis using eq Some by simp
    qed
  next
    case (Some p)
    then show ?thesis using r by auto
  qed
qed simp

section \<open>Lookup\<close>

lemma cache_find_exact:
  assumes "cache_inv h c" and "key_ok key"
  shows "cache_find h c key True = Some (cache_map h c (key_elems key))"
  using find_entry_exact [OF assms] entry_for_data by (fastforce simp: cache_find_def)

lemma cache_find_array:
  assumes "cache_inv h c" and "len \<le> length key" and "len < 2 ^ 28"
  shows "cache_find_array h c key len = Some (cache_map h c (take len key))"
  using find_entry_array [OF assms] entry_for_data by (fastforce simp: cache_find_array_def)

text \<open>
  \<^bold>\<open>C29.\<close> The inexact \<open>cps_api_key_cache::find\<close> on a consistent cache returns the data of the
  longest non-empty prefix of the key that is stored, and nothing when no prefix is stored,
  whatever the hash function.
\<close>

theorem cache_find_longest_prefix:
  assumes "cache_inv h c" and "key_ok key"
  shows "\<exists>r. cache_find h c key False = Some r \<and>
    (case r of
       None \<Rightarrow> \<forall>k. 0 < k \<and> k \<le> length (key_elems key) \<longrightarrow>
                 cache_map h c (take k (key_elems key)) = None
     | Some d \<Rightarrow> \<exists>k. 0 < k \<and> k \<le> length (key_elems key) \<and>
                 cache_map h c (take k (key_elems key)) = Some d \<and>
                 (\<forall>j. k < j \<and> j \<le> length (key_elems key) \<longrightarrow>
                    cache_map h c (take j (key_elems key)) = None))"
proof -
  obtain r where r: "find_entry_prefix h c key (length (key_elems key)) = Some r"
    "case r of
       None \<Rightarrow> \<forall>k. 0 < k \<and> k \<le> length (key_elems key) \<longrightarrow>
                 cache_map h c (take k (key_elems key)) = None
     | Some p \<Rightarrow> \<exists>k. 0 < k \<and> k \<le> length (key_elems key) \<and>
         entry_for h c (take k (key_elems key)) r \<and>
         (\<forall>j. k < j \<and> j \<le> length (key_elems key) \<longrightarrow>
            cache_map h c (take j (key_elems key)) = None)"
    using find_entry_prefix_longest [OF assms order_refl] by auto
  have eq: "cache_find h c key False = entry_data c r"
    using r(1) assms(2) by (simp add: cache_find_def find_entry_def)
  show ?thesis
  proof (cases r)
    case None
    then show ?thesis using r(2) eq by (simp add: entry_data_def)
  next
    case (Some p)
    then obtain k where k: "0 < k" "k \<le> length (key_elems key)"
      "entry_for h c (take k (key_elems key)) r"
      "\<forall>j. k < j \<and> j \<le> length (key_elems key) \<longrightarrow> cache_map h c (take j (key_elems key)) = None"
      using r(2) by auto
    have "cache_map h c (take k (key_elems key)) \<noteq> None"
      using k(3) Some by (auto simp: entry_for_def cache_map_def found_at_def)
    then show ?thesis using eq entry_for_data [OF k(3)] k by auto
  qed
qed

theorem cache_find_longest_prefix_witness:
  "\<exists>r. cache_find id [(7, [\<lparr>fe_key = [1, 0, 7], fe_allocated = True, fe_data = ''x''\<rparr>])]
     ([2, 0, 7, 9] @ replicate 60 0) False = Some (Some r)"
proof -
  let ?c = "[(7, [\<lparr>fe_key = [1, 0, 7], fe_allocated = True, fe_data = ''x''\<rparr>])]"
  have inv: "cache_inv id ?c"
    by (auto simp: cache_inv_def umap_find_def bucket_inv_def key_ok_def key_elems_def
        split: if_splits)
  have ok: "key_ok ([2, 0, 7, 9] @ replicate 60 0)" by (simp add: key_ok_def)
  have m: "cache_map id ?c [7] = Some ''x''"
    by (simp add: cache_map_def umap_find_def bucket_map_def key_elems_def)
  from cache_find_longest_prefix [OF inv ok] obtain r where
    r: "cache_find id ?c ([2, 0, 7, 9] @ replicate 60 0) False = Some r"
    "r = None \<Longrightarrow> cache_map id ?c (take 1 [7, 9]) = None"
    by (auto simp: key_elems_def split: option.splits)
  then show ?thesis using m by (cases r) auto
qed

section \<open>Insertion and removal\<close>

lemma bucket_map_append:
  "bucket_map (v @ w) es = (case bucket_map v es of None \<Rightarrow> bucket_map w es | Some d \<Rightarrow> Some d)"
  by (induction v) (auto simp: bucket_map_def)

lemma bucket_map_snoc:
  "bucket_map (v @ [e]) es = (case bucket_map v es of
     None \<Rightarrow> if key_elems (fe_key e) = es then Some (fe_data e) else None | Some d \<Rightarrow> Some d)"
proof -
  have "bucket_map [e] es = (if key_elems (fe_key e) = es then Some (fe_data e) else None)"
    by (simp add: bucket_map_def)
  then show ?thesis by (simp only: bucket_map_append)
qed

lemma key_take_elems: "key_ok key \<Longrightarrow> key_elems (take (unat (key ! 0) + 2) key) = key_elems key"
  by (simp add: key_elems_def drop_take)

lemma key_take_ok: "key_ok key \<Longrightarrow> key_ok (take (unat (key ! 0) + 2) key)"
  by (auto simp: key_ok_def)

text \<open>Insertion appends to the bucket: a stored key keeps its data, a new one gets the new data.\<close>

lemma cache_insert_map:
  assumes "cache_inv h c" and "key_ok key" and "alloc \<longrightarrow> mem_ok"
  shows "\<exists>c'. cache_insert h mem_ok c key d alloc = Some (True, c') \<and> cache_inv h c' \<and>
     cache_map h c' = (case cache_map h c (key_elems key) of
        None \<Rightarrow> (cache_map h c)(key_elems key \<mapsto> d) | Some _ \<Rightarrow> cache_map h c)"
proof -
  let ?hv = "elems_hash h (key_elems key)"
  let ?v = "case umap_find c ?hv of None \<Rightarrow> [] | Some v \<Rightarrow> v"
  let ?k = "if alloc then take (unat (key ! 0) + 2) key else key"
  let ?e = "\<lparr>fe_key = ?k, fe_allocated = alloc, fe_data = d\<rparr>"
  let ?c = "umap_set c ?hv (?v @ [?e])"
  have n: "(4 * length (key_elems key) + 8) div 4 = unat (key ! 0) + 2"
    using key_ok_len [OF assms(2)] by simp
  have fits: "unat (key ! 0) + 2 \<le> length key" using assms(2) by (simp add: key_ok_def)
  have ins: "cache_insert h mem_ok c key d alloc = Some (True, ?c)"
    using assms(2,3) n fits
    by (auto simp: cache_insert_def key_hash key_layout Let_def)
  have e: "key_ok ?k" "key_elems ?k = key_elems key"
    using key_take_ok [OF assms(2)] key_take_elems [OF assms(2)] assms(2) by auto
  have vinv: "bucket_inv h ?hv ?v"
    using assms(1) by (cases "umap_find c ?hv") (auto simp: cache_inv_def bucket_inv_def)
  then have "bucket_inv h ?hv (?v @ [?e])" using e by (auto simp: bucket_inv_def)
  then have "cache_inv h ?c" by (rule cache_inv_set [OF assms(1)])
  moreover have vmap: "bucket_map ?v es = cache_map h c es" if "elems_hash h es = ?hv" for es
    using that by (simp add: cache_map_def bucket_map_def split: option.splits)
  have "cache_map h ?c es = (case cache_map h c (key_elems key) of
        None \<Rightarrow> (cache_map h c)(key_elems key \<mapsto> d) | Some _ \<Rightarrow> cache_map h c) es" for es
  proof (cases "elems_hash h es = ?hv")
    case True
    then have "cache_map h ?c es = bucket_map (?v @ [?e]) es" by (simp add: cache_map_def)
    then show ?thesis
      using vmap [OF True] e(2) by (auto simp: bucket_map_snoc split: option.splits)
  next
    case False
    then show ?thesis by (auto simp: cache_map_def split: option.splits)
  qed
  ultimately show ?thesis using ins by blast
qed

lemma bucket_map_erase_other:
  assumes "ix < length v" and "key_elems (fe_key (v ! ix)) \<noteq> es"
  shows "bucket_map (list_erase v ix) es = bucket_map v es"
proof -
  have "v = take ix v @ v ! ix # drop (Suc ix) v" using assms(1) by (simp add: id_take_nth_drop)
  then have "bucket_map v es = bucket_map (take ix v @ [v ! ix] @ drop (Suc ix) v) es" by simp
  also have "\<dots> = bucket_map (list_erase v ix) es"
    using assms(2) by (simp only: bucket_map_append list_erase_def)
      (simp add: bucket_map_def split: option.splits)
  finally show ?thesis by simp
qed

text \<open>Removal takes the first entry of the key away and leaves every other key as it was.\<close>

lemma cache_erase_map:
  assumes "cache_inv h c" and "key_ok key"
  shows "\<exists>c'. cache_erase h c key = Some c' \<and> cache_inv h c' \<and>
     (\<forall>es. es \<noteq> key_elems key \<longrightarrow> cache_map h c' es = cache_map h c es)"
proof -
  obtain r where r: "find_entry h c key True = Some r" "entry_for h c (key_elems key) r"
    using find_entry_exact [OF assms] by blast
  show ?thesis
  proof (cases r)
    case None
    then show ?thesis using r assms(1) by (simp add: cache_erase_def)
  next
    case (Some p)
    then obtain ix v where p: "r = Some (elems_hash h (key_elems key), ix)"
      "umap_find c (elems_hash h (key_elems key)) = Some v" "ix < length v"
      "key_elems (fe_key (v ! ix)) = key_elems key"
      using r(2) by (cases p) (auto simp: entry_for_def found_at_def)
    let ?hv = "elems_hash h (key_elems key)"
    let ?c = "umap_set c ?hv (list_erase v ix)"
    have "bucket_inv h ?hv v" using assms(1) p(2) by (simp add: cache_inv_def)
    moreover have "set (list_erase v ix) \<subseteq> set v"
      by (auto simp: list_erase_def dest: in_set_takeD in_set_dropD)
    ultimately have "cache_inv h ?c"
      by (intro cache_inv_set [OF assms(1)]) (auto simp: bucket_inv_def)
    moreover have "cache_map h ?c es = cache_map h c es" if "es \<noteq> key_elems key" for es
      using that p bucket_map_erase_other [OF p(3), of es] by (simp add: cache_map_def)
    ultimately show ?thesis using r(1) p(1,2) by (simp add: cache_erase_def)
  qed
qed

section \<open>The interface clients rely on\<close>

text \<open>
  A store of data under keys: what an exact search returns after an insertion, and that the
  operations return and keep the store consistent.
\<close>

locale key_store =
  fixes inv :: "'c \<Rightarrow> bool"
    and look :: "'c \<Rightarrow> u32 list \<rightharpoonup> 'd"
    and emp :: "'c"
    and ins :: "'c \<Rightarrow> cps_api_key_t \<Rightarrow> 'd \<Rightarrow> (bool \<times> 'c) option"
    and fnd :: "'c \<Rightarrow> cps_api_key_t \<Rightarrow> 'd option option"
  assumes inv_emp: "inv emp"
    and look_emp: "look emp = Map.empty"
    and ins_look: "inv c \<Longrightarrow> key_ok k \<Longrightarrow> \<exists>c'. ins c k d = Some (True, c') \<and> inv c' \<and>
      look c' = (case look c (key_elems k) of
        None \<Rightarrow> (look c)(key_elems k \<mapsto> d) | Some _ \<Rightarrow> look c)"
    and fnd_look: "inv c \<Longrightarrow> key_ok k \<Longrightarrow> fnd c k = Some (look c (key_elems k))"
begin

text \<open>Inserting a list of entries, as the loaders of the metadata do.\<close>

fun ins_all :: "'c \<Rightarrow> (cps_api_key_t \<times> 'd) list \<Rightarrow> 'c option" where
  "ins_all c [] = Some c"
| "ins_all c ((k, d) # es) = (case ins c k d of Some (True, c') \<Rightarrow> ins_all c' es | _ \<Rightarrow> None)"

lemma ins_all_look:
  assumes "inv c" and "\<forall>(k, d) \<in> set es. key_ok k"
  shows "\<exists>c'. ins_all c es = Some c' \<and> inv c' \<and>
     look c' = map_of (map (\<lambda>(k, d). (key_elems k, d)) es) ++ look c"
  using assms
proof (induction es arbitrary: c)
  case (Cons e es)
  obtain k d where e: "e = (k, d)" by (cases e)
  obtain c1 where c1: "ins c k d = Some (True, c1)" "inv c1"
    "look c1 = (case look c (key_elems k) of
        None \<Rightarrow> (look c)(key_elems k \<mapsto> d) | Some _ \<Rightarrow> look c)"
    using ins_look [OF Cons.prems(1), of k d] Cons.prems(2) e by auto
  obtain c2 where c2: "ins_all c1 es = Some c2" "inv c2"
    "look c2 = map_of (map (\<lambda>(k, d). (key_elems k, d)) es) ++ look c1"
    using Cons.IH [OF c1(2)] Cons.prems(2) by auto
  have "look c2 = map_of (map (\<lambda>(k, d). (key_elems k, d)) (e # es)) ++ look c"
    unfolding c2(3) c1(3) e
    by (auto simp: map_add_def fun_eq_iff split: option.splits)
  moreover have "ins_all c (e # es) = Some c2" by (simp add: e c1(1) c2(1))
  ultimately show ?case using c2(2) by blast
qed simp

lemma fnd_after_ins:
  assumes "inv c" and "key_ok k" and "key_ok j"
  shows "\<exists>c'. ins c k d = Some (True, c') \<and> fnd c' j =
     Some (if look c (key_elems j) = None \<and> key_elems j = key_elems k then Some d
           else look c (key_elems j))"
proof -
  obtain c1 where c1: "ins c k d = Some (True, c1)" "inv c1"
    "look c1 = (case look c (key_elems k) of
        None \<Rightarrow> (look c)(key_elems k \<mapsto> d) | Some _ \<Rightarrow> look c)"
    using ins_look [OF assms(1,2)] by blast
  then show ?thesis using fnd_look [OF c1(2) assms(3)] by (auto split: option.splits)
qed

end

interpretation kc: key_store "cache_inv h" "cache_map h" "[]"
  "\<lambda>c k d. cache_insert h True c k d True" "\<lambda>c k. cache_find h c k True"
  for h :: "u64 \<Rightarrow> u64"
  by unfold_locales (simp_all add: cache_insert_map cache_find_exact)



section \<open>Writing through a pointer into the cache\<close>

lemma find_update_data:
  assumes "\<forall>l < j. \<not> P (fe_key (v ! l))" and "j < length v" and "P (fe_key (v ! j))"
  shows "find (\<lambda>e. P (fe_key e)) (v[j := (v ! j)\<lparr>fe_data := d\<rparr>]) = Some ((v ! j)\<lparr>fe_data := d\<rparr>)"
  using assms
proof (induction v arbitrary: j)
  case (Cons e v)
  show ?case
  proof (cases j)
    case 0
    then show ?thesis using Cons.prems by simp
  next
    case (Suc k)
    then have "\<not> P (fe_key e)" using Cons.prems(1) by auto
    moreover have "\<forall>l < k. \<not> P (fe_key (v ! l))" using Cons.prems(1) Suc by auto
    ultimately show ?thesis using Cons.IH [of k] Cons.prems(2,3) Suc by simp
  qed
qed simp

lemma find_update_other:
  assumes "j < length v" and "\<not> P (fe_key (v ! j))"
  shows "find (\<lambda>e. P (fe_key e)) (v[j := (v ! j)\<lparr>fe_data := d\<rparr>]) = find (\<lambda>e. P (fe_key e)) v"
  using assms
proof (induction v arbitrary: j)
  case (Cons e v)
  then show ?case by (cases j) auto
qed simp

lemma cache_at_exact:
  assumes "cache_inv h c" and "key_ok key"
  obtains r where "cache_at h c key True = Some r" and "entry_for h c (key_elems key) r"
  using find_entry_exact [OF assms] by (auto simp: cache_at_def)

lemma cache_at_update_map:
  assumes "cache_inv h c" and "entry_for h c es (Some p)"
  shows "\<exists>c'. cache_at_update c p f = Some c' \<and> cache_inv h c' \<and>
     cache_map h c' = (cache_map h c)(es := map_option f (cache_map h c es))"
proof -
  obtain v where v: "umap_find c (elems_hash h es) = Some v" "fst p = elems_hash h es"
    "snd p < length v" "key_elems (fe_key (v ! snd p)) = es"
    "bucket_map v es = Some (fe_data (v ! snd p))" "\<forall>l < snd p. key_elems (fe_key (v ! l)) \<noteq> es"
    using assms(2) by (cases p) (auto simp: entry_for_def found_at_def)
  let ?v = "v[snd p := (v ! snd p)\<lparr>fe_data := f (fe_data (v ! snd p))\<rparr>]"
  let ?c = "umap_set c (elems_hash h es) ?v"
  have bi: "bucket_inv h (elems_hash h es) v" using assms(1) v(1) by (simp add: cache_inv_def)
  then have "bucket_inv h (elems_hash h es) ?v"
    using v(3) nth_mem [OF v(3)] set_update_subset_insert [of v "snd p"]
    unfolding bucket_inv_def by fastforce
  then have inv: "cache_inv h ?c" by (rule cache_inv_set [OF assms(1)])
  have "bucket_map ?v es = Some (f (fe_data (v ! snd p)))"
    using find_update_data [of "snd p" "\<lambda>k. key_elems k = es" v] v(3,4,6) by (simp add: bucket_map_def)
  moreover have "bucket_map ?v es' = bucket_map v es'" if "es' \<noteq> es" for es'
    using find_update_other [of "snd p" v "\<lambda>k. key_elems k = es'"] v(3,4) that by (simp add: bucket_map_def)
  ultimately have "cache_map h ?c = (cache_map h c)(es := map_option f (cache_map h c es))"
    using v(1,5) by (auto simp: cache_map_def fun_eq_iff)
  then show ?thesis using inv v(1-3) by (simp add: cache_at_update_def)
qed

section \<open>Walking\<close>

text \<open>A walk visits every bucket until the callback accepts all of them without emptying one.\<close>

lemma cache_walk_accepting:
  assumes "\<And>v s. v \<noteq> [] \<Longrightarrow> \<exists>s'. cb v s = (True, v, s')" and "\<forall>(hv, v) \<in> set rest. v \<noteq> []"
  shows "fst (cache_walk cb s seen rest) = seen @ rest"
  using assms(2)
proof (induction rest arbitrary: s seen)
  case (Cons a rest)
  obtain hv v where a: "a = (hv, v)" by (cases a)
  obtain s' where "cb v s = (True, v, s')" using assms(1) [of v s] Cons.prems a by auto
  then show ?case using Cons a by auto
qed simp

lemma cache_walk_nonempty:
  assumes "\<forall>(hv, v) \<in> set seen. v \<noteq> []"
  shows "\<forall>(hv, v) \<in> set (fst (cache_walk cb s seen rest)). v \<noteq> []"
  using assms
proof (induction cb s seen rest rule: cache_walk.induct)
  case (2 cb s seen hash v rest)
  obtain res v' s' where cb: "cb v s = (res, v', s')" by (cases "cb v s") auto
  show ?case
  proof (cases "\<not> res \<or> v' = []")
    case True
    then show ?thesis using "2.IH"(1) [OF cb [symmetric] refl] cb by simp
  next
    case False
    then show ?thesis using "2.IH"(2) [OF cb [symmetric] refl] "2.prems" cb by simp
  qed
qed simp

end
