(* ===== verification/Cps_Tlv.thy ===== *)
theory Cps_Tlv
  imports Cps_Prelude
begin

text \<open>
  The tag-length-value library \<^verbatim>\<open>std_tlv.h\<close> is not part of the repository: the object code only
  calls it. Its functions are the fields of the record \<open>std_tlv_api\<close>, which every definition that
  uses the library takes as a parameter; a buffer is a byte list and a pointer an offset into it,
  with \<open>None\<close> for \<open>NULL\<close>. The locale \<open>std_tlv\<close> names the behaviour the object code relies on:
  a header of fixed size that stores a tag and a length, an iterator that steps over a value, a
  search that steps until a tag matches, and an append. Nothing is assumed about malformed
  buffers, about the byte layout of the header, or about the pointer \<open>std_tlv_next\<close> returns
  behind the last element.

  \<open>tlv_seq\<close> says that a region of a buffer is exactly a sequence of tagged values; the lemmas of
  the locale follow searches, steps, moves and appends through it. A reference library with a
  16-byte little-endian header shows that the assumptions can be met.
\<close>

section \<open>The library as a parameter\<close>

record std_tlv_api =
  STD_TLV_HDR_LEN :: nat
  std_tlv_tag :: "bytes \<Rightarrow> nat \<Rightarrow> u64"
  std_tlv_len :: "bytes \<Rightarrow> nat \<Rightarrow> nat"
  std_tlv_set_tag :: "bytes \<Rightarrow> nat \<Rightarrow> u64 \<Rightarrow> bytes"
  std_tlv_set_len :: "bytes \<Rightarrow> nat \<Rightarrow> nat \<Rightarrow> bytes"
  std_tlv_total_len :: "bytes \<Rightarrow> nat \<Rightarrow> nat"
  std_tlv_data :: "nat \<Rightarrow> nat"
  std_tlv_valid :: "bytes \<Rightarrow> nat option \<Rightarrow> nat \<Rightarrow> bool"
  std_tlv_next :: "bytes \<Rightarrow> nat option \<Rightarrow> nat \<Rightarrow> nat option \<times> nat"
  std_tlv_find_next :: "bytes \<Rightarrow> nat option \<Rightarrow> nat \<Rightarrow> u64 \<Rightarrow> nat option \<times> nat"
  std_tlv_efind :: "bytes \<Rightarrow> nat option \<Rightarrow> nat \<Rightarrow> u64 list \<Rightarrow> nat option \<times> nat"
  std_tlv_add :: "bytes \<Rightarrow> nat \<Rightarrow> nat \<Rightarrow> u64 \<Rightarrow> bytes \<Rightarrow> bytes \<times> nat option \<times> nat"

type_synonym attr = "u64 \<times> bytes"

text \<open>
  \<open>tlv_seq T m p n xs\<close>: the \<open>n\<close> bytes of \<open>m\<close> from offset \<open>p\<close> are the values \<open>xs\<close>, one after the
  other.
\<close>

fun tlv_seq :: "std_tlv_api \<Rightarrow> bytes \<Rightarrow> nat \<Rightarrow> nat \<Rightarrow> attr list \<Rightarrow> bool" where
  "tlv_seq T m p n [] \<longleftrightarrow> n = 0"
| "tlv_seq T m p n ((t, d) # xs) \<longleftrightarrow>
     STD_TLV_HDR_LEN T + length d \<le> n \<and> std_tlv_tag T m p = t \<and> std_tlv_len T m p = length d \<and>
     take (length d) (drop (p + STD_TLV_HDR_LEN T) m) = d \<and>
     tlv_seq T m (p + STD_TLV_HDR_LEN T + length d) (n - (STD_TLV_HDR_LEN T + length d)) xs"

definition attr_size :: "std_tlv_api \<Rightarrow> attr \<Rightarrow> nat" where
  "attr_size T x = STD_TLV_HDR_LEN T + length (snd x)"

definition attrs_size :: "std_tlv_api \<Rightarrow> attr list \<Rightarrow> nat" where
  "attrs_size T xs = sum_list (map (attr_size T) xs)"

lemma attrs_size_simps [simp]:
  "attrs_size T [] = 0" "attrs_size T (x # xs) = attr_size T x + attrs_size T xs"
  "attrs_size T (xs @ ys) = attrs_size T xs + attrs_size T ys"
  by (simp_all add: attrs_size_def)

lemma tlv_seq_size: "tlv_seq T m p n xs \<Longrightarrow> attrs_size T xs = n"
  by (induction T m p n xs rule: tlv_seq.induct) (auto simp: attr_size_def)

lemma tlv_seq_append:
  "tlv_seq T m p n (xs @ ys) \<longleftrightarrow>
     attrs_size T xs \<le> n \<and> tlv_seq T m p (attrs_size T xs) xs \<and>
     tlv_seq T m (p + attrs_size T xs) (n - attrs_size T xs) ys"
proof (induction xs arbitrary: p n)
  case (Cons x xs)
  obtain t d where x: "x = (t, d)" by (cases x)
  let ?h = "STD_TLV_HDR_LEN T + length d"
  have "attrs_size T xs \<le> n - ?h \<and> ?h \<le> n \<longleftrightarrow> ?h + attrs_size T xs \<le> n \<and> ?h \<le> n" by auto
  then show ?case using Cons by (auto simp: x attr_size_def add.assoc)
qed simp

section \<open>What the object code relies on\<close>

locale std_tlv =
  fixes T :: std_tlv_api
  assumes hdr_pos: "0 < STD_TLV_HDR_LEN T"
    and hdr_small: "STD_TLV_HDR_LEN T \<le> 64"
    and tag_local: "p + STD_TLV_HDR_LEN T \<le> length m \<Longrightarrow>
      std_tlv_tag T m p = std_tlv_tag T (take (STD_TLV_HDR_LEN T) (drop p m)) 0"
    and len_local: "p + STD_TLV_HDR_LEN T \<le> length m \<Longrightarrow>
      std_tlv_len T m p = std_tlv_len T (take (STD_TLV_HDR_LEN T) (drop p m)) 0"
    and set_tag: "p + STD_TLV_HDR_LEN T \<le> length m \<Longrightarrow> m' = std_tlv_set_tag T m p t \<Longrightarrow>
      length m' = length m \<and> take p m' = take p m \<and>
      drop (p + STD_TLV_HDR_LEN T) m' = drop (p + STD_TLV_HDR_LEN T) m \<and>
      std_tlv_tag T m' p = t \<and> std_tlv_len T m' p = std_tlv_len T m p"
    and set_len: "p + STD_TLV_HDR_LEN T \<le> length m \<Longrightarrow> l < size_lim \<Longrightarrow>
      m' = std_tlv_set_len T m p l \<Longrightarrow>
      length m' = length m \<and> take p m' = take p m \<and>
      drop (p + STD_TLV_HDR_LEN T) m' = drop (p + STD_TLV_HDR_LEN T) m \<and>
      std_tlv_len T m' p = l \<and> std_tlv_tag T m' p = std_tlv_tag T m p"
    and total_len: "p + STD_TLV_HDR_LEN T \<le> length m \<Longrightarrow>
      STD_TLV_HDR_LEN T + std_tlv_len T m p < size_lim \<Longrightarrow>
      std_tlv_total_len T m p = STD_TLV_HDR_LEN T + std_tlv_len T m p"
    and data: "std_tlv_data T p = p + STD_TLV_HDR_LEN T"
    and valid_None: "\<not> std_tlv_valid T m None n"
    and valid_short: "n < STD_TLV_HDR_LEN T \<Longrightarrow> \<not> std_tlv_valid T m q n"
    and valid_fits: "STD_TLV_HDR_LEN T + std_tlv_len T m p \<le> n \<Longrightarrow>
      p + STD_TLV_HDR_LEN T + std_tlv_len T m p \<le> length m \<Longrightarrow> n < size_lim \<Longrightarrow>
      std_tlv_valid T m (Some p) n"
    and next_len: "STD_TLV_HDR_LEN T + std_tlv_len T m p \<le> n \<Longrightarrow> p + n \<le> length m \<Longrightarrow>
      n < size_lim \<Longrightarrow>
      snd (std_tlv_next T m (Some p) n) = n - (STD_TLV_HDR_LEN T + std_tlv_len T m p)"
    and next_ptr: "STD_TLV_HDR_LEN T + std_tlv_len T m p < n \<Longrightarrow> p + n \<le> length m \<Longrightarrow>
      n < size_lim \<Longrightarrow>
      fst (std_tlv_next T m (Some p) n) = Some (p + STD_TLV_HDR_LEN T + std_tlv_len T m p)"
    and find_None: "fst (std_tlv_find_next T m None n t) = None"
    and find_short: "n < STD_TLV_HDR_LEN T \<Longrightarrow> fst (std_tlv_find_next T m q n t) = None"
    and find_here: "STD_TLV_HDR_LEN T + std_tlv_len T m p \<le> n \<Longrightarrow> p + n \<le> length m \<Longrightarrow>
      n < size_lim \<Longrightarrow> std_tlv_tag T m p = t \<Longrightarrow>
      std_tlv_find_next T m (Some p) n t = (Some p, n)"
    and find_skip: "STD_TLV_HDR_LEN T + std_tlv_len T m p \<le> n \<Longrightarrow> p + n \<le> length m \<Longrightarrow>
      n < size_lim \<Longrightarrow> std_tlv_tag T m p \<noteq> t \<Longrightarrow>
      std_tlv_find_next T m (Some p) n t =
        (case std_tlv_next T m (Some p) n of (q, k) \<Rightarrow> std_tlv_find_next T m q k t)"
    and efind_one: "fst (std_tlv_efind T m q n [t]) = fst (std_tlv_find_next T m q n t)"
    and efind_more: "fst (std_tlv_efind T m q n (t # u # ts)) =
      (case fst (std_tlv_find_next T m q n t) of
         None \<Rightarrow> None
       | Some r \<Rightarrow> fst (std_tlv_efind T m (Some (std_tlv_data T r)) (std_tlv_len T m r) (u # ts)))"
    and add_fits: "STD_TLV_HDR_LEN T + length d \<le> r \<Longrightarrow>
      p + STD_TLV_HDR_LEN T + length d \<le> length m \<Longrightarrow> r < size_lim \<Longrightarrow>
      \<exists>m' q. std_tlv_add T m p r t d = (m', Some q, r - (STD_TLV_HDR_LEN T + length d)) \<and>
        length m' = length m \<and> take p m' = take p m \<and>
        std_tlv_tag T m' p = t \<and> std_tlv_len T m' p = length d \<and>
        take (length d) (drop (p + STD_TLV_HDR_LEN T) m') = d \<and>
        drop (p + STD_TLV_HDR_LEN T + length d) m' = drop (p + STD_TLV_HDR_LEN T + length d) m"
begin

abbreviation H :: nat where
  "H \<equiv> STD_TLV_HDR_LEN T"

lemma attr_size_ge: "H \<le> attr_size T x"
  by (simp add: attr_size_def)

lemma attrs_size_0 [simp]: "attrs_size T xs = 0 \<longleftrightarrow> xs = []"
  using hdr_pos by (cases xs) (auto simp: attr_size_def)

text \<open>A sequence depends on the bytes of its region only.\<close>

lemma tlv_seq_relocate:
  assumes "tlv_seq T m p n xs" and "p + n \<le> length m" and "q + n \<le> length m'"
    and "take n (drop p m) = take n (drop q m')"
  shows "tlv_seq T m' q n xs"
  using assms
proof (induction xs arbitrary: p q n)
  case (Cons x xs)
  obtain t d where x: "x = (t, d)" by (cases x)
  let ?l = "length d"
  from Cons.prems(1) have s: "H + ?l \<le> n" "std_tlv_tag T m p = t" "std_tlv_len T m p = ?l"
    "take ?l (drop (p + H) m) = d" "tlv_seq T m (p + H + ?l) (n - (H + ?l)) xs"
    by (simp_all add: x)
  have hd: "take H (drop p m) = take H (drop q m')"
    using take_drop_eq_take [OF Cons.prems(4), of 0 H] s(1) by simp
  have "std_tlv_tag T m' q = t" "std_tlv_len T m' q = ?l"
    using s hd tag_local [of p m] tag_local [of q m'] len_local [of p m] len_local [of q m'] Cons.prems
    by simp_all
  moreover have "take ?l (drop (q + H) m') = d"
    using take_drop_eq_take [OF Cons.prems(4), of H ?l] s(1,4) by simp
  moreover have "tlv_seq T m' (q + H + ?l) (n - (H + ?l)) xs"
  proof (rule Cons.IH [OF s(5)])
    show "p + H + ?l + (n - (H + ?l)) \<le> length m" "q + H + ?l + (n - (H + ?l)) \<le> length m'"
      using Cons.prems(2,3) s(1) by simp_all
    show "take (n - (H + ?l)) (drop (p + H + ?l) m) = take (n - (H + ?l)) (drop (q + H + ?l) m')"
      using take_drop_eq_take [OF Cons.prems(4), of "H + ?l" "n - (H + ?l)"] s(1)
      by (simp add: add.assoc)
  qed
  ultimately show ?case using s(1) by (simp add: x)
qed simp

lemma tlv_seq_Cons_facts:
  assumes "tlv_seq T m p n (x # xs)" and "p + n \<le> length m" and "n < size_lim"
  shows "H + std_tlv_len T m p \<le> n" and "std_tlv_tag T m p = fst x"
    and "std_tlv_len T m p = length (snd x)" and "std_tlv_total_len T m p = attr_size T x"
    and "attr_size T x \<le> n" and "tlv_seq T m (p + attr_size T x) (n - attr_size T x) xs"
    and "std_tlv_valid T m (Some p) n" and "H \<le> n"
    and "take (length (snd x)) (drop (std_tlv_data T p) m) = snd x"
proof -
  obtain t d where x: "x = (t, d)" by (cases x)
  show len: "H + std_tlv_len T m p \<le> n" and "std_tlv_tag T m p = fst x"
    and "std_tlv_len T m p = length (snd x)" and "attr_size T x \<le> n"
    and "tlv_seq T m (p + attr_size T x) (n - attr_size T x) xs" and "H \<le> n"
    and "take (length (snd x)) (drop (std_tlv_data T p) m) = snd x"
    using assms(1) by (simp_all add: x attr_size_def add.assoc data)
  show "std_tlv_total_len T m p = attr_size T x"
    using assms total_len [of p m] by (simp add: x attr_size_def)
  show "std_tlv_valid T m (Some p) n" using valid_fits [OF len _ assms(3)] len assms(2) by simp
qed

lemma tlv_seq_Nil_invalid: "tlv_seq T m p n [] \<Longrightarrow> \<not> std_tlv_valid T m q n"
  using valid_short hdr_pos by simp

text \<open>A step moves to the rest of the sequence; behind the last element nothing is valid.\<close>

lemma tlv_seq_next:
  assumes "tlv_seq T m p n (x # xs)" and "p + n \<le> length m" and "n < size_lim"
  shows "snd (std_tlv_next T m (Some p) n) = n - attr_size T x"
    and "xs \<noteq> [] \<Longrightarrow> fst (std_tlv_next T m (Some p) n) = Some (p + attr_size T x)"
proof -
  note f = tlv_seq_Cons_facts [OF assms]
  show "snd (std_tlv_next T m (Some p) n) = n - attr_size T x"
    using next_len [OF f(1) assms(2,3)] f(3) by (simp add: attr_size_def)
  assume "xs \<noteq> []"
  then have "attrs_size T xs \<noteq> 0" by simp
  then have "0 < n - attr_size T x" using tlv_seq_size [OF f(6)] by simp
  then have "H + std_tlv_len T m p < n" using f(3) by (simp add: attr_size_def)
  from next_ptr [OF this assms(2,3)] show
    "fst (std_tlv_next T m (Some p) n) = Some (p + attr_size T x)"
    using f(3) by (simp add: attr_size_def add.assoc)
qed

text \<open>The search returns the first matching element and the bytes left from it on.\<close>

lemma find_next_hit:
  assumes "tlv_seq T m p n (xs @ (t, d) # ys)" and "p + n \<le> length m" and "n < size_lim"
    and "\<forall>x \<in> set xs. fst x \<noteq> t"
  shows "std_tlv_find_next T m (Some p) n t = (Some (p + attrs_size T xs), n - attrs_size T xs)"
  using assms
proof (induction xs arbitrary: p n)
  case Nil
  from Nil.prems(1) have seq: "tlv_seq T m p n ((t, d) # ys)" by simp
  note f = tlv_seq_Cons_facts [OF seq Nil.prems(2,3)]
  show ?case using find_here [OF f(1) Nil.prems(2,3)] f(2) by simp
next
  case (Cons x xs)
  from Cons.prems(1) have seq: "tlv_seq T m p n (x # (xs @ (t, d) # ys))" by simp
  note f = tlv_seq_Cons_facts [OF seq Cons.prems(2,3)]
  have nx: "std_tlv_next T m (Some p) n = (Some (p + attr_size T x), n - attr_size T x)"
    using tlv_seq_next [OF seq Cons.prems(2,3)] by (simp add: prod_eq_iff)
  have "std_tlv_find_next T m (Some p) n t =
      std_tlv_find_next T m (Some (p + attr_size T x)) (n - attr_size T x) t"
    using find_skip [OF f(1) Cons.prems(2,3)] f(2) Cons.prems(4) nx by simp
  also have "\<dots> = (Some (p + attr_size T x + attrs_size T xs), n - attr_size T x - attrs_size T xs)"
    by (rule Cons.IH) (use f Cons.prems in auto)
  finally show ?case by (simp add: add.assoc)
qed

lemma find_next_miss:
  assumes "tlv_seq T m p n xs" and "p + n \<le> length m" and "n < size_lim"
    and "\<forall>x \<in> set xs. fst x \<noteq> t"
  shows "fst (std_tlv_find_next T m (Some p) n t) = None"
  using assms
proof (induction xs arbitrary: p n)
  case Nil
  then show ?case using find_short hdr_pos by simp
next
  case (Cons x xs)
  note f = tlv_seq_Cons_facts [OF Cons.prems(1-3)]
  note nx = tlv_seq_next [OF Cons.prems(1-3)]
  obtain q k where qk: "std_tlv_next T m (Some p) n = (q, k)" by fastforce
  have "std_tlv_find_next T m (Some p) n t = std_tlv_find_next T m q k t"
    using find_skip [OF f(1) Cons.prems(2,3)] f(2) Cons.prems(4) qk by simp
  also have "fst \<dots> = None"
  proof (cases "xs = []")
    case True
    then have "k = 0" using nx(1) f(6) qk by simp
    then show ?thesis using find_short hdr_pos by simp
  next
    case False
    then have "q = Some (p + attr_size T x)" "k = n - attr_size T x" using nx qk by simp_all
    then show ?thesis using Cons.IH [OF f(6)] f(5) Cons.prems by simp
  qed
  finally show ?case .
qed

end

section \<open>A reference library\<close>

text \<open>
  A header of two little-endian 64-bit fields. It is one library that meets the assumptions; the
  witnesses of the development run on it.
\<close>

definition tlv16_tag :: "bytes \<Rightarrow> nat \<Rightarrow> u64" where
  "tlv16_tag m p = of_nat (le_val (take 8 (drop p m)))"

definition tlv16_len :: "bytes \<Rightarrow> nat \<Rightarrow> nat" where
  "tlv16_len m p = le_val (take 8 (drop (p + 8) m))"

definition tlv16_valid :: "bytes \<Rightarrow> nat option \<Rightarrow> nat \<Rightarrow> bool" where
  "tlv16_valid m q n = (case q of None \<Rightarrow> False | Some p \<Rightarrow> 16 \<le> n \<and> 16 + tlv16_len m p \<le> n)"

definition tlv16_next :: "bytes \<Rightarrow> nat option \<Rightarrow> nat \<Rightarrow> nat option \<times> nat" where
  "tlv16_next m q n =
     (case q of
        None \<Rightarrow> (None, 0)
      | Some p \<Rightarrow>
          if tlv16_valid m q n then (Some (p + 16 + tlv16_len m p), n - (16 + tlv16_len m p))
          else (None, 0))"

function tlv16_find_next :: "bytes \<Rightarrow> nat option \<Rightarrow> nat \<Rightarrow> u64 \<Rightarrow> nat option \<times> nat" where
  "tlv16_find_next m None n t = (None, n)"
| "tlv16_find_next m (Some p) n t =
     (if tlv16_valid m (Some p) n then
        if tlv16_tag m p = t then (Some p, n)
        else tlv16_find_next m (Some (p + 16 + tlv16_len m p)) (n - (16 + tlv16_len m p)) t
      else (None, n))"
  by pat_completeness auto
termination
  by (relation "measure (\<lambda>(m, q, n, t). n)") (auto simp: tlv16_valid_def)

fun tlv16_efind :: "bytes \<Rightarrow> nat option \<Rightarrow> nat \<Rightarrow> u64 list \<Rightarrow> nat option \<times> nat" where
  "tlv16_efind m q n [] = (None, n)"
| "tlv16_efind m q n [t] = tlv16_find_next m q n t"
| "tlv16_efind m q n (t # u # ts) =
     (case tlv16_find_next m q n t of
        (None, k) \<Rightarrow> (None, k)
      | (Some r, k) \<Rightarrow> tlv16_efind m (Some (r + 16)) (tlv16_len m r) (u # ts))"

definition tlv16_header :: "u64 \<Rightarrow> nat \<Rightarrow> bytes" where
  "tlv16_header t l = le_bytes 8 (unat t) @ le_bytes 8 l"

definition tlv16_add ::
  "bytes \<Rightarrow> nat \<Rightarrow> nat \<Rightarrow> u64 \<Rightarrow> bytes \<Rightarrow> bytes \<times> nat option \<times> nat" where
  "tlv16_add m p r t d =
     (if 16 + length d \<le> r
      then (take p m @ tlv16_header t (length d) @ d @ drop (p + 16 + length d) m,
            Some (p + 16 + length d), r - (16 + length d))
      else (m, None, r))"

definition tlv16 :: std_tlv_api where
  "tlv16 = \<lparr>
     STD_TLV_HDR_LEN = 16,
     std_tlv_tag = tlv16_tag,
     std_tlv_len = tlv16_len,
     std_tlv_set_tag = (\<lambda>m p t. take p m @ le_bytes 8 (unat t) @ drop (p + 8) m),
     std_tlv_set_len = (\<lambda>m p l. take (p + 8) m @ le_bytes 8 l @ drop (p + 16) m),
     std_tlv_total_len = (\<lambda>m p. 16 + tlv16_len m p),
     std_tlv_data = (\<lambda>p. p + 16),
     std_tlv_valid = tlv16_valid,
     std_tlv_next = tlv16_next,
     std_tlv_find_next = tlv16_find_next,
     std_tlv_efind = tlv16_efind,
     std_tlv_add = tlv16_add\<rparr>"

lemma tlv16_sel [simp]:
  "STD_TLV_HDR_LEN tlv16 = 16" "std_tlv_tag tlv16 = tlv16_tag" "std_tlv_len tlv16 = tlv16_len"
  "std_tlv_set_tag tlv16 = (\<lambda>m p t. take p m @ le_bytes 8 (unat t) @ drop (p + 8) m)"
  "std_tlv_set_len tlv16 = (\<lambda>m p l. take (p + 8) m @ le_bytes 8 l @ drop (p + 16) m)"
  "std_tlv_total_len tlv16 = (\<lambda>m p. 16 + tlv16_len m p)" "std_tlv_data tlv16 = (\<lambda>p. p + 16)"
  "std_tlv_valid tlv16 = tlv16_valid" "std_tlv_next tlv16 = tlv16_next"
  "std_tlv_find_next tlv16 = tlv16_find_next" "std_tlv_efind tlv16 = tlv16_efind"
  "std_tlv_add tlv16 = tlv16_add"
  by (simp_all add: tlv16_def)

lemma of_nat_le_val_u64: "(of_nat (le_val (le_bytes 8 (unat (t :: u64)))) :: u64) = t"
proof -
  have "unat t < 2 ^ LENGTH(64)" by (rule unsigned_less)
  then show ?thesis by (simp add: le_val_le_bytes)
qed

lemma le_val_le_bytes_size: "l < size_lim \<Longrightarrow> le_val (le_bytes 8 l) = l"
  by (simp add: le_val_le_bytes size_lim_def)

lemma tlv16_next_simps [simp]:
  "16 + tlv16_len m p \<le> n \<Longrightarrow>
   tlv16_next m (Some p) n = (Some (p + 16 + tlv16_len m p), n - (16 + tlv16_len m p))"
  by (simp add: tlv16_next_def tlv16_valid_def)

lemma tlv16_header_read:
  assumes "p \<le> length m" and "l < size_lim"
  shows "tlv16_tag (take p m @ tlv16_header t l @ r) p = t"
    and "tlv16_len (take p m @ tlv16_header t l @ r) p = l"
  using assms of_nat_le_val_u64 [of t]
  by (simp_all add: tlv16_tag_def tlv16_len_def tlv16_header_def le_val_le_bytes_size min_def)

lemma tlv16_length_header [simp]: "length (tlv16_header t l) = 16"
  by (simp add: tlv16_header_def)

interpretation tlv16: std_tlv tlv16
proof unfold_locales
  fix p r :: nat and m d :: bytes and t :: u64
  assume "STD_TLV_HDR_LEN tlv16 + length d \<le> r" "p + STD_TLV_HDR_LEN tlv16 + length d \<le> length m"
    "r < size_lim"
  then show "\<exists>m' q. std_tlv_add tlv16 m p r t d =
        (m', Some q, r - (STD_TLV_HDR_LEN tlv16 + length d)) \<and>
      length m' = length m \<and> take p m' = take p m \<and>
      std_tlv_tag tlv16 m' p = t \<and> std_tlv_len tlv16 m' p = length d \<and>
      take (length d) (drop (p + STD_TLV_HDR_LEN tlv16) m') = d \<and>
      drop (p + STD_TLV_HDR_LEN tlv16 + length d) m' = drop (p + STD_TLV_HDR_LEN tlv16 + length d) m"
    by (auto simp: tlv16_add_def tlv16_header_read min_def)
next
  fix p m m' t
  assume "p + STD_TLV_HDR_LEN tlv16 \<le> length m" "m' = std_tlv_set_tag tlv16 m p t"
  then show "length m' = length m \<and> take p m' = take p m \<and>
      drop (p + STD_TLV_HDR_LEN tlv16) m' = drop (p + STD_TLV_HDR_LEN tlv16) m \<and>
      std_tlv_tag tlv16 m' p = t \<and> std_tlv_len tlv16 m' p = std_tlv_len tlv16 m p"
    by (auto simp: tlv16_tag_def tlv16_len_def min_def of_nat_le_val_u64 add.commute [of p])
next
  fix p m m' and l :: nat
  assume "p + STD_TLV_HDR_LEN tlv16 \<le> length m" "l < size_lim" "m' = std_tlv_set_len tlv16 m p l"
  then show "length m' = length m \<and> take p m' = take p m \<and>
      drop (p + STD_TLV_HDR_LEN tlv16) m' = drop (p + STD_TLV_HDR_LEN tlv16) m \<and>
      std_tlv_len tlv16 m' p = l \<and> std_tlv_tag tlv16 m' p = std_tlv_tag tlv16 m p"
    by (auto simp: tlv16_tag_def tlv16_len_def min_def le_val_le_bytes_size drop_take)
next
  fix n m q t
  assume "n < STD_TLV_HDR_LEN tlv16"
  then show "fst (std_tlv_find_next tlv16 m q n t) = None"
    by (cases q) (simp_all add: tlv16_valid_def)
next
  fix p and m :: bytes
  assume "p + STD_TLV_HDR_LEN tlv16 \<le> length m"
  then show "std_tlv_len tlv16 m p = std_tlv_len tlv16 (take (STD_TLV_HDR_LEN tlv16) (drop p m)) 0"
    by (simp add: tlv16_len_def drop_take add.commute)
qed (auto simp: tlv16_tag_def tlv16_len_def tlv16_valid_def drop_take min_def
    split: option.splits prod.splits)

end
