(* ===== verification/Cps_Object.thy ===== *)
theory Cps_Object
  imports Cps_Key Cps_Tlv
begin

text \<open>
  The storage of one CPS object: \<^verbatim>\<open>src/cps_api_object.cpp\<close> (attributes, growth, serialisation,
  merging), \<^verbatim>\<open>src/cps_api_object_attr.cpp\<close>, the iterator of \<^verbatim>\<open>inc/opx/cps_api_object_attr.h\<close> and
  the state \<open>cps_api_object_internal_t\<close> of \<^verbatim>\<open>inc/opx/private/cps_api_object_internal.h\<close>.

  An object holds a key and a buffer of \<open>len\<close> bytes whose first \<open>len - remain\<close> bytes are a sequence
  of attributes. The definitions follow the C++ statement by statement on the bytes of the buffer;
  pointers into it are offsets. \<open>Cps_Object_Proofs\<close> relates them to lists of attributes.

  \<open>T\<close> is the \<open>std_tlv\<close> library and \<open>E\<close> the C library's allocator.
\<close>

section \<open>State\<close>

definition KEY_TOKEN :: int where
  "KEY_TOKEN = 0xC11ff"

definition DEF_OBJECT_SIZE :: nat where
  "DEF_OBJECT_SIZE = 512"

definition DEF_OBJECT_REALLOC_STEP_SIZE :: nat where
  "DEF_OBJECT_REALLOC_STEP_SIZE = 128"

text \<open>\<open>sizeof(cps_api_object_data_t)\<close>, the key in front of the attributes, and of the object header.\<close>

definition sizeof_object_data :: nat where
  "sizeof_object_data = CPS_OBJ_KEY_BYTE_MAX_LEN"

definition sizeof_object_internal :: nat where
  "sizeof_object_internal = 64"

definition CPS_API_MIN_OBJ_LEN :: nat where
  "CPS_API_MIN_OBJ_LEN = CPS_OBJ_KEY_BYTE_MAX_LEN + 100 + 256"

record cps_api_object_internal_t =
  obj_len :: nat
  obj_remain :: nat
  obj_allocated :: bool
  obj_token :: int
  obj_key :: cps_api_key_t
  obj_buf :: bytes
  obj_ref_count :: nat

type_synonym cps_obj = cps_api_object_internal_t

text \<open>
  The allocator: which request sizes succeed, and what fresh memory holds. A request of a given
  size has one outcome during an operation.
\<close>

record libc =
  alloc_ok :: "nat \<Rightarrow> bool"
  alloc_junk :: "nat \<Rightarrow> u8"

definition fresh_bytes :: "libc \<Rightarrow> nat \<Rightarrow> nat \<Rightarrow> bytes" where
  "fresh_bytes E a b = map (alloc_junk E) [a..<b]"

definition fresh_key :: "libc \<Rightarrow> cps_api_key_t" where
  "fresh_key E = map (\<lambda>i. bytes_u32 (fresh_bytes E (4 * i) (4 * i + 4))) [0..<64]"

section \<open>Buffer management\<close>

definition obj_used_len :: "cps_obj \<Rightarrow> nat" where
  "obj_used_len p = sz_sub (obj_len p) (obj_remain p)"

text \<open>\<open>obj_realloc\<close> returns \<open>NULL\<close> (here \<open>None\<close>) or the object with a buffer of the new size.\<close>

definition obj_realloc :: "libc \<Rightarrow> cps_obj \<Rightarrow> nat \<Rightarrow> cps_obj option" where
  "obj_realloc E cur len =
     (if \<not> obj_allocated cur then None
      else if \<not> alloc_ok E (sz_add len sizeof_object_data) then None
      else Some (cur\<lparr>obj_buf := take len (obj_buf cur) @ fresh_bytes E (length (obj_buf cur)) len,
                     obj_remain := sz_add (obj_remain cur) (sz_sub len (obj_len cur)),
                     obj_len := len\<rparr>))"

definition obj_alloc :: "libc \<Rightarrow> nat \<Rightarrow> cps_obj option" where
  "obj_alloc E len =
     (if \<not> alloc_ok E sizeof_object_internal then None
      else if \<not> alloc_ok E (sizeof_object_data + len) then None
      else Some \<lparr>obj_len = len, obj_remain = len, obj_allocated = True, obj_token = KEY_TOKEN,
                 obj_key = fresh_key E, obj_buf = fresh_bytes E 0 len, obj_ref_count = 1\<rparr>)"

definition reserve_spacespace :: "libc \<Rightarrow> cps_obj \<Rightarrow> nat \<Rightarrow> bool \<times> cps_obj" where
  "reserve_spacespace E p len =
     (if obj_remain p < len then
        (case obj_realloc E p (sz_add (sz_add len (obj_used_len p)) DEF_OBJECT_REALLOC_STEP_SIZE) of
           None \<Rightarrow> (False, p)
         | Some p' \<Rightarrow> (True, p'))
      else (True, p))"

text \<open>
  The object part of \<open>cps_api_object_create\<close>: the result of \<open>obj_alloc\<close> is used without a check
  that stops, so a failed allocation dereferences \<open>NULL\<close>.
\<close>

definition object_create_storage :: "libc \<Rightarrow> cps_obj option" where
  "object_create_storage E = do {
     obj \<leftarrow> obj_alloc E DEF_OBJECT_SIZE;
     k \<leftarrow> cps_api_key_set_len (obj_key obj) 0;
     Some (obj\<lparr>obj_key := k\<rparr>)
   }"

text \<open>\<open>cps_api_object_init\<close> places an object in a caller's buffer; such an object never grows.\<close>

definition cps_api_object_init :: "bytes \<Rightarrow> nat \<Rightarrow> cps_obj option option" where
  "cps_api_object_init mem bufflen =
     (if bufflen < CPS_API_MIN_OBJ_LEN then Some None
      else if length mem < bufflen then None
      else do {
        let bufflen = bufflen - sizeof_object_internal;
        let remain = bufflen - sizeof_object_data;
        let d = drop sizeof_object_internal mem;
        let key = map (\<lambda>i. bytes_u32 (drop (4 * i) d)) [0..<64];
        k \<leftarrow> cps_api_key_set_len key 0;
        Some (Some \<lparr>obj_len = remain, obj_remain = remain, obj_allocated = False,
          obj_token = KEY_TOKEN, obj_key = k, obj_buf = take remain (drop sizeof_object_data d),
          obj_ref_count = 1\<rparr>)
      })"

definition cps_api_object_reserve :: "libc \<Rightarrow> cps_obj \<Rightarrow> nat \<Rightarrow> bool \<times> cps_obj" where
  "cps_api_object_reserve E obj amount =
     (case obj_realloc E obj amount of None \<Rightarrow> (False, obj) | Some p \<Rightarrow> (True, p))"

definition cps_api_object_get_reserve_len :: "cps_obj \<Rightarrow> nat" where
  "cps_api_object_get_reserve_len obj = obj_len obj"

definition cps_api_object_set_key :: "cps_obj \<Rightarrow> cps_api_key_t \<Rightarrow> cps_obj option" where
  "cps_api_object_set_key obj key = do {
     k \<leftarrow> cps_api_key_copy (obj_key obj) key;
     Some (obj\<lparr>obj_key := k\<rparr>)
   }"

text \<open>
  \<open>cps_api_object_swap\<close> exchanges everything but the reference counts. The counts are written in
  this order: the right one takes the left object's count, which is by then the right object's
  old count, and the left one takes the saved count.
\<close>

definition cps_api_object_swap :: "cps_obj \<Rightarrow> cps_obj \<Rightarrow> cps_obj \<times> cps_obj" where
  "cps_api_object_swap lhs rhs =
     (let old_lhs = lhs; lhs = rhs; rhs = old_lhs;
          rhs = rhs\<lparr>obj_ref_count := obj_ref_count lhs\<rparr>;
          lhs = lhs\<lparr>obj_ref_count := obj_ref_count old_lhs\<rparr>
      in (lhs, rhs))"

section \<open>Attribute iterators\<close>

record cps_api_object_it_t =
  it_len :: nat
  it_attr :: "nat option"

definition cps_api_object_it_begin :: "cps_obj \<Rightarrow> cps_api_object_it_t" where
  "cps_api_object_it_begin obj = \<lparr>it_len = obj_used_len obj, it_attr = Some 0\<rparr>"

definition cps_api_object_it_valid :: "std_tlv_api \<Rightarrow> bytes \<Rightarrow> cps_api_object_it_t \<Rightarrow> bool" where
  "cps_api_object_it_valid T m it = std_tlv_valid T m (it_attr it) (it_len it)"

definition cps_api_object_it_inside ::
  "std_tlv_api \<Rightarrow> bytes \<Rightarrow> cps_api_object_it_t \<Rightarrow> cps_api_object_it_t option" where
  "cps_api_object_it_inside T m it =
     (case it_attr it of
        None \<Rightarrow> None
      | Some p \<Rightarrow> Some \<lparr>it_len = std_tlv_len T m p, it_attr = Some (std_tlv_data T p)\<rparr>)"

definition cps_api_object_it_find ::
  "std_tlv_api \<Rightarrow> bytes \<Rightarrow> cps_api_object_it_t \<Rightarrow> u64 \<Rightarrow> nat option" where
  "cps_api_object_it_find T m it tag = fst (std_tlv_find_next T m (it_attr it) (it_len it) tag)"

definition cps_api_object_it_next ::
  "std_tlv_api \<Rightarrow> bytes \<Rightarrow> cps_api_object_it_t \<Rightarrow> bool \<times> cps_api_object_it_t" where
  "cps_api_object_it_next T m it =
     (case std_tlv_next T m (it_attr it) (it_len it) of
        (q, l) \<Rightarrow> (q \<noteq> None \<and> l \<noteq> 0, \<lparr>it_len = l, it_attr = q\<rparr>))"

definition cps_api_object_it_from_attr :: "std_tlv_api \<Rightarrow> bytes \<Rightarrow> nat \<Rightarrow> cps_api_object_it_t" where
  "cps_api_object_it_from_attr T m attr = \<lparr>it_len = std_tlv_total_len T m attr, it_attr = Some attr\<rparr>"

definition cps_api_object_attr_id :: "std_tlv_api \<Rightarrow> bytes \<Rightarrow> nat \<Rightarrow> u64" where
  "cps_api_object_attr_id T m attr = std_tlv_tag T m attr"

definition cps_api_object_attr_len :: "std_tlv_api \<Rightarrow> bytes \<Rightarrow> nat \<Rightarrow> nat" where
  "cps_api_object_attr_len T m attr = std_tlv_len T m attr"

text \<open>The data an attribute points to, as many bytes as its length says.\<close>

definition attr_data :: "std_tlv_api \<Rightarrow> bytes \<Rightarrow> nat \<Rightarrow> bytes" where
  "attr_data T m attr = take (std_tlv_len T m attr) (drop (std_tlv_data T attr) m)"

text \<open>Reading an integer of \<open>n\<close> bytes from the data pointer, whatever the attribute's length.\<close>

definition attr_uint :: "std_tlv_api \<Rightarrow> bytes \<Rightarrow> nat \<Rightarrow> nat \<Rightarrow> nat option" where
  "attr_uint T m attr n =
     (if std_tlv_data T attr + n \<le> length m
      then Some (le_val (take n (drop (std_tlv_data T attr) m))) else None)"

definition cps_api_object_attr_data_uint :: "std_tlv_api \<Rightarrow> bytes \<Rightarrow> nat \<Rightarrow> nat option" where
  "cps_api_object_attr_data_uint T m attr =
     (let len = cps_api_object_attr_len T m attr in
      if len = 1 then attr_uint T m attr 1
      else if len = 2 then attr_uint T m attr 2
      else if len = 4 then attr_uint T m attr 4
      else Some 0)"

definition cps_api_object_attrs_compare ::
  "std_tlv_api \<Rightarrow> bytes \<Rightarrow> nat \<Rightarrow> bytes \<Rightarrow> nat \<Rightarrow> int" where
  "cps_api_object_attrs_compare T ml lhs mr rhs =
     (let len_l = cps_api_object_attr_len T ml lhs;
          len_r = cps_api_object_attr_len T mr rhs;
          smallest = min len_l len_r;
          rc = memcmp (drop (std_tlv_data T lhs) ml) (drop (std_tlv_data T rhs) mr) smallest
      in if rc \<noteq> 0 then rc else to_int32 (sz_sub len_l len_r))"

text \<open>The inner loop of \<open>cps_api_object_it_attr_replace\<close> over the match list.\<close>

fun attr_replace_one :: "std_tlv_api \<Rightarrow> bytes \<Rightarrow> nat \<Rightarrow> u64 \<Rightarrow> (u64 \<times> u64) list \<Rightarrow> bytes" where
  "attr_replace_one T m p i [] = m"
| "attr_replace_one T m p i ((mt, rp) # rs) =
     attr_replace_one T (if i = mt then std_tlv_set_tag T m p rp else m) p i rs"

partial_function (option) cps_api_object_it_attr_replace ::
  "std_tlv_api \<Rightarrow> bytes \<Rightarrow> cps_api_object_it_t \<Rightarrow> (u64 \<times> u64) list \<Rightarrow> bytes option" where
  "cps_api_object_it_attr_replace T m it pairs =
     (if cps_api_object_it_valid T m it then
        (case it_attr it of
           None \<Rightarrow> None
         | Some p \<Rightarrow>
             (let m' = attr_replace_one T m p (cps_api_object_attr_id T m p) pairs in
              cps_api_object_it_attr_replace T m' (snd (cps_api_object_it_next T m' it)) pairs))
      else Some m)"

definition cps_api_object_it_attr_walk ::
  "std_tlv_api \<Rightarrow> bytes \<Rightarrow> cps_api_object_it_t \<Rightarrow> u64 \<Rightarrow> (bool \<times> cps_api_object_it_t) option" where
  "cps_api_object_it_attr_walk T m it attr_id =
     (case cps_api_object_it_find T m it attr_id of
        None \<Rightarrow> Some (False, \<lparr>it_len = 0, it_attr = map_option (\<lambda>p. p + it_len it) (it_attr it)\<rparr>)
      | Some a \<Rightarrow>
          (case it_attr it of
             None \<Rightarrow> None
           | Some p \<Rightarrow>
               (let offset = a - p in
                if offset < it_len it
                then Some (True, \<lparr>it_len = it_len it - offset, it_attr = Some a\<rparr>)
                else None)))"

section \<open>Finding attributes\<close>

partial_function (option) attr_get_loop ::
  "std_tlv_api \<Rightarrow> bytes \<Rightarrow> nat option \<Rightarrow> nat \<Rightarrow> u64 \<Rightarrow> nat option option" where
  "attr_get_loop T m tlv len attr =
     (if len \<ge> STD_TLV_HDR_LEN T then
        (case tlv of
           None \<Rightarrow> None
         | Some p \<Rightarrow>
             if attr = std_tlv_tag T m p then Some (Some p)
             else attr_get_loop T m (fst (std_tlv_next T m tlv len)) (snd (std_tlv_next T m tlv len)) attr)
      else Some None)"

definition cps_api_object_attr_get :: "std_tlv_api \<Rightarrow> cps_obj \<Rightarrow> u64 \<Rightarrow> nat option option" where
  "cps_api_object_attr_get T obj attr =
     attr_get_loop T (obj_buf obj) (Some 0) (obj_used_len obj) attr"

fun cps_api_object_attr_get_list ::
  "std_tlv_api \<Rightarrow> cps_obj \<Rightarrow> u64 list \<Rightarrow> (bool \<times> nat option list) option" where
  "cps_api_object_attr_get_list T obj [] = Some (True, [])"
| "cps_api_object_attr_get_list T obj (a # as) = do {
     p \<leftarrow> cps_api_object_attr_get T obj a;
     if p = None then Some (False, [None])
     else do {
       (rc, ps) \<leftarrow> cps_api_object_attr_get_list T obj as;
       Some (rc, p # ps)
     }
   }"

definition cps_api_object_e_get :: "std_tlv_api \<Rightarrow> cps_obj \<Rightarrow> u64 list \<Rightarrow> nat option" where
  "cps_api_object_e_get T obj ids =
     fst (std_tlv_efind T (obj_buf obj) (Some 0) (obj_used_len obj) ids)"

text \<open>\<open>cps_api_object_e_get_data\<close> returns the data pointer.\<close>

definition cps_api_object_e_get_data :: "std_tlv_api \<Rightarrow> cps_obj \<Rightarrow> u64 list \<Rightarrow> nat option" where
  "cps_api_object_e_get_data T obj ids =
     (case cps_api_object_e_get T obj ids of None \<Rightarrow> None | Some a \<Rightarrow> Some (std_tlv_data T a))"

definition cps_api_object_get_data :: "std_tlv_api \<Rightarrow> cps_obj \<Rightarrow> u64 \<Rightarrow> nat option" where
  "cps_api_object_get_data T obj attr_id = cps_api_object_e_get_data T obj [attr_id]"

text \<open>\<open>cps_api_object_it\<close>: descend along a path; the iterator is left at the last element found.\<close>

fun object_it_path ::
  "std_tlv_api \<Rightarrow> bytes \<Rightarrow> cps_api_object_it_t \<Rightarrow> u64 list \<Rightarrow> (bool \<times> cps_api_object_it_t) option" where
  "object_it_path T m it [] = Some (False, it)"
| "object_it_path T m it (i # is) =
     (case std_tlv_find_next T m (it_attr it) (it_len it) i of
        (q, l) \<Rightarrow>
          (let it' = \<lparr>it_len = l, it_attr = q\<rparr> in
           if \<not> cps_api_object_it_valid T m it' then Some (False, it')
           else if is = [] then Some (True, it')
           else do {
             inside \<leftarrow> cps_api_object_it_inside T m it';
             object_it_path T m inside is
           }))"

definition cps_api_object_it ::
  "std_tlv_api \<Rightarrow> cps_obj \<Rightarrow> u64 list \<Rightarrow> (bool \<times> cps_api_object_it_t) option" where
  "cps_api_object_it T obj ids = object_it_path T (obj_buf obj) (cps_api_object_it_begin obj) ids"

text \<open>The loop that collects the data pointers of the elements of a leaf list.\<close>

partial_function (option) e_get_list_loop ::
  "std_tlv_api \<Rightarrow> bytes \<Rightarrow> cps_api_object_it_t \<Rightarrow> u64 \<Rightarrow> nat \<Rightarrow> nat list \<Rightarrow> nat list option" where
  "e_get_list_loop T m it tag attr_max acc =
     (if length acc \<ge> attr_max then Some acc
      else (case it_attr it of
         None \<Rightarrow> None
       | Some p \<Rightarrow>
           (let acc' = acc @ [std_tlv_data T p];
                it' = snd (cps_api_object_it_next T m it);
                f = std_tlv_find_next T m (it_attr it') (it_len it') tag;
                it'' = \<lparr>it_len = snd f, it_attr = fst f\<rparr>
            in if cps_api_object_it_valid T m it''
               then e_get_list_loop T m it'' tag attr_max acc' else Some acc')))"

definition cps_api_object_e_get_list_data ::
  "std_tlv_api \<Rightarrow> cps_obj \<Rightarrow> u64 list \<Rightarrow> nat \<Rightarrow> nat list option" where
  "cps_api_object_e_get_list_data T obj ids attr_max = do {
     (ok, it) \<leftarrow> cps_api_object_it T obj ids;
     if \<not> ok then Some []
     else e_get_list_loop T (obj_buf obj) it (last ids) attr_max []
   }"

text \<open>\<open>cps_api_object_attr_fill_list\<close>: one slot per attribute id of a range, the last value wins.\<close>

partial_function (option) attr_fill_loop ::
  "std_tlv_api \<Rightarrow> bytes \<Rightarrow> nat option \<Rightarrow> nat \<Rightarrow> nat \<Rightarrow> nat option list \<Rightarrow> nat option list option" where
  "attr_fill_loop T m ptr used_len base slots =
     (case ptr of
        None \<Rightarrow> Some slots
      | Some p \<Rightarrow>
          if used_len > 0 then
            (let tag = unat (std_tlv_tag T m p); offset = sz_sub tag base;
                 slots' = (if tag \<ge> base \<and> offset < length slots then slots[offset := Some p] else slots)
             in attr_fill_loop T m (fst (std_tlv_next T m ptr used_len))
                  (snd (std_tlv_next T m ptr used_len)) base slots')
          else Some slots)"

definition cps_api_object_attr_fill_list ::
  "std_tlv_api \<Rightarrow> cps_obj \<Rightarrow> nat \<Rightarrow> nat \<Rightarrow> nat option list option" where
  "cps_api_object_attr_fill_list T obj base len =
     (let slots = replicate len None in
      if \<not> std_tlv_valid T (obj_buf obj) (Some 0) (obj_used_len obj) then Some slots
      else attr_fill_loop T (obj_buf obj) (Some 0) (obj_used_len obj) base slots)"

section \<open>Deleting attributes\<close>

definition object_attr_delete_one ::
  "std_tlv_api \<Rightarrow> cps_obj \<Rightarrow> u64 \<Rightarrow> (bool \<times> cps_obj) option" where
  "object_attr_delete_one T p attr_id = do {
     attr \<leftarrow> cps_api_object_attr_get T p attr_id;
     (case attr of
        None \<Rightarrow> Some (False, p)
      | Some a \<Rightarrow> do {
          let tlv_end = obj_used_len p;
          let rm_len = std_tlv_total_len T (obj_buf p) a;
          let tlv_rm_end = a + rm_len;
          let copy_len = sz_sub tlv_end tlv_rm_end;
          m \<leftarrow> memmove (obj_buf p) a tlv_rm_end copy_len;
          Some (True, p\<lparr>obj_buf := m, obj_remain := sz_add (obj_remain p) rm_len\<rparr>)
        })
   }"

partial_function (option) attr_delete_rest ::
  "std_tlv_api \<Rightarrow> cps_obj \<Rightarrow> u64 \<Rightarrow> cps_obj option" where
  "attr_delete_rest T p attr_id = do {
     (again, p') \<leftarrow> object_attr_delete_one T p attr_id;
     if again then attr_delete_rest T p' attr_id else Some p'
   }"

definition cps_api_object_attr_delete ::
  "std_tlv_api \<Rightarrow> cps_obj \<Rightarrow> u64 \<Rightarrow> (bool \<times> cps_obj) option" where
  "cps_api_object_attr_delete T p attr_id = do {
     (first_time, p) \<leftarrow> object_attr_delete_one T p attr_id;
     if first_time then map_option (\<lambda>p. (True, p)) (attr_delete_rest T p attr_id)
     else Some (False, p)
   }"

text \<open>Deleting the attribute an iterator stands on.\<close>

definition cps_api_object_delete_it ::
  "std_tlv_api \<Rightarrow> cps_obj \<Rightarrow> cps_api_object_it_t \<Rightarrow> (bool \<times> cps_obj) option" where
  "cps_api_object_delete_it T p it =
     (if \<not> cps_api_object_it_valid T (obj_buf p) it then Some (False, p)
      else (case it_attr it of
         None \<Rightarrow> None
       | Some a \<Rightarrow>
           (let e = obj_used_len p; it_size = std_tlv_total_len T (obj_buf p) a; it_end = a + it_size in
            if a > e then Some (False, p)
            else if it_end > e then Some (False, p)
            else do {
              m \<leftarrow> memmove (obj_buf p) a it_end (e - it_end);
              Some (True, p\<lparr>obj_buf := m, obj_remain := sz_add (obj_remain p) it_size\<rparr>)
            })))"

section \<open>Adding attributes\<close>

datatype cps_api_object_ATTR_TYPE_t =
    cps_api_object_ATTR_T_U16
  | cps_api_object_ATTR_T_U32
  | cps_api_object_ATTR_T_U64
  | cps_api_object_ATTR_T_BIN

definition cps_api_object_int_type_for_len :: "nat \<Rightarrow> cps_api_object_ATTR_TYPE_t" where
  "cps_api_object_int_type_for_len len =
     (let types = [cps_api_object_ATTR_T_BIN, cps_api_object_ATTR_T_BIN, cps_api_object_ATTR_T_U16,
        cps_api_object_ATTR_T_BIN, cps_api_object_ATTR_T_U32, cps_api_object_ATTR_T_BIN,
        cps_api_object_ATTR_T_BIN, cps_api_object_ATTR_T_BIN, cps_api_object_ATTR_T_U64]
      in if len \<ge> length types then cps_api_object_ATTR_T_BIN else types ! len)"

text \<open>
  \<open>add_attribute\<close>: reserve room, then let the library append. \<open>data\<close> is the caller's memory, of
  which \<open>dlen\<close> bytes are read.
\<close>

definition add_attribute ::
  "std_tlv_api \<Rightarrow> libc \<Rightarrow> cps_obj \<Rightarrow> u64 \<Rightarrow> nat \<Rightarrow> bytes \<Rightarrow> (bool \<times> cps_obj) option" where
  "add_attribute T E p attr dlen dat =
     (case reserve_spacespace E p (sz_add dlen (STD_TLV_HDR_LEN T)) of
        (False, p) \<Rightarrow> Some (False, p)
      | (True, p) \<Rightarrow>
          if dlen > length dat then None
          else (case std_tlv_add T (obj_buf p) (obj_used_len p) (obj_remain p) attr (take dlen dat) of
            (m, ptr, remain) \<Rightarrow> Some (ptr \<noteq> None, p\<lparr>obj_buf := m, obj_remain := remain\<rparr>)))"

text \<open>
  The first loop of \<open>add_embedded\<close>: how many containers of the path exist already. After a hit the
  search goes on in the data of the container, but up to the end of everything that follows it,
  not to the end of the container.
\<close>

fun embedded_count :: "std_tlv_api \<Rightarrow> bytes \<Rightarrow> nat option \<Rightarrow> nat \<Rightarrow> u64 list \<Rightarrow> nat" where
  "embedded_count T m tlv len [] = 0"
| "embedded_count T m tlv len (i # is) =
     (case std_tlv_find_next T m tlv len i of
        (None, l) \<Rightarrow> 0
      | (Some q, l) \<Rightarrow>
          Suc (embedded_count T m (Some (std_tlv_data T q)) (sz_sub l (STD_TLV_HDR_LEN T)) is))"

text \<open>
  The second loop: enlarge the containers of the path that exist. The result is the buffer, the
  place the last one's data starts, its length, and the part of the path that is missing.
\<close>

fun embedded_grow ::
  "std_tlv_api \<Rightarrow> bytes \<Rightarrow> nat \<Rightarrow> nat \<Rightarrow> nat \<Rightarrow> u64 list \<Rightarrow> bytes \<times> nat \<times> nat \<times> u64 list" where
  "embedded_grow T m tlv cur_len need [] = (m, tlv, cur_len, [])"
| "embedded_grow T m tlv cur_len need (i # is) =
     (case std_tlv_find_next T m (Some tlv) cur_len i of
        (None, l) \<Rightarrow> (m, tlv, cur_len, i # is)
      | (Some q, l) \<Rightarrow>
          (let tl = std_tlv_len T m q; m' = std_tlv_set_len T m q (sz_add tl need)
           in embedded_grow T m' (std_tlv_data T q) tl need is))"

text \<open>The third loop: write the headers of the missing containers.\<close>

fun embedded_headers ::
  "std_tlv_api \<Rightarrow> bytes \<Rightarrow> nat \<Rightarrow> nat \<Rightarrow> u64 list \<Rightarrow> (bytes \<times> nat) option" where
  "embedded_headers T m tlv need [] = Some (m, tlv)"
| "embedded_headers T m tlv need (i # is) =
     (if tlv + STD_TLV_HDR_LEN T > length m then None
      else
        (let need = sz_sub need (STD_TLV_HDR_LEN T);
             m = std_tlv_set_len T m tlv need;
             m = std_tlv_set_tag T m tlv i
         in embedded_headers T m (tlv + STD_TLV_HDR_LEN T) need is))"

definition add_embedded ::
  "std_tlv_api \<Rightarrow> libc \<Rightarrow> cps_obj \<Rightarrow> u64 list \<Rightarrow> bytes \<Rightarrow> nat \<Rightarrow> (bool \<times> cps_obj) option" where
  "add_embedded T E obj ids dat dlen =
     (if ids = [] then None
      else do {
        let current_obj_len = obj_used_len obj;
        let path = butlast ids;
        let ix = embedded_count T (obj_buf obj) (Some 0) current_obj_len path;
        let remaining_needed = sz_add dlen (STD_TLV_HDR_LEN T * (length ids - ix));
        (case reserve_spacespace E obj remaining_needed of
           (False, obj) \<Rightarrow> Some (False, obj)
         | (True, obj) \<Rightarrow> do {
             let obj = obj\<lparr>obj_remain := sz_sub (obj_remain obj) remaining_needed\<rparr>;
             let (m, tlv, cur_tlv_len, missing) =
               embedded_grow T (obj_buf obj) 0 current_obj_len remaining_needed path;
             let tlv = tlv + cur_tlv_len;
             let left = sz_sub current_obj_len tlv;
             m \<leftarrow> memmove m (tlv + remaining_needed) tlv left;
             (m, tlv) \<leftarrow> embedded_headers T m tlv remaining_needed missing;
             if tlv + STD_TLV_HDR_LEN T > length m then None
             else do {
               let m = std_tlv_set_tag T m tlv (last ids);
               let m = std_tlv_set_len T m tlv dlen;
               m \<leftarrow> (if dlen \<le> length dat then memcpy m (std_tlv_data T tlv) (take dlen dat) else None);
               Some (True, obj\<lparr>obj_buf := m\<rparr>)
             }
           })
      })"

text \<open>
  \<open>cps_api_object_e_add\<close>: integers are read from the caller's memory into a union of eight bytes
  and stored from there; a length that does not fit the type is logged and used all the same.
\<close>

definition e_add_data ::
  "libc \<Rightarrow> cps_api_object_ATTR_TYPE_t \<Rightarrow> bytes \<Rightarrow> bytes option" where
  "e_add_data E type dat =
     (let un = (\<lambda>n. if n \<le> length dat then Some (take n dat @ fresh_bytes E n 8) else None) in
      case type of
        cps_api_object_ATTR_T_U16 \<Rightarrow> un 2
      | cps_api_object_ATTR_T_U32 \<Rightarrow> un 4
      | cps_api_object_ATTR_T_U64 \<Rightarrow> un 8
      | cps_api_object_ATTR_T_BIN \<Rightarrow> Some dat)"

definition cps_api_object_e_add ::
  "std_tlv_api \<Rightarrow> libc \<Rightarrow> cps_obj \<Rightarrow> u64 list \<Rightarrow> cps_api_object_ATTR_TYPE_t \<Rightarrow> bytes \<Rightarrow> nat \<Rightarrow>
     (bool \<times> cps_obj) option" where
  "cps_api_object_e_add T E obj ids type dat dlen = do {
     d \<leftarrow> e_add_data E type dat;
     (case ids of
        [i] \<Rightarrow> add_attribute T E obj i dlen d
      | _ \<Rightarrow> add_embedded T E obj ids d dlen)
   }"

definition cps_api_object_e_add_object ::
  "std_tlv_api \<Rightarrow> libc \<Rightarrow> cps_obj \<Rightarrow> u64 list \<Rightarrow> cps_obj \<Rightarrow> (bool \<times> cps_obj) option" where
  "cps_api_object_e_add_object T E obj ids emb =
     cps_api_object_e_add T E obj ids cps_api_object_ATTR_T_BIN (obj_buf emb) (obj_used_len emb)"

definition cps_api_object_e_add_int ::
  "std_tlv_api \<Rightarrow> libc \<Rightarrow> cps_obj \<Rightarrow> u64 list \<Rightarrow> bytes \<Rightarrow> nat \<Rightarrow> (bool \<times> cps_obj) option" where
  "cps_api_object_e_add_int T E obj ids dat len =
     cps_api_object_e_add T E obj ids (cps_api_object_int_type_for_len len) dat len"

definition cps_api_object_attr_add ::
  "std_tlv_api \<Rightarrow> libc \<Rightarrow> cps_obj \<Rightarrow> u64 \<Rightarrow> bytes \<Rightarrow> nat \<Rightarrow> (bool \<times> cps_obj) option" where
  "cps_api_object_attr_add T E obj i dat len =
     cps_api_object_e_add T E obj [i] cps_api_object_ATTR_T_BIN dat len"

definition cps_api_object_attr_add_u16 ::
  "std_tlv_api \<Rightarrow> libc \<Rightarrow> cps_obj \<Rightarrow> u64 \<Rightarrow> u16 \<Rightarrow> (bool \<times> cps_obj) option" where
  "cps_api_object_attr_add_u16 T E obj i v =
     cps_api_object_e_add T E obj [i] cps_api_object_ATTR_T_U16 (le_bytes 2 (unat v)) 2"

definition cps_api_object_attr_add_u32 ::
  "std_tlv_api \<Rightarrow> libc \<Rightarrow> cps_obj \<Rightarrow> u64 \<Rightarrow> u32 \<Rightarrow> (bool \<times> cps_obj) option" where
  "cps_api_object_attr_add_u32 T E obj i v =
     cps_api_object_e_add T E obj [i] cps_api_object_ATTR_T_U32 (le_bytes 4 (unat v)) 4"

definition cps_api_object_attr_add_u64 ::
  "std_tlv_api \<Rightarrow> libc \<Rightarrow> cps_obj \<Rightarrow> u64 \<Rightarrow> u64 \<Rightarrow> (bool \<times> cps_obj) option" where
  "cps_api_object_attr_add_u64 T E obj i v =
     cps_api_object_e_add T E obj [i] cps_api_object_ATTR_T_U64 (le_bytes 8 (unat v)) 8"

section \<open>Copying, merging and serialising\<close>

text \<open>
  \<open>cps_api_object_clone\<close> copies the whole key and the used part of the buffer. When the
  destination is too small it is made as large as the source's buffer.
\<close>

definition cps_api_object_clone :: "libc \<Rightarrow> cps_obj \<Rightarrow> cps_obj \<Rightarrow> (bool \<times> cps_obj) option" where
  "cps_api_object_clone E d s =
     (let amt = obj_used_len s;
          d' = (if obj_len d < amt then obj_realloc E d (obj_len s) else Some d)
      in case d' of
           None \<Rightarrow> Some (False, d)
         | Some d' \<Rightarrow>
             if amt > length (obj_buf s) then None
             else do {
               m \<leftarrow> memcpy (obj_buf d') 0 (take amt (obj_buf s));
               Some (True, d'\<lparr>obj_key := obj_key s, obj_buf := m,
                                obj_remain := sz_sub (obj_len d') amt\<rparr>)
             })"

partial_function (option) delete_until_gone ::
  "std_tlv_api \<Rightarrow> cps_obj \<Rightarrow> u64 \<Rightarrow> cps_obj option" where
  "delete_until_gone T d i = do {
     (found, d') \<leftarrow> cps_api_object_attr_delete T d i;
     if \<not> found then Some d' else delete_until_gone T d' i
   }"

text \<open>
  The loop of \<open>__delete_repeated_attributes\<close>: remove from the destination every attribute the
  source has, and note the source's attributes of length zero.
\<close>

partial_function (option) delete_repeated_loop ::
  "std_tlv_api \<Rightarrow> bytes \<Rightarrow> cps_api_object_it_t \<Rightarrow> cps_obj \<Rightarrow> u64 list \<Rightarrow> (cps_obj \<times> u64 list) option"
where
  "delete_repeated_loop T m it d ids =
     (if cps_api_object_it_valid T m it then
        (case it_attr it of
           None \<Rightarrow> None
         | Some p \<Rightarrow> do {
             let i = cps_api_object_attr_id T m p;
             let ids' = (if cps_api_object_attr_len T m p = 0 then ids @ [i] else ids);
             d' \<leftarrow> delete_until_gone T d i;
             delete_repeated_loop T m (snd (cps_api_object_it_next T m it)) d' ids'
           })
      else Some (d, ids))"

fun delete_ids :: "std_tlv_api \<Rightarrow> cps_obj \<Rightarrow> u64 list \<Rightarrow> cps_obj option" where
  "delete_ids T s [] = Some s"
| "delete_ids T s (i # is) = do {
     (_, s') \<leftarrow> cps_api_object_attr_delete T s i;
     delete_ids T s' is
   }"

definition delete_repeated_attributes ::
  "std_tlv_api \<Rightarrow> cps_obj \<Rightarrow> cps_obj \<Rightarrow> (cps_obj \<times> cps_obj) option" where
  "delete_repeated_attributes T d s = do {
     (d', ids) \<leftarrow> delete_repeated_loop T (obj_buf s) (cps_api_object_it_begin s) d [];
     s' \<leftarrow> delete_ids T s ids;
     Some (d', s')
   }"

text \<open>
  \<open>cps_api_object_attr_merge\<close> works on a fresh copy of the source, whose cloning result it does
  not look at.
\<close>

definition cps_api_object_attr_merge ::
  "std_tlv_api \<Rightarrow> libc \<Rightarrow> cps_obj \<Rightarrow> cps_obj \<Rightarrow> bool \<Rightarrow> (bool \<times> cps_obj) option" where
  "cps_api_object_attr_merge T E dest s remove_dup = do {
     og \<leftarrow> object_create_storage E;
     (_, src) \<leftarrow> cps_api_object_clone E og s;
     let cur = obj_used_len dest;
     let amt = obj_used_len src;
     if amt = 0 then Some (True, dest)
     else do {
       (dest, src) \<leftarrow> (if remove_dup \<and> cur > 0 then delete_repeated_attributes T dest src
                      else Some (dest, src));
       let cur = obj_used_len dest;
       let amt = obj_used_len src;
       let tot = sz_add amt cur;
       (case (if obj_len dest < tot then obj_realloc E dest tot else Some dest) of
          None \<Rightarrow> Some (False, dest)
        | Some dest \<Rightarrow>
            if amt > length (obj_buf src) then None
            else do {
              m \<leftarrow> memcpy (obj_buf dest) (obj_used_len dest) (take amt (obj_buf src));
              Some (True, dest\<lparr>obj_buf := m, obj_remain := sz_sub (obj_remain dest) amt\<rparr>)
            })
     }
   }"

definition cps_api_object_to_array_len :: "cps_obj \<Rightarrow> nat" where
  "cps_api_object_to_array_len obj = sz_add (obj_used_len obj) sizeof_object_data"

text \<open>The memory \<open>cps_api_object_array\<close> points to: the key followed by the attribute buffer.\<close>

definition cps_api_object_array :: "cps_obj \<Rightarrow> bytes" where
  "cps_api_object_array obj = concat (map u32_bytes (obj_key obj)) @ obj_buf obj"

definition key_of_bytes :: "bytes \<Rightarrow> cps_api_key_t" where
  "key_of_bytes bs = map (\<lambda>i. bytes_u32 (take 4 (drop (4 * i) bs))) [0..<64]"

definition cps_api_array_to_object ::
  "libc \<Rightarrow> bytes \<Rightarrow> nat \<Rightarrow> cps_obj \<Rightarrow> (bool \<times> cps_obj) option" where
  "cps_api_array_to_object E dat len obj =
     (if len < sizeof_object_data then Some (False, obj)
      else
        (let p = obj\<lparr>obj_remain := obj_len obj\<rparr> in
         case obj_realloc E p len of
           None \<Rightarrow> Some (False, p)
         | Some p \<Rightarrow>
             if len > length dat then None
             else do {
               m \<leftarrow> memcpy (obj_buf p) 0 (take (len - sizeof_object_data) (drop sizeof_object_data dat));
               Some (True, p\<lparr>obj_key := key_of_bytes dat, obj_buf := m,
                 obj_remain := sz_add (sz_sub (obj_len p) len) sizeof_object_data\<rparr>)
             }))"

definition cps_api_object_received :: "cps_obj \<Rightarrow> nat \<Rightarrow> bool \<times> cps_obj" where
  "cps_api_object_received obj sz =
     (if obj_len obj < sz then (False, obj)
      else if sz < sizeof_object_data then (False, obj)
      else (True, obj\<lparr>obj_remain := sz_sub (obj_len obj) (sz - sizeof_object_data)\<rparr>))"

section \<open>Key data of an object\<close>

definition CPS_API_OBJ_KEY_ATTRS :: u64 where
  "CPS_API_OBJ_KEY_ATTRS = -1"

definition cps_api_get_key_data :: "std_tlv_api \<Rightarrow> cps_obj \<Rightarrow> u64 \<Rightarrow> nat option" where
  "cps_api_get_key_data T obj i =
     (case cps_api_object_e_get T obj [CPS_API_OBJ_KEY_ATTRS, i] of
        None \<Rightarrow> cps_api_object_e_get T obj [i]
      | Some p \<Rightarrow> Some p)"

definition cps_api_set_key_data ::
  "std_tlv_api \<Rightarrow> libc \<Rightarrow> cps_obj \<Rightarrow> u64 \<Rightarrow> cps_api_object_ATTR_TYPE_t \<Rightarrow> bytes \<Rightarrow> nat \<Rightarrow>
     (bool \<times> cps_obj) option" where
  "cps_api_set_key_data T E obj i type dat len =
     cps_api_object_e_add T E obj [CPS_API_OBJ_KEY_ATTRS, i] type dat len"

definition cps_api_set_key_data_uint ::
  "std_tlv_api \<Rightarrow> libc \<Rightarrow> cps_obj \<Rightarrow> u64 \<Rightarrow> bytes \<Rightarrow> nat \<Rightarrow> (bool \<times> cps_obj) option" where
  "cps_api_set_key_data_uint T E obj i dat len =
     cps_api_set_key_data T E obj i (cps_api_object_int_type_for_len len) dat len"

text \<open>
  \<open>cps_api_object_iterate_key_attrs\<close> calls back for each key element that has data in the object;
  the list of the calls is the model.
\<close>

definition cps_api_object_iterate_key_attrs ::
  "std_tlv_api \<Rightarrow> cps_obj \<Rightarrow> (u32 \<times> bytes) list option" where
  "cps_api_object_iterate_key_attrs T obj = do {
     len \<leftarrow> cps_api_key_get_len (obj_key obj);
     if len > length (cps_api_key_elem_start (obj_key obj)) then None
     else Some (List.map_filter
       (\<lambda>e. map_option (\<lambda>a. (e, attr_data T (obj_buf obj) a)) (cps_api_get_key_data T obj (ucast e)))
       (take len (cps_api_key_elem_start (obj_key obj))))
   }"

definition cps_api_object_count_key_attrs :: "std_tlv_api \<Rightarrow> cps_obj \<Rightarrow> nat option" where
  "cps_api_object_count_key_attrs T obj = map_option length (cps_api_object_iterate_key_attrs T obj)"

end
