(* ===== verification/Cps_Object_Proofs.thy ===== *)
theory Cps_Object_Proofs
  imports Cps_Object
begin

text \<open>
  An object as a list of attributes. \<open>obj_wf T p xs\<close> says that the object \<open>p\<close> is consistent and
  stores exactly the attributes \<open>xs\<close>; the lemmas show what each operation of \<open>Cps_Object\<close> does to
  that list: search is the first match, deletion a filter, addition an append, addition along a
  path an insertion into nested containers, cloning and serialising the identity, merging an
  overlay. They hold for every library that meets the locale \<open>std_tlv\<close>.
\<close>

section \<open>The abstraction\<close>

definition obj_cap :: nat where
  "obj_cap = 2 ^ 62"

definition obj_wf :: "std_tlv_api \<Rightarrow> cps_obj \<Rightarrow> attr list \<Rightarrow> bool" where
  "obj_wf T p xs \<longleftrightarrow> length (obj_key p) = 64 \<and> length (obj_buf p) = obj_len p \<and>
     obj_remain p \<le> obj_len p \<and> obj_len p < obj_cap \<and>
     tlv_seq T (obj_buf p) 0 (obj_len p - obj_remain p) xs"

fun attr_offset :: "std_tlv_api \<Rightarrow> attr list \<Rightarrow> u64 \<Rightarrow> nat option" where
  "attr_offset T [] t = None"
| "attr_offset T (x # xs) t =
     (if fst x = t then Some 0 else map_option (\<lambda>k. attr_size T x + k) (attr_offset T xs t))"

text \<open>
  \<open>can_reserve E p n\<close>: the object has \<open>n\<close> bytes left, or its buffer came from the allocator and
  the allocator grants the larger one.
\<close>

definition can_reserve :: "libc \<Rightarrow> cps_obj \<Rightarrow> nat \<Rightarrow> bool" where
  "can_reserve E p n \<longleftrightarrow> n \<le> obj_remain p \<or>
     (obj_allocated p \<and>
      alloc_ok E (n + obj_used_len p + DEF_OBJECT_REALLOC_STEP_SIZE + sizeof_object_data))"

lemma obj_cap_lt: "n < obj_cap \<Longrightarrow> n < size_lim"
  by (simp add: obj_cap_def size_lim_def)

lemma obj_wf_used:
  assumes "obj_wf T p xs"
  shows "obj_used_len p = attrs_size T xs" and "obj_used_len p \<le> obj_len p"
    and "obj_remain p = obj_len p - attrs_size T xs" and "attrs_size T xs \<le> obj_len p"
    and "obj_len p - obj_remain p = attrs_size T xs"
proof -
  have w: "obj_remain p \<le> obj_len p" "obj_len p < size_lim"
    "tlv_seq T (obj_buf p) 0 (obj_len p - obj_remain p) xs"
    using assms obj_cap_lt by (simp_all add: obj_wf_def)
  have u: "obj_used_len p = obj_len p - obj_remain p"
    using w by (simp add: obj_used_len_def sz_sub_exact)
  show s: "obj_len p - obj_remain p = attrs_size T xs" using tlv_seq_size [OF w(3)] by simp
  show "obj_used_len p = attrs_size T xs" using u s by simp
  show "obj_used_len p \<le> obj_len p" using u by simp
  show "obj_remain p = obj_len p - attrs_size T xs" using w(1) s by simp
  show "attrs_size T xs \<le> obj_len p" using s by simp
qed

lemma obj_wf_seq:
  assumes "obj_wf T p xs"
  shows "tlv_seq T (obj_buf p) 0 (attrs_size T xs) xs" and "attrs_size T xs \<le> length (obj_buf p)"
    and "attrs_size T xs < obj_cap" and "length (obj_buf p) = obj_len p" and "obj_len p < obj_cap"
  using assms obj_wf_used [OF assms] by (auto simp: obj_wf_def)

lemma obj_wfI:
  assumes "length (obj_key p) = 64" and "length (obj_buf p) = obj_len p" and "obj_len p < obj_cap"
    and "tlv_seq T (obj_buf p) 0 (attrs_size T xs) xs"
    and "obj_remain p = obj_len p - attrs_size T xs" and "attrs_size T xs \<le> obj_len p"
  shows "obj_wf T p xs"
  using assms by (simp add: obj_wf_def)

lemma attr_offset_None: "attr_offset T xs t = None \<longleftrightarrow> t \<notin> fst ` set xs"
  by (induction xs) auto

lemma attr_offset_Some:
  "attr_offset T xs t = Some a \<longleftrightarrow>
     (\<exists>ys d zs. xs = ys @ (t, d) # zs \<and> t \<notin> fst ` set ys \<and> a = attrs_size T ys)"
proof (induction xs arbitrary: a)
  case (Cons x xs)
  show ?case
  proof (cases "fst x = t")
    case True
    then show ?thesis by (cases x) (auto simp: Cons_eq_append_conv intro: exI [of _ "[]"])
  next
    case False
    then have "attr_offset T (x # xs) t = Some a \<longleftrightarrow>
        (\<exists>b ys d zs. xs = ys @ (t, d) # zs \<and> t \<notin> fst ` set ys \<and> b = attrs_size T ys \<and>
           a = attr_size T x + b)"
      using Cons by auto
    also have "\<dots> \<longleftrightarrow> (\<exists>ys d zs. x # xs = ys @ (t, d) # zs \<and> t \<notin> fst ` set ys \<and> a = attrs_size T ys)"
    proof (intro iffI; elim exE conjE)
      fix b ys d zs
      assume "xs = ys @ (t, d) # zs" "t \<notin> fst ` set ys" "b = attrs_size T ys" "a = attr_size T x + b"
      then show "\<exists>ys d zs. x # xs = ys @ (t, d) # zs \<and> t \<notin> fst ` set ys \<and> a = attrs_size T ys"
        using False by (intro exI [of _ "x # ys"] exI [of _ d] exI [of _ zs]) auto
    next
      fix ys d zs
      assume y: "x # xs = ys @ (t, d) # zs" "t \<notin> fst ` set ys" "a = attrs_size T ys"
      then obtain us where "ys = x # us" using False by (cases ys) auto
      then show "\<exists>b ys d zs. xs = ys @ (t, d) # zs \<and> t \<notin> fst ` set ys \<and> b = attrs_size T ys \<and>
           a = attr_size T x + b"
        using y by (intro exI [of _ "attrs_size T us"] exI [of _ us] exI [of _ d] exI [of _ zs]) auto
    qed
    finally show ?thesis .
  qed
qed simp

lemma attr_offset_map_of:
  "attr_offset T xs t = Some a \<Longrightarrow> \<exists>d. map_of xs t = Some d"
  using attr_offset_None [of T xs t] by (cases "map_of xs t") (auto simp: map_of_eq_None_iff)

lemma key_of_bytes_array:
  "length k = 64 \<Longrightarrow> key_of_bytes (concat (map u32_bytes k) @ b) = k"
proof (rule nth_equalityI)
  assume k: "length k = 64"
  then show "length (key_of_bytes (concat (map u32_bytes k) @ b)) = length k"
    by (simp add: key_of_bytes_def)
  fix i assume "i < length (key_of_bytes (concat (map u32_bytes k) @ b))"
  then have i: "i < 64" by (simp add: key_of_bytes_def)
  have len: "length (concat (map u32_bytes zs)) = 4 * length zs" for zs
    by (rule concat_const_length) simp
  have "drop i k = k ! i # drop (Suc i) k" using i k by (simp add: Cons_nth_drop_Suc)
  then have "k = take i k @ k ! i # drop (Suc i) k" by (metis append_take_drop_id)
  then have "concat (map u32_bytes k) =
      concat (map u32_bytes (take i k)) @ u32_bytes (k ! i) @ concat (map u32_bytes (drop (Suc i) k))"
    by (metis concat.simps(2) concat_append list.simps(9) map_append)
  moreover have "length (concat (map u32_bytes (take i k))) = 4 * i" using i k len by simp
  ultimately have "take 4 (drop (4 * i) (concat (map u32_bytes k) @ b)) = u32_bytes (k ! i)" by simp
  then show "key_of_bytes (concat (map u32_bytes k) @ b) ! i = k ! i"
    using i by (simp add: key_of_bytes_def)
qed

lemma attrs_size_filter: "attrs_size T (filter P xs) \<le> attrs_size T xs"
  by (induction xs) auto

lemma le_val_take_le_bytes: "v < 256 ^ n \<Longrightarrow> le_val (take n (le_bytes n v)) = v"
  by (simp add: le_val_le_bytes)

text \<open>What a merge leaves: the destination without what the source has, then the source without
  its deletion markers (attributes of length zero).\<close>

definition zero_ids :: "attr list \<Rightarrow> u64 list" where
  "zero_ids xs = map fst (filter (\<lambda>x. snd x = []) xs)"

definition merged_attrs :: "bool \<Rightarrow> attr list \<Rightarrow> attr list \<Rightarrow> attr list" where
  "merged_attrs remove_dup ys xs =
     (if remove_dup \<and> ys \<noteq> [] then
        filter (\<lambda>y. fst y \<notin> fst ` set xs) ys @ filter (\<lambda>x. fst x \<notin> set (zero_ids xs)) xs
      else ys @ xs)"

context std_tlv
begin

lemma obj_cap_facts: "n < obj_cap \<Longrightarrow> n < size_lim"
  by (rule obj_cap_lt)

section \<open>Searching\<close>

lemma attr_get_loop_seq:
  assumes "tlv_seq T m p n xs" and "p + n \<le> length m" and "n < size_lim"
  shows "attr_get_loop T m (Some p) n t = Some (map_option (\<lambda>k. p + k) (attr_offset T xs t))"
  using assms
proof (induction xs arbitrary: p n)
  case Nil
  then show ?case using hdr_pos by (simp add: attr_get_loop.simps)
next
  case (Cons x xs)
  note f = tlv_seq_Cons_facts [OF Cons.prems]
  show ?case
  proof (cases "fst x = t")
    case True
    then show ?thesis using f by (simp add: attr_get_loop.simps)
  next
    case False
    let ?q = "fst (std_tlv_next T m (Some p) n)" and ?k = "snd (std_tlv_next T m (Some p) n)"
    have step: "attr_get_loop T m (Some p) n t = attr_get_loop T m ?q ?k t"
      using False f(2,8) by (subst attr_get_loop.simps) simp
    show ?thesis
    proof (cases "xs = []")
      case True
      then have "?k = 0" using tlv_seq_next [OF Cons.prems] f(6) by simp
      then show ?thesis using step True False hdr_pos by (simp add: attr_get_loop.simps)
    next
      case xs: False
      then have "?q = Some (p + attr_size T x)" "?k = n - attr_size T x"
        using tlv_seq_next [OF Cons.prems] by simp_all
      then show ?thesis
        using step Cons.IH [OF f(6)] f(5) Cons.prems(2,3) False
        by (simp add: option.map_comp comp_def add.assoc)
    qed
  qed
qed

lemma attr_get:
  assumes "obj_wf T p xs"
  shows "cps_api_object_attr_get T p t = Some (attr_offset T xs t)"
proof -
  note s = obj_wf_seq [OF assms]
  have "(\<lambda>k. 0 + k) = (\<lambda>k::nat. k)" by simp
  then show ?thesis
    unfolding cps_api_object_attr_get_def obj_wf_used(1) [OF assms]
    using attr_get_loop_seq [OF s(1), of t] s(2) obj_cap_lt [OF s(3)]
    by (simp add: option.map_ident)
qed

lemma seq_at:
  assumes "tlv_seq T m p n (ys @ (t, d) # zs)" and "p + n \<le> length m" and "n < size_lim"
  shows "std_tlv_tag T m (p + attrs_size T ys) = t"
    and "std_tlv_len T m (p + attrs_size T ys) = length d"
    and "std_tlv_total_len T m (p + attrs_size T ys) = attr_size T (t, d)"
    and "attr_data T m (p + attrs_size T ys) = d"
    and "attrs_size T ys + attr_size T (t, d) \<le> n"
proof -
  have a: "attrs_size T ys \<le> n"
    "tlv_seq T m (p + attrs_size T ys) (n - attrs_size T ys) ((t, d) # zs)"
    using assms(1) by (simp_all add: tlv_seq_append del: tlv_seq.simps)
  have b: "p + attrs_size T ys + (n - attrs_size T ys) \<le> length m" "n - attrs_size T ys < size_lim"
    using a(1) assms(2,3) by simp_all
  note f = tlv_seq_Cons_facts [OF a(2) b]
  show "std_tlv_tag T m (p + attrs_size T ys) = t"
    "std_tlv_len T m (p + attrs_size T ys) = length d"
    "std_tlv_total_len T m (p + attrs_size T ys) = attr_size T (t, d)"
    "attrs_size T ys + attr_size T (t, d) \<le> n"
    using f a(1) by simp_all
  show "attr_data T m (p + attrs_size T ys) = d"
    using f(3,9) by (simp add: attr_data_def)
qed

lemma attr_offset_data:
  assumes "obj_wf T p xs" and "attr_offset T xs t = Some a"
  shows "map_of xs t = Some (attr_data T (obj_buf p) a)"
proof -
  obtain ys d zs where x: "xs = ys @ (t, d) # zs" "t \<notin> fst ` set ys" "a = attrs_size T ys"
    using assms(2) by (auto simp: attr_offset_Some)
  note s = obj_wf_seq [OF assms(1)]
  have "attr_data T (obj_buf p) a = d"
    using seq_at(4) [of "obj_buf p" 0 "attrs_size T xs" ys t d zs] s obj_cap_lt [OF s(3)] x by simp
  moreover have "map_of ys t = None" using x(2) by (simp add: map_of_eq_None_iff)
  then have "map_of xs t = Some d" by (simp add: x(1) map_add_def)
  ultimately show ?thesis by simp
qed

section \<open>Rewriting a buffer\<close>

text \<open>Replacing a run of attributes in the middle by bytes that are another run.\<close>

lemma tlv_seq_splice:
  assumes "tlv_seq T m 0 (attrs_size T (ys @ us @ zs)) (ys @ us @ zs)"
    and "attrs_size T (ys @ us @ zs) \<le> length m"
    and "take (attrs_size T ys) m' = take (attrs_size T ys) m"
    and "tlv_seq T m' (attrs_size T ys) (attrs_size T vs) vs"
    and "take (attrs_size T zs) (drop (attrs_size T ys + attrs_size T vs) m') =
         take (attrs_size T zs) (drop (attrs_size T ys + attrs_size T us) m)"
    and "attrs_size T (ys @ vs @ zs) \<le> length m'"
  shows "tlv_seq T m' 0 (attrs_size T (ys @ vs @ zs)) (ys @ vs @ zs)"
proof -
  let ?y = "attrs_size T ys" and ?u = "attrs_size T us" and ?v = "attrs_size T vs"
    and ?z = "attrs_size T zs"
  have y: "tlv_seq T m 0 ?y ys" and z: "tlv_seq T m (?y + ?u) ?z zs"
    using assms(1) by (simp_all add: tlv_seq_append)
  have "tlv_seq T m' 0 ?y ys"
    by (rule tlv_seq_relocate [OF y]) (use assms(2,3,6) in auto)
  moreover have "tlv_seq T m' (?y + ?v) ?z zs"
    by (rule tlv_seq_relocate [OF z]) (use assms(2,5,6) in auto)
  ultimately show ?thesis using assms(4) by (simp add: tlv_seq_append)
qed

section \<open>Deleting\<close>

lemma remove_region:
  assumes "obj_wf T p (ys @ x # zs)"
  defines "a \<equiv> attrs_size T ys" and "e \<equiv> attrs_size T ys + attr_size T x"
  shows "\<exists>m. memmove (obj_buf p) a e (attrs_size T (ys @ x # zs) - e) = Some m \<and>
     obj_wf T (p\<lparr>obj_buf := m, obj_remain := sz_add (obj_remain p) (attr_size T x)\<rparr>) (ys @ zs)"
proof -
  let ?n = "attrs_size T (ys @ x # zs)" and ?m = "obj_buf p"
  note s = obj_wf_seq [OF assms(1)] and u = obj_wf_used [OF assms(1)]
  have e: "e \<le> ?n" "?n - e = attrs_size T zs" by (simp_all add: e_def)
  define m where "m = take a ?m @ take (?n - e) (drop e ?m) @ drop (a + (?n - e)) ?m"
  have mv: "memmove ?m a e (?n - e) = Some m"
    using s(2) e by (simp add: memmove_eq_Some m_def a_def e_def)
  have lm: "length m = length ?m" using mv by (rule memmove_length)
  have dr: "drop a m = take (?n - e) (drop e ?m) @ drop (a + (?n - e)) ?m"
    using s(2) by (simp add: m_def a_def)
  have ez: "length (take (?n - e) (drop e ?m)) = attrs_size T zs" using s(2) e by simp
  have seq: "tlv_seq T m 0 (attrs_size T (ys @ [] @ zs)) (ys @ [] @ zs)"
  proof (rule tlv_seq_splice [where us = "[x]" and m = ?m])
    show "tlv_seq T ?m 0 (attrs_size T (ys @ [x] @ zs)) (ys @ [x] @ zs)" using s(1) by simp
    show "attrs_size T (ys @ [x] @ zs) \<le> length ?m" "attrs_size T (ys @ [] @ zs) \<le> length m"
      using s(2) lm by simp_all
    show "take (attrs_size T ys) m = take (attrs_size T ys) ?m"
      using s(2) by (simp add: m_def a_def)
    show "take (attrs_size T zs) (drop (attrs_size T ys + attrs_size T []) m) =
        take (attrs_size T zs) (drop (attrs_size T ys + attrs_size T [x]) ?m)"
      using dr ez e(2) by (simp add: a_def e_def)
  qed simp
  have "sz_add (obj_remain p) (attr_size T x) = obj_len p - attrs_size T (ys @ zs)"
    using u(3,4) obj_cap_lt [OF s(5)] by (simp add: sz_add_exact)
  then have "obj_wf T (p\<lparr>obj_buf := m, obj_remain := sz_add (obj_remain p) (attr_size T x)\<rparr>) (ys @ zs)"
    using assms(1) seq lm u(4) by (intro obj_wfI) (auto simp: obj_wf_def)
  with mv show ?thesis by blast
qed

lemma attr_delete_one_absent:
  "obj_wf T p xs \<Longrightarrow> t \<notin> fst ` set xs \<Longrightarrow> object_attr_delete_one T p t = Some (False, p)"
  using attr_offset_None [of T xs t] by (simp add: object_attr_delete_one_def attr_get)

lemma attr_delete_one_present:
  assumes "obj_wf T p (ys @ (t, d) # zs)" and "t \<notin> fst ` set ys"
  shows "\<exists>p'. object_attr_delete_one T p t = Some (True, p') \<and> obj_wf T p' (ys @ zs) \<and>
     obj_key p' = obj_key p \<and> obj_len p' = obj_len p \<and> obj_allocated p' = obj_allocated p \<and>
     obj_ref_count p' = obj_ref_count p"
proof -
  let ?xs = "ys @ (t, d) # zs" and ?a = "attrs_size T ys"
  note s = obj_wf_seq [OF assms(1)] and u = obj_wf_used [OF assms(1)]
  have off: "attr_offset T ?xs t = Some ?a" using assms(2) by (auto simp: attr_offset_Some)
  have tot: "std_tlv_total_len T (obj_buf p) ?a = attr_size T (t, d)"
    using seq_at(3) [of "obj_buf p" 0, OF s(1)] s(2) obj_cap_lt [OF s(3)] by simp
  have "sz_sub (attrs_size T ?xs) (?a + attr_size T (t, d)) =
      attrs_size T ?xs - (?a + attr_size T (t, d))"
    using obj_cap_lt [OF s(3)] by (simp add: sz_sub_exact)
  with remove_region [OF assms(1)] obtain m where
    m: "memmove (obj_buf p) ?a (?a + attr_size T (t, d))
       (sz_sub (attrs_size T ?xs) (?a + attr_size T (t, d))) = Some m"
    "obj_wf T (p\<lparr>obj_buf := m, obj_remain := sz_add (obj_remain p) (attr_size T (t, d))\<rparr>) (ys @ zs)"
    by auto
  show ?thesis
    using m(1) m(2) tot
    by (simp add: object_attr_delete_one_def attr_get [OF assms(1)] off u(1) Let_def)
qed

lemma attr_delete_rest_filter:
  assumes "obj_wf T p xs"
  shows "\<exists>p'. attr_delete_rest T p t = Some p' \<and> obj_wf T p' (filter (\<lambda>x. fst x \<noteq> t) xs) \<and>
     obj_key p' = obj_key p \<and> obj_len p' = obj_len p \<and> obj_allocated p' = obj_allocated p \<and>
     obj_ref_count p' = obj_ref_count p"
  using assms
proof (induction "length xs" arbitrary: p xs rule: less_induct)
  case less
  show ?case
  proof (cases "t \<in> fst ` set xs")
    case False
    then have "filter (\<lambda>x. fst x \<noteq> t) xs = xs" by (auto simp: filter_id_conv)
    then show ?thesis
      using attr_delete_one_absent [OF less.prems False] less.prems
      by (subst attr_delete_rest.simps) simp
  next
    case True
    then obtain a where "attr_offset T xs t = Some a" using attr_offset_None [of T xs t] by auto
    then obtain ys d zs where x: "xs = ys @ (t, d) # zs" "t \<notin> fst ` set ys"
      by (auto simp: attr_offset_Some)
    obtain q where q: "object_attr_delete_one T p t = Some (True, q)" "obj_wf T q (ys @ zs)"
      "obj_key q = obj_key p" "obj_len q = obj_len p" "obj_allocated q = obj_allocated p"
      "obj_ref_count q = obj_ref_count p"
      using attr_delete_one_present [of p ys t d zs] less.prems x by auto
    have "filter (\<lambda>x. fst x \<noteq> t) xs = filter (\<lambda>x. fst x \<noteq> t) (ys @ zs)" by (simp add: x(1))
    then show ?thesis
      using less.hyps [of "ys @ zs" q] q x(1) by (subst attr_delete_rest.simps) simp
  qed
qed

lemma attr_delete:
  assumes "obj_wf T p xs"
  shows "\<exists>p'. cps_api_object_attr_delete T p t = Some (t \<in> fst ` set xs, p') \<and>
     obj_wf T p' (filter (\<lambda>x. fst x \<noteq> t) xs) \<and> obj_key p' = obj_key p \<and> obj_len p' = obj_len p \<and>
     obj_allocated p' = obj_allocated p \<and> obj_ref_count p' = obj_ref_count p"
proof (cases "t \<in> fst ` set xs")
  case False
  then have "filter (\<lambda>x. fst x \<noteq> t) xs = xs" by (auto simp: filter_id_conv)
  then show ?thesis
    using attr_delete_one_absent [OF assms False] assms False
    by (simp add: cps_api_object_attr_delete_def)
next
  case True
  then obtain a where "attr_offset T xs t = Some a" using attr_offset_None [of T xs t] by auto
  then obtain ys d zs where x: "xs = ys @ (t, d) # zs" "t \<notin> fst ` set ys"
    by (auto simp: attr_offset_Some)
  obtain q where q: "object_attr_delete_one T p t = Some (True, q)" "obj_wf T q (ys @ zs)"
    "obj_key q = obj_key p" "obj_len q = obj_len p" "obj_allocated q = obj_allocated p"
    "obj_ref_count q = obj_ref_count p"
    using attr_delete_one_present [of p ys t d zs] assms x by auto
  have "filter (\<lambda>x. fst x \<noteq> t) xs = filter (\<lambda>x. fst x \<noteq> t) (ys @ zs)" by (simp add: x(1))
  then show ?thesis
    using attr_delete_rest_filter [OF q(2), of t] q True
    by (auto simp: cps_api_object_attr_delete_def)
qed

section \<open>Growing\<close>

lemma obj_realloc_ok:
  assumes "obj_wf T p xs" and "obj_allocated p" and "alloc_ok E (n + sizeof_object_data)"
    and "attrs_size T xs \<le> n" and "n < obj_cap"
  shows "\<exists>p'. obj_realloc E p n = Some p' \<and> obj_wf T p' xs \<and> obj_len p' = n \<and>
     obj_key p' = obj_key p \<and> obj_allocated p' \<and> obj_ref_count p' = obj_ref_count p"
proof -
  let ?b = "take n (obj_buf p) @ fresh_bytes E (length (obj_buf p)) n"
  note s = obj_wf_seq [OF assms(1)] and u = obj_wf_used [OF assms(1)]
  have sz: "sz_add n sizeof_object_data = n + sizeof_object_data"
    using assms(5) by (intro sz_add_exact) (simp add: obj_cap_def size_lim_def sizeof_object_data_def
        CPS_OBJ_KEY_BYTE_MAX_LEN_def)
  have rm: "sz_add (obj_remain p) (sz_sub n (obj_len p)) = n - attrs_size T xs"
    using u(3,4) assms(4,5) s(5) obj_cap_lt [OF s(5)] obj_cap_lt [OF assms(5)]
    by (subst sz_add_sz_sub) (simp_all add: obj_cap_def size_lim_def)
  have lb: "length ?b = n" by (simp add: fresh_bytes_def)
  have "tlv_seq T ?b 0 (attrs_size T xs) xs"
    by (rule tlv_seq_relocate [OF s(1)]) (use s(2) assms(4) lb in \<open>simp_all add: min_def\<close>)
  then have "obj_wf T (p\<lparr>obj_buf := ?b, obj_remain := n - attrs_size T xs, obj_len := n\<rparr>) xs"
    using assms lb by (intro obj_wfI) (simp_all add: obj_wf_def)
  then show ?thesis using assms(2,3) sz rm by (simp add: obj_realloc_def)
qed

lemma reserve_ok:
  assumes "obj_wf T p xs" and "can_reserve E p n"
    and "attrs_size T xs + n + DEF_OBJECT_REALLOC_STEP_SIZE < obj_cap"
  shows "\<exists>p'. reserve_spacespace E p n = (True, p') \<and> obj_wf T p' xs \<and> n \<le> obj_remain p' \<and>
     obj_key p' = obj_key p \<and> obj_allocated p' = obj_allocated p \<and>
     obj_ref_count p' = obj_ref_count p"
proof (cases "obj_remain p < n")
  case False
  then show ?thesis using assms(1) by (simp add: reserve_spacespace_def)
next
  case True
  let ?n = "n + attrs_size T xs + DEF_OBJECT_REALLOC_STEP_SIZE"
  note u = obj_wf_used [OF assms(1)]
  have n: "sz_add (sz_add n (obj_used_len p)) DEF_OBJECT_REALLOC_STEP_SIZE = ?n"
    using assms(3) u(1) by (simp add: sz_add_exact obj_cap_def size_lim_def)
  have a: "obj_allocated p" "alloc_ok E (?n + sizeof_object_data)"
    using True assms(2) u(1) by (simp_all add: can_reserve_def add_ac)
  obtain p' where p': "obj_realloc E p ?n = Some p'" "obj_wf T p' xs" "obj_len p' = ?n"
    "obj_key p' = obj_key p" "obj_allocated p'" "obj_ref_count p' = obj_ref_count p"
    using obj_realloc_ok [OF assms(1) a(1) a(2)] assms(3) by (auto simp: add_ac)
  then have "n \<le> obj_remain p'" using obj_wf_used(3) [OF p'(2)] by simp
  with p' show ?thesis using True a(1) n by (simp add: reserve_spacespace_def)
qed

lemma reserve_refused:
  assumes "obj_wf T p xs" and "\<not> can_reserve E p n"
    and "attrs_size T xs + n + DEF_OBJECT_REALLOC_STEP_SIZE + sizeof_object_data < obj_cap"
  shows "reserve_spacespace E p n = (False, p)"
proof -
  note u = obj_wf_used [OF assms(1)]
  have lt: "attrs_size T xs + n + DEF_OBJECT_REALLOC_STEP_SIZE + sizeof_object_data < size_lim"
    using obj_cap_lt [OF assms(3)] .
  have a: "sz_add n (obj_used_len p) = n + attrs_size T xs"
    using lt u(1) by (simp add: sz_add_exact)
  have b: "sz_add (n + attrs_size T xs) DEF_OBJECT_REALLOC_STEP_SIZE =
      n + attrs_size T xs + DEF_OBJECT_REALLOC_STEP_SIZE"
    using lt by (simp add: sz_add_exact)
  have c: "sz_add (n + attrs_size T xs + DEF_OBJECT_REALLOC_STEP_SIZE) sizeof_object_data =
      n + attrs_size T xs + DEF_OBJECT_REALLOC_STEP_SIZE + sizeof_object_data"
    using lt by (simp add: sz_add_exact)
  have "obj_realloc E p (n + attrs_size T xs + DEF_OBJECT_REALLOC_STEP_SIZE) = None"
    using assms(2) u(1) c by (auto simp: obj_realloc_def can_reserve_def add_ac)
  then show ?thesis
    using assms(2) a b by (simp add: reserve_spacespace_def can_reserve_def)
qed

section \<open>Adding\<close>

lemma add_attribute_append:
  assumes "obj_wf T p xs" and "can_reserve E p (length d + H)"
    and "attrs_size T xs + length d + H + DEF_OBJECT_REALLOC_STEP_SIZE < obj_cap"
  shows "\<exists>p'. add_attribute T E p t (length d) d = Some (True, p') \<and>
     obj_wf T p' (xs @ [(t, d)]) \<and> obj_key p' = obj_key p \<and> obj_allocated p' = obj_allocated p \<and>
     obj_ref_count p' = obj_ref_count p"
proof -
  have n: "sz_add (length d) H = length d + H"
    using assms(3) by (intro sz_add_exact) (simp add: obj_cap_def size_lim_def)
  obtain q where q: "reserve_spacespace E p (length d + H) = (True, q)" "obj_wf T q xs"
    "length d + H \<le> obj_remain q" "obj_key q = obj_key p" "obj_allocated q = obj_allocated p"
    "obj_ref_count q = obj_ref_count p"
    using reserve_ok [OF assms(1,2)] assms(3) by auto
  note s = obj_wf_seq [OF q(2)] and u = obj_wf_used [OF q(2)]
  have fit: "attrs_size T xs + H + length d \<le> length (obj_buf q)" using q(3) u(3,4) s(4) by simp
  have "obj_remain q < size_lim" using u(3) obj_cap_lt [OF s(5)] by simp
  then obtain m r where m: "std_tlv_add T (obj_buf q) (attrs_size T xs) (obj_remain q) t d =
      (m, Some r, obj_remain q - (H + length d))" "length m = length (obj_buf q)"
    "take (attrs_size T xs) m = take (attrs_size T xs) (obj_buf q)"
    "std_tlv_tag T m (attrs_size T xs) = t" "std_tlv_len T m (attrs_size T xs) = length d"
    "take (length d) (drop (attrs_size T xs + H) m) = d"
    using add_fits [of d "obj_remain q" "attrs_size T xs" "obj_buf q" t] q(3) fit by auto
  have "tlv_seq T m 0 (attrs_size T xs) xs"
    by (rule tlv_seq_relocate [OF s(1)]) (use s(2) m(2,3) in auto)
  then have seq: "tlv_seq T m 0 (attrs_size T (xs @ [(t, d)])) (xs @ [(t, d)])"
    using m(4-6) by (subst tlv_seq_append) (simp add: attr_size_def)
  have "obj_wf T (q\<lparr>obj_buf := m, obj_remain := obj_remain q - (H + length d)\<rparr>) (xs @ [(t, d)])"
    by (rule obj_wfI) (use seq q(2) m(2) u(3,4) s(4) fit in \<open>auto simp: obj_wf_def attr_size_def\<close>)
  then show ?thesis using q n m(1) u(1) by (simp add: add_attribute_def)
qed

lemma add_attribute_refused:
  assumes "obj_wf T p xs" and "\<not> can_reserve E p (length d + H)"
    and "attrs_size T xs + length d + H + DEF_OBJECT_REALLOC_STEP_SIZE + sizeof_object_data < obj_cap"
  shows "add_attribute T E p t (length d) d = Some (False, p)"
proof -
  have n: "sz_add (length d) H = length d + H"
    using assms(3) by (intro sz_add_exact) (simp add: obj_cap_def size_lim_def)
  show ?thesis
    using reserve_refused [OF assms(1,2)] assms(3) n by (simp add: add_attribute_def add_ac)
qed

section \<open>Cloning and serialising\<close>

lemma clone_ok:
  assumes "obj_wf T d ys" and "obj_wf T s xs"
    and "attrs_size T xs \<le> obj_len d \<or>
         (obj_allocated d \<and> alloc_ok E (obj_len s + sizeof_object_data) \<and>
          attrs_size T ys \<le> obj_len s)"
  shows "\<exists>d'. cps_api_object_clone E d s = Some (True, d') \<and> obj_wf T d' xs \<and>
     obj_key d' = obj_key s \<and> obj_ref_count d' = obj_ref_count d \<and> obj_allocated d' = obj_allocated d"
proof -
  note s = obj_wf_seq [OF assms(2)] and u = obj_wf_used [OF assms(2)]
  define d1 where "d1 = (if obj_len d < obj_used_len s then obj_realloc E d (obj_len s) else Some d)"
  have "\<exists>e. d1 = Some e \<and> obj_wf T e ys \<and> attrs_size T xs \<le> obj_len e \<and>
      obj_ref_count e = obj_ref_count d \<and> obj_allocated e = obj_allocated d"
  proof (cases "obj_len d < obj_used_len s")
    case True
    then have "obj_allocated d" "alloc_ok E (obj_len s + sizeof_object_data)" "attrs_size T ys \<le> obj_len s"
      using assms(3) u(1) by auto
    from obj_realloc_ok [OF assms(1) this s(5)] show ?thesis
      using True u(4) \<open>obj_allocated d\<close> by (auto simp: d1_def)
  next
    case False
    then show ?thesis using assms(1) u(1) by (auto simp: d1_def)
  qed
  then obtain e where e: "d1 = Some e" "obj_wf T e ys" "attrs_size T xs \<le> obj_len e"
    "obj_ref_count e = obj_ref_count d" "obj_allocated e = obj_allocated d" by blast
  let ?m = "take (attrs_size T xs) (obj_buf s) @ drop (attrs_size T xs) (obj_buf e)"
  note es = obj_wf_seq [OF e(2)]
  have cp: "memcpy (obj_buf e) 0 (take (attrs_size T xs) (obj_buf s)) = Some ?m"
    using e(3) es(4) s(2) by (simp add: memcpy_def)
  have rem: "sz_sub (obj_len e) (attrs_size T xs) = obj_len e - attrs_size T xs"
    using e(3) obj_cap_lt [OF es(5)] by (simp add: sz_sub_exact)
  have "tlv_seq T ?m 0 (attrs_size T xs) xs"
    by (rule tlv_seq_relocate [OF s(1)]) (use s(2) in auto)
  then have "obj_wf T (e\<lparr>obj_key := obj_key s, obj_buf := ?m,
      obj_remain := obj_len e - attrs_size T xs\<rparr>) xs"
    by (intro obj_wfI) (use assms(2) e(2,3) s(2) es(4) in \<open>auto simp: obj_wf_def\<close>)
  moreover have "cps_api_object_clone E d s = Some (True, e\<lparr>obj_key := obj_key s, obj_buf := ?m,
      obj_remain := obj_len e - attrs_size T xs\<rparr>)"
    unfolding cps_api_object_clone_def Let_def d1_def [symmetric] e(1)
    using u(1) cp rem s(2) by simp
  ultimately show ?thesis using e(4,5) by simp
qed

lemma clone_refused:
  assumes "obj_wf T s xs" and "obj_len d < attrs_size T xs"
    and "\<not> obj_allocated d \<or> \<not> alloc_ok E (sz_add (obj_len s) sizeof_object_data)"
  shows "cps_api_object_clone E d s = Some (False, d)"
  using assms(2,3) obj_wf_used(1) [OF assms(1)]
  by (auto simp: cps_api_object_clone_def obj_realloc_def)

lemma array_roundtrip:
  assumes "obj_wf T p xs" and "obj_allocated q" and "length (obj_key q) = 64"
    and "length (obj_buf q) = obj_len q"
    and "attrs_size T xs + 2 * sizeof_object_data < obj_cap"
    and "alloc_ok E (attrs_size T xs + 2 * sizeof_object_data)"
  shows "\<exists>q'. cps_api_array_to_object E (cps_api_object_array p) (cps_api_object_to_array_len p) q =
       Some (True, q') \<and> obj_wf T q' xs \<and> obj_key q' = obj_key p"
proof -
  let ?k = "sizeof_object_data" and ?n = "attrs_size T xs"
  note s = obj_wf_seq [OF assms(1)] and u = obj_wf_used [OF assms(1)]
  have k: "?k = 256" by (simp add: sizeof_object_data_def CPS_OBJ_KEY_BYTE_MAX_LEN_def)
  have kp: "length (obj_key p) = 64" using assms(1) by (simp add: obj_wf_def)
  have lk: "length (concat (map u32_bytes (obj_key p))) = ?k"
    using concat_const_length [of u32_bytes 4 "obj_key p"] kp k by simp
  have lim: "?n + 2 * ?k < size_lim" using assms(5) by (rule obj_cap_lt)
  have len: "cps_api_object_to_array_len p = ?n + ?k"
    using lim u(1) by (simp add: cps_api_object_to_array_len_def sz_add_exact)
  have al: "alloc_ok E (sz_add (?n + ?k) ?k)"
    using assms(6) lim by (simp add: sz_add_exact mult_2 add.assoc)
  define b where "b = take (?n + ?k) (obj_buf q) @ fresh_bytes E (length (obj_buf q)) (?n + ?k)"
  have lb: "length b = ?n + ?k" by (simp add: b_def fresh_bytes_def)
  let ?m = "take ?n (obj_buf p) @ drop ?n b"
  have cp: "memcpy b 0 (take ?n (obj_buf p)) = Some ?m" using s(2) lb by (simp add: memcpy_def)
  have seq: "tlv_seq T ?m 0 ?n xs" by (rule tlv_seq_relocate [OF s(1)]) (use s(2) in auto)
  have rm: "sz_add (sz_sub (?n + ?k) (?n + ?k)) ?k = ?k"
    using lim by (simp add: sz_sub_exact sz_add_exact)
  define q' where "q' = q\<lparr>obj_remain := ?k, obj_buf := ?m, obj_len := ?n + ?k, obj_key := obj_key p\<rparr>"
  have "obj_wf T q' xs"
    by (rule obj_wfI) (use seq kp s(2) lb assms(5) in \<open>auto simp: q'_def\<close>)
  moreover have "cps_api_array_to_object E (cps_api_object_array p) (?n + ?k) q = Some (True, q')"
    using assms(2) al cp rm s(2) lk key_of_bytes_array [OF kp, of "obj_buf p"]
    by (simp add: cps_api_array_to_object_def obj_realloc_def cps_api_object_array_def Let_def
        b_def q'_def)
  ultimately show ?thesis by (auto simp: len q'_def)
qed

lemma array_too_short: "len < sizeof_object_data \<Longrightarrow>
  cps_api_array_to_object E dat len q = Some (False, q)"
  by (simp add: cps_api_array_to_object_def)

section \<open>Merging\<close>

lemma delete_until_gone:
  assumes "obj_wf T p xs"
  shows "\<exists>p'. delete_until_gone T p t = Some p' \<and> obj_wf T p' (filter (\<lambda>x. fst x \<noteq> t) xs) \<and>
     obj_key p' = obj_key p \<and> obj_len p' = obj_len p \<and> obj_allocated p' = obj_allocated p \<and>
     obj_ref_count p' = obj_ref_count p"
proof -
  let ?ys = "filter (\<lambda>x. fst x \<noteq> t) xs"
  obtain q where q: "cps_api_object_attr_delete T p t = Some (t \<in> fst ` set xs, q)" "obj_wf T q ?ys"
    "obj_key q = obj_key p" "obj_len q = obj_len p" "obj_allocated q = obj_allocated p"
    "obj_ref_count q = obj_ref_count p"
    using attr_delete [OF assms, of t] by auto
  have "t \<notin> fst ` set ?ys" by auto
  then have "cps_api_object_attr_delete T q t = Some (False, q)"
    using attr_delete_one_absent [OF q(2)] by (simp add: cps_api_object_attr_delete_def)
  then have "delete_until_gone T q t = Some q" by (simp add: delete_until_gone.simps)
  then show ?thesis using q by (subst delete_until_gone.simps) simp
qed

lemma delete_repeated_loop:
  assumes "tlv_seq T m p n xs" and "p + n \<le> length m" and "n < size_lim" and "obj_wf T d ys"
  shows "\<exists>d'. delete_repeated_loop T m \<lparr>it_len = n, it_attr = Some p\<rparr> d ids =
       Some (d', ids @ zero_ids xs) \<and>
     obj_wf T d' (filter (\<lambda>y. fst y \<notin> fst ` set xs) ys) \<and> obj_key d' = obj_key d \<and>
     obj_len d' = obj_len d \<and> obj_allocated d' = obj_allocated d \<and> obj_ref_count d' = obj_ref_count d"
  using assms
proof (induction xs arbitrary: p n d ys ids)
  case Nil
  then have "\<not> std_tlv_valid T m (Some p) n" using tlv_seq_Nil_invalid by blast
  then show ?case
    using Nil by (subst delete_repeated_loop.simps) (simp add: cps_api_object_it_valid_def zero_ids_def)
next
  case (Cons x xs)
  note f = tlv_seq_Cons_facts [OF Cons.prems(1-3)] and nx = tlv_seq_next [OF Cons.prems(1-3)]
  obtain e where e: "delete_until_gone T d (fst x) = Some e"
    "obj_wf T e (filter (\<lambda>y. fst y \<noteq> fst x) ys)" "obj_key e = obj_key d" "obj_len e = obj_len d"
    "obj_allocated e = obj_allocated d" "obj_ref_count e = obj_ref_count d"
    using delete_until_gone [OF Cons.prems(4)] by blast
  let ?ids = "if snd x = [] then ids @ [fst x] else ids"
  let ?it = "\<lparr>it_len = snd (std_tlv_next T m (Some p) n), it_attr = fst (std_tlv_next T m (Some p) n)\<rparr>"
  have step: "delete_repeated_loop T m \<lparr>it_len = n, it_attr = Some p\<rparr> d ids =
      delete_repeated_loop T m ?it e ?ids"
    using f(2,3,7) e(1)
    by (subst delete_repeated_loop.simps)
      (simp add: cps_api_object_it_valid_def cps_api_object_attr_id_def cps_api_object_attr_len_def
        cps_api_object_it_next_def case_prod_beta)
  have ids: "?ids @ zero_ids xs = ids @ zero_ids (x # xs)" by (simp add: zero_ids_def)
  have fl: "filter (\<lambda>y. fst y \<notin> fst ` set xs) (filter (\<lambda>y. fst y \<noteq> fst x) ys) =
      filter (\<lambda>y. fst y \<notin> fst ` set (x # xs)) ys"
    by (auto intro: filter_cong)
  show ?case
  proof (cases "xs = []")
    case True
    then have "snd (std_tlv_next T m (Some p) n) = 0" using nx f(6) by simp
    then have "\<not> cps_api_object_it_valid T m ?it"
      using valid_short hdr_pos by (simp add: cps_api_object_it_valid_def)
    then have "delete_repeated_loop T m ?it e ?ids = Some (e, ?ids)"
      by (subst delete_repeated_loop.simps) simp
    then show ?thesis using step e ids fl True by (auto simp: zero_ids_def)
  next
    case False
    then have it: "?it = \<lparr>it_len = n - attr_size T x, it_attr = Some (p + attr_size T x)\<rparr>"
      using nx by simp
    have b: "p + attr_size T x + (n - attr_size T x) \<le> length m" "n - attr_size T x < size_lim"
      using f(5) Cons.prems(2,3) by simp_all
    obtain d' where "delete_repeated_loop T m ?it e ?ids = Some (d', ?ids @ zero_ids xs)"
      "obj_wf T d' (filter (\<lambda>y. fst y \<notin> fst ` set xs) (filter (\<lambda>y. fst y \<noteq> fst x) ys))"
      "obj_key d' = obj_key e" "obj_len d' = obj_len e" "obj_allocated d' = obj_allocated e"
      "obj_ref_count d' = obj_ref_count e"
      using Cons.IH [OF f(6) b e(2), of ?ids] unfolding it by blast
    then show ?thesis using step e ids fl by auto
  qed
qed

lemma delete_ids:
  assumes "obj_wf T s xs"
  shows "\<exists>s'. delete_ids T s is = Some s' \<and> obj_wf T s' (filter (\<lambda>x. fst x \<notin> set is) xs) \<and>
     obj_len s' = obj_len s"
  using assms
proof (induction "is" arbitrary: s xs)
  case (Cons i "is")
  obtain q where q: "cps_api_object_attr_delete T s i = Some (i \<in> fst ` set xs, q)"
    "obj_wf T q (filter (\<lambda>x. fst x \<noteq> i) xs)" "obj_len q = obj_len s"
    using attr_delete [OF Cons.prems, of i] by auto
  have "filter (\<lambda>x. fst x \<notin> set is) (filter (\<lambda>x. fst x \<noteq> i) xs) =
      filter (\<lambda>x. fst x \<notin> set (i # is)) xs"
    by (auto intro: filter_cong)
  then show ?case using Cons.IH [OF q(2)] q by auto
qed simp

lemma delete_repeated:
  assumes "obj_wf T d ys" and "obj_wf T s xs"
  shows "\<exists>d' s'. delete_repeated_attributes T d s = Some (d', s') \<and>
     obj_wf T d' (filter (\<lambda>y. fst y \<notin> fst ` set xs) ys) \<and>
     obj_wf T s' (filter (\<lambda>x. fst x \<notin> set (zero_ids xs)) xs) \<and> obj_key d' = obj_key d \<and>
     obj_len d' = obj_len d \<and> obj_allocated d' = obj_allocated d \<and> obj_ref_count d' = obj_ref_count d"
proof -
  note q = obj_wf_seq [OF assms(2)] and u = obj_wf_used [OF assms(2)]
  obtain d' where d: "delete_repeated_loop T (obj_buf s) (cps_api_object_it_begin s) d [] =
      Some (d', zero_ids xs)" "obj_wf T d' (filter (\<lambda>y. fst y \<notin> fst ` set xs) ys)"
    "obj_key d' = obj_key d" "obj_len d' = obj_len d" "obj_allocated d' = obj_allocated d"
    "obj_ref_count d' = obj_ref_count d"
    using delete_repeated_loop [OF q(1) _ _ assms(1), of "[]"] q(2) obj_cap_lt [OF q(3)] u(1)
    by (auto simp: cps_api_object_it_begin_def)
  then show ?thesis
    using delete_ids [OF assms(2), of "zero_ids xs"] by (auto simp: delete_repeated_attributes_def)
qed

lemma create_storage_ok:
  assumes "alloc_ok E sizeof_object_internal" and "alloc_ok E (sizeof_object_data + DEF_OBJECT_SIZE)"
  shows "\<exists>p. object_create_storage E = Some p \<and> obj_wf T p [] \<and> obj_allocated p \<and>
     obj_ref_count p = 1 \<and> obj_token p = KEY_TOKEN \<and> obj_len p = DEF_OBJECT_SIZE \<and>
     key_wf (obj_key p) \<and> key_elems (obj_key p) = []"
proof -
  have "length (fresh_key E) = 64" by (simp add: fresh_key_def)
  then obtain k where k: "cps_api_key_set_len (fresh_key E) 0 = Some k" "key_wf k" "key_elems k = []"
    by (rule key_set_len [of _ 0]) auto
  then show ?thesis using assms
    by (simp add: object_create_storage_def obj_alloc_def obj_wf_def fresh_bytes_def key_wf_def
        obj_cap_def DEF_OBJECT_SIZE_def)
qed

text \<open>Appending the bytes of another object's attributes.\<close>

lemma append_attrs:
  assumes "obj_wf T d ys" and "obj_wf T s xs" and "attrs_size T ys + attrs_size T xs \<le> obj_len d"
  shows "\<exists>m. memcpy (obj_buf d) (obj_used_len d) (take (obj_used_len s) (obj_buf s)) = Some m \<and>
     obj_wf T (d\<lparr>obj_buf := m, obj_remain := sz_sub (obj_remain d) (obj_used_len s)\<rparr>) (ys @ xs)"
proof -
  note a = obj_wf_seq [OF assms(1)] and u = obj_wf_used [OF assms(1)]
    and b = obj_wf_seq [OF assms(2)] and v = obj_wf_used [OF assms(2)]
  let ?y = "attrs_size T ys" and ?x = "attrs_size T xs"
  let ?m = "take ?y (obj_buf d) @ take ?x (obj_buf s) @ drop (?y + ?x) (obj_buf d)"
  have cp: "memcpy (obj_buf d) (obj_used_len d) (take (obj_used_len s) (obj_buf s)) = Some ?m"
    using u(1) v(1) a(4) b(2) assms(3) by (simp add: memcpy_def)
  have lm: "length ?m = obj_len d" using a(4) b(2) assms(3) by simp
  have rm: "sz_sub (obj_remain d) (obj_used_len s) = obj_len d - (?y + ?x)"
    using u(3) v(1) assms(3) obj_cap_lt [OF a(5)] by (simp add: sz_sub_exact)
  have "tlv_seq T ?m 0 ?y ys" by (rule tlv_seq_relocate [OF a(1)]) (use a(2) in auto)
  moreover have "tlv_seq T ?m ?y ?x xs"
    by (rule tlv_seq_relocate [OF b(1)]) (use a(2) b(2) in auto)
  ultimately have "tlv_seq T ?m 0 (attrs_size T (ys @ xs)) (ys @ xs)" by (simp add: tlv_seq_append)
  then have "obj_wf T (d\<lparr>obj_buf := ?m, obj_remain := obj_len d - (?y + ?x)\<rparr>) (ys @ xs)"
    by (intro obj_wfI) (use assms lm a(5) in \<open>auto simp: obj_wf_def\<close>)
  then show ?thesis using cp rm by simp
qed

lemma grow_and_append:
  assumes "obj_wf T d ys" and "obj_wf T s xs"
    and "attrs_size T ys + attrs_size T xs < obj_cap"
    and "attrs_size T ys + attrs_size T xs \<le> obj_len d \<or>
      (obj_allocated d \<and> alloc_ok E (attrs_size T ys + attrs_size T xs + sizeof_object_data))"
  shows "\<exists>e m. (if obj_len d < sz_add (obj_used_len s) (obj_used_len d)
        then obj_realloc E d (sz_add (obj_used_len s) (obj_used_len d)) else Some d) = Some e \<and>
     obj_used_len s \<le> length (obj_buf s) \<and>
     memcpy (obj_buf e) (obj_used_len e) (take (obj_used_len s) (obj_buf s)) = Some m \<and>
     obj_wf T (e\<lparr>obj_buf := m, obj_remain := sz_sub (obj_remain e) (obj_used_len s)\<rparr>) (ys @ xs) \<and>
     obj_key e = obj_key d \<and> obj_ref_count e = obj_ref_count d"
proof -
  let ?n = "attrs_size T ys + attrs_size T xs"
  have tot: "sz_add (obj_used_len s) (obj_used_len d) = ?n"
    using obj_cap_lt [OF assms(3)] obj_wf_used(1) [OF assms(1)] obj_wf_used(1) [OF assms(2)]
    by (simp add: sz_add_exact add.commute)
  have "\<exists>e. (if obj_len d < ?n then obj_realloc E d ?n else Some d) = Some e \<and> obj_wf T e ys \<and>
      ?n \<le> obj_len e \<and> obj_key e = obj_key d \<and> obj_ref_count e = obj_ref_count d"
  proof (cases "obj_len d < ?n")
    case True
    then have "obj_allocated d" "alloc_ok E (?n + sizeof_object_data)" using assms(4) by auto
    from obj_realloc_ok [OF assms(1) this _ assms(3)] True show ?thesis by auto
  qed (use assms(1) in auto)
  then obtain e where e: "(if obj_len d < ?n then obj_realloc E d ?n else Some d) = Some e"
    "obj_wf T e ys" "?n \<le> obj_len e" "obj_key e = obj_key d" "obj_ref_count e = obj_ref_count d"
    by blast
  have "obj_used_len s \<le> length (obj_buf s)"
    using obj_wf_used(1) [OF assms(2)] obj_wf_seq(2) [OF assms(2)] by simp
  with e append_attrs [OF e(2) assms(2) e(3)] tot show ?thesis by auto
qed

lemma merge_ok:
  assumes "obj_wf T d ys" and "obj_wf T s xs"
    and "alloc_ok E sizeof_object_internal" and "alloc_ok E (sizeof_object_data + DEF_OBJECT_SIZE)"
    and "attrs_size T xs \<le> DEF_OBJECT_SIZE \<or> alloc_ok E (obj_len s + sizeof_object_data)"
    and "attrs_size T ys + attrs_size T xs < obj_cap"
    and "attrs_size T (merged_attrs dup ys xs) \<le> obj_len d \<or> (obj_allocated d \<and>
      alloc_ok E (attrs_size T (merged_attrs dup ys xs) + sizeof_object_data))"
  shows "\<exists>d'. cps_api_object_attr_merge T E d s dup = Some (True, d') \<and>
     obj_wf T d' (if xs = [] then ys else merged_attrs dup ys xs) \<and> obj_key d' = obj_key d \<and>
     obj_ref_count d' = obj_ref_count d"
proof -
  obtain og where og: "object_create_storage E = Some og" "obj_wf T og []" "obj_allocated og"
    "obj_len og = DEF_OBJECT_SIZE"
    using create_storage_ok [OF assms(3,4)] by auto
  obtain src where src: "cps_api_object_clone E og s = Some (True, src)" "obj_wf T src xs"
    using clone_ok [OF og(2) assms(2)] og(3,4) assms(5) by auto
  note us = obj_wf_used(1) [OF src(2)] and ud = obj_wf_used(1) [OF assms(1)]
  show ?thesis
  proof (cases "xs = []")
    case True
    then show ?thesis using og(1) src(1) us assms(1) by (simp add: cps_api_object_attr_merge_def)
  next
    case False
    define vs us where "vs = (if dup \<and> ys \<noteq> [] then filter (\<lambda>y. fst y \<notin> fst ` set xs) ys else ys)"
      and "us = (if dup \<and> ys \<noteq> [] then filter (\<lambda>x. fst x \<notin> set (zero_ids xs)) xs else xs)"
    have mg: "merged_attrs dup ys xs = vs @ us" by (simp add: merged_attrs_def vs_def us_def)
    have "\<exists>e t. (if dup \<and> obj_used_len d > 0 then delete_repeated_attributes T d src
          else Some (d, src)) = Some (e, t) \<and> obj_wf T e vs \<and> obj_wf T t us \<and>
        obj_key e = obj_key d \<and> obj_len e = obj_len d \<and> obj_allocated e = obj_allocated d \<and>
        obj_ref_count e = obj_ref_count d"
      using delete_repeated [OF assms(1) src(2)] assms(1) src(2) ud
      by (auto simp: vs_def us_def)
    then obtain e t where e: "(if dup \<and> obj_used_len d > 0 then delete_repeated_attributes T d src
          else Some (d, src)) = Some (e, t)" "obj_wf T e vs" "obj_wf T t us"
      "obj_key e = obj_key d" "obj_len e = obj_len d" "obj_allocated e = obj_allocated d"
      "obj_ref_count e = obj_ref_count d" by blast
    have sz: "attrs_size T vs + attrs_size T us = attrs_size T (merged_attrs dup ys xs)"
      using mg by simp
    have le: "attrs_size T vs \<le> attrs_size T ys" "attrs_size T us \<le> attrs_size T xs"
      using attrs_size_filter by (auto simp: vs_def us_def)
    then have lt: "attrs_size T vs + attrs_size T us < obj_cap" using assms(6) by linarith
    have fit: "attrs_size T vs + attrs_size T us \<le> obj_len e \<or>
        (obj_allocated e \<and> alloc_ok E (attrs_size T vs + attrs_size T us + sizeof_object_data))"
      using assms(7) unfolding sz [symmetric] e(5,6) .
    from grow_and_append [OF e(2,3) lt fit] obtain f m where f:
      "(if obj_len e < sz_add (obj_used_len t) (obj_used_len e)
        then obj_realloc E e (sz_add (obj_used_len t) (obj_used_len e)) else Some e) = Some f"
      "obj_used_len t \<le> length (obj_buf t)"
      "memcpy (obj_buf f) (obj_used_len f) (take (obj_used_len t) (obj_buf t)) = Some m"
      "obj_wf T (f\<lparr>obj_buf := m, obj_remain := sz_sub (obj_remain f) (obj_used_len t)\<rparr>) (vs @ us)"
      "obj_key f = obj_key e" "obj_ref_count f = obj_ref_count e"
      by blast
    define r where "r = f\<lparr>obj_buf := m, obj_remain := sz_sub (obj_remain f) (obj_used_len t)\<rparr>"
    have "obj_used_len src \<noteq> 0" using us False by simp
    moreover have "\<not> obj_used_len t > length (obj_buf t)" using f(2) by simp
    ultimately have "cps_api_object_attr_merge T E d s dup = Some (True, r)"
      unfolding cps_api_object_attr_merge_def Let_def og(1) src(1) bind.bind_lunit case_prod_conv e(1)
        f(1) by (simp only: option.simps if_False f(3) bind.bind_lunit r_def)
    then show ?thesis using f(4-6) e(4,7) mg False by (simp add: r_def)
  qed
qed

section \<open>Integers\<close>

lemma add_attribute_take:
  "n \<le> length dat \<Longrightarrow> add_attribute T E p t n dat = add_attribute T E p t n (take n dat)"
  by (simp add: add_attribute_def split: prod.split)

lemma attr_get_last:
  assumes "obj_wf T p (xs @ [(t, d)])" and "t \<notin> fst ` set xs"
  obtains a where "cps_api_object_attr_get T p t = Some (Some a)" and "attr_data T (obj_buf p) a = d"
    and "cps_api_object_attr_len T (obj_buf p) a = length d"
    and "attr_uint T (obj_buf p) a (length d) = Some (le_val d)"
proof -
  let ?a = "attrs_size T xs"
  note s = obj_wf_seq [OF assms(1)]
  have sq: "tlv_seq T (obj_buf p) 0 (attrs_size T (xs @ [(t, d)])) (xs @ (t, d) # [])" using s(1) by simp
  note at = seq_at [of "obj_buf p" 0, OF sq _ obj_cap_lt [OF s(3)]]
  have off: "attr_offset T (xs @ [(t, d)]) t = Some ?a" using assms(2) by (auto simp: attr_offset_Some)
  have dt: "attr_data T (obj_buf p) ?a = d" and ln: "std_tlv_len T (obj_buf p) ?a = length d"
    using at s(2) by simp_all
  have "?a + H + length d \<le> length (obj_buf p)" using s(2) by (simp add: attr_size_def)
  then show thesis
    using that [of ?a] attr_get [OF assms(1), of t] off dt ln
    by (simp add: cps_api_object_attr_len_def attr_uint_def data attr_data_def)
qed

lemma e_add_uint:
  assumes "obj_wf T p xs" and "can_reserve E p (n + H)" and "t \<notin> fst ` set xs"
    and "attrs_size T xs + n + H + DEF_OBJECT_REALLOC_STEP_SIZE < obj_cap"
    and "(ty, n) \<in> {(cps_api_object_ATTR_T_U16, 2), (cps_api_object_ATTR_T_U32, 4),
                    (cps_api_object_ATTR_T_U64, 8)}" and "v < 256 ^ n"
  obtains p' a where "cps_api_object_e_add T E p [t] ty (le_bytes n v) n = Some (True, p')"
    and "obj_wf T p' (xs @ [(t, le_bytes n v)])"
    and "cps_api_object_attr_get T p' t = Some (Some a)"
    and "cps_api_object_attr_len T (obj_buf p') a = n"
    and "attr_uint T (obj_buf p') a n = Some v"
proof -
  obtain dat where dat: "e_add_data E ty (le_bytes n v) = Some dat" "n \<le> length dat"
    "take n dat = le_bytes n v"
    using assms(5) by (auto simp: e_add_data_def)
  obtain p' where p': "add_attribute T E p t n dat = Some (True, p')"
    "obj_wf T p' (xs @ [(t, le_bytes n v)])"
    using add_attribute_append [OF assms(1), of E "le_bytes n v" t] assms(2,4) dat(3)
      add_attribute_take [OF dat(2)] by auto
  obtain a where "cps_api_object_attr_get T p' t = Some (Some a)"
    "cps_api_object_attr_len T (obj_buf p') a = n" "attr_uint T (obj_buf p') a n = Some v"
    using attr_get_last [OF p'(2) assms(3)] assms(6) by (auto simp: le_val_le_bytes)
  with that p' dat(1) show thesis by (simp add: cps_api_object_e_add_def)
qed

end

section \<open>What the object code does, for every tag-length-value library\<close>

text \<open>An object with one attribute and room for more, and an allocator that always succeeds.\<close>

definition demo_obj :: cps_obj where
  "demo_obj = \<lparr>obj_len = 64, obj_remain = 47, obj_allocated = True, obj_token = KEY_TOKEN,
     obj_key = replicate 64 0, obj_buf = tlv16_header 5 1 @ [9] @ replicate 47 0, obj_ref_count = 1\<rparr>"

definition libc_ok :: libc where
  "libc_ok = \<lparr>alloc_ok = (\<lambda>_. True), alloc_junk = (\<lambda>_. 0)\<rparr>"

lemma demo_obj_wf: "obj_wf tlv16 demo_obj [(5, [9])]"
proof -
  have "tlv16_tag (tlv16_header 5 1 @ 9 # replicate 47 0) 0 = 5"
    "tlv16_len (tlv16_header 5 1 @ 9 # replicate 47 0) 0 = 1"
    using tlv16_header_read [of 0 "[]" 1 5 "9 # replicate 47 0"] by (simp_all add: size_lim_def)
  then show ?thesis by (simp add: obj_wf_def demo_obj_def obj_cap_def)
qed

text \<open>An object that holds given attributes in the concrete layout \<open>tlv16\<close>.\<close>

fun tlv16_bytes :: "attr list \<Rightarrow> bytes" where
  "tlv16_bytes [] = []"
| "tlv16_bytes (x # xs) = tlv16_header (fst x) (length (snd x)) @ snd x @ tlv16_bytes xs"

definition tlv16_obj :: "attr list \<Rightarrow> cps_obj" where
  "tlv16_obj xs = \<lparr>obj_len = length (tlv16_bytes xs) + 64, obj_remain = 64, obj_allocated = True,
     obj_token = KEY_TOKEN, obj_key = replicate 64 0, obj_buf = tlv16_bytes xs @ replicate 64 0,
     obj_ref_count = 1\<rparr>"

lemma tlv16_bytes_seq:
  "\<forall>x \<in> set xs. length (snd x) < size_lim \<Longrightarrow>
     tlv_seq tlv16 (pre @ tlv16_bytes xs @ post) (length pre) (length (tlv16_bytes xs)) xs"
proof (induction xs arbitrary: pre)
  case (Cons x xs)
  let ?m = "pre @ tlv16_header (fst x) (length (snd x)) @ snd x @ tlv16_bytes xs @ post"
  have "tlv16_tag ?m (length pre) = fst x" "tlv16_len ?m (length pre) = length (snd x)"
    using tlv16_header_read [of "length pre" pre "length (snd x)" "fst x" "snd x @ tlv16_bytes xs @ post"] Cons.prems
    by simp_all
  moreover have "tlv_seq tlv16 ((pre @ tlv16_header (fst x) (length (snd x)) @ snd x) @ tlv16_bytes xs @ post)
      (length (pre @ tlv16_header (fst x) (length (snd x)) @ snd x)) (length (tlv16_bytes xs)) xs"
    by (rule Cons.IH) (use Cons.prems in simp)
  ultimately show ?case by (cases x) (simp add: add.assoc)
qed simp

lemma tlv16_obj_wf:
  "\<forall>x \<in> set xs. length (snd x) < size_lim \<Longrightarrow> length (tlv16_bytes xs) + 64 < obj_cap \<Longrightarrow>
     obj_wf tlv16 (tlv16_obj xs) xs"
  using tlv16_bytes_seq [of xs "[]" "replicate 64 0"] by (simp add: obj_wf_def tlv16_obj_def)

lemma demo_obj_used: "obj_used_len demo_obj = 17" "obj_remain demo_obj = 47" "obj_allocated demo_obj"
  by (simp_all add: obj_used_len_def demo_obj_def sz_sub_def size_lim_def)

lemma libc_ok_alloc [simp]: "alloc_ok libc_ok n"
  by (simp add: libc_ok_def)

lemma can_reserve_demo [simp]: "can_reserve libc_ok demo_obj n"
  by (simp add: can_reserve_def demo_obj_used)

lemmas demo_sizes =
  attr_size_def obj_cap_def DEF_OBJECT_REALLOC_STEP_SIZE_def sizeof_object_data_def
  CPS_OBJ_KEY_BYTE_MAX_LEN_def DEF_OBJECT_SIZE_def

text \<open>
  Looking up an attribute in a well-formed object returns the first attribute with that id:
  a missing id gives \<open>NULL\<close>, a present one a pointer to its bytes. The search always ends.
\<close>

theorem object_attr_get_correct:
  assumes "std_tlv T" and "obj_wf T p xs"
  shows "\<exists>r. cps_api_object_attr_get T p t = Some r \<and>
     map_of xs t = map_option (attr_data T (obj_buf p)) r"
proof (cases "attr_offset T xs t")
  case None
  then show ?thesis
    using std_tlv.attr_get [OF assms] attr_offset_None [of T xs t] map_of_eq_None_iff [of xs t] by auto
next
  case (Some a)
  then show ?thesis
    using std_tlv.attr_get [OF assms] std_tlv.attr_offset_data [OF assms] by auto
qed

theorem object_attr_get_correct_witness:
  "std_tlv tlv16 \<and> obj_wf tlv16 demo_obj [(5, [9])] \<and>
   (\<exists>r. cps_api_object_attr_get tlv16 demo_obj 5 = Some r \<and>
     map_option (attr_data tlv16 (obj_buf demo_obj)) r = Some [9])"
  using object_attr_get_correct [OF tlv16.std_tlv_axioms demo_obj_wf, of 5]
    tlv16.std_tlv_axioms demo_obj_wf by (auto simp: eq_commute [of "Some [9]"])

text \<open>
  \<^bold>\<open>C26.\<close> Deleting an attribute id removes every attribute with it, keeps all others in order, keeps
  the key, and reports whether there was one.
\<close>

theorem object_attr_delete_correct:
  assumes "std_tlv T" and "obj_wf T p xs"
  shows "\<exists>p'. cps_api_object_attr_delete T p t = Some (t \<in> fst ` set xs, p') \<and>
     obj_wf T p' (filter (\<lambda>x. fst x \<noteq> t) xs) \<and> obj_key p' = obj_key p"
  using std_tlv.attr_delete [OF assms] by blast

theorem object_attr_delete_correct_witness:
  "\<exists>p'. cps_api_object_attr_delete tlv16 demo_obj 5 = Some (True, p') \<and> obj_wf tlv16 p' [] \<and>
     obj_key p' = obj_key demo_obj"
  using object_attr_delete_correct [OF tlv16.std_tlv_axioms demo_obj_wf, of 5] by simp

text \<open>
  Adding an attribute appends it when there is room or the buffer can grow; otherwise the call
  returns \<open>false\<close> and the object is as before.
\<close>

theorem object_attr_add_correct:
  assumes "std_tlv T" and "obj_wf T p xs"
    and "attrs_size T xs + length d + STD_TLV_HDR_LEN T + 384 < obj_cap"
  shows "\<exists>p'. cps_api_object_attr_add T E p t d (length d) =
       Some (can_reserve E p (length d + STD_TLV_HDR_LEN T), p') \<and>
     obj_wf T p' (if can_reserve E p (length d + STD_TLV_HDR_LEN T) then xs @ [(t, d)] else xs) \<and>
     obj_key p' = obj_key p"
proof -
  have add: "cps_api_object_attr_add T E p t d (length d) = add_attribute T E p t (length d) d"
    by (simp add: cps_api_object_attr_add_def cps_api_object_e_add_def e_add_data_def)
  show ?thesis
  proof (cases "can_reserve E p (length d + STD_TLV_HDR_LEN T)")
    case True
    then show ?thesis
      using std_tlv.add_attribute_append [OF assms(1,2) True, of t] assms(3) add
      by (auto simp: DEF_OBJECT_REALLOC_STEP_SIZE_def)
  next
    case False
    then show ?thesis
      using std_tlv.add_attribute_refused [OF assms(1,2) False, of t] assms(2,3) add
      by (simp add: DEF_OBJECT_REALLOC_STEP_SIZE_def sizeof_object_data_def
          CPS_OBJ_KEY_BYTE_MAX_LEN_def)
  qed
qed

theorem object_attr_add_correct_witness:
  "\<exists>p'. cps_api_object_attr_add tlv16 libc_ok demo_obj 6 [1, 2] 2 = Some (True, p') \<and>
     obj_wf tlv16 p' [(5, [9]), (6, [1, 2])] \<and> obj_key p' = obj_key demo_obj"
proof -
  have "attrs_size tlv16 [(5, [9])] + length [1 :: u8, 2] + STD_TLV_HDR_LEN tlv16 + 384 < obj_cap"
    by (simp add: demo_sizes)
  from object_attr_add_correct [OF tlv16.std_tlv_axioms demo_obj_wf this, of libc_ok 6]
  show ?thesis by (simp add: numeral_2_eq_2 [symmetric])
qed

text \<open>
  An integer added under a fresh id reads back as the same value at its width, for 16, 32 and
  64 bits; the generic accessor agrees at the widths it supports.
\<close>

theorem object_uint_roundtrip:
  assumes "std_tlv T" and "obj_wf T p xs" and "t \<notin> fst ` set xs"
    and "\<forall>n \<le> 8. can_reserve E p (n + STD_TLV_HDR_LEN T)"
    and "attrs_size T xs + STD_TLV_HDR_LEN T + 136 < obj_cap"
  shows "(\<exists>p' a. cps_api_object_attr_add_u16 T E p t v16 = Some (True, p') \<and>
       cps_api_object_attr_get T p' t = Some (Some a) \<and>
       attr_uint T (obj_buf p') a 2 = Some (unat v16) \<and>
       cps_api_object_attr_data_uint T (obj_buf p') a = Some (unat v16)) \<and>
    (\<exists>p' a. cps_api_object_attr_add_u32 T E p t v32 = Some (True, p') \<and>
       cps_api_object_attr_get T p' t = Some (Some a) \<and>
       attr_uint T (obj_buf p') a 4 = Some (unat v32) \<and>
       cps_api_object_attr_data_uint T (obj_buf p') a = Some (unat v32)) \<and>
    (\<exists>p' a. cps_api_object_attr_add_u64 T E p t v64 = Some (True, p') \<and>
       cps_api_object_attr_get T p' t = Some (Some a) \<and>
       attr_uint T (obj_buf p') a 8 = Some (unat v64))"
proof -
  note add = std_tlv.e_add_uint [OF assms(1,2) _ assms(3)]
  have sz: "attrs_size T xs + n + STD_TLV_HDR_LEN T + DEF_OBJECT_REALLOC_STEP_SIZE < obj_cap"
    if "n \<le> 8" for n
    using assms(5) that by (simp add: DEF_OBJECT_REALLOC_STEP_SIZE_def)
  have "\<exists>p' a. cps_api_object_attr_add_u16 T E p t v16 = Some (True, p') \<and>
       cps_api_object_attr_get T p' t = Some (Some a) \<and>
       attr_uint T (obj_buf p') a 2 = Some (unat v16) \<and>
       cps_api_object_attr_data_uint T (obj_buf p') a = Some (unat v16)"
    by (rule add [of E 2 cps_api_object_ATTR_T_U16 "unat v16"])
      (use assms(4) [rule_format, of 2] sz [of 2] unat_lt_u16 [of v16] in
        \<open>auto simp: cps_api_object_attr_add_u16_def cps_api_object_attr_data_uint_def\<close>)
  moreover have "\<exists>p' a. cps_api_object_attr_add_u32 T E p t v32 = Some (True, p') \<and>
       cps_api_object_attr_get T p' t = Some (Some a) \<and>
       attr_uint T (obj_buf p') a 4 = Some (unat v32) \<and>
       cps_api_object_attr_data_uint T (obj_buf p') a = Some (unat v32)"
    by (rule add [of E 4 cps_api_object_ATTR_T_U32 "unat v32"])
      (use assms(4) [rule_format, of 4] sz [of 4] unat_lt_u32 [of v32] in
        \<open>auto simp: cps_api_object_attr_add_u32_def cps_api_object_attr_data_uint_def\<close>)
  moreover have "\<exists>p' a. cps_api_object_attr_add_u64 T E p t v64 = Some (True, p') \<and>
       cps_api_object_attr_get T p' t = Some (Some a) \<and>
       attr_uint T (obj_buf p') a 8 = Some (unat v64)"
    by (rule add [of E 8 cps_api_object_ATTR_T_U64 "unat v64"])
      (use assms(4) [rule_format, of 8] sz [of 8] unat_lt_u64 [of v64] in
        \<open>auto simp: cps_api_object_attr_add_u64_def\<close>)
  ultimately show ?thesis by blast
qed

theorem object_uint_roundtrip_witness:
  "\<exists>p' a. cps_api_object_attr_add_u32 tlv16 libc_ok demo_obj 6 305419896 = Some (True, p') \<and>
     cps_api_object_attr_get tlv16 p' 6 = Some (Some a) \<and>
     attr_uint tlv16 (obj_buf p') a 4 = Some 305419896 \<and>
     cps_api_object_attr_data_uint tlv16 (obj_buf p') a = Some 305419896"
proof -
  have "(6 :: u64) \<notin> fst ` set [(5, [9 :: u8])]" by simp
  moreover have "\<forall>n \<le> 8. can_reserve libc_ok demo_obj (n + STD_TLV_HDR_LEN tlv16)" by simp
  moreover have "attrs_size tlv16 [(5, [9])] + STD_TLV_HDR_LEN tlv16 + 136 < obj_cap"
    by (simp add: demo_sizes)
  ultimately show ?thesis
    using object_uint_roundtrip [OF tlv16.std_tlv_axioms demo_obj_wf, of 6 libc_ok 0 305419896 0] by simp
qed

text \<open>
  Cloning makes the destination carry exactly the source's attributes and its whole key,
  whatever the destination held; a destination that is too small and cannot grow is left alone and
  the call returns \<open>false\<close>.
\<close>

theorem object_clone_correct:
  assumes "std_tlv T" and "obj_wf T d ys" and "obj_wf T s xs"
    and "attrs_size T ys \<le> obj_len s \<or> attrs_size T xs \<le> obj_len d"
    and "obj_len s + sizeof_object_data < size_lim"
  shows "\<exists>d' ok. cps_api_object_clone E d s = Some (ok, d') \<and>
     (ok \<longleftrightarrow> attrs_size T xs \<le> obj_len d \<or>
       (obj_allocated d \<and> alloc_ok E (obj_len s + sizeof_object_data))) \<and>
     (if ok then obj_wf T d' xs \<and> obj_key d' = obj_key s else d' = d) \<and>
     obj_ref_count d' = obj_ref_count d"
proof (cases "attrs_size T xs \<le> obj_len d \<or>
    (obj_allocated d \<and> alloc_ok E (obj_len s + sizeof_object_data))")
  case True
  then show ?thesis using std_tlv.clone_ok [OF assms(1-3), of E] assms(4) by auto
next
  case False
  then show ?thesis
    using std_tlv.clone_refused [OF assms(1,3), of d E] assms(5) by (auto simp: sz_add_exact)
qed

theorem object_clone_correct_witness:
  "\<exists>d'. cps_api_object_clone libc_ok demo_obj demo_obj = Some (True, d') \<and>
     obj_wf tlv16 d' [(5, [9])] \<and> obj_key d' = obj_key demo_obj"
proof -
  have s: "obj_len demo_obj + sizeof_object_data < size_lim" "attrs_size tlv16 [(5, [9])] = 17"
    "obj_len demo_obj = 64"
    by (simp_all add: demo_sizes demo_obj_def size_lim_def)
  show ?thesis
    using object_clone_correct [OF tlv16.std_tlv_axioms demo_obj_wf demo_obj_wf _ s(1), of libc_ok]
      s(2,3) by auto
qed

text \<open>
  \<^bold>\<open>C27.\<close> Serialising an object and loading the bytes into any other object gives back the key and the
  attributes, whatever the other object held before.
\<close>

theorem object_array_roundtrip:
  assumes "std_tlv T" and "obj_wf T p xs" and "obj_wf T q ys" and "obj_allocated q"
    and "attrs_size T xs + 512 < obj_cap" and "alloc_ok E (attrs_size T xs + 512)"
  shows "\<exists>q'. cps_api_array_to_object E (cps_api_object_array p) (cps_api_object_to_array_len p) q =
       Some (True, q') \<and> obj_wf T q' xs \<and> obj_key q' = obj_key p"
  using std_tlv.array_roundtrip [OF assms(1,2,4), of E] assms(3,5,6)
  by (simp add: obj_wf_def sizeof_object_data_def CPS_OBJ_KEY_BYTE_MAX_LEN_def)

theorem object_array_roundtrip_witness:
  "\<exists>q'. cps_api_array_to_object libc_ok (cps_api_object_array demo_obj)
       (cps_api_object_to_array_len demo_obj) demo_obj = Some (True, q') \<and>
     obj_wf tlv16 q' [(5, [9])] \<and> obj_key q' = obj_key demo_obj"
  by (rule object_array_roundtrip [OF tlv16.std_tlv_axioms demo_obj_wf demo_obj_wf])
    (simp_all add: demo_sizes demo_obj_used)



end
