(* ===== verification/Cps_Object_Embedded.thy ===== *)
theory Cps_Object_Embedded
  imports Cps_Object_Proofs
begin

text \<open>
  Attributes inside containers. \<open>add_embedded\<close> rewrites the headers of the containers on a path,
  opens a gap behind the innermost one and writes the new attribute into it. For paths of two ids,
  which is how the key data of an object is stored (\<open>cps_api_set_key_data\<close>), the lemmas show that
  it does so for every object. For longer paths the first loop of \<open>add_embedded\<close> can search beyond
  the end of a container; the last section shows an object that is corrupted that way.
\<close>

section \<open>Writing a header and an attribute\<close>

fun container_append :: "u64 \<Rightarrow> bytes \<Rightarrow> attr list \<Rightarrow> attr list" where
  "container_append i e [] = [(i, e)]"
| "container_append i e (x # xs) =
     (if fst x = i then (i, snd x @ e) # xs else x # container_append i e xs)"

lemma container_append_absent: "i \<notin> fst ` set xs \<Longrightarrow> container_append i e xs = xs @ [(i, e)]"
  by (induction xs) auto

lemma container_append_present:
  "i \<notin> fst ` set ys \<Longrightarrow> container_append i e (ys @ (i, c) # zs) = ys @ (i, c @ e) # zs"
  by (induction ys) auto

lemma container_split:
  fixes xs :: "attr list"
  assumes "i \<in> fst ` set xs"
  obtains ys c zs where "xs = ys @ (i, c) # zs" and "i \<notin> fst ` set ys"
proof -
  obtain a where "attr_offset tlv16 xs i = Some a"
    using assms attr_offset_None [of tlv16 xs i] by (cases "attr_offset tlv16 xs i") auto
  then show thesis using that by (auto simp: attr_offset_Some)
qed

context std_tlv
begin

lemma set_len_tag:
  assumes "p + H \<le> length m" and "l < size_lim"
    and "m' = std_tlv_set_tag T (std_tlv_set_len T m p l) p t"
  shows "length m' = length m" and "take p m' = take p m" and "drop (p + H) m' = drop (p + H) m"
    and "std_tlv_tag T m' p = t" and "std_tlv_len T m' p = l"
  using set_len [OF assms(1,2) refl] set_tag [of p "std_tlv_set_len T m p l" m' t] assms(1,3)
  by simp_all

lemma set_tag_len:
  assumes "p + H \<le> length m" and "l < size_lim"
    and "m' = std_tlv_set_len T (std_tlv_set_tag T m p t) p l"
  shows "length m' = length m" and "take p m' = take p m" and "drop (p + H) m' = drop (p + H) m"
    and "std_tlv_tag T m' p = t" and "std_tlv_len T m' p = l"
  using set_tag [OF assms(1) refl, of t] set_len [of p "std_tlv_set_tag T m p t" l m'] assms
  by simp_all

lemma header_same:
  assumes "take (p + H) m' = take (p + H) m" and "p + H \<le> length m" and "p + H \<le> length m'"
  shows "std_tlv_tag T m' p = std_tlv_tag T m p" and "std_tlv_len T m' p = std_tlv_len T m p"
proof -
  have "drop p (take (p + H) m') = drop p (take (p + H) m)" using assms(1) by simp
  then have "take H (drop p m') = take H (drop p m)" by (simp add: drop_take add.commute)
  then show "std_tlv_tag T m' p = std_tlv_tag T m p" "std_tlv_len T m' p = std_tlv_len T m p"
    using tag_local [of p m] tag_local [of p m'] len_local [of p m] len_local [of p m'] assms by simp_all
qed

lemma write_attr:
  assumes "p + H + length d \<le> length m" and "length d < size_lim"
  obtains m' where
    "memcpy (std_tlv_set_len T (std_tlv_set_tag T m p t) p (length d)) (std_tlv_data T p) d = Some m'"
    and "length m' = length m" and "take p m' = take p m"
    and "drop (p + H + length d) m' = drop (p + H + length d) m"
    and "tlv_seq T m' p (H + length d) [(t, d)]"
proof -
  define m1 where "m1 = std_tlv_set_len T (std_tlv_set_tag T m p t) p (length d)"
  have fit: "p + H \<le> length m" using assms(1) by simp
  note h = set_tag_len [OF fit assms(2) m1_def]
  let ?m = "take (p + H) m1 @ d @ drop (p + H + length d) m1"
  have cp: "memcpy m1 (std_tlv_data T p) d = Some ?m" using assms(1) h(1) by (simp add: memcpy_def data)
  have len: "length ?m = length m" using h(1) assms(1) by simp
  have pre: "take (p + H) ?m = take (p + H) m1" using h(1) fit by simp
  have "take p ?m = take p m" using take_eq_shorter [OF pre, of p] h(2) by simp
  moreover have "drop (p + H + length d) ?m = drop (p + H + length d) m"
  proof -
    have "drop (p + H + length d) ?m = drop (p + H + length d) m1" using h(1) fit by simp
    also have "\<dots> = drop (length d) (drop (p + H) m1)" by (simp add: add.commute)
    finally show ?thesis using h(3) by (simp add: add.commute)
  qed
  moreover have "tlv_seq T ?m p (H + length d) [(t, d)]"
    using header_same [OF pre] h fit len by (simp add: add.commute)
  ultimately show thesis using that cp len m1_def by simp
qed

section \<open>A path of two ids\<close>

lemma find_first:
  assumes "obj_wf T p (ys @ (i, c) # zs)" and "i \<notin> fst ` set ys"
  shows "std_tlv_find_next T (obj_buf p) (Some 0) (attrs_size T (ys @ (i, c) # zs)) i =
     (Some (attrs_size T ys), attrs_size T (ys @ (i, c) # zs) - attrs_size T ys)"
  using find_next_hit [of "obj_buf p" 0 _ ys i c zs] obj_wf_seq [OF assms(1)] assms(2)
    obj_cap_lt [of "attrs_size T (ys @ (i, c) # zs)"] by force

lemma find_absent:
  assumes "obj_wf T p xs" and "i \<notin> fst ` set xs"
  obtains l where "std_tlv_find_next T (obj_buf p) (Some 0) (attrs_size T xs) i = (None, l)"
proof -
  have "fst (std_tlv_find_next T (obj_buf p) (Some 0) (attrs_size T xs) i) = None"
    using find_next_miss [of "obj_buf p" 0 _ xs i] obj_wf_seq [OF assms(1)] assms(2)
      obj_cap_lt [of "attrs_size T xs"] by force
  then show thesis using that by (metis prod.collapse)
qed

lemma new_container:
  assumes "obj_wf T q xs" and "length d + 2 * H \<le> obj_remain q"
  defines "n \<equiv> attrs_size T xs" and "need \<equiv> length d + 2 * H"
  obtains m1 m2 m3 e where "memmove (obj_buf q) (n + need) n 0 = Some m1"
    and "embedded_headers T m1 n need [i] = Some (m2, n + H)"
    and "n + H + H \<le> length m2"
    and "memcpy (std_tlv_set_len T (std_tlv_set_tag T m2 (n + H) j) (n + H) (length d))
      (std_tlv_data T (n + H)) d = Some m3"
    and "obj_wf T (q\<lparr>obj_remain := sz_sub (obj_remain q) need, obj_buf := m3\<rparr>) (xs @ [(i, e)])"
    and "tlv_seq T e 0 (length e) [(j, d)]"
proof -
  note s = obj_wf_seq [OF assms(1)] and u = obj_wf_used [OF assms(1)]
  let ?b = "obj_buf q"
  have fit: "n + need \<le> length ?b" using assms(2) u(3,4) s(4) by (simp add: n_def need_def)
  have lim: "need < size_lim" "need - H < size_lim" "length d < size_lim"
    using fit s(4,5) by (simp_all add: need_def obj_cap_def size_lim_def)
  have nH: "sz_sub need H = need - H" using lim by (simp add: sz_sub_exact need_def)
  have fit1: "n + H \<le> length ?b" "n + H + H + length d \<le> length ?b"
    using fit by (simp_all add: need_def)
  define m2 where "m2 = std_tlv_set_tag T (std_tlv_set_len T ?b n (need - H)) n i"
  note h = set_len_tag [OF fit1(1) lim(2) m2_def]
  have "n + H + H + length d \<le> length m2" using fit1(2) h(1) by simp
  then obtain m3 where w: "memcpy (std_tlv_set_len T (std_tlv_set_tag T m2 (n + H) j) (n + H) (length d))
      (std_tlv_data T (n + H)) d = Some m3" "length m3 = length m2" "take (n + H) m3 = take (n + H) m2"
    "drop (n + H + H + length d) m3 = drop (n + H + H + length d) m2"
    "tlv_seq T m3 (n + H) (H + length d) [(j, d)]"
    using write_attr [of "n + H" d m2 j] lim(3) by auto
  define e where "e = take (H + length d) (drop (n + H) m3)"
  have le: "length e = H + length d" using fit1(2) w(2) h(1) by (simp add: e_def)
  have se: "tlv_seq T e 0 (length e) [(j, d)]"
    unfolding le by (rule tlv_seq_relocate [OF w(5)]) (use fit1(2) w(2) h(1) le e_def in auto)
  have hd: "std_tlv_tag T m3 n = i" "std_tlv_len T m3 n = length e"
    using header_same [OF w(3)] h fit1 w(2) le by (simp_all add: need_def)
  have "take n m3 = take n ?b" using take_eq_shorter [OF w(3), of n] h(2) by simp
  then have "tlv_seq T m3 0 n xs"
    using s(1) w(2) h(1) fit by (intro tlv_seq_relocate [OF s(1) [folded n_def]]) auto
  then have seq: "tlv_seq T m3 0 (attrs_size T (xs @ [(i, e)])) (xs @ [(i, e)])"
    using hd le by (subst tlv_seq_append) (simp add: n_def attr_size_def e_def)
  have sz: "attrs_size T (xs @ [(i, e)]) = n + need" using le by (simp add: n_def attr_size_def need_def)
  have rm: "sz_sub (obj_remain q) need = obj_len q - (n + need)"
    using u(3) assms(2) obj_cap_lt [OF s(5)] by (simp add: sz_sub_exact need_def n_def)
  have wf: "obj_wf T (q\<lparr>obj_remain := sz_sub (obj_remain q) need, obj_buf := m3\<rparr>) (xs @ [(i, e)])"
    by (rule obj_wfI) (use assms(1) seq sz rm w(2) h(1) s(4,5) fit in \<open>auto simp: obj_wf_def\<close>)
  have "embedded_headers T ?b n need [i] = Some (m2, n + H)"
    using fit1(1) nH by (simp add: m2_def)
  moreover have "memmove ?b (n + need) n 0 = Some ?b" using fit by (simp add: memmove_eq_Some)
  moreover have "n + H + H \<le> length m2" using fit1(2) h(1) by simp
  ultimately show thesis using that w(1) wf se by blast
qed

lemma grow_container:
  assumes "obj_wf T q (ys @ (i, c) # zs)" and "length d + H \<le> obj_remain q"
  defines "a \<equiv> attrs_size T ys" and "need \<equiv> length d + H"
    and "f \<equiv> attrs_size T ys + H + length c"
  obtains m2 m3 e where
    "memmove (std_tlv_set_len T (obj_buf q) a (sz_add (length c) need)) (f + need) f (attrs_size T zs) =
      Some m2"
    and "f + H \<le> length m2"
    and "memcpy (std_tlv_set_len T (std_tlv_set_tag T m2 f j) f (length d)) (std_tlv_data T f) d = Some m3"
    and "obj_wf T (q\<lparr>obj_remain := sz_sub (obj_remain q) need, obj_buf := m3\<rparr>)
      (ys @ (i, c @ e) # zs)"
    and "tlv_seq T e 0 (length e) [(j, d)]"
proof -
  let ?b = "obj_buf q" and ?z = "attrs_size T zs" and ?xs = "ys @ [(i, c)] @ zs"
  have wf': "obj_wf T q ?xs" using assms(1) by simp
  note s = obj_wf_seq [OF wf'] and u = obj_wf_used [OF wf']
  have n: "attrs_size T ?xs = f + ?z" by (simp add: f_def attr_size_def)
  have fit: "f + ?z + need \<le> length ?b" using assms(2) u(3,4) s(4) n by (simp add: need_def)
  have lim: "length c + need < size_lim" "length d < size_lim"
    using fit s(4) obj_cap_lt [OF s(5)] by (simp_all add: need_def f_def)
  then have sz: "sz_add (length c) need = length c + need" by (simp add: sz_add_exact)
  have aH: "a + H \<le> length ?b" using fit by (simp add: a_def f_def)
  define m1 where "m1 = std_tlv_set_len T ?b a (length c + need)"
  have h: "length m1 = length ?b" "take a m1 = take a ?b" "drop (a + H) m1 = drop (a + H) ?b"
    "std_tlv_len T m1 a = length c + need" "std_tlv_tag T m1 a = std_tlv_tag T ?b a"
    using set_len [OF aH lim(1) m1_def] by simp_all
  have tag: "std_tlv_tag T ?b a = i" and con: "take (length c) (drop (a + H) ?b) = c"
    using s(1) by (simp_all add: tlv_seq_append a_def)
  define m2 where "m2 = take (f + need) m1 @ take ?z (drop f m1) @ drop (f + need + ?z) m1"
  have mv: "memmove m1 (f + need) f ?z = Some m2"
    using fit h(1) by (simp add: memmove_eq_Some m2_def)
  have l2: "length m2 = length ?b" using fit h(1) by (simp add: m2_def)
  have "f + H + length d \<le> length m2" using fit l2 by (simp add: need_def)
  then obtain m3 where w: "memcpy (std_tlv_set_len T (std_tlv_set_tag T m2 f j) f (length d))
      (std_tlv_data T f) d = Some m3" "length m3 = length m2" "take f m3 = take f m2"
    "drop (f + H + length d) m3 = drop (f + H + length d) m2" "tlv_seq T m3 f (H + length d) [(j, d)]"
    using write_attr [of f d m2 j] lim(2) by auto
  have t3: "take f m3 = take f m1" using w(3) fit h(1) by (simp add: m2_def)
  define e where "e = take need (drop f m3)"
  have le: "length e = need" using fit w(2) l2 by (simp add: e_def)
  have se: "tlv_seq T e 0 (length e) [(j, d)]"
    unfolding le need_def add.commute [of "length d"]
    by (rule tlv_seq_relocate [OF w(5)]) (use fit w(2) l2 le e_def in \<open>auto simp: need_def add_ac\<close>)
  have t3a: "take k m3 = take k m1" if "k \<le> f" for k
    using take_eq_shorter [OF t3 that] .
  have hd: "std_tlv_tag T m3 a = i" "std_tlv_len T m3 a = length c + need"
    using header_same [of a m3 m1] t3a [of "a + H"] aH h w(2) l2 tag by (simp_all add: f_def a_def)
  have dat: "take (length c + need) (drop (a + H) m3) = c @ e"
  proof -
    have "take (length c) (drop (a + H) m3) = drop (a + H) (take f m3)"
      by (simp add: drop_take f_def a_def)
    also have "\<dots> = take (length c) (drop (a + H) m1)" unfolding t3 by (simp add: drop_take f_def a_def)
    finally have "take (length c) (drop (a + H) m3) = c" using h(3) con by simp
    moreover have "drop (length c) (drop (a + H) m3) = drop f m3"
      by (simp add: f_def a_def add_ac)
    ultimately show ?thesis by (simp add: take_add e_def)
  qed
  have seq: "tlv_seq T m3 0 (attrs_size T (ys @ [(i, c @ e)] @ zs)) (ys @ [(i, c @ e)] @ zs)"
  proof (rule tlv_seq_splice [OF s(1,2)])
    show "take (attrs_size T ys) m3 = take (attrs_size T ys) ?b"
      using t3a [of a] h(2) by (simp add: a_def f_def)
    show "tlv_seq T m3 (attrs_size T ys) (attrs_size T [(i, c @ e)]) [(i, c @ e)]"
      using hd dat le by (simp add: a_def attr_size_def)
    have "drop (f + need) m3 = drop (f + need) m2" using w(4) by (simp add: need_def add_ac)
    also have "take ?z \<dots> = take ?z (drop f m1)" using fit h(1) by (simp add: m2_def)
    also have "drop f m1 = drop (length c) (drop (a + H) m1)" by (simp add: f_def a_def add_ac)
    also have "\<dots> = drop f ?b" unfolding h(3) by (simp add: f_def a_def add_ac)
    finally show "take ?z (drop (attrs_size T ys + attrs_size T [(i, c @ e)]) m3) =
        take ?z (drop (attrs_size T ys + attrs_size T [(i, c)]) ?b)"
      using le by (simp add: f_def attr_size_def add_ac)
    show "attrs_size T (ys @ [(i, c @ e)] @ zs) \<le> length m3"
      using fit le w(2) l2 by (simp add: f_def attr_size_def)
  qed
  have "attrs_size T (ys @ [(i, c @ e)] @ zs) = f + ?z + need" using le by (simp add: f_def attr_size_def)
  moreover have "sz_sub (obj_remain q) need = obj_len q - (f + ?z + need)"
    using u(3) n assms(2) obj_cap_lt [OF s(5)] by (simp add: sz_sub_exact need_def)
  ultimately have "obj_wf T (q\<lparr>obj_remain := sz_sub (obj_remain q) need, obj_buf := m3\<rparr>)
      (ys @ [(i, c @ e)] @ zs)"
    by (intro obj_wfI) (use assms(1) seq w(2) l2 s(4,5) fit in \<open>auto simp: obj_wf_def\<close>)
  then show thesis
    by (intro that [OF _ _ w(1) _ se])
      (use mv fit l2 sz in \<open>simp_all add: m1_def need_def\<close>)
qed

lemma add_embedded_two:
  assumes "obj_wf T p xs" and "can_reserve E p (length d + (if i \<in> fst ` set xs then H else 2 * H))"
    and "attrs_size T xs + length d + 2 * H + DEF_OBJECT_REALLOC_STEP_SIZE < obj_cap"
  shows "\<exists>p' e. add_embedded T E p [i, j] d (length d) = Some (True, p') \<and>
     tlv_seq T e 0 (length e) [(j, d)] \<and> obj_wf T p' (container_append i e xs) \<and>
     obj_key p' = obj_key p"
proof -
  let ?n = "attrs_size T xs"
  note u = obj_wf_used [OF assms(1)]
  have lim: "?n + length d + 2 * H < size_lim" using assms(3) by (simp add: obj_cap_def size_lim_def)
  show ?thesis
  proof (cases "i \<in> fst ` set xs")
    case False
    let ?need = "length d + 2 * H"
    obtain l where miss: "std_tlv_find_next T (obj_buf p) (Some 0) ?n i = (None, l)"
      using find_absent [OF assms(1) False] .
    have need: "sz_add (length d) (H + H) = ?need" using lim by (simp add: sz_add_exact)
    obtain q where q: "reserve_spacespace E p ?need = (True, q)" "obj_wf T q xs"
      "?need \<le> obj_remain q" "obj_key q = obj_key p"
      using reserve_ok [OF assms(1), of E ?need] assms(2,3) False by auto
    obtain l' where miss': "std_tlv_find_next T (obj_buf q) (Some 0) ?n i = (None, l')"
      using find_absent [OF q(2) False] .
    obtain m1 m2 m3 e where w: "memmove (obj_buf q) (?n + ?need) ?n 0 = Some m1"
      "embedded_headers T m1 ?n ?need [i] = Some (m2, ?n + H)" "?n + H + H \<le> length m2"
      "memcpy (std_tlv_set_len T (std_tlv_set_tag T m2 (?n + H) j) (?n + H) (length d))
        (std_tlv_data T (?n + H)) d = Some m3"
      "obj_wf T (q\<lparr>obj_remain := sz_sub (obj_remain q) ?need, obj_buf := m3\<rparr>) (xs @ [(i, e)])"
      "tlv_seq T e 0 (length e) [(j, d)]"
      using new_container [OF q(2,3)] by blast
    have "add_embedded T E p [i, j] d (length d) =
        Some (True, q\<lparr>obj_remain := sz_sub (obj_remain q) ?need, obj_buf := m3\<rparr>)"
      using u(1) miss need q(1) miss' w(1-4) lim
      by (simp add: add_embedded_def Let_def sz_sub_exact del: embedded_headers.simps)
    then show ?thesis using w(5,6) q(4) False by (auto simp: container_append_absent)
  next
    case True
    then obtain ys c zs where x: "xs = ys @ (i, c) # zs" "i \<notin> fst ` set ys" by (rule container_split)
    let ?need = "length d + H" and ?a = "attrs_size T ys" and ?f = "attrs_size T ys + H + length c"
    have wf: "obj_wf T p (ys @ (i, c) # zs)" using assms(1) x(1) by simp
    have need: "sz_add (length d) (H * (2 - Suc 0)) = ?need" using lim by (simp add: sz_add_exact)
    have n: "?n = ?f + attrs_size T zs" by (simp add: x(1) attr_size_def)
    obtain q where q: "reserve_spacespace E p ?need = (True, q)" "obj_wf T q (ys @ (i, c) # zs)"
      "?need \<le> obj_remain q" "obj_key q = obj_key p"
      using reserve_ok [OF assms(1), of E ?need] assms(2,3) True x(1) by auto
    note hit = find_first [OF wf x(2), folded x(1)] and hit' = find_first [OF q(2) x(2), folded x(1)]
    have len: "std_tlv_len T (obj_buf q) ?a = length c"
      using seq_at(2) [of "obj_buf q" 0 _ ys i c zs] obj_wf_seq(1-3) [OF q(2)] obj_cap_lt by simp
    obtain m2 m3 e where w:
      "memmove (std_tlv_set_len T (obj_buf q) ?a (sz_add (length c) ?need)) (?f + ?need) ?f
        (attrs_size T zs) = Some m2" "?f + H \<le> length m2"
      "memcpy (std_tlv_set_len T (std_tlv_set_tag T m2 ?f j) ?f (length d)) (std_tlv_data T ?f) d = Some m3"
      "obj_wf T (q\<lparr>obj_remain := sz_sub (obj_remain q) ?need, obj_buf := m3\<rparr>) (ys @ (i, c @ e) # zs)"
      "tlv_seq T e 0 (length e) [(j, d)]"
      using grow_container [OF q(2,3)] by blast
    have left: "sz_sub ?n ?f = attrs_size T zs" using n lim by (simp add: sz_sub_exact)
    have "add_embedded T E p [i, j] d (length d) =
        Some (True, q\<lparr>obj_remain := sz_sub (obj_remain q) ?need, obj_buf := m3\<rparr>)"
      using u(1) hit need q(1) hit' len w(1-3) left
      by (simp add: add_embedded_def Let_def data)
    then show ?thesis using w(4,5) q(4) x by (auto simp: container_append_present)
  qed
qed

section \<open>Searching along a path of two ids\<close>

lemma e_get_two:
  assumes "obj_wf T p (ys @ (i, c) # zs)" and "i \<notin> fst ` set ys"
    and "tlv_seq T c 0 (length c) (us @ (j, d) # vs)" and "j \<notin> fst ` set us"
  shows "\<exists>a. cps_api_object_e_get T p [i, j] = Some a \<and> attr_data T (obj_buf p) a = d"
proof -
  let ?a = "attrs_size T ys" and ?m = "obj_buf p"
  let ?n = "attrs_size T (ys @ (i, c) # zs)"
  note s = obj_wf_seq [OF assms(1)]
  note at = seq_at [of ?m 0, OF s(1) _ obj_cap_lt [OF s(3)], simplified add_0]
  have b: "?a + H + length c \<le> length ?m" using s(2) by (simp add: attr_size_def)
  have cm: "take (length c) (drop (?a + H) ?m) = c"
    using at(2,4) s(2) by (simp add: attr_data_def data)
  have inner: "tlv_seq T ?m (?a + H) (length c) (us @ (j, d) # vs)"
    by (rule tlv_seq_relocate [OF assms(3)]) (use b cm in auto)
  have lc: "length c < size_lim" using b s(4) obj_cap_lt [OF s(5)] by simp
  have "std_tlv_find_next T ?m (Some (?a + H)) (length c) j =
      (Some (?a + H + attrs_size T us), length c - attrs_size T us)"
    using find_next_hit [OF inner _ lc] b assms(4) by force
  moreover have "std_tlv_len T ?m ?a = length c" using at(2) s(2) by simp
  ultimately have "cps_api_object_e_get T p [i, j] = Some (?a + H + attrs_size T us)"
    using find_first [OF assms(1,2)] obj_wf_used(1) [OF assms(1)]
    by (simp add: cps_api_object_e_get_def efind_more efind_one data)
  moreover have "attr_data T ?m (?a + H + attrs_size T us) = d"
    using seq_at(4) [OF inner _ lc] b by simp
  ultimately show ?thesis by blast
qed

section \<open>Longer paths: the first loop searches beyond the container\<close>

text \<open>
  An object with an empty container \<open>i\<close> followed by a sibling \<open>j\<close>: there is no \<open>j\<close> inside \<open>i\<close>, but
  the first loop of \<open>add_embedded\<close> counts the path \<open>i, j\<close> as present. The space reserved for a path
  \<open>i, j, k\<close> is then one header short, and the third loop overwrites the sibling's header.
\<close>

lemma embedded_count_sees_siblings:
  assumes "obj_wf T p ((i, []) # (j, d) # rest)"
  shows "embedded_count T (obj_buf p) (Some 0) (obj_used_len p) [i, j] = 2"
    and "cps_api_object_e_get T p [i, j] = None"
proof -
  let ?xs = "(i, []) # (j, d) # rest" and ?m = "obj_buf p"
  note s = obj_wf_seq [OF assms] and u = obj_wf_used(1) [OF assms]
  have hit: "std_tlv_find_next T ?m (Some 0) (attrs_size T ?xs) i = (Some 0, attrs_size T ?xs)"
    using find_first [of p "[]" i "[]" "(j, d) # rest"] assms by simp
  have n: "attrs_size T ?xs = H + attrs_size T ((j, d) # rest)" by (simp add: attr_size_def)
  have sub: "sz_sub (attrs_size T ?xs) H = attrs_size T ((j, d) # rest)"
    using n obj_cap_lt [OF s(3)] by (simp add: sz_sub_exact)
  have "tlv_seq T ?m H (attrs_size T ((j, d) # rest)) ([] @ (j, d) # rest)"
    using s(1) n by (simp add: attr_size_def del: attrs_size_simps)
  then have "std_tlv_find_next T ?m (Some H) (attrs_size T ((j, d) # rest)) j =
      (Some H, attrs_size T ((j, d) # rest))"
    using find_next_hit [of ?m H _ "[]" j d rest] s(2) n obj_cap_lt [OF s(3)] by simp
  then show "embedded_count T ?m (Some 0) (obj_used_len p) [i, j] = 2"
    using hit sub u by (simp add: data)
  have "std_tlv_len T ?m 0 = 0" using s(1) by simp
  then show "cps_api_object_e_get T p [i, j] = None"
    using hit u find_short hdr_pos by (simp add: cps_api_object_e_get_def efind_more efind_one)
qed

end

lemma add_embedded_counts_siblings:
  assumes "std_tlv T" and "obj_wf T p ((i, []) # (j, d) # rest)"
  shows "embedded_count T (obj_buf p) (Some 0) (obj_used_len p) [i, j] = 2 \<and>
     cps_api_object_e_get T p [i, j] = None"
  using std_tlv.embedded_count_sees_siblings [OF assms] by simp

section \<open>Key data\<close>

text \<open>
  \<^bold>\<open>C24.\<close> Setting key data puts the attribute into the key container of the object: a missing
  container is created, an existing one is extended in place, and every other attribute stays.
  If the container did not hold the id, reading the key data back finds the stored bytes.
\<close>

theorem object_key_data_correct:
  assumes "std_tlv T" and "obj_wf T p xs"
    and "can_reserve E p (length d + (if CPS_API_OBJ_KEY_ATTRS \<in> fst ` set xs
      then STD_TLV_HDR_LEN T else 2 * STD_TLV_HDR_LEN T))"
    and "attrs_size T xs + length d + 2 * STD_TLV_HDR_LEN T + 128 < obj_cap"
    and "case map_of xs CPS_API_OBJ_KEY_ATTRS of None \<Rightarrow> cs = []
         | Some c \<Rightarrow> tlv_seq T c 0 (length c) cs"
    and "j \<notin> fst ` set cs"
  shows "\<exists>p' e a. cps_api_set_key_data T E p j cps_api_object_ATTR_T_BIN d (length d) = Some (True, p') \<and>
     tlv_seq T e 0 (length e) [(j, d)] \<and>
     obj_wf T p' (container_append CPS_API_OBJ_KEY_ATTRS e xs) \<and> obj_key p' = obj_key p \<and>
     cps_api_get_key_data T p' j = Some a \<and> attr_data T (obj_buf p') a = d"
proof -
  let ?i = CPS_API_OBJ_KEY_ATTRS
  obtain p' e where p': "add_embedded T E p [?i, j] d (length d) = Some (True, p')"
    "tlv_seq T e 0 (length e) [(j, d)]" "obj_wf T p' (container_append ?i e xs)" "obj_key p' = obj_key p"
    using std_tlv.add_embedded_two [OF assms(1,2,3), of j] assms(4)
    by (auto simp: DEF_OBJECT_REALLOC_STEP_SIZE_def)
  have set: "cps_api_set_key_data T E p j cps_api_object_ATTR_T_BIN d (length d) = Some (True, p')"
    using p'(1) by (simp add: cps_api_set_key_data_def cps_api_object_e_add_def e_add_data_def)
  have "\<exists>a. cps_api_object_e_get T p' [?i, j] = Some a \<and> attr_data T (obj_buf p') a = d"
  proof (cases "?i \<in> fst ` set xs")
    case False
    then have "container_append ?i e xs = xs @ (?i, e) # []" by (simp add: container_append_absent)
    then show ?thesis
      using std_tlv.e_get_two [OF assms(1), of p' xs ?i e "[]" "[]" j d "[]"] p'(2,3) False by simp
  next
    case True
    then obtain ys c zs where x: "xs = ys @ (?i, c) # zs" "?i \<notin> fst ` set ys"
      by (rule container_split)
    then have "map_of xs ?i = Some c"
      by (simp add: map_add_def map_of_eq_None_iff [of ys ?i, THEN iffD2])
    then have c: "tlv_seq T c 0 (length c) cs" using assms(5) by simp
    have "tlv_seq T (c @ e) 0 (length c) cs"
      by (rule std_tlv.tlv_seq_relocate [OF assms(1) c]) auto
    moreover have "tlv_seq T (c @ e) (length c) (length e) [(j, d)]"
      by (rule std_tlv.tlv_seq_relocate [OF assms(1) p'(2)]) auto
    ultimately have "tlv_seq T (c @ e) 0 (length (c @ e)) (cs @ (j, d) # [])"
      using tlv_seq_size [OF c] by (simp add: tlv_seq_append del: tlv_seq.simps)
    then show ?thesis
      using std_tlv.e_get_two [OF assms(1) _ x(2), of p' "c @ e" zs cs j d "[]"] p'(3) assms(6) x
      by (simp add: container_append_present)
  qed
  then show ?thesis using set p'(2-4) by (auto simp: cps_api_get_key_data_def)
qed

theorem object_key_data_correct_witness:
  "\<exists>p' e a. cps_api_set_key_data tlv16 libc_ok demo_obj 7 cps_api_object_ATTR_T_BIN [1, 2] 2 =
       Some (True, p') \<and>
     tlv_seq tlv16 e 0 (length e) [(7, [1, 2])] \<and>
     obj_wf tlv16 p' [(5, [9]), (CPS_API_OBJ_KEY_ATTRS, e)] \<and> obj_key p' = obj_key demo_obj \<and>
     cps_api_get_key_data tlv16 p' 7 = Some a \<and> attr_data tlv16 (obj_buf p') a = [1, 2]"
proof -
  let ?xs = "[(5, [9])] :: attr list" and ?d = "[1, 2] :: u8 list"
  have ne: "CPS_API_OBJ_KEY_ATTRS \<noteq> 5" by (simp add: CPS_API_OBJ_KEY_ATTRS_def)
  have a: "can_reserve libc_ok demo_obj (length ?d + (if CPS_API_OBJ_KEY_ATTRS \<in> fst ` set ?xs
      then STD_TLV_HDR_LEN tlv16 else 2 * STD_TLV_HDR_LEN tlv16))" by simp
  have b: "attrs_size tlv16 ?xs + length ?d + 2 * STD_TLV_HDR_LEN tlv16 + 128 < obj_cap"
    by (simp add: demo_sizes)
  have c: "case map_of ?xs CPS_API_OBJ_KEY_ATTRS of None \<Rightarrow> [] = []
         | Some c \<Rightarrow> tlv_seq tlv16 c 0 (length c) ([] :: attr list)" using ne by simp
  have d: "7 \<notin> fst ` set ([] :: attr list)" by simp
  show ?thesis
    using object_key_data_correct [OF tlv16.std_tlv_axioms demo_obj_wf a b c d] ne
    by (simp add: numeral_2_eq_2 [symmetric])
qed

end
