(* ===== verification/Cps_Object_Heap.thy ===== *)
theory Cps_Object_Heap
  imports Cps_Object_Proofs
begin

text \<open>
  Ownership of objects: creation, reference counting, deletion, the allocation trackers and the
  object lists of \<^verbatim>\<open>src/cps_api_object.cpp\<close>.

  The heap maps addresses to live objects. An access through a pointer that is not live is a use
  after free and gives \<open>None\<close>; the allocator hands out each address once, so that such an access
  is always seen. A pointer is an address or \<open>None\<close> for \<open>NULL\<close>. A list is a \<open>std::vector\<close> of
  pointers, kept as a value that the operations return updated. Growing a vector to \<open>n\<close> elements
  throws when the allocator refuses \<open>8 * n\<close> bytes.
\<close>

section \<open>The heap\<close>

record tracker_detail =
  trk_desc :: string
  trk_ln :: nat
  trk_file :: string

record obj_heap =
  hp_objs :: "nat \<Rightarrow> cps_obj option"
  hp_brk :: nat
  hp_trackers :: "(nat \<times> tracker_detail) list"
  hp_allocated_objs :: nat
  hp_deallocated_objs :: nat

type_synonym obj_ptr = "nat option"

definition empty_heap :: obj_heap where
  "empty_heap = \<lparr>hp_objs = (\<lambda>_. None), hp_brk = 1, hp_trackers = [], hp_allocated_objs = 0,
     hp_deallocated_objs = 0\<rparr>"

definition heap_set :: "obj_heap \<Rightarrow> nat \<Rightarrow> cps_obj \<Rightarrow> obj_heap" where
  "heap_set h a p = h\<lparr>hp_objs := (hp_objs h)(a := Some p)\<rparr>"

text \<open>\<open>trackers\<close> is an \<open>unordered_map\<close> from addresses to details.\<close>

definition db_list_tracker_add ::
  "obj_heap \<Rightarrow> nat \<Rightarrow> string option \<Rightarrow> nat \<Rightarrow> string option \<Rightarrow> obj_heap" where
  "db_list_tracker_add h obj label line file =
     (let file = (case file of None \<Rightarrow> [] | Some s \<Rightarrow> s);
          label = (case label of None \<Rightarrow> [] | Some s \<Rightarrow> s);
          d = \<lparr>trk_desc = label, trk_ln = line, trk_file = file\<rparr>
      in h\<lparr>hp_trackers := (obj, d) # filter (\<lambda>e. fst e \<noteq> obj) (hp_trackers h)\<rparr>)"

definition db_list_tracker_rm :: "obj_heap \<Rightarrow> nat \<Rightarrow> obj_heap" where
  "db_list_tracker_rm h obj = h\<lparr>hp_trackers := filter (\<lambda>e. fst e \<noteq> obj) (hp_trackers h)\<rparr>"

definition cps_api_objects_allocated :: "obj_heap \<Rightarrow> nat" where
  "cps_api_objects_allocated h = length (hp_trackers h)"

definition cps_api_list_debug :: "obj_heap \<Rightarrow> bool" where
  "cps_api_list_debug h \<longleftrightarrow> hp_trackers h = []"

definition cps_api_object_create_int ::
  "libc \<Rightarrow> obj_heap \<Rightarrow> string option \<Rightarrow> nat \<Rightarrow> string option \<Rightarrow> (nat \<times> obj_heap) option" where
  "cps_api_object_create_int E h desc line file = do {
     obj \<leftarrow> object_create_storage E;
     let a = hp_brk h;
     let h = heap_set (h\<lparr>hp_brk := a + 1\<rparr>) a obj;
     let h = db_list_tracker_add h a desc line file;
     Some (a, h\<lparr>hp_allocated_objs := hp_allocated_objs h + 1\<rparr>)
   }"

text \<open>The macro \<open>cps_api_object_create\<close>; the source position only feeds the trackers.\<close>

definition cps_api_object_create :: "libc \<Rightarrow> obj_heap \<Rightarrow> (nat \<times> obj_heap) option" where
  "cps_api_object_create E h = cps_api_object_create_int E h (Some []) 0 (Some [])"

definition cps_api_object_reference ::
  "obj_heap \<Rightarrow> obj_ptr \<Rightarrow> bool \<Rightarrow> (obj_ptr \<times> obj_heap) option" where
  "cps_api_object_reference h obj copy_on_write =
     (case obj of
        None \<Rightarrow> Some (None, h)
      | Some a \<Rightarrow>
          if copy_on_write then Some (None, h)
          else do {
            p \<leftarrow> hp_objs h a;
            Some (Some a, heap_set h a (p\<lparr>obj_ref_count := sz_add (obj_ref_count p) 1\<rparr>))
          })"

definition obj_delloc :: "obj_heap \<Rightarrow> nat \<Rightarrow> obj_heap option" where
  "obj_delloc h a = do {
     p \<leftarrow> hp_objs h a;
     if obj_token p \<noteq> KEY_TOKEN then Some h
     else if obj_ref_count p > 1 then
       Some (heap_set h a (p\<lparr>obj_ref_count := obj_ref_count p - 1\<rparr>))
     else if \<not> obj_allocated p then Some h
     else
       (let h = h\<lparr>hp_deallocated_objs := hp_deallocated_objs h + 1\<rparr>;
            h = db_list_tracker_rm h a
        in Some (h\<lparr>hp_objs := (hp_objs h)(a := None)\<rparr>))
   }"

definition cps_api_object_delete :: "obj_heap \<Rightarrow> obj_ptr \<Rightarrow> obj_heap option" where
  "cps_api_object_delete h obj = (case obj of None \<Rightarrow> Some h | Some a \<Rightarrow> obj_delloc h a)"

text \<open>\<open>cps_api_object_clone\<close> through pointers.\<close>

definition heap_clone :: "libc \<Rightarrow> obj_heap \<Rightarrow> nat \<Rightarrow> nat \<Rightarrow> (bool \<times> obj_heap) option" where
  "heap_clone E h d s = do {
     pd \<leftarrow> hp_objs h d;
     ps \<leftarrow> hp_objs h s;
     (ok, pd) \<leftarrow> cps_api_object_clone E pd ps;
     Some (ok, heap_set h d pd)
   }"

text \<open>The guard of \<open>cps_api_object_create_clone\<close> deletes the new object when the copy fails.\<close>

definition cps_api_object_create_clone ::
  "libc \<Rightarrow> obj_heap \<Rightarrow> nat \<Rightarrow> (obj_ptr \<times> obj_heap) option" where
  "cps_api_object_create_clone E h src = do {
     (og, h) \<leftarrow> cps_api_object_create E h;
     (ok, h) \<leftarrow> heap_clone E h og src;
     if \<not> ok then map_option (\<lambda>h. (None, h)) (cps_api_object_delete h (Some og))
     else Some (Some og, h)
   }"

section \<open>Object lists\<close>

type_synonym obj_list = "obj_ptr list"

definition vector_ok :: "libc \<Rightarrow> nat \<Rightarrow> bool" where
  "vector_ok E n = alloc_ok E (8 * n)"

definition cps_api_object_list_create :: obj_list where
  "cps_api_object_list_create = []"

fun delete_all :: "obj_heap \<Rightarrow> obj_list \<Rightarrow> obj_heap option" where
  "delete_all h [] = Some h"
| "delete_all h (p # ps) = do {
     h \<leftarrow> cps_api_object_delete h p;
     delete_all h ps
   }"

definition cps_api_object_list_clear ::
  "obj_heap \<Rightarrow> obj_list \<Rightarrow> bool \<Rightarrow> (obj_list \<times> obj_heap) option" where
  "cps_api_object_list_clear h list delete_objects =
     (if delete_objects then map_option (\<lambda>h. ([], h)) (delete_all h list) else Some ([], h))"

definition cps_api_object_list_destroy ::
  "obj_heap \<Rightarrow> obj_list \<Rightarrow> bool \<Rightarrow> obj_heap option" where
  "cps_api_object_list_destroy h list delete_all_objects =
     map_option snd (cps_api_object_list_clear h list delete_all_objects)"

definition cps_api_object_list_append ::
  "libc \<Rightarrow> obj_list \<Rightarrow> obj_ptr \<Rightarrow> bool \<times> obj_list" where
  "cps_api_object_list_append E list obj =
     (if vector_ok E (length list + 1) then (True, list @ [obj]) else (False, list))"

text \<open>
  \<open>cps_api_object_list_append_copy\<close>. When the vector cannot grow, the code deletes \<open>obj\<close>, the
  caller's object, and not the new reference.
\<close>

definition cps_api_object_list_append_copy ::
  "libc \<Rightarrow> obj_heap \<Rightarrow> obj_list \<Rightarrow> obj_ptr \<Rightarrow> bool \<Rightarrow> (bool \<times> obj_list \<times> obj_heap) option" where
  "cps_api_object_list_append_copy E h list obj clone =
     (case obj of
        None \<Rightarrow> Some (False, list, h)
      | Some a \<Rightarrow>
          if clone then do {
            (ref, h) \<leftarrow> cps_api_object_create E h;
            (ok, h) \<leftarrow> heap_clone E h ref a;
            if \<not> ok then map_option (\<lambda>h. (False, list, h)) (cps_api_object_delete h (Some ref))
            else if vector_ok E (length list + 1) then Some (True, list @ [Some ref], h)
            else map_option (\<lambda>h. (False, list, h)) (cps_api_object_delete h (Some a))
          }
          else do {
            (ref, h) \<leftarrow> cps_api_object_reference h (Some a) False;
            if vector_ok E (length list + 1) then Some (True, list @ [ref], h)
            else map_option (\<lambda>h. (False, list, h)) (cps_api_object_delete h (Some a))
          })"

fun reference_all :: "obj_heap \<Rightarrow> obj_list \<Rightarrow> (obj_list \<times> obj_heap) option" where
  "reference_all h [] = Some ([], h)"
| "reference_all h (p # ps) = do {
     (q, h) \<leftarrow> cps_api_object_reference h p False;
     (qs, h) \<leftarrow> reference_all h ps;
     Some (q # qs, h)
   }"

definition cps_api_object_list_merge_section ::
  "libc \<Rightarrow> obj_heap \<Rightarrow> obj_list \<Rightarrow> obj_list \<Rightarrow> nat \<Rightarrow> nat \<Rightarrow> (bool \<times> obj_list \<times> obj_heap) option" where
  "cps_api_object_list_merge_section E h dest src src_start number =
     (let src_size = length src in
      if src_start \<ge> src_size then Some (False, dest, h)
      else
        (let number = (if sz_add src_start number > src_size then src_size - src_start else number) in
         if \<not> vector_ok E (length dest + number) then Some (False, dest, h)
         else do {
           (added, h) \<leftarrow> reference_all h (take number (drop src_start src));
           Some (True, dest @ added, h)
         }))"

definition cps_api_object_list_merge ::
  "libc \<Rightarrow> obj_heap \<Rightarrow> obj_list \<Rightarrow> obj_list \<Rightarrow> (bool \<times> obj_list \<times> obj_heap) option" where
  "cps_api_object_list_merge E h dest add =
     cps_api_object_list_merge_section E h dest add 0 (length add)"

text \<open>
  The loop of \<open>cps_api_object_list_clone\<close>; \<open>n\<close> is the vector built so far. A failure returns
  \<open>NULL\<close> and frees the vector, not the objects in it.
\<close>

fun list_clone_loop ::
  "libc \<Rightarrow> obj_heap \<Rightarrow> obj_list \<Rightarrow> obj_list \<Rightarrow> bool \<Rightarrow> (obj_list option \<times> obj_heap) option" where
  "list_clone_loop E h n [] deep = Some (Some n, h)"
| "list_clone_loop E h n (p # ps) deep =
     (if \<not> deep then do {
        (q, h) \<leftarrow> cps_api_object_reference h p False;
        if vector_ok E (length n + 1) then list_clone_loop E h (n @ [q]) ps deep else Some (None, h)
      }
      else (case p of
        None \<Rightarrow>
          if vector_ok E (length n + 1) then list_clone_loop E h (n @ [None]) ps deep else Some (None, h)
      | Some a \<Rightarrow> do {
          (c, h) \<leftarrow> cps_api_object_create E h;
          (ok, h) \<leftarrow> heap_clone E h c a;
          if ok then
            (if vector_ok E (length n + 1) then list_clone_loop E h (n @ [Some c]) ps deep
             else Some (None, h))
          else map_option (\<lambda>h. (None, h)) (cps_api_object_delete h (Some c))
        }))"

definition cps_api_object_list_clone ::
  "libc \<Rightarrow> obj_heap \<Rightarrow> obj_list \<Rightarrow> bool \<Rightarrow> (obj_list option \<times> obj_heap) option" where
  "cps_api_object_list_clone E h src deep = list_clone_loop E h [] src deep"

definition cps_api_object_list_remove :: "obj_list \<Rightarrow> nat \<Rightarrow> obj_list" where
  "cps_api_object_list_remove list ix =
     (if length list \<le> ix then list else take ix list @ drop (ix + 1) list)"

definition cps_api_object_list_create_obj_and_append ::
  "libc \<Rightarrow> obj_heap \<Rightarrow> obj_list \<Rightarrow> (obj_ptr \<times> obj_list \<times> obj_heap) option" where
  "cps_api_object_list_create_obj_and_append E h list = do {
     (obj, h) \<leftarrow> cps_api_object_create E h;
     (case cps_api_object_list_append E list (Some obj) of
        (True, list) \<Rightarrow> Some (Some obj, list, h)
      | (False, list) \<Rightarrow> map_option (\<lambda>h. (None, list, h)) (cps_api_object_delete h (Some obj)))
   }"

definition cps_api_object_list_get :: "obj_list \<Rightarrow> nat \<Rightarrow> obj_ptr" where
  "cps_api_object_list_get list ix = (if length list \<le> ix then None else list ! ix)"

definition cps_api_object_list_set ::
  "libc \<Rightarrow> obj_heap \<Rightarrow> obj_list \<Rightarrow> nat \<Rightarrow> obj_ptr \<Rightarrow> bool \<Rightarrow> (bool \<times> obj_list \<times> obj_heap) option" where
  "cps_api_object_list_set E h list ix obj free_prev =
     (if length list \<le> ix \<and> \<not> vector_ok E (ix + 1) then Some (False, list, h)
      else do {
        let list = (if length list \<le> ix then list @ replicate (ix + 1 - length list) None else list);
        h \<leftarrow> (if list ! ix \<noteq> None \<and> free_prev then cps_api_object_delete h (list ! ix) else Some h);
        Some (True, list[ix := obj], h)
      })"

definition cps_api_object_list_size :: "obj_list \<Rightarrow> nat" where
  "cps_api_object_list_size list = length list"

section \<open>The heap invariant\<close>

text \<open>
  Every live object came from the allocator, carries the token and at least one reference, and has
  exactly one tracker; the allocation counters differ by the number of live objects.
\<close>

definition heap_wf :: "obj_heap \<Rightarrow> bool" where
  "heap_wf h \<longleftrightarrow> distinct (map fst (hp_trackers h)) \<and> fst ` set (hp_trackers h) = dom (hp_objs h) \<and>
     (\<forall>a. a \<in> dom (hp_objs h) \<longrightarrow> a < hp_brk h) \<and>
     hp_allocated_objs h = hp_deallocated_objs h + length (hp_trackers h) \<and>
     (\<forall>a p. hp_objs h a = Some p \<longrightarrow>
        0 < obj_ref_count p \<and> obj_token p = KEY_TOKEN \<and> obj_allocated p)"

text \<open>The references of an object, and the heap with some of them taken or dropped.\<close>

definition refs :: "obj_heap \<Rightarrow> nat \<Rightarrow> nat" where
  "refs h a = (case hp_objs h a of None \<Rightarrow> 0 | Some p \<Rightarrow> obj_ref_count p)"

definition live_list :: "obj_heap \<Rightarrow> obj_list \<Rightarrow> bool" where
  "live_list h ps \<longleftrightarrow> (\<forall>a. Some a \<in> set ps \<longrightarrow> hp_objs h a \<noteq> None)"

definition add_refs :: "obj_heap \<Rightarrow> obj_list \<Rightarrow> obj_heap" where
  "add_refs h ps = h\<lparr>hp_objs := (\<lambda>a. map_option
     (\<lambda>p. p\<lparr>obj_ref_count := obj_ref_count p + count_list ps (Some a)\<rparr>) (hp_objs h a))\<rparr>"

lemma heap_wf_empty: "heap_wf empty_heap"
  by (simp add: heap_wf_def empty_heap_def)

lemma heap_wf_objects:
  assumes "heap_wf h" and "hp_objs h a = Some p"
  shows "0 < obj_ref_count p" and "obj_token p = KEY_TOKEN" and "obj_allocated p" and "a < hp_brk h"
  using assms by (auto simp: heap_wf_def)

lemma heap_set_wf:
  assumes "heap_wf h" and "hp_objs h a = Some p" and "0 < obj_ref_count q"
    and "obj_token q = obj_token p" and "obj_allocated q = obj_allocated p"
  shows "heap_wf (heap_set h a q)"
  using assms heap_wf_objects [OF assms(1,2)]
  by (auto simp: heap_wf_def heap_set_def dom_def)

lemma filter_fst_absent: "a \<notin> fst ` set xs \<Longrightarrow> filter (\<lambda>e. fst e \<noteq> a) xs = xs"
  by (induction xs) auto

lemma filter_distinct_length:
  assumes "distinct (map fst xs)" and "a \<in> fst ` set xs"
  shows "length xs = Suc (length (filter (\<lambda>e. fst e \<noteq> a) xs))"
  using assms
proof (induction xs)
  case (Cons x xs)
  show ?case
  proof (cases "fst x = a")
    case True
    then have "filter (\<lambda>e. fst e \<noteq> a) xs = xs" using Cons.prems by (intro filter_fst_absent) auto
    then show ?thesis using True by simp
  next
    case False
    then show ?thesis using Cons by auto
  qed
qed simp

lemma tracker_rm_wf:
  assumes "heap_wf h" and "a \<in> dom (hp_objs h)"
  defines "h' \<equiv> db_list_tracker_rm (h\<lparr>hp_deallocated_objs := hp_deallocated_objs h + 1\<rparr>) a"
  shows "heap_wf (h'\<lparr>hp_objs := (hp_objs h')(a := None)\<rparr>)"
proof -
  have "length (hp_trackers h) = Suc (length (filter (\<lambda>e. fst e \<noteq> a) (hp_trackers h)))"
    using assms(1,2) by (intro filter_distinct_length) (auto simp: heap_wf_def)
  moreover have "fst ` set (filter (\<lambda>e. fst e \<noteq> a) (hp_trackers h)) = dom (hp_objs h) - {a}"
    using assms(1) by (auto simp: heap_wf_def)
  ultimately show ?thesis
    using assms(1) by (auto simp: heap_wf_def h'_def db_list_tracker_rm_def distinct_map_filter)
qed

lemma delloc_cases:
  assumes "heap_wf h" and "hp_objs h a = Some p"
  shows "\<exists>h'. obj_delloc h a = Some h' \<and> heap_wf h' \<and>
     hp_objs h' = (hp_objs h)(a := (if obj_ref_count p = 1 then None
       else Some (p\<lparr>obj_ref_count := obj_ref_count p - 1\<rparr>)))"
proof -
  note w = heap_wf_objects [OF assms]
  show ?thesis
  proof (cases "obj_ref_count p = 1")
    case True
    then show ?thesis
      using w assms tracker_rm_wf [OF assms(1), of a]
      by (simp add: obj_delloc_def Let_def db_list_tracker_rm_def domI)
  next
    case False
    then have "heap_wf (heap_set h a (p\<lparr>obj_ref_count := obj_ref_count p - 1\<rparr>))"
      using w by (intro heap_set_wf [OF assms]) auto
    then show ?thesis using False w assms by (simp add: obj_delloc_def heap_set_def)
  qed
qed

lemma create_cases:
  assumes "heap_wf h" and "object_create_storage E = Some obj" and "obj_ref_count obj = 1"
    and "obj_token obj = KEY_TOKEN" and "obj_allocated obj"
  shows "\<exists>h'. cps_api_object_create_int E h desc ln fname = Some (hp_brk h, h') \<and> heap_wf h' \<and>
     hp_objs h' = (hp_objs h)(hp_brk h := Some obj) \<and> hp_brk h' = hp_brk h + 1 \<and>
     cps_api_objects_allocated h' = cps_api_objects_allocated h + 1"
proof -
  have "hp_brk h \<notin> dom (hp_objs h)" using assms(1) by (auto simp: heap_wf_def)
  then have t: "hp_brk h \<notin> fst ` set (hp_trackers h)" using assms(1) by (simp add: heap_wf_def)
  then have flt: "filter (\<lambda>e. fst e \<noteq> hp_brk h) (hp_trackers h) = hp_trackers h"
    by (rule filter_fst_absent)
  define tr where "tr = (hp_brk h, \<lparr>trk_desc = (case desc of None \<Rightarrow> [] | Some s \<Rightarrow> s), trk_ln = ln,
      trk_file = (case fname of None \<Rightarrow> [] | Some s \<Rightarrow> s)\<rparr>) # hp_trackers h"
  define h' where "h' = h\<lparr>hp_brk := hp_brk h + 1, hp_objs := (hp_objs h)(hp_brk h := Some obj),
      hp_trackers := tr, hp_allocated_objs := hp_allocated_objs h + 1\<rparr>"
  have "cps_api_object_create_int E h desc ln fname = Some (hp_brk h, h')"
    using assms(2) flt
    by (simp add: cps_api_object_create_int_def db_list_tracker_add_def heap_set_def h'_def tr_def Let_def)
  moreover have "heap_wf h'"
    using assms t by (auto simp: heap_wf_def h'_def tr_def less_Suc_eq)
  ultimately show ?thesis by (auto simp: h'_def tr_def cps_api_objects_allocated_def)
qed

lemma create_storage_frame:
  assumes "object_create_storage E = Some obj"
  shows "obj_ref_count obj = 1 \<and> obj_token obj = KEY_TOKEN \<and> obj_allocated obj"
  using assms
  by (auto simp: object_create_storage_def obj_alloc_def split: Option.bind_splits if_splits)

lemma clone_frame:
  assumes "cps_api_object_clone E d s = Some (ok, d')"
  shows "obj_ref_count d' = obj_ref_count d" and "obj_token d' = obj_token d"
    and "obj_allocated d' = obj_allocated d"
  using assms
  by (auto simp: cps_api_object_clone_def Let_def obj_realloc_def
      split: Option.bind_splits if_splits option.splits)

lemma heap_clone_wf:
  assumes "heap_wf h" and "heap_clone E h d s = Some (ok, h')"
  shows "heap_wf h' \<and> dom (hp_objs h') = dom (hp_objs h) \<and> hp_brk h' = hp_brk h"
proof -
  from assms(2) obtain pd ps pd' where c: "hp_objs h d = Some pd" "hp_objs h s = Some ps"
    "cps_api_object_clone E pd ps = Some (ok, pd')" "h' = heap_set h d pd'"
    by (auto simp: heap_clone_def split: Option.bind_splits)
  note f = clone_frame [OF c(3)] and w = heap_wf_objects [OF assms(1) c(1)]
  have "heap_wf h'" unfolding c(4) by (rule heap_set_wf [OF assms(1) c(1)]) (use f w in auto)
  then show ?thesis using c by (auto simp: heap_set_def)
qed

lemma create_wf:
  assumes "heap_wf h" and "cps_api_object_create_int E h desc ln fname = Some (a, h')"
  shows "heap_wf h'" and "a = hp_brk h" and "hp_objs h a = None" and "hp_objs h' a \<noteq> None"
proof -
  obtain obj where obj: "object_create_storage E = Some obj"
    using assms(2) by (auto simp: cps_api_object_create_int_def split: Option.bind_splits)
  obtain h2 where "cps_api_object_create_int E h desc ln fname = Some (hp_brk h, h2)" "heap_wf h2"
    "hp_objs h2 = (hp_objs h)(hp_brk h := Some obj)"
    using create_cases [OF assms(1) obj, of desc ln fname] create_storage_frame [OF obj] by auto
  with assms(2) show "heap_wf h'" "a = hp_brk h" "hp_objs h' a \<noteq> None" by auto
  then show "hp_objs h a = None" using assms(1) by (cases "hp_objs h a") (auto simp: heap_wf_def)
qed

lemma delete_wf:
  assumes "heap_wf h" and "cps_api_object_delete h p = Some h'"
  shows "heap_wf h'"
proof (cases p)
  case (Some a)
  then have d: "obj_delloc h a = Some h'" using assms(2) by (simp add: cps_api_object_delete_def)
  then obtain q where "hp_objs h a = Some q" by (auto simp: obj_delloc_def split: Option.bind_splits)
  from delloc_cases [OF assms(1) this] d show ?thesis by auto
qed (use assms in \<open>simp add: cps_api_object_delete_def\<close>)

lemma delete_all_wf: "heap_wf h \<Longrightarrow> delete_all h ps = Some h' \<Longrightarrow> heap_wf h'"
  by (induction ps arbitrary: h) (auto split: Option.bind_splits dest: delete_wf)

section \<open>Reference counting\<close>

lemma add_refs_Nil [simp]: "add_refs h [] = h"
  by (simp add: add_refs_def option.map_ident)

lemma add_refs_NULL [simp]: "add_refs h (None # ps) = add_refs h ps"
  by (simp add: add_refs_def)

lemma add_refs_Cons: "add_refs (add_refs h [p]) ps = add_refs h (p # ps)"
  by (auto simp: add_refs_def fun_eq_iff option.map_comp comp_def
      intro!: obj_heap.fold_congs option.map_cong0)

lemma add_refs_wf: "heap_wf h \<Longrightarrow> heap_wf (add_refs h ps)"
  by (auto simp: heap_wf_def add_refs_def dom_def)

lemma add_refs_live: "live_list (add_refs h qs) ps = live_list h ps"
  by (simp add: live_list_def add_refs_def)

lemma refs_add_refs: "refs (add_refs h ps) a \<le> refs h a + count_list ps (Some a)"
  by (auto simp: refs_def add_refs_def split: option.splits)

lemma reference_add_refs:
  assumes "live_list h [p]" and "\<forall>a. p = Some a \<longrightarrow> refs h a + 1 < size_lim"
  shows "cps_api_object_reference h p False = Some (p, add_refs h [p])"
proof (cases p)
  case None
  then show ?thesis by (simp add: cps_api_object_reference_def)
next
  case (Some a)
  with assms obtain q where q: "hp_objs h a = Some q" by (auto simp: live_list_def)
  then have "sz_add (obj_ref_count q) 1 = obj_ref_count q + 1"
    using assms(2) Some by (intro sz_add_exact) (simp add: refs_def)
  then have "heap_set h a (q\<lparr>obj_ref_count := sz_add (obj_ref_count q) 1\<rparr>) = add_refs h [Some a]"
    using q by (simp add: heap_set_def add_refs_def fun_eq_iff option.map_ident)
  then show ?thesis using q Some by (simp add: cps_api_object_reference_def)
qed

lemma reference_all_add_refs:
  assumes "live_list h ps" and "\<forall>a. refs h a + length ps < size_lim"
  shows "reference_all h ps = Some (ps, add_refs h ps)"
  using assms
proof (induction ps arbitrary: h)
  case (Cons p ps)
  have "live_list h [p]" "live_list h ps" using Cons.prems(1) by (auto simp: live_list_def)
  moreover have "\<forall>a. refs (add_refs h [p]) a + length ps < size_lim"
  proof
    fix a
    have "refs (add_refs h [p]) a \<le> refs h a + 1" using refs_add_refs [of h "[p]" a] by (auto split: if_splits)
    then show "refs (add_refs h [p]) a + length ps < size_lim"
      using Cons.prems(2) by (auto dest!: spec [of _ a])
  qed
  moreover have "refs h a + 1 < size_lim" for a using Cons.prems(2) [rule_format, of a] by simp
  ultimately show ?case
    using Cons.IH [of "add_refs h [p]"] reference_add_refs [of h p]
    by (simp add: add_refs_live add_refs_Cons)
qed simp

lemma delete_add_refs:
  assumes "heap_wf h" and "live_list h [p]"
  shows "cps_api_object_delete (add_refs h (p # ps)) p = Some (add_refs h ps)"
proof (cases p)
  case None
  then show ?thesis by (simp add: cps_api_object_delete_def)
next
  case (Some a)
  then obtain q where q: "hp_objs h a = Some q" using assms(2) by (auto simp: live_list_def)
  note w = heap_wf_objects [OF assms(1) q]
  have "hp_objs (add_refs h (p # ps)) a =
      Some (q\<lparr>obj_ref_count := Suc (obj_ref_count q + count_list ps (Some a))\<rparr>)"
    using q Some by (simp add: add_refs_def)
  moreover have "heap_set (add_refs h (p # ps)) a
      (q\<lparr>obj_ref_count := obj_ref_count q + count_list ps (Some a)\<rparr>) = add_refs h ps"
    using q Some by (simp add: heap_set_def add_refs_def fun_eq_iff)
  ultimately show ?thesis using Some w by (simp add: cps_api_object_delete_def obj_delloc_def)
qed

lemma delete_all_add_refs:
  assumes "heap_wf h" and "live_list h ps"
  shows "delete_all (add_refs h ps) ps = Some h"
  using assms(2)
proof (induction ps)
  case (Cons p ps)
  then have "live_list h [p]" "live_list h ps" by (auto simp: live_list_def)
  then show ?case using Cons.IH delete_add_refs [OF assms(1)] by simp
qed simp

lemma list_clone_shallow:
  assumes "live_list h ps" and "\<forall>a. refs h a + length ps < size_lim" and "\<forall>k. vector_ok E k"
  shows "list_clone_loop E h n ps False = Some (Some (n @ ps), add_refs h ps)"
  using assms(1,2)
proof (induction ps arbitrary: h n)
  case (Cons p ps)
  have l: "live_list h [p]" "live_list h ps" using Cons.prems(1) by (auto simp: live_list_def)
  have "\<forall>a. refs (add_refs h [p]) a + length ps < size_lim"
  proof
    fix a
    have "refs (add_refs h [p]) a \<le> refs h a + 1" using refs_add_refs [of h "[p]" a] by (auto split: if_splits)
    then show "refs (add_refs h [p]) a + length ps < size_lim"
      using Cons.prems(2) by (auto dest!: spec [of _ a])
  qed
  moreover have "refs h a + 1 < size_lim" for a using Cons.prems(2) [rule_format, of a] by simp
  ultimately show ?case
    using Cons.IH [of "add_refs h [p]" "n @ [p]"] reference_add_refs [OF l(1)] l(2) assms(3)
    by (simp add: add_refs_live add_refs_Cons)
qed simp

section \<open>All operations on the heap as steps\<close>

text \<open>
  A run is a sequence of calls. A reference count is a \<open>size_t\<close>; \<open>refs_ok h n\<close> says that \<open>n\<close> more
  references fit, which holds in every real run. The last rule covers the operations of
  \<open>Cps_Object\<close> that change the contents of an object through its pointer.
\<close>

definition refs_ok :: "obj_heap \<Rightarrow> nat \<Rightarrow> bool" where
  "refs_ok h n \<longleftrightarrow> (\<forall>a. refs h a + n < size_lim)"

inductive heap_step :: "libc \<Rightarrow> obj_heap \<Rightarrow> obj_heap \<Rightarrow> bool" for E where
  step_create: "cps_api_object_create_int E h desc ln fname = Some (a, h') \<Longrightarrow> heap_step E h h'"
| step_reference: "refs_ok h 1 \<Longrightarrow> cps_api_object_reference h p cow = Some (q, h') \<Longrightarrow> heap_step E h h'"
| step_delete: "cps_api_object_delete h p = Some h' \<Longrightarrow> heap_step E h h'"
| step_create_clone: "cps_api_object_create_clone E h a = Some (q, h') \<Longrightarrow> heap_step E h h'"
| step_list_clear: "cps_api_object_list_clear h ps del = Some (ps', h') \<Longrightarrow> heap_step E h h'"
| step_append_copy: "refs_ok h 1 \<Longrightarrow>
    cps_api_object_list_append_copy E h ps p deep = Some (ok, ps', h') \<Longrightarrow> heap_step E h h'"
| step_merge: "refs_ok h (length src) \<Longrightarrow>
    cps_api_object_list_merge_section E h ps src start n = Some (ok, ps', h') \<Longrightarrow> heap_step E h h'"
| step_list_clone: "refs_ok h (length src) \<Longrightarrow>
    cps_api_object_list_clone E h src deep = Some (r, h') \<Longrightarrow> heap_step E h h'"
| step_list_set: "cps_api_object_list_set E h ps ix p del = Some (ok, ps', h') \<Longrightarrow> heap_step E h h'"
| step_create_append:
    "cps_api_object_list_create_obj_and_append E h ps = Some (q, ps', h') \<Longrightarrow> heap_step E h h'"
| step_contents: "hp_objs h a = Some p \<Longrightarrow> obj_ref_count q = obj_ref_count p \<Longrightarrow>
    obj_token q = obj_token p \<Longrightarrow> obj_allocated q = obj_allocated p \<Longrightarrow>
    heap_step E h (heap_set h a q)"

lemma refs_ok_mono: "refs_ok h n \<Longrightarrow> k \<le> n \<Longrightarrow> refs_ok h k"
  unfolding refs_ok_def by (meson add_le_cancel_left le_less_trans)

lemma reference_is_add_refs:
  assumes "refs_ok h n" and "0 < n" and "cps_api_object_reference h p False = Some (q, h')"
  shows "h' = add_refs h [p]" and "q = p"
proof -
  have "live_list h [p]"
    using assms(3)
    by (auto simp: cps_api_object_reference_def live_list_def split: option.splits Option.bind_splits)
  moreover have "refs_ok h 1" by (rule refs_ok_mono [OF assms(1)]) (use assms(2) in simp)
  then have "refs h a + 1 < size_lim" for a by (simp add: refs_ok_def)
  ultimately show "h' = add_refs h [p]" "q = p" using reference_add_refs [of h p] assms(3) by auto
qed

lemma refs_ok_step: "refs_ok h (Suc n) \<Longrightarrow> refs_ok (add_refs h [p]) n"
proof -
  assume r: "refs_ok h (Suc n)"
  have "refs (add_refs h [p]) a + n < size_lim" for a
  proof -
    have "refs (add_refs h [p]) a \<le> refs h a + 1" using refs_add_refs [of h "[p]" a] by (auto split: if_splits)
    moreover have "refs h a + Suc n < size_lim" using r by (simp add: refs_ok_def)
    ultimately show ?thesis by simp
  qed
  then show ?thesis by (simp add: refs_ok_def)
qed

lemma reference_wf:
  assumes "heap_wf h" and "refs_ok h 1" and "cps_api_object_reference h p cow = Some (q, h')"
  shows "heap_wf h'"
proof (cases cow)
  case True
  then show ?thesis using assms(1,3) by (simp add: cps_api_object_reference_def split: option.splits)
next
  case False
  then have r: "cps_api_object_reference h p False = Some (q, h')" using assms(3) by simp
  have "h' = add_refs h [p]" using reference_is_add_refs(1) [OF assms(2) _ r] by simp
  then show ?thesis using add_refs_wf [OF assms(1)] by simp
qed

lemma reference_all_wf:
  assumes "heap_wf h" and "refs_ok h (length ps)" and "reference_all h ps = Some (qs, h')"
  shows "heap_wf h'"
  using assms
proof (induction ps arbitrary: h qs)
  case (Cons p ps)
  from Cons.prems(3) obtain q h1 qs1 where r: "cps_api_object_reference h p False = Some (q, h1)"
    "reference_all h1 ps = Some (qs1, h')"
    by (auto split: Option.bind_splits)
  have "h1 = add_refs h [p]" using reference_is_add_refs [OF Cons.prems(2) _ r(1)] by simp
  then show ?case
    using Cons.IH [OF _ _ r(2)] add_refs_wf [OF Cons.prems(1)] refs_ok_step Cons.prems(2) by auto
qed simp

lemma list_clone_shallow_wf:
  assumes "heap_wf h" and "refs_ok h (length ps)" and "list_clone_loop E h n ps False = Some (r, h')"
  shows "heap_wf h'"
  using assms
proof (induction ps arbitrary: h n)
  case (Cons p ps)
  from Cons.prems(3) obtain q h1 where ref: "cps_api_object_reference h p False = Some (q, h1)"
    by (auto split: Option.bind_splits)
  have h1: "h1 = add_refs h [p]" using reference_is_add_refs [OF Cons.prems(2) _ ref] by simp
  have w: "heap_wf h1" "refs_ok h1 (length ps)"
    using add_refs_wf [OF Cons.prems(1)] refs_ok_step Cons.prems(2) by (auto simp: h1)
  show ?case
  proof (cases "vector_ok E (length n + 1)")
    case True
    then show ?thesis using Cons.IH [OF w, of "n @ [q]"] Cons.prems(3) ref by simp
  next
    case False
    then show ?thesis using Cons.prems(3) ref w by simp
  qed
qed simp

lemma create_then_clone_wf:
  assumes "heap_wf h" and "cps_api_object_create E h = Some (c, h1)"
    and "heap_clone E h1 c a = Some (ok, h2)"
  shows "heap_wf h2"
  using create_wf(1) [OF assms(1) assms(2) [unfolded cps_api_object_create_def]]
    heap_clone_wf [OF _ assms(3)] by blast

lemma list_clone_deep_wf:
  assumes "heap_wf h" and "list_clone_loop E h n ps True = Some (r, h')"
  shows "heap_wf h'"
  using assms
proof (induction ps arbitrary: h n)
  case (Cons p ps)
  show ?case
  proof (cases p)
    case None
    then show ?thesis using Cons.IH [OF Cons.prems(1)] Cons.prems by (auto split: if_splits)
  next
    case (Some a)
    from Cons.prems(2) Some obtain c h1 ok h2 where c: "cps_api_object_create E h = Some (c, h1)"
      "heap_clone E h1 c a = Some (ok, h2)"
      by (auto split: Option.bind_splits)
    note w = create_then_clone_wf [OF Cons.prems(1) c]
    show ?thesis
    proof (cases ok)
      case True
      then show ?thesis using Cons.prems(2) Some c w Cons.IH [OF w] by (auto split: if_splits)
    next
      case False
      then show ?thesis using Cons.prems(2) Some c delete_wf [OF w] by auto
    qed
  qed
qed simp

lemma append_copy_wf:
  assumes "heap_wf h" and "refs_ok h 1"
    and "cps_api_object_list_append_copy E h ps p deep = Some (ok, ps', h')"
  shows "heap_wf h'"
proof (cases p)
  case None
  then show ?thesis using assms(1,3) by (simp add: cps_api_object_list_append_copy_def)
next
  case (Some a)
  show ?thesis
  proof (cases deep)
    case True
    from assms(3) Some True obtain c h1 b h2 where c: "cps_api_object_create E h = Some (c, h1)"
      "heap_clone E h1 c a = Some (b, h2)"
      by (auto simp: cps_api_object_list_append_copy_def split: Option.bind_splits)
    note w = create_then_clone_wf [OF assms(1) c]
    show ?thesis
      using assms(3) Some True c w delete_wf [OF w]
      by (auto simp: cps_api_object_list_append_copy_def split: if_splits)
  next
    case False
    from assms(3) Some False obtain q h1 where r: "cps_api_object_reference h p False = Some (q, h1)"
      by (auto simp: cps_api_object_list_append_copy_def split: Option.bind_splits)
    note w = reference_wf [OF assms(1,2) r]
    show ?thesis
      using assms(3) Some False r w delete_wf [OF w]
      by (auto simp: cps_api_object_list_append_copy_def split: if_splits)
  qed
qed

lemma merge_section_wf:
  assumes "heap_wf h" and "refs_ok h (length src)"
    and "cps_api_object_list_merge_section E h ps src start n = Some (ok, ps', h')"
  shows "heap_wf h'"
proof -
  define k where "k = (if sz_add start n > length src then length src - start else n)"
  have "refs_ok h (length (take k (drop start src)))"
    by (rule refs_ok_mono [OF assms(2)]) simp
  note w = reference_all_wf [OF assms(1) this]
  show ?thesis
    using assms(1,3) w
    by (auto simp: cps_api_object_list_merge_section_def Let_def k_def [symmetric]
        split: if_splits Option.bind_splits)
qed

lemma heap_step_wf: "heap_step E h h' \<Longrightarrow> heap_wf h \<Longrightarrow> heap_wf h'"
proof (induction rule: heap_step.induct)
  case (step_create_clone h a q h')
  from step_create_clone.hyps obtain c h1 ok h2 where c: "cps_api_object_create E h = Some (c, h1)"
    "heap_clone E h1 c a = Some (ok, h2)"
    by (auto simp: cps_api_object_create_clone_def split: Option.bind_splits)
  note w = create_then_clone_wf [OF step_create_clone.prems c]
  show ?case
    using step_create_clone.hyps c w delete_wf [OF w]
    by (auto simp: cps_api_object_create_clone_def split: if_splits)
next
  case (step_list_clear h ps del ps' h')
  then show ?case
    using delete_all_wf [of h ps] by (auto simp: cps_api_object_list_clear_def split: if_splits)
next
  case (step_list_clone h src deep r h')
  then show ?case
    using list_clone_shallow_wf [of h src E "[]" r h'] list_clone_deep_wf [of h E "[]" src r h']
    by (cases deep) (simp_all add: cps_api_object_list_clone_def)
next
  case (step_list_set h ps ix p del ok ps' h')
  then show ?case
    using delete_wf [of h]
    by (auto simp: cps_api_object_list_set_def Let_def split: if_splits Option.bind_splits)
next
  case (step_create_append h ps q ps' h')
  from step_create_append.hyps obtain c h1 where c: "cps_api_object_create E h = Some (c, h1)"
    by (auto simp: cps_api_object_list_create_obj_and_append_def split: Option.bind_splits)
  have w: "heap_wf h1"
    using create_wf(1) [OF step_create_append.prems c [unfolded cps_api_object_create_def]] .
  show ?case
    using step_create_append.hyps c w delete_wf [OF w]
    by (auto simp: cps_api_object_list_create_obj_and_append_def cps_api_object_list_append_def
        split: if_splits)
next
  case (step_contents h a p q)
  then show ?case using heap_set_wf heap_wf_objects(1) by metis
qed (blast intro: create_wf(1) reference_wf delete_wf append_copy_wf merge_section_wf)+

section \<open>Correctness of ownership\<close>


lemma libc_ok_create: "\<exists>obj. object_create_storage libc_ok = Some obj"
  using tlv16.create_storage_ok [of libc_ok] by auto


text \<open>
  A shallow list copy holds the same objects and takes one reference per entry; destroying the
  copy together with its objects gives those references back: the heap is as before.
\<close>

theorem list_clone_destroy_roundtrip:
  assumes "heap_wf h" and "live_list h ps" and "refs_ok h (length ps)" and "\<forall>k. vector_ok E k"
  shows "\<exists>h'. cps_api_object_list_clone E h ps False = Some (Some ps, h') \<and>
     (\<forall>a. hp_objs h a \<noteq> None \<longrightarrow> refs h' a = refs h a + count_list ps (Some a)) \<and>
     cps_api_object_list_destroy h' ps True = Some h"
proof -
  have "cps_api_object_list_clone E h ps False = Some (Some ps, add_refs h ps)"
    using list_clone_shallow [OF assms(2) _ assms(4), of "[]"] assms(3)
    by (simp add: cps_api_object_list_clone_def refs_ok_def)
  moreover have "cps_api_object_list_destroy (add_refs h ps) ps True = Some h"
    using delete_all_add_refs [OF assms(1,2)]
    by (simp add: cps_api_object_list_destroy_def cps_api_object_list_clear_def)
  moreover have "\<forall>a. hp_objs h a \<noteq> None \<longrightarrow> refs (add_refs h ps) a = refs h a + count_list ps (Some a)"
    by (auto simp: refs_def add_refs_def)
  ultimately show ?thesis by blast
qed

definition demo_heap :: obj_heap where
  "demo_heap = \<lparr>hp_objs = [1 \<mapsto> demo_obj], hp_brk = 2,
     hp_trackers = [(1, \<lparr>trk_desc = [], trk_ln = 0, trk_file = []\<rparr>)],
     hp_allocated_objs = 1, hp_deallocated_objs = 0\<rparr>"

lemma demo_heap_wf: "heap_wf demo_heap"
  by (auto simp: heap_wf_def demo_heap_def demo_obj_def)

lemma demo_heap_live: "live_list demo_heap [Some 1, None, Some 1]" "refs_ok demo_heap 3"
  by (auto simp: live_list_def refs_ok_def refs_def demo_heap_def demo_obj_def size_lim_def)

theorem list_clone_destroy_roundtrip_witness:
  "\<exists>h'. cps_api_object_list_clone libc_ok demo_heap [Some 1, None, Some 1] False =
       Some (Some [Some 1, None, Some 1], h') \<and> refs h' 1 = 3 \<and>
     cps_api_object_list_destroy h' [Some 1, None, Some 1] True = Some demo_heap"
proof -
  have v: "\<forall>k. vector_ok libc_ok k" by (simp add: vector_ok_def)
  have l: "refs_ok demo_heap (length [Some 1, None, Some (1 :: nat)])"
    using demo_heap_live(2) by (simp add: eval_nat_numeral)
  have "refs demo_heap 1 = 1" "hp_objs demo_heap 1 \<noteq> None"
    by (simp_all add: refs_def demo_heap_def demo_obj_def)
  then show ?thesis
    using list_clone_destroy_roundtrip [OF demo_heap_wf demo_heap_live(1) l v] by force
qed

text \<open>
  Merging a section of a list appends exactly the objects of the section that exist, whatever
  the requested number, and takes one reference for each; a start behind the end is refused.
\<close>

theorem list_merge_section_correct:
  assumes "heap_wf h" and "live_list h src" and "refs_ok h (length src)" and "\<forall>k. vector_ok E k"
    and "start + n < size_lim"
  shows "cps_api_object_list_merge_section E h dest src start n =
     (if start < length src
      then Some (True, dest @ take n (drop start src), add_refs h (take n (drop start src)))
      else Some (False, dest, h))"
proof (cases "start < length src")
  case True
  define k where "k = (if sz_add start n > length src then length src - start else n)"
  have t: "take k (drop start src) = take n (drop start src)"
    using assms(5) True by (auto simp: k_def sz_add_exact)
  have live: "live_list h (take n (drop start src))"
    using assms(2) by (auto simp: live_list_def dest!: in_set_takeD in_set_dropD)
  have bound: "\<forall>a. refs h a + length (take n (drop start src)) < size_lim"
    using refs_ok_mono [OF assms(3), of "length (take n (drop start src))"] by (simp add: refs_ok_def)
  show ?thesis
    using True assms(4) reference_all_add_refs [OF live bound]
    by (simp add: cps_api_object_list_merge_section_def Let_def k_def [symmetric] t)
qed (simp add: cps_api_object_list_merge_section_def)

theorem list_merge_section_correct_witness:
  "cps_api_object_list_merge_section libc_ok demo_heap [None] [Some 1, None, Some 1] 1 5 =
     Some (True, [None, None, Some 1], add_refs demo_heap [None, Some 1])"
proof -
  have v: "\<forall>k. vector_ok libc_ok k" by (simp add: vector_ok_def)
  have l: "refs_ok demo_heap (length [Some 1, None, Some (1 :: nat)])"
    using demo_heap_live(2) by (simp add: eval_nat_numeral)
  have "1 + 5 < size_lim" by (simp add: size_lim_def)
  from list_merge_section_correct [OF demo_heap_wf demo_heap_live(1) l v this, of "[None]"]
  show ?thesis by simp
qed

text \<open>
  When the vector of a list cannot grow, \<open>cps_api_object_list_append_copy\<close> deletes the caller's
  object and leaves the copy behind.
\<close>

lemma append_copy_deletes_original:
  assumes "heap_wf h" and "hp_objs h a = Some p" and "obj_ref_count p = 1"
    and "cps_api_object_create E h = Some (c, h1)" and "heap_clone E h1 c a = Some (True, h2)"
    and "\<not> vector_ok E (length ps + 1)"
  shows "\<exists>h'. cps_api_object_list_append_copy E h ps (Some a) True = Some (False, ps, h') \<and>
     hp_objs h' a = None \<and> hp_objs h' c \<noteq> None"
proof -
  note c = create_wf [OF assms(1) assms(4) [unfolded cps_api_object_create_def]]
  have ne: "c \<noteq> a" using c(2) assms(1,2) by (auto simp: heap_wf_def)
  have w2: "heap_wf h2" "dom (hp_objs h2) = dom (hp_objs h1)" using heap_clone_wf [OF c(1) assms(5)] by auto
  have "hp_objs h1 a = Some p"
    using assms(2,4) ne c(2)
    by (auto simp: cps_api_object_create_def cps_api_object_create_int_def heap_set_def
        db_list_tracker_add_def Let_def split: Option.bind_splits)
  then have "hp_objs h2 a = Some p"
    using assms(5) ne by (auto simp: heap_clone_def heap_set_def split: Option.bind_splits)
  then obtain h' where "obj_delloc h2 a = Some h'" "hp_objs h' = (hp_objs h2)(a := None)"
    using delloc_cases [OF w2(1), of a p] assms(3) by auto
  moreover have "hp_objs h2 c \<noteq> None" using c(4) w2(2) by (auto simp: dom_def)
  ultimately show ?thesis
    using assms(4-6) ne by (simp add: cps_api_object_list_append_copy_def cps_api_object_delete_def)
qed

end
