(* ===== verification/Cps_Dictionary.thy ===== *)
theory Cps_Dictionary
  imports Cps_Key_Cache Cps_Object
begin

text \<open>
  The class dictionary, \<^verbatim>\<open>src/metadata/cps_dictionary.cpp\<close>: what the library knows about
  attribute ids, their paths, names and types, the enumerations, the ownership of objects and the
  library flags. The static containers of the file are the fields of one state record; a node is
  referred to by its attribute id, which is unique and never removed. The loading of the metadata
  libraries (\<open>cps_api_class_map_init\<close>) happens before. \<open>h\<close> is \<open>std::hash\<close> for the key caches.
\<close>

section \<open>Constants\<close>

type_synonym cps_api_return_code_t = int

definition cps_api_ret_code_OK :: cps_api_return_code_t where
  "cps_api_ret_code_OK = 0"

definition cps_api_ret_code_ERR :: cps_api_return_code_t where
  "cps_api_ret_code_ERR = 1"

definition cps_api_ret_code_INTERNAL_FAILURE :: cps_api_return_code_t where
  "cps_api_ret_code_INTERNAL_FAILURE = 4"

lemmas ret_codes =
  cps_api_ret_code_OK_def cps_api_ret_code_ERR_def cps_api_ret_code_INTERNAL_FAILURE_def

text \<open>The attribute ids the infrastructure itself uses, \<^verbatim>\<open>inc/opx/dell-cps.h\<close>.\<close>

definition CPS_OBJECT_GROUP_GROUP :: u64 where "CPS_OBJECT_GROUP_GROUP = 131084"
definition CPS_OBJECT_GROUP_NODE :: u64 where "CPS_OBJECT_GROUP_NODE = 131085"
definition CPS_OBJECT_GROUP_TRANSACTION :: u64 where "CPS_OBJECT_GROUP_TRANSACTION = 131086"
definition CPS_OBJECT_GROUP_FAILED_NODES :: u64 where "CPS_OBJECT_GROUP_FAILED_NODES = 131087"
definition CPS_OBJECT_GROUP_WILDCARD_SEARCH :: u64 where "CPS_OBJECT_GROUP_WILDCARD_SEARCH = 131109"
definition CPS_OBJECT_GROUP_EXACT_MATCH :: u64 where "CPS_OBJECT_GROUP_EXACT_MATCH = 131098"
definition CPS_OBJECT_GROUP_RETURN_CODE :: u64 where "CPS_OBJECT_GROUP_RETURN_CODE = 131105"
definition CPS_OBJECT_GROUP_RETURN_STRING :: u64 where "CPS_OBJECT_GROUP_RETURN_STRING = 131110"
definition CPS_OBJECT_GROUP_GET_NEXT :: u64 where "CPS_OBJECT_GROUP_GET_NEXT = 131106"
definition CPS_OBJECT_GROUP_NUMBER_OF_ENTRIES :: u64 where
  "CPS_OBJECT_GROUP_NUMBER_OF_ENTRIES = 131107"
definition CPS_OBJECT_GROUP_CONFIG_TYPE :: u64 where "CPS_OBJECT_GROUP_CONFIG_TYPE = 131108"
definition CPS_OBJECT_GROUP_CONTINUE_ON_FAILURE :: u64 where
  "CPS_OBJECT_GROUP_CONTINUE_ON_FAILURE = 131116"
definition CPS_OBJECT_GROUP_SEQUENCE :: u64 where "CPS_OBJECT_GROUP_SEQUENCE = 131117"
definition CPS_OBJECT_GROUP_THREAD_ID :: u64 where "CPS_OBJECT_GROUP_THREAD_ID = 131118"
definition CPS_OBJECT_GROUP_TIMESTAMP :: u64 where "CPS_OBJECT_GROUP_TIMESTAMP = 131119"
definition CPS_OBJECT_GROUP_USER_TIMESTAMP_NSEC :: u64 where
  "CPS_OBJECT_GROUP_USER_TIMESTAMP_NSEC = 131134"
definition CPS_OBJECT_GROUP_OBJ :: u64 where "CPS_OBJECT_GROUP_OBJ = 131093"
definition CPS_NODE_GROUP_NODE_NAME :: u64 where "CPS_NODE_GROUP_NODE_NAME = 131073"
definition CPS_NODE_GROUP_NODE_IP :: u64 where "CPS_NODE_GROUP_NODE_IP = 131074"
definition CPS_NODE_GROUP_NAME :: u64 where "CPS_NODE_GROUP_NAME = 131088"
definition CPS_NODE_GROUP_NODE :: u64 where "CPS_NODE_GROUP_NODE = 131089"
definition CPS_NODE_GROUP_TYPE :: u64 where "CPS_NODE_GROUP_TYPE = 131090"
definition CPS_NODE_GROUP_OBJ :: u64 where "CPS_NODE_GROUP_OBJ = 131092"

lemmas cps_ids =
  CPS_OBJECT_GROUP_GROUP_def CPS_OBJECT_GROUP_NODE_def CPS_OBJECT_GROUP_TRANSACTION_def
  CPS_OBJECT_GROUP_FAILED_NODES_def CPS_OBJECT_GROUP_WILDCARD_SEARCH_def
  CPS_OBJECT_GROUP_EXACT_MATCH_def CPS_OBJECT_GROUP_RETURN_CODE_def
  CPS_OBJECT_GROUP_RETURN_STRING_def CPS_OBJECT_GROUP_GET_NEXT_def
  CPS_OBJECT_GROUP_NUMBER_OF_ENTRIES_def CPS_OBJECT_GROUP_CONFIG_TYPE_def
  CPS_OBJECT_GROUP_CONTINUE_ON_FAILURE_def CPS_OBJECT_GROUP_SEQUENCE_def
  CPS_OBJECT_GROUP_THREAD_ID_def CPS_OBJECT_GROUP_TIMESTAMP_def
  CPS_OBJECT_GROUP_USER_TIMESTAMP_NSEC_def CPS_OBJECT_GROUP_OBJ_def CPS_NODE_GROUP_NODE_NAME_def
  CPS_NODE_GROUP_NODE_IP_def CPS_NODE_GROUP_NAME_def CPS_NODE_GROUP_NODE_def
  CPS_NODE_GROUP_TYPE_def CPS_NODE_GROUP_OBJ_def

definition cps_metadata_ids :: "u64 list" where
  "cps_metadata_ids =
     [CPS_NODE_GROUP_NODE_NAME, CPS_NODE_GROUP_NODE_IP, CPS_NODE_GROUP_NAME, CPS_NODE_GROUP_NODE,
      CPS_NODE_GROUP_TYPE, CPS_NODE_GROUP_OBJ, CPS_OBJECT_GROUP_GROUP, CPS_OBJECT_GROUP_NODE,
      CPS_OBJECT_GROUP_TRANSACTION, CPS_OBJECT_GROUP_FAILED_NODES, CPS_OBJECT_GROUP_OBJ,
      CPS_OBJECT_GROUP_EXACT_MATCH, CPS_OBJECT_GROUP_RETURN_CODE, CPS_OBJECT_GROUP_GET_NEXT,
      CPS_OBJECT_GROUP_NUMBER_OF_ENTRIES, CPS_OBJECT_GROUP_CONFIG_TYPE,
      CPS_OBJECT_GROUP_WILDCARD_SEARCH, CPS_OBJECT_GROUP_RETURN_STRING,
      CPS_OBJECT_GROUP_CONTINUE_ON_FAILURE, CPS_OBJECT_GROUP_SEQUENCE, CPS_OBJECT_GROUP_THREAD_ID,
      CPS_OBJECT_GROUP_TIMESTAMP]"

definition is_in_cps_attr_set :: "u64 \<Rightarrow> bool" where
  "is_in_cps_attr_set i \<longleftrightarrow> List.member cps_metadata_ids i"

definition cps_api_attr_id_is_temporary :: "u64 \<Rightarrow> bool" where
  "cps_api_attr_id_is_temporary i =
     (if i = CPS_API_OBJ_KEY_ATTRS then False
      else if i = CPS_OBJECT_GROUP_CONFIG_TYPE then False
      else if \<not> is_in_cps_attr_set i then False
      else True)"

definition CPS_API_ATTR_RESERVE_RANGE_END :: u64 where "CPS_API_ATTR_RESERVE_RANGE_END = -1"
definition CPS_API_ATTR_RESERVE_RANGE_START :: u64 where "CPS_API_ATTR_RESERVE_RANGE_START = -10"

definition cps_api_attr_id_is_cps_reserved :: "u64 \<Rightarrow> bool" where
  "cps_api_attr_id_is_cps_reserved i =
     (if i \<le> CPS_API_ATTR_RESERVE_RANGE_END \<and> i \<ge> CPS_API_ATTR_RESERVE_RANGE_START then True
      else is_in_cps_attr_set i)"

section \<open>State\<close>

datatype CPS_CLASS_ATTR_TYPES_t =
    CPS_CLASS_ATTR_T_LEAF
  | CPS_CLASS_ATTR_T_LEAF_LIST
  | CPS_CLASS_ATTR_T_CONTAINER
  | CPS_CLASS_ATTR_T_SUBSYSTEM
  | CPS_CLASS_ATTR_T_LIST

datatype CPS_CLASS_DATA_TYPE_t =
    CPS_CLASS_DATA_TYPE_T_UINT8 | CPS_CLASS_DATA_TYPE_T_UINT16 | CPS_CLASS_DATA_TYPE_T_UINT32
  | CPS_CLASS_DATA_TYPE_T_UINT64 | CPS_CLASS_DATA_TYPE_T_INT8 | CPS_CLASS_DATA_TYPE_T_INT16
  | CPS_CLASS_DATA_TYPE_T_INT32 | CPS_CLASS_DATA_TYPE_T_INT64 | CPS_CLASS_DATA_TYPE_T_STRING
  | CPS_CLASS_DATA_TYPE_T_ENUM | CPS_CLASS_DATA_TYPE_T_BOOL | CPS_CLASS_DATA_TYPE_T_OBJ_ID
  | CPS_CLASS_DATA_TYPE_T_DATE | CPS_CLASS_DATA_TYPE_T_IPV4 | CPS_CLASS_DATA_TYPE_T_IPV6
  | CPS_CLASS_DATA_TYPE_T_IP | CPS_CLASS_DATA_TYPE_T_BIN | CPS_CLASS_DATA_TYPE_T_DOUBLE
  | CPS_CLASS_DATA_TYPE_T_EMBEDDED | CPS_CLASS_DATA_TYPE_T_KEY

datatype CPS_API_OBJECT_OWNER_TYPE_t =
    CPS_API_OBJECT_SERVICE
  | CPS_API_OBJECT_SERVICE_CACHE
  | CPS_API_OBJECT_DB

record cps_class_map_node_details =
  dt_name :: string
  dt_desc :: string
  dt_embedded :: bool
  dt_attr_type :: CPS_CLASS_ATTR_TYPES_t
  dt_data_type :: CPS_CLASS_DATA_TYPE_t

record cps_class_map_node_details_int_t =
  nd_details :: cps_class_map_node_details
  nd_name :: string
  nd_id :: u64
  nd_ids :: "u64 list"
  nd_key_ids :: "u64 list option"

text \<open>The fields of an enumeration that its lookups use.\<close>

record CPSEnum =
  en_str_to_id :: "(string \<times> int) list"
  en_id_to_str :: "(int \<times> string) list"

record key_characteristics =
  kc_owner_type :: CPS_API_OBJECT_OWNER_TYPE_t
  kc_automated_event :: bool

record cps_dict =
  dc_class_def :: "(u64 \<times> cps_class_map_node_details_int_t) list"
  dc_str_map :: "(string \<times> u64) list"
  dc_enum_map :: "(string \<times> CPSEnum) list"
  dc_attr_id_to_enum :: "(u64 \<times> string) list"
  dc_key_to_map_element :: "u64 cache"
  dc_key_storage_type :: "key_characteristics cache"

definition empty_dict :: cps_dict where
  "empty_dict = \<lparr>dc_class_def = [], dc_str_map = [], dc_enum_map = [], dc_attr_id_to_enum = [],
     dc_key_to_map_element = [], dc_key_storage_type = []\<rparr>"

section \<open>Nodes\<close>

definition cps_dict_find_by_id :: "cps_dict \<Rightarrow> u64 \<Rightarrow> cps_class_map_node_details_int_t option" where
  "cps_dict_find_by_id D i = umap_find (dc_class_def D) i"

definition cps_dict_find_by_name :: "cps_dict \<Rightarrow> string \<Rightarrow> cps_class_map_node_details_int_t option" where
  "cps_dict_find_by_name D name =
     (case umap_find (dc_str_map D) name of
        None \<Rightarrow> None
      | Some i \<Rightarrow> cps_dict_find_by_id D i)"

definition cps_dict_find_by_key ::
  "(u64 \<Rightarrow> u64) \<Rightarrow> cps_dict \<Rightarrow> cps_api_key_t \<Rightarrow> nat \<Rightarrow> cps_class_map_node_details_int_t option option" where
  "cps_dict_find_by_key h D key offset = do {
     let src = cps_api_key_elem_start key;
     src_len \<leftarrow> cps_api_key_get_len key;
     if src_len \<le> offset then Some None
     else do {
       ref \<leftarrow> cache_find_array h (dc_key_to_map_element D) (drop offset src) (src_len - offset);
       Some (case ref of None \<Rightarrow> None | Some i \<Rightarrow> cps_dict_find_by_id D i)
     }
   }"

text \<open>
  \<open>cps_class_map_init\<close> registers a node under its id, its name and its path. \<open>strrchr\<close> finds the
  part of the name behind the last slash. \<open>mem_ok\<close> says whether the allocations succeed.
\<close>

fun last_part :: "string \<Rightarrow> string" where
  "last_part [] = []"
| "last_part (c # s) = (if c = CHR ''/'' \<and> CHR ''/'' \<notin> set s then s
     else if CHR ''/'' \<in> set s then last_part s else c # s)"

definition cps_class_map_init ::
  "(u64 \<Rightarrow> u64) \<Rightarrow> bool \<Rightarrow> cps_dict \<Rightarrow> u64 \<Rightarrow> u64 list \<Rightarrow> cps_class_map_node_details \<Rightarrow>
     (cps_api_return_code_t \<times> cps_dict) option" where
  "cps_class_map_init h mem_ok D i ids details =
     (if ids = [] then Some (cps_api_ret_code_ERR, D)
      else if umap_find (dc_class_def D) i \<noteq> None then Some (cps_api_ret_code_ERR, D)
      else if \<not> mem_ok then Some (cps_api_ret_code_ERR, D)
      else do {
        let node = \<lparr>nd_details = details, nd_name = last_part (dt_name details), nd_id = i,
                    nd_ids = ids, nd_key_ids = None\<rparr>;
        key \<leftarrow> cps_api_key_init_from_attr_array (replicate 64 0) ids 0;
        (_, c) \<leftarrow> cache_insert h mem_ok (dc_key_to_map_element D) key i True;
        Some (cps_api_ret_code_OK, D\<lparr>
          dc_key_to_map_element := c,
          dc_str_map := umap_set (dc_str_map D) (dt_name details) i,
          dc_class_def := umap_set (dc_class_def D) i node\<rparr>)
      })"

definition cps_api_key_from_attr ::
  "cps_dict \<Rightarrow> cps_api_key_t \<Rightarrow> u64 \<Rightarrow> nat \<Rightarrow> (bool \<times> cps_api_key_t) option" where
  "cps_api_key_from_attr D key i key_start_pos = do {
     key \<leftarrow> cps_api_key_set_len key 0;
     key \<leftarrow> cps_api_key_set_attr key 0;
     (case cps_dict_find_by_id D i of
        None \<Rightarrow> Some (False, key)
      | Some it \<Rightarrow> do {
          key \<leftarrow> cps_api_key_set_attr key 0;
          key \<leftarrow> cps_api_key_init_from_attr_array key (nd_ids it) key_start_pos;
          Some (True, key)
        })
   }"

definition cps_api_key_from_attr_with_qual ::
  "cps_dict \<Rightarrow> cps_api_key_t \<Rightarrow> u64 \<Rightarrow> u32 \<Rightarrow> (bool \<times> cps_api_key_t) option" where
  "cps_api_key_from_attr_with_qual D key i cat = do {
     (rc, key) \<leftarrow> cps_api_key_from_attr D key i (CPS_OBJ_KEY_INST_POS + 1);
     if \<not> rc then Some (False, key)
     else do {
       key \<leftarrow> cps_api_key_set key CPS_OBJ_KEY_INST_POS cat;
       Some (True, key)
     }
   }"

definition cps_attr_id_to_name :: "cps_dict \<Rightarrow> u64 \<Rightarrow> string option" where
  "cps_attr_id_to_name D i =
     (case cps_dict_find_by_id D i of None \<Rightarrow> None | Some it \<Rightarrow> Some (dt_name (nd_details it)))"

text \<open>The lookups by path share the search of a key built from the ids.\<close>

definition find_by_ids ::
  "(u64 \<Rightarrow> u64) \<Rightarrow> cps_dict \<Rightarrow> u64 list \<Rightarrow> cps_class_map_node_details_int_t option option" where
  "find_by_ids h D ids = do {
     key \<leftarrow> cps_api_key_init_from_attr_array (replicate 64 0) ids 0;
     p \<leftarrow> cache_find h (dc_key_to_map_element D) key True;
     Some (case p of None \<Rightarrow> None | Some i \<Rightarrow> cps_dict_find_by_id D i)
   }"

definition cps_class_attr_name :: "(u64 \<Rightarrow> u64) \<Rightarrow> cps_dict \<Rightarrow> u64 list \<Rightarrow> string option option" where
  "cps_class_attr_name h D ids = map_option (map_option nd_name) (find_by_ids h D ids)"

definition cps_class_attr_is_embedded :: "(u64 \<Rightarrow> u64) \<Rightarrow> cps_dict \<Rightarrow> u64 list \<Rightarrow> bool option" where
  "cps_class_attr_is_embedded h D ids =
     map_option (\<lambda>p. case p of None \<Rightarrow> False | Some n \<Rightarrow> dt_embedded (nd_details n)) (find_by_ids h D ids)"

definition cps_class_attr_is_valid :: "(u64 \<Rightarrow> u64) \<Rightarrow> cps_dict \<Rightarrow> u64 list \<Rightarrow> bool option" where
  "cps_class_attr_is_valid h D ids = map_option (\<lambda>p. p \<noteq> None) (find_by_ids h D ids)"

definition cps_class_string_to_key :: "cps_dict \<Rightarrow> string \<Rightarrow> nat \<Rightarrow> u64 list option" where
  "cps_class_string_to_key D str max_ids =
     (case cps_dict_find_by_name D str of
        None \<Rightarrow> None
      | Some rec \<Rightarrow> Some (take (min max_ids (length (nd_ids rec))) (nd_ids rec)))"

definition cps_class_string_from_key ::
  "(u64 \<Rightarrow> u64) \<Rightarrow> cps_dict \<Rightarrow> cps_api_key_t \<Rightarrow> nat \<Rightarrow> string option option" where
  "cps_class_string_from_key h D key offset =
     map_option (map_option (\<lambda>it. dt_name (nd_details it))) (cps_dict_find_by_key h D key offset)"

definition cps_api_attr_name_to_id :: "cps_dict \<Rightarrow> string \<Rightarrow> u64 option" where
  "cps_api_attr_name_to_id D name = umap_find (dc_str_map D) name"

text \<open>
  \<open>cps_api_key_attrs\<close>: the leaf ids on the path of a class, computed on first use and then kept in
  the node.
\<close>

fun key_attrs_loop :: "cps_dict \<Rightarrow> u64 list \<Rightarrow> u64 list \<Rightarrow> u64 list" where
  "key_attrs_loop D acc [] = acc"
| "key_attrs_loop D acc (i # is) =
     (case cps_dict_find_by_id D i of
        None \<Rightarrow> key_attrs_loop D acc is
      | Some e \<Rightarrow>
          (let acc = (if dt_attr_type (nd_details e) = CPS_CLASS_ATTR_T_LEAF then acc @ [nd_id e] else acc)
           in if length acc \<ge> CPS_OBJ_MAX_KEY_LEN then acc else key_attrs_loop D acc is))"

definition cps_api_key_attrs ::
  "(u64 \<Rightarrow> u64) \<Rightarrow> cps_dict \<Rightarrow> cps_api_key_t \<Rightarrow> nat \<Rightarrow> (u64 list \<times> cps_dict) option" where
  "cps_api_key_attrs h D key key_offset = do {
     it \<leftarrow> cps_dict_find_by_key h D key key_offset;
     Some (case it of
       None \<Rightarrow> ([], D)
     | Some n \<Rightarrow>
         (case nd_key_ids n of
            Some ks \<Rightarrow> (ks, D)
          | None \<Rightarrow>
              (let ks = key_attrs_loop D [] (nd_ids n)
               in (ks, D\<lparr>dc_class_def :=
                     umap_set (dc_class_def D) (nd_id n) (n\<lparr>nd_key_ids := Some ks\<rparr>)\<rparr>))))
   }"

definition cps_class_map_attr_type :: "cps_dict \<Rightarrow> u64 \<Rightarrow> CPS_CLASS_DATA_TYPE_t option" where
  "cps_class_map_attr_type D i =
     (case cps_dict_find_by_id D i of None \<Rightarrow> None | Some it \<Rightarrow> Some (dt_data_type (nd_details it)))"

definition cps_class_map_attr_class :: "cps_dict \<Rightarrow> u64 \<Rightarrow> CPS_CLASS_ATTR_TYPES_t option" where
  "cps_class_map_attr_class D i =
     (case cps_dict_find_by_id D i of None \<Rightarrow> None | Some it \<Rightarrow> Some (dt_attr_type (nd_details it)))"

section \<open>Enumerations\<close>

definition enum_reg :: "CPSEnum \<Rightarrow> string \<Rightarrow> int \<Rightarrow> CPSEnum" where
  "enum_reg e name i = e\<lparr>en_str_to_id := umap_set (en_str_to_id e) name i,
                          en_id_to_str := umap_set (en_id_to_str e) i name\<rparr>"

definition enum_value :: "CPSEnum \<Rightarrow> string \<Rightarrow> int" where
  "enum_value e name = (case umap_find (en_str_to_id e) name of None \<Rightarrow> -1 | Some i \<Rightarrow> i)"

definition enum_name :: "CPSEnum \<Rightarrow> int \<Rightarrow> string option" where
  "enum_name e v = umap_find (en_id_to_str e) v"

definition cps_class_map_enum_reg :: "cps_dict \<Rightarrow> string \<Rightarrow> string \<Rightarrow> int \<Rightarrow> cps_dict" where
  "cps_class_map_enum_reg D nm field v =
     (let e = (case umap_find (dc_enum_map D) nm of
                 None \<Rightarrow> \<lparr>en_str_to_id = [], en_id_to_str = []\<rparr>
               | Some e \<Rightarrow> e)
      in D\<lparr>dc_enum_map := umap_set (dc_enum_map D) nm (enum_reg e field v)\<rparr>)"

definition cps_class_map_enum_associate :: "cps_dict \<Rightarrow> u64 \<Rightarrow> string \<Rightarrow> cps_dict" where
  "cps_class_map_enum_associate D i name =
     D\<lparr>dc_attr_id_to_enum := umap_set (dc_attr_id_to_enum D) i name\<rparr>"

definition cps_class_enum_id :: "cps_dict \<Rightarrow> u64 \<Rightarrow> int \<Rightarrow> string option" where
  "cps_class_enum_id D i v =
     (case umap_find (dc_attr_id_to_enum D) i of
        None \<Rightarrow> None
      | Some nm \<Rightarrow> (case umap_find (dc_enum_map D) nm of None \<Rightarrow> None | Some e \<Rightarrow> enum_name e v))"

definition cps_api_enum_value :: "cps_dict \<Rightarrow> u64 \<Rightarrow> string \<Rightarrow> int" where
  "cps_api_enum_value D i tag =
     (case umap_find (dc_attr_id_to_enum D) i of
        None \<Rightarrow> -1
      | Some nm \<Rightarrow> (case umap_find (dc_enum_map D) nm of None \<Rightarrow> -1 | Some e \<Rightarrow> enum_value e tag))"

section \<open>Ownership and events\<close>

definition key_characteristics_new :: key_characteristics where
  "key_characteristics_new = \<lparr>kc_owner_type = CPS_API_OBJECT_SERVICE, kc_automated_event = False\<rparr>"

definition key_characteristics_at ::
  "(u64 \<Rightarrow> u64) \<Rightarrow> cps_dict \<Rightarrow> cps_api_key_t \<Rightarrow> key_characteristics option option" where
  "key_characteristics_at h D key = do {
     p \<leftarrow> cache_at h (dc_key_storage_type D) key True;
     entry_data (dc_key_storage_type D) p
   }"

definition cps_api_obj_get_ownership_type ::
  "(u64 \<Rightarrow> u64) \<Rightarrow> cps_dict \<Rightarrow> cps_api_key_t \<Rightarrow> CPS_API_OBJECT_OWNER_TYPE_t option" where
  "cps_api_obj_get_ownership_type h D key = do {
     p \<leftarrow> key_characteristics_at h D key;
     Some (case p of None \<Rightarrow> CPS_API_OBJECT_SERVICE | Some s \<Rightarrow> kc_owner_type s)
   }"

definition cps_api_obj_has_auto_events :: "(u64 \<Rightarrow> u64) \<Rightarrow> cps_dict \<Rightarrow> cps_api_key_t \<Rightarrow> bool option" where
  "cps_api_obj_has_auto_events h D key = do {
     p \<leftarrow> key_characteristics_at h D key;
     Some (case p of None \<Rightarrow> False | Some s \<Rightarrow> kc_automated_event s)
   }"

text \<open>Both setters write through \<open>at\<close>, or insert a new entry with the other field at its default.\<close>

definition key_characteristics_update ::
  "(u64 \<Rightarrow> u64) \<Rightarrow> bool \<Rightarrow> cps_dict \<Rightarrow> cps_api_key_t \<Rightarrow> (key_characteristics \<Rightarrow> key_characteristics) \<Rightarrow>
     cps_dict option" where
  "key_characteristics_update h mem_ok D key f = do {
     p \<leftarrow> cache_at h (dc_key_storage_type D) key True;
     (case p of
        None \<Rightarrow> do {
          (_, c) \<leftarrow> cache_insert h mem_ok (dc_key_storage_type D) key (f key_characteristics_new) True;
          Some (D\<lparr>dc_key_storage_type := c\<rparr>)
        }
      | Some q \<Rightarrow> do {
          c \<leftarrow> cache_at_update (dc_key_storage_type D) q f;
          Some (D\<lparr>dc_key_storage_type := c\<rparr>)
        })
   }"

definition cps_api_obj_set_ownership_type ::
  "(u64 \<Rightarrow> u64) \<Rightarrow> bool \<Rightarrow> cps_dict \<Rightarrow> cps_api_key_t \<Rightarrow> CPS_API_OBJECT_OWNER_TYPE_t \<Rightarrow> cps_dict option" where
  "cps_api_obj_set_ownership_type h mem_ok D key type =
     key_characteristics_update h mem_ok D key (\<lambda>s. s\<lparr>kc_owner_type := type\<rparr>)"

definition cps_api_obj_set_auto_event ::
  "(u64 \<Rightarrow> u64) \<Rightarrow> bool \<Rightarrow> cps_dict \<Rightarrow> cps_api_key_t \<Rightarrow> bool \<Rightarrow> cps_dict option" where
  "cps_api_obj_set_auto_event h mem_ok D key automated_events =
     key_characteristics_update h mem_ok D key (\<lambda>s. s\<lparr>kc_automated_event := automated_events\<rparr>)"

section \<open>Library flags\<close>

text \<open>
  The flags and the handlers to call when one is set; a handler is named by a number, and setting a
  flag returns the handlers called, in order.
\<close>

record cps_flags =
  fl_parameters :: "(string \<times> string) list"
  fl_handlers :: "nat list"
  fl_handler_map :: "(string \<times> nat list) list"

definition cps_api_add_flag_set_handler :: "cps_flags \<Rightarrow> string option \<Rightarrow> nat \<Rightarrow> cps_flags" where
  "cps_api_add_flag_set_handler F what handler =
     (case what of
        None \<Rightarrow> F\<lparr>fl_handlers := fl_handlers F @ [handler]\<rparr>
      | Some w \<Rightarrow>
          F\<lparr>fl_handler_map := umap_set (fl_handler_map F) w
             ((case umap_find (fl_handler_map F) w of None \<Rightarrow> [] | Some hs \<Rightarrow> hs) @ [handler])\<rparr>)"

text \<open>Reading \<open>(*_parameter_handler_map)[param]\<close> creates an empty entry when there is none.\<close>

definition trigger_param_callback :: "cps_flags \<Rightarrow> string \<Rightarrow> nat list \<times> cps_flags" where
  "trigger_param_callback F param =
     (let specific = (case umap_find (fl_handler_map F) param of None \<Rightarrow> [] | Some hs \<Rightarrow> hs)
      in (specific @ fl_handlers F, F\<lparr>fl_handler_map := umap_set (fl_handler_map F) param specific\<rparr>))"

definition cps_api_get_library_flag_value :: "cps_flags \<Rightarrow> string \<Rightarrow> string" where
  "cps_api_get_library_flag_value F flag =
     (case umap_find (fl_parameters F) flag of None \<Rightarrow> [] | Some v \<Rightarrow> v)"

text \<open>\<open>cps_api_get_library_flags\<close> looks up the caller's output buffer, not the flag.\<close>

definition cps_api_get_library_flags :: "cps_flags \<Rightarrow> string \<Rightarrow> string \<Rightarrow> nat \<Rightarrow> bool \<times> string" where
  "cps_api_get_library_flags F flag val val_size =
     (case umap_find (fl_parameters F) val of
        None \<Rightarrow> (False, val)
      | Some v \<Rightarrow> (True, take (val_size - 1) v))"

definition cps_api_set_library_flags ::
  "cps_flags \<Rightarrow> string \<Rightarrow> string option \<Rightarrow> nat list \<times> cps_flags" where
  "cps_api_set_library_flags F flag val =
     (let F = (case val of None \<Rightarrow> F
               | Some v \<Rightarrow> F\<lparr>fl_parameters := umap_set (fl_parameters F) flag v\<rparr>)
      in trigger_param_callback F flag)"

section \<open>Escaping quotes\<close>

text \<open>The loop of \<open>_escape\<close>: find the next quote from a position, insert one before it, go on.\<close>

function escape_loop :: "string \<Rightarrow> nat \<Rightarrow> string" where
  "escape_loop s ix =
     (case List.find (\<lambda>j. s ! j = CHR 0x22) [ix..<length s] of
        None \<Rightarrow> s
      | Some j \<Rightarrow> escape_loop (take j s @ [CHR 0x22] @ drop j s) (j + 2))"
  by pat_completeness auto
termination
proof (relation "measure (\<lambda>(s, ix). length s - ix)")
  fix s ix j
  assume "List.find (\<lambda>j. s ! j = CHR 0x22) [ix..<length s] = Some j"
  then have "ix \<le> j" "j < length s" by (auto simp: find_Some_iff)
  then show "((take j s @ [CHR 0x22] @ drop j s, j + 2), (s, ix)) \<in> measure (\<lambda>(s, ix). length s - ix)"
    by simp
qed simp

definition escape :: "string \<Rightarrow> string" where
  "escape s = escape_loop s 0"

end
