(* ===== verification/Cps_Dictionary_Proofs.thy ===== *)
theory Cps_Dictionary_Proofs
  imports Cps_Dictionary
begin

text \<open>
  What the dictionary promises: a registered node is found by id, name, path and key; the ownership
  and event settings of a class are independent and keyed by the elements of the key; the key
  attributes of a class are the leaves on its path and are computed once; enumerations map back and
  forth.
\<close>

section \<open>Consistency\<close>

definition dict_wf :: "(u64 \<Rightarrow> u64) \<Rightarrow> cps_dict \<Rightarrow> bool" where
  "dict_wf h D \<longleftrightarrow> cache_inv h (dc_key_to_map_element D) \<and> cache_inv h (dc_key_storage_type D) \<and>
     (\<forall>i n. cps_dict_find_by_id D i = Some n \<longrightarrow> nd_id n = i)"

lemma dict_wf_empty: "dict_wf h empty_dict"
  by (simp add: dict_wf_def empty_dict_def cps_dict_find_by_id_def umap_find_def)

text \<open>The node registered for a path.\<close>

definition dict_path :: "(u64 \<Rightarrow> u64) \<Rightarrow> cps_dict \<Rightarrow> u32 list \<Rightarrow> cps_class_map_node_details_int_t option" where
  "dict_path h D es =
     (case cache_map h (dc_key_to_map_element D) es of None \<Rightarrow> None | Some i \<Rightarrow> cps_dict_find_by_id D i)"

lemma find_by_key_path:
  assumes "dict_wf h D" and "key_ok key" and "offset < length (key_elems key)"
  shows "cps_dict_find_by_key h D key offset = Some (dict_path h D (drop offset (key_elems key)))"
proof -
  let ?n = "length (key_elems key)" and ?s = "cps_api_key_elem_start key"
  have len: "?n \<le> length ?s" using length_elem_start [OF assms(2)] .
  have el: "take ?n ?s = key_elems key" using key_elem_start_take [OF assms(2)] by simp
  have "take (?n - offset) (drop offset ?s) = drop offset (key_elems key)"
    using el by (metis drop_take)
  moreover have "?n < 62" using key_elems_le [OF assms(2)] .
  ultimately have "cache_find_array h (dc_key_to_map_element D) (drop offset ?s) (?n - offset) =
      Some (cache_map h (dc_key_to_map_element D) (drop offset (key_elems key)))"
    using cache_find_array [of h "dc_key_to_map_element D" "?n - offset" "drop offset ?s"] assms(1) len
    by (simp add: dict_wf_def)
  then show ?thesis using assms(2,3) by (simp add: cps_dict_find_by_key_def dict_path_def)
qed

lemma find_by_ids_path:
  assumes "dict_wf h D" and "length ids < 62"
  shows "find_by_ids h D ids = Some (dict_path h D (map ucast ids))"
proof -
  obtain k where k: "cps_api_key_init_from_attr_array (replicate 64 0) ids 0 = Some k" "key_wf k"
    "key_elems k = map ucast ids"
    by (rule key_init_from_attr_array [of "replicate 64 0" ids 0]) (use assms(2) in auto)
  then show ?thesis
    using cache_find_exact [of h "dc_key_to_map_element D" k] assms(1)
    by (simp add: find_by_ids_def dict_path_def dict_wf_def)
qed

section \<open>Registration\<close>

lemma class_map_init_ok:
  assumes "dict_wf h D" and "ids \<noteq> []" and "length ids < 62" and "cps_dict_find_by_id D i = None"
  shows "\<exists>D'. cps_class_map_init h True D i ids det = Some (cps_api_ret_code_OK, D') \<and> dict_wf h D' \<and>
     (\<forall>j. cps_dict_find_by_id D' j = (if j = i then Some \<lparr>nd_details = det,
        nd_name = last_part (dt_name det), nd_id = i, nd_ids = ids, nd_key_ids = None\<rparr>
        else cps_dict_find_by_id D j)) \<and>
     cps_api_attr_name_to_id D' (dt_name det) = Some i \<and>
     (cache_map h (dc_key_to_map_element D) (map ucast ids) = None \<longrightarrow>
        cache_map h (dc_key_to_map_element D') (map ucast ids) = Some i)"
proof -
  obtain k where k: "cps_api_key_init_from_attr_array (replicate 64 0) ids 0 = Some k" "key_wf k"
    "key_elems k = map ucast ids"
    by (rule key_init_from_attr_array [of "replicate 64 0" ids 0]) (use assms(3) in auto)
  have "cache_inv h (dc_key_to_map_element D)" using assms(1) by (simp add: dict_wf_def)
  from cache_insert_map [OF this key_wf_ok [OF k(2)], of True True i] obtain c where
    c: "cache_insert h True (dc_key_to_map_element D) k i True = Some (True, c)" "cache_inv h c"
    "cache_map h c = (case cache_map h (dc_key_to_map_element D) (key_elems k) of
        None \<Rightarrow> (cache_map h (dc_key_to_map_element D))(key_elems k \<mapsto> i)
      | Some _ \<Rightarrow> cache_map h (dc_key_to_map_element D))"
    by blast
  show ?thesis
    using assms(1,2,4) k(1,3) c
    by (auto simp: cps_class_map_init_def dict_wf_def cps_dict_find_by_id_def
        cps_api_attr_name_to_id_def)
qed

lemma key_from_attr_elems:
  assumes "cps_dict_find_by_id D i = Some n" and "length (nd_ids n) < 61" and "length key = 64"
  shows "\<exists>k. cps_api_key_from_attr_with_qual D key i q = Some (True, k) \<and> key_wf k \<and>
     key_elems k = q # map ucast (nd_ids n) \<and> k ! 1 = 0"
proof -
  obtain k1 where k1: "cps_api_key_set_len key 0 = Some k1" "key_wf k1"
    by (rule key_set_len [OF assms(3), of 0]) auto
  have l1: "length k1 = 64" using k1(2) by (simp add: key_wf_def)
  let ?k2 = "k1[1 := 0]"
  have s: "cps_api_key_set_attr k1 0 = Some ?k2" "cps_api_key_set_attr ?k2 0 = Some ?k2"
    using l1 by (simp_all add: cps_api_key_set_attr_def cps_api_key_elem_raw_set_def key_layout)
  have "length ?k2 = 64" using l1 by simp
  then obtain k3 where k3: "cps_api_key_init_from_attr_array ?k2 (nd_ids n) 1 = Some k3" "key_wf k3"
    "key_elems k3 = take 1 (drop 2 ?k2) @ map ucast (nd_ids n)" "k3 ! 1 = ?k2 ! 1"
    by (rule key_init_from_attr_array [of _ "nd_ids n" 1]) (use assms(2) in auto)
  have l3: "length (take 1 (drop 2 ?k2)) = 1" using l1 by simp
  have "0 < length (key_elems k3)" using k3(3) l3 by simp
  then obtain k4 where k4: "cps_api_key_set k3 0 q = Some k4" "key_wf k4"
    "key_elems k4 = (key_elems k3)[0 := q]" "k4 ! 1 = k3 ! 1"
    by (rule key_set_elem [OF k3(2)]) auto
  obtain x where "take 1 (drop 2 ?k2) = [x]" using l3 unfolding One_nat_def length_Suc_conv by blast
  then have "key_elems k4 = q # map ucast (nd_ids n)" using k4(3) k3(3) by simp
  moreover have "k4 ! 1 = 0" using k4(4) k3(4) l1 by simp
  ultimately show ?thesis
    using k1(1) s k3(1) k4(1,2) assms(1)
    by (simp add: cps_api_key_from_attr_with_qual_def cps_api_key_from_attr_def key_positions)
qed


definition demo_details :: cps_class_map_node_details where
  "demo_details = \<lparr>dt_name = ''cps/node'', dt_desc = '''', dt_embedded = False,
     dt_attr_type = CPS_CLASS_ATTR_T_LEAF, dt_data_type = CPS_CLASS_DATA_TYPE_T_BIN\<rparr>"


section \<open>Key attributes\<close>

definition leaf_id :: "cps_dict \<Rightarrow> u64 \<Rightarrow> bool" where
  "leaf_id D i \<longleftrightarrow> cps_class_map_attr_class D i = Some CPS_CLASS_ATTR_T_LEAF"

lemma key_attrs_loop_leaves:
  assumes "\<forall>i n. cps_dict_find_by_id D i = Some n \<longrightarrow> nd_id n = i" and "length acc < CPS_OBJ_MAX_KEY_LEN"
  shows "key_attrs_loop D acc is = take CPS_OBJ_MAX_KEY_LEN (acc @ filter (leaf_id D) is)"
  using assms(2)
proof (induction "is" arbitrary: acc)
  case (Cons i "is")
  show ?case
  proof (cases "cps_dict_find_by_id D i")
    case None
    then show ?thesis using Cons by (simp add: leaf_id_def cps_class_map_attr_class_def)
  next
    case (Some e)
    then have e: "nd_id e = i" using assms(1) by blast
    have leaf: "leaf_id D i \<longleftrightarrow> dt_attr_type (nd_details e) = CPS_CLASS_ATTR_T_LEAF"
      using Some by (simp add: leaf_id_def cps_class_map_attr_class_def)
    show ?thesis
    proof (cases "leaf_id D i \<and> CPS_OBJ_MAX_KEY_LEN \<le> Suc (length acc)")
      case True
      then have "length (acc @ [i]) = CPS_OBJ_MAX_KEY_LEN" using Cons.prems by simp
      then have "take CPS_OBJ_MAX_KEY_LEN ((acc @ [i]) @ filter (leaf_id D) is) = acc @ [i]"
        by (rule take_append_exact)
      then show ?thesis using True Some e leaf by simp
    next
      case False
      then show ?thesis using Cons Some e leaf by (auto simp: take_Cons')
    qed
  qed
qed simp

text \<open>The key attributes of a class, computed at the first call and remembered for the next.\<close>

lemma key_attrs_twice:
  assumes "dict_wf h D" and "key_ok key" and "off < length (key_elems key)"
    and "dict_path h D (drop off (key_elems key)) = Some n" and "nd_key_ids n = None"
  shows "\<exists>D'. cps_api_key_attrs h D key off =
       Some (take CPS_OBJ_MAX_KEY_LEN (filter (leaf_id D) (nd_ids n)), D') \<and> dict_wf h D' \<and>
     cps_api_key_attrs h D' key off =
       Some (take CPS_OBJ_MAX_KEY_LEN (filter (leaf_id D) (nd_ids n)), D')"
proof -
  let ?ks = "take CPS_OBJ_MAX_KEY_LEN (filter (leaf_id D) (nd_ids n))"
  let ?n = "n\<lparr>nd_key_ids := Some ?ks\<rparr>"
  define D' where "D' = D\<lparr>dc_class_def := umap_set (dc_class_def D) (nd_id n) ?n\<rparr>"
  have ids: "\<forall>i n. cps_dict_find_by_id D i = Some n \<longrightarrow> nd_id n = i" using assms(1) by (simp add: dict_wf_def)
  obtain i where i: "cache_map h (dc_key_to_map_element D) (drop off (key_elems key)) = Some i"
    "cps_dict_find_by_id D i = Some n"
    using assms(4) by (auto simp: dict_path_def split: option.splits)
  have ni: "nd_id n = i" using ids i(2) by blast
  have loop: "key_attrs_loop D [] (nd_ids n) = ?ks"
    using key_attrs_loop_leaves [OF ids, of "[]"] by (simp add: key_layout)
  have f: "cps_dict_find_by_id D' j = (if j = i then Some ?n else cps_dict_find_by_id D j)" for j
    by (simp add: D'_def cps_dict_find_by_id_def ni)
  have wf: "dict_wf h D'" using assms(1) f ni by (auto simp: dict_wf_def D'_def)
  have "dict_path h D' (drop off (key_elems key)) = Some ?n"
    using i(1) f by (simp add: dict_path_def D'_def)
  then have "cps_api_key_attrs h D' key off = Some (?ks, D')"
    using find_by_key_path [OF wf assms(2,3)] by (simp add: cps_api_key_attrs_def)
  moreover have "cps_api_key_attrs h D key off = Some (?ks, D')"
    using find_by_key_path [OF assms(1-3)] assms(4,5) loop
    by (simp add: cps_api_key_attrs_def D'_def Let_def)
  ultimately show ?thesis using wf by blast
qed


definition demo_dict :: cps_dict where
  "demo_dict = (case cps_class_map_init id True empty_dict 7 [5, 7] demo_details of
     Some (_, D) \<Rightarrow> D | None \<Rightarrow> empty_dict)"

lemma demo_dict_facts:
  "dict_wf id demo_dict"
  "\<exists>n. dict_path id demo_dict [5, 7] = Some n \<and> nd_key_ids n = None \<and>
     filter (leaf_id demo_dict) (nd_ids n) = [7]"
proof -
  have e: "cps_dict_find_by_id empty_dict j = None" for j
    by (simp add: cps_dict_find_by_id_def umap_find_def empty_dict_def)
  have c: "cache_map id (dc_key_to_map_element empty_dict) (map ucast [5 :: u64, 7]) = None"
    by (simp add: empty_dict_def)
  obtain D' where D': "cps_class_map_init id True empty_dict 7 [5, 7] demo_details =
      Some (cps_api_ret_code_OK, D')" "dict_wf id D'"
    "\<forall>j. cps_dict_find_by_id D' j = (if j = 7 then Some \<lparr>nd_details = demo_details,
        nd_name = last_part (dt_name demo_details), nd_id = 7, nd_ids = [5, 7], nd_key_ids = None\<rparr>
        else None)"
    "cache_map id (dc_key_to_map_element D') [5, 7] = Some 7"
    using class_map_init_ok [OF dict_wf_empty _ _ e, of "[5, 7]" id 7 demo_details] c e by auto
  have d: "demo_dict = D'" using D'(1) by (simp add: demo_dict_def)
  show "dict_wf id demo_dict" using D'(2) d by simp
  show "\<exists>n. dict_path id demo_dict [5, 7] = Some n \<and> nd_key_ids n = None \<and>
     filter (leaf_id demo_dict) (nd_ids n) = [7]"
    using D'(3,4) by (simp add: d dict_path_def leaf_id_def cps_class_map_attr_class_def demo_details_def)
qed


section \<open>Ownership and events\<close>

lemma characteristics_at:
  assumes "dict_wf h D" and "key_ok key"
  shows "key_characteristics_at h D key = Some (cache_map h (dc_key_storage_type D) (key_elems key))"
proof -
  have "cache_inv h (dc_key_storage_type D)" using assms(1) by (simp add: dict_wf_def)
  then obtain r where "cache_at h (dc_key_storage_type D) key True = Some r"
    "entry_for h (dc_key_storage_type D) (key_elems key) r"
    by (rule cache_at_exact [OF _ assms(2)])
  then show ?thesis by (simp add: key_characteristics_at_def entry_for_data)
qed

lemma characteristics_update:
  assumes "dict_wf h D" and "key_ok key"
  shows "\<exists>D'. key_characteristics_update h True D key f = Some D' \<and> dict_wf h D' \<and>
     cache_map h (dc_key_storage_type D') = (cache_map h (dc_key_storage_type D))(key_elems key \<mapsto>
       f (case cache_map h (dc_key_storage_type D) (key_elems key) of
            None \<Rightarrow> key_characteristics_new | Some s \<Rightarrow> s))"
proof -
  let ?c = "dc_key_storage_type D" and ?es = "key_elems key"
  have inv: "cache_inv h ?c" using assms(1) by (simp add: dict_wf_def)
  obtain r where r: "cache_at h ?c key True = Some r" "entry_for h ?c ?es r"
    by (rule cache_at_exact [OF inv assms(2)])
  have wf: "dict_wf h (D\<lparr>dc_key_storage_type := c\<rparr>)" if "cache_inv h c" for c
    using assms(1) that by (simp add: dict_wf_def cps_dict_find_by_id_def)
  show ?thesis
  proof (cases r)
    case None
    then have m: "cache_map h ?c ?es = None" using r(2) by (simp add: entry_for_def)
    obtain c where "cache_insert h True ?c key (f key_characteristics_new) True = Some (True, c)"
      "cache_inv h c" "cache_map h c = (cache_map h ?c)(?es \<mapsto> f key_characteristics_new)"
      using cache_insert_map [OF inv assms(2), of True True] m by auto
    then show ?thesis using r(1) None m wf by (simp add: key_characteristics_update_def)
  next
    case (Some q)
    obtain c where c: "cache_at_update ?c q f = Some c" "cache_inv h c"
      "cache_map h c = (cache_map h ?c)(?es := map_option f (cache_map h ?c ?es))"
      using cache_at_update_map [OF inv, of ?es q f] r(2) Some by auto
    obtain s where "cache_map h ?c ?es = Some s"
      using entry_for_data [OF r(2)] r(2) Some
      by (auto simp: entry_for_def found_at_def cache_map_def split: prod.splits)
    then show ?thesis using r(1) Some c wf by (simp add: key_characteristics_update_def)
  qed
qed

text \<open>
  Setting the ownership of a class changes the ownership of exactly the objects whose key has
  the same elements, and no event setting; setting the events likewise changes no ownership. A
  class nobody configured belongs to a service and has no automatic events.
\<close>

theorem ownership_events_independent:
  assumes "dict_wf h D" and "key_ok k" and "key_ok j"
  shows "(\<exists>D'. cps_api_obj_set_ownership_type h True D k t = Some D' \<and> dict_wf h D' \<and>
       cps_api_obj_get_ownership_type h D' j =
         (if key_elems j = key_elems k then Some t else cps_api_obj_get_ownership_type h D j) \<and>
       cps_api_obj_has_auto_events h D' j = cps_api_obj_has_auto_events h D j) \<and>
    (\<exists>D'. cps_api_obj_set_auto_event h True D k b = Some D' \<and> dict_wf h D' \<and>
       cps_api_obj_has_auto_events h D' j =
         (if key_elems j = key_elems k then Some b else cps_api_obj_has_auto_events h D j) \<and>
       cps_api_obj_get_ownership_type h D' j = cps_api_obj_get_ownership_type h D j)"
proof -
  note at = characteristics_at [OF _ assms(3)]
  note simps = cps_api_obj_get_ownership_type_def cps_api_obj_has_auto_events_def
    key_characteristics_new_def at assms(1)
  have "\<exists>D'. cps_api_obj_set_ownership_type h True D k t = Some D' \<and> dict_wf h D' \<and>
       cps_api_obj_get_ownership_type h D' j =
         (if key_elems j = key_elems k then Some t else cps_api_obj_get_ownership_type h D j) \<and>
       cps_api_obj_has_auto_events h D' j = cps_api_obj_has_auto_events h D j"
    using characteristics_update [OF assms(1,2), of "\<lambda>s. s\<lparr>kc_owner_type := t\<rparr>"]
    by (auto simp: cps_api_obj_set_ownership_type_def simps split: option.splits)
  moreover have "\<exists>D'. cps_api_obj_set_auto_event h True D k b = Some D' \<and> dict_wf h D' \<and>
       cps_api_obj_has_auto_events h D' j =
         (if key_elems j = key_elems k then Some b else cps_api_obj_has_auto_events h D j) \<and>
       cps_api_obj_get_ownership_type h D' j = cps_api_obj_get_ownership_type h D j"
    using characteristics_update [OF assms(1,2), of "\<lambda>s. s\<lparr>kc_automated_event := b\<rparr>"]
    by (auto simp: cps_api_obj_set_auto_event_def simps split: option.splits)
  ultimately show ?thesis by blast
qed

theorem ownership_events_independent_witness:
  "\<exists>D'. cps_api_obj_set_ownership_type id True empty_dict [1, 0, 7] CPS_API_OBJECT_DB = Some D' \<and>
     cps_api_obj_get_ownership_type id D' [1, 9, 7] = Some CPS_API_OBJECT_DB \<and>
     cps_api_obj_has_auto_events id D' [1, 9, 7] = Some False"
proof -
  have k: "key_ok [1, 0, 7]" "key_ok [1, 9, 7]" by (simp_all add: key_ok_def)
  have "cps_api_obj_has_auto_events id empty_dict [1, 9, 7] = Some False"
    by (simp add: cps_api_obj_has_auto_events_def characteristics_at [OF dict_wf_empty k(2)])
      (simp add: empty_dict_def)
  then show ?thesis
    using conjunct1 [OF ownership_events_independent [OF dict_wf_empty k, of id CPS_API_OBJECT_DB True]]
    by (auto simp: key_elems_def)
qed

section \<open>Enumerations, flags, ids and escapes\<close>

text \<open>
  A field registered in an enumeration that is associated with an attribute maps from its tag
  to its value and back.
\<close>

theorem enum_roundtrip:
  "cps_api_enum_value (cps_class_map_enum_reg (cps_class_map_enum_associate D i nm) nm tag v) i tag = v \<and>
   cps_class_enum_id (cps_class_map_enum_reg (cps_class_map_enum_associate D i nm) nm tag v) i v = Some tag"
  by (simp add: cps_api_enum_value_def cps_class_enum_id_def cps_class_map_enum_reg_def
      cps_class_map_enum_associate_def enum_reg_def enum_value_def enum_name_def Let_def)

text \<open>\<open>cps_api_get_library_flags\<close> ignores the flag it is asked for.\<close>

lemma library_flags_ignore_flag:
  "cps_api_get_library_flags F flag val n = cps_api_get_library_flags F flag' val n"
  by (simp add: cps_api_get_library_flags_def)

text \<open>\<open>temporary\<close> attributes are reserved, and the key container is reserved but not temporary.\<close>

lemma temporary_is_reserved:
  "cps_api_attr_id_is_temporary i \<Longrightarrow> cps_api_attr_id_is_cps_reserved i"
  "cps_api_attr_id_is_cps_reserved CPS_API_OBJ_KEY_ATTRS \<and>
   \<not> cps_api_attr_id_is_temporary CPS_API_OBJ_KEY_ATTRS"
  by (auto simp: cps_api_attr_id_is_temporary_def cps_api_attr_id_is_cps_reserved_def
      CPS_API_ATTR_RESERVE_RANGE_END_def CPS_API_ATTR_RESERVE_RANGE_START_def
      CPS_API_OBJ_KEY_ATTRS_def split: if_splits)

definition double_quote :: "char \<Rightarrow> string" where
  "double_quote c = (if c = CHR 0x22 then [c, c] else [c])"

lemma double_quote_none: "CHR 0x22 \<notin> set s \<Longrightarrow> concat (map double_quote s) = s"
  by (induction s) (auto simp: double_quote_def)

lemma escape_loop_spec:
  "ix \<le> length s \<Longrightarrow> escape_loop s ix = take ix s @ concat (map double_quote (drop ix s))"
proof (induction s ix rule: escape_loop.induct)
  case (1 s ix)
  let ?f = "List.find (\<lambda>j. s ! j = CHR 0x22) [ix..<length s]"
  show ?case
  proof (cases ?f)
    case None
    then have "CHR 0x22 \<notin> set (drop ix s)"
      by (auto simp: find_None_iff in_set_conv_nth)
    then show ?thesis using None double_quote_none by (subst escape_loop.simps) simp
  next
    case (Some j)
    then obtain k where k: "k < length s - ix" "j = ix + k" "s ! j = CHR 0x22"
      "\<forall>l < k. s ! (ix + l) \<noteq> CHR 0x22"
      by (auto simp: find_Some_iff)
    let ?s = "take j s @ [CHR 0x22] @ drop j s"
    have d: "drop ix s = take k (drop ix s) @ s ! j # drop (Suc j) s"
      using k by (metis Cons_nth_drop_Suc add.commute append_take_drop_id drop_drop less_diff_conv)
    have "CHR 0x22 \<notin> set (take k (drop ix s))"
      using k by (auto simp: in_set_conv_nth)
    then have c: "concat (map double_quote (drop ix s)) =
        take k (drop ix s) @ [CHR 0x22, CHR 0x22] @ concat (map double_quote (drop (Suc j) s))"
      using k(3) by (subst d) (simp add: double_quote_none, simp add: double_quote_def)
    have j: "j < length s" using k by simp
    have dj: "drop j s = s ! j # drop (Suc j) s" using j by (simp add: Cons_nth_drop_Suc)
    have "escape_loop s ix = escape_loop ?s (j + 2)" using Some by (subst escape_loop.simps) simp
    also have "\<dots> = take (j + 2) ?s @ concat (map double_quote (drop (j + 2) ?s))"
      using "1.IH" [OF Some] j by simp
    also have "\<dots> = take j s @ [CHR 0x22, CHR 0x22] @ concat (map double_quote (drop (Suc j) s))"
      using j k(3) dj by simp
    also have "take j s = take ix s @ take k (drop ix s)" using k(2) by (simp add: take_add)
    finally show ?thesis using c by simp
  qed
qed

text \<open>
  The in-place loop that escapes an attribute's text ends and doubles every quote, and nothing
  else.
\<close>

theorem escape_doubles_quotes: "escape s = concat (map double_quote s)"
  using escape_loop_spec [of 0 s] by (simp add: escape_def)

end
