(* ===== verification/Cps_Object_Tools.thy ===== *)
theory Cps_Object_Tools
  imports Cps_Object_Proofs Cps_Dictionary
begin

text \<open>
  The object tools, \<^verbatim>\<open>src/non-core/cps_api_object_tools.cpp\<close>: matching an object against a filter,
  visiting attributes, the return code and exact-match attributes, and compaction. \<open>T\<close> is the
  tag-length-value library, \<open>D\<close> the class dictionary, \<open>E\<close> the allocator.
\<close>

section \<open>Matching\<close>

text \<open>
  The search for a value of a leaf list. The pointer moves to the element found, but the length of
  the iterator is not reduced with it.
\<close>

partial_function (option) match_leaf_lists ::
  "std_tlv_api \<Rightarrow> bytes \<Rightarrow> nat \<Rightarrow> bytes \<Rightarrow> cps_api_object_it_t \<Rightarrow> bool option" where
  "match_leaf_lists T ms src md it =
     (if cps_api_object_it_valid T md it then
        (case cps_api_object_it_find T md it (cps_api_object_attr_id T ms src) of
           None \<Rightarrow> Some False
         | Some a \<Rightarrow>
             if cps_api_object_attrs_compare T ms src md a = 0 then Some True
             else match_leaf_lists T ms src md
               (snd (cps_api_object_it_next T md (it\<lparr>it_attr := Some a\<rparr>))))
      else Some False)"

text \<open>
  \<open>__cps_api_obj_tool_matches_filter\<close>: \<open>mf\<close> and \<open>mo\<close> are the buffers of the filter and the object.
  The body of the loop either returns, goes on to the next attribute, or first compares the inside
  of the two key containers with a recursive call.
\<close>

datatype match_action =
    Match_return bool
  | Match_next
  | Match_inside cps_api_object_it_t cps_api_object_it_t

definition match_step ::
  "std_tlv_api \<Rightarrow> cps_dict \<Rightarrow> bytes \<Rightarrow> bytes \<Rightarrow> cps_api_object_it_t \<Rightarrow> nat \<Rightarrow> cps_api_object_it_t \<Rightarrow> bool \<Rightarrow>
     match_action option" where
  "match_step T D mf mo fit fa oit require_all =
     (let i = cps_api_object_attr_id T mf fa;
          missing = (if \<not> require_all then Match_next else Match_return False)
      in if cps_api_attr_id_is_temporary i then Some Match_next
         else (case cps_api_object_it_find T mo oit i of
             None \<Rightarrow> Some missing
           | Some ta \<Rightarrow>
               (let tgt = oit\<lparr>it_attr := Some ta\<rparr> in
                if \<not> cps_api_object_it_valid T mo tgt then Some missing
                else if i = CPS_API_OBJ_KEY_ATTRS then do {
                  in_fit \<leftarrow> cps_api_object_it_inside T mf fit;
                  tgt \<leftarrow> cps_api_object_it_inside T mo tgt;
                  Some (if \<not> cps_api_object_it_valid T mf in_fit then Match_next
                        else if \<not> cps_api_object_it_valid T mo tgt then missing
                        else Match_inside in_fit tgt)
                }
                else if cps_api_object_attrs_compare T mf fa mo ta \<noteq> 0 then
                  (if cps_class_map_attr_class D i = Some CPS_CLASS_ATTR_T_LEAF_LIST \<and> require_all
                   then do {
                     b \<leftarrow> match_leaf_lists T mf fa mo tgt;
                     Some (if b then Match_next else Match_return False)
                   }
                   else Some (Match_return False))
                else Some Match_next)))"

partial_function (option) matches_filter ::
  "std_tlv_api \<Rightarrow> cps_dict \<Rightarrow> bytes \<Rightarrow> bytes \<Rightarrow> cps_api_object_it_t \<Rightarrow> cps_api_object_it_t \<Rightarrow> bool \<Rightarrow>
     bool option" where
  "matches_filter T D mf mo fit oit require_all =
     (if \<not> cps_api_object_it_valid T mf fit then Some True
      else (case it_attr fit of
         None \<Rightarrow> None
       | Some fa \<Rightarrow> do {
           act \<leftarrow> match_step T D mf mo fit fa oit require_all;
           (case act of
              Match_return b \<Rightarrow> Some b
            | Match_next \<Rightarrow>
                matches_filter T D mf mo (snd (cps_api_object_it_next T mf fit)) oit require_all
            | Match_inside in_fit tgt \<Rightarrow> do {
                r \<leftarrow> matches_filter T D mf mo in_fit tgt require_all;
                if \<not> r then Some False
                else matches_filter T D mf mo (snd (cps_api_object_it_next T mf fit)) oit require_all
              })
         }))"

definition cps_api_obj_tool_matches_filter ::
  "std_tlv_api \<Rightarrow> cps_dict \<Rightarrow> cps_obj \<Rightarrow> cps_obj \<Rightarrow> bool \<Rightarrow> bool option" where
  "cps_api_obj_tool_matches_filter T D flt obj require_all =
     matches_filter T D (obj_buf flt) (obj_buf obj) (cps_api_object_it_begin flt)
       (cps_api_object_it_begin obj) require_all"

definition cps_api_obj_tool_merge ::
  "std_tlv_api \<Rightarrow> libc \<Rightarrow> cps_obj \<Rightarrow> cps_obj \<Rightarrow> (bool \<times> cps_obj) option" where
  "cps_api_obj_tool_merge T E main overlay = cps_api_object_attr_merge T E main overlay True"

text \<open>\<open>cps_api_obj_tool_attr_matches\<close>: each id with the bytes its key data must have.\<close>

fun cps_api_obj_tool_attr_matches :: "std_tlv_api \<Rightarrow> cps_obj \<Rightarrow> (u64 \<times> bytes \<times> nat) list \<Rightarrow> bool" where
  "cps_api_obj_tool_attr_matches T obj [] = True"
| "cps_api_obj_tool_attr_matches T obj ((i, v, len) # rest) =
     (case cps_api_get_key_data T obj i of
        None \<Rightarrow> False
      | Some attr \<Rightarrow>
          if len = cps_api_object_attr_len T (obj_buf obj) attr \<and>
             memcmp (drop (std_tlv_data T attr) (obj_buf obj)) v len = 0
          then cps_api_obj_tool_attr_matches T obj rest else False)"

section \<open>Visiting attributes\<close>

text \<open>
  The callback gets the data of one attribute and the context \<open>s\<close>; it returns whether to go on and
  the new context.
\<close>

partial_function (option) attr_callback_loop ::
  "std_tlv_api \<Rightarrow> bytes \<Rightarrow> u64 \<Rightarrow> ('s \<Rightarrow> bytes \<Rightarrow> bool \<times> 's) \<Rightarrow> cps_api_object_it_t \<Rightarrow> 's \<Rightarrow> 's option" where
  "attr_callback_loop T m i f it s =
     (case it_attr it of
        None \<Rightarrow> None
      | Some p \<Rightarrow>
          (case f s (attr_data T m p) of (cont, s') \<Rightarrow>
             (let it1 = snd (cps_api_object_it_next T m it);
                  r = std_tlv_find_next T m (it_attr it1) (it_len it1) i;
                  it2 = \<lparr>it_len = snd r, it_attr = fst r\<rparr>
              in if cont \<and> cps_api_object_it_valid T m it2 then attr_callback_loop T m i f it2 s'
                 else Some s')))"

definition obj_tool_attr_callback ::
  "std_tlv_api \<Rightarrow> cps_obj \<Rightarrow> u64 \<Rightarrow> ('s \<Rightarrow> bytes \<Rightarrow> bool \<times> 's) \<Rightarrow> 's \<Rightarrow> 's option" where
  "obj_tool_attr_callback T obj i f s = do {
     (ok, it) \<leftarrow> cps_api_object_it T obj [i];
     if \<not> ok then Some s else attr_callback_loop T (obj_buf obj) i f it s
   }"

definition bundle_attr_changes ::
  "std_tlv_api \<Rightarrow> cps_obj \<Rightarrow> u64 \<Rightarrow> ('s \<Rightarrow> bytes list \<Rightarrow> bool \<times> 's) \<Rightarrow> 's \<Rightarrow> 's option" where
  "bundle_attr_changes T obj i cb s = do {
     ds \<leftarrow> obj_tool_attr_callback T obj i (\<lambda>acc d. (True, acc @ [d])) [];
     Some (snd (cb s ds))
   }"

definition cps_api_obj_tool_attr_callback ::
  "std_tlv_api \<Rightarrow> cps_dict \<Rightarrow> cps_obj \<Rightarrow> u64 \<Rightarrow> ('s \<Rightarrow> bytes list \<Rightarrow> bool \<times> 's) \<Rightarrow> 's \<Rightarrow> 's option" where
  "cps_api_obj_tool_attr_callback T D obj i cb s =
     (let type = (case cps_class_map_attr_class D i of None \<Rightarrow> CPS_CLASS_ATTR_T_LEAF | Some t \<Rightarrow> t) in
      if type = CPS_CLASS_ATTR_T_LEAF_LIST then bundle_attr_changes T obj i cb s
      else obj_tool_attr_callback T obj i (\<lambda>s d. cb s [d]) s)"

fun cps_api_obj_tool_attr_callback_list ::
  "std_tlv_api \<Rightarrow> cps_dict \<Rightarrow> cps_obj \<Rightarrow> (u64 \<times> ('s \<Rightarrow> bytes list \<Rightarrow> bool \<times> 's)) list \<Rightarrow> 's \<Rightarrow> 's option" where
  "cps_api_obj_tool_attr_callback_list T D obj [] s = Some s"
| "cps_api_obj_tool_attr_callback_list T D obj ((i, cb) # rest) s = do {
     s \<leftarrow> cps_api_obj_tool_attr_callback T D obj i cb s;
     cps_api_obj_tool_attr_callback_list T D obj rest s
   }"

section \<open>Attributes with a meaning for the infrastructure\<close>

text \<open>Reading an integer or a byte behind the data pointer of an attribute.\<close>

definition get_data_uint :: "std_tlv_api \<Rightarrow> cps_obj \<Rightarrow> u64 \<Rightarrow> nat \<Rightarrow> nat option option" where
  "get_data_uint T obj i n =
     (case cps_api_object_get_data T obj i of
        None \<Rightarrow> Some None
      | Some q \<Rightarrow> if q + n \<le> length (obj_buf obj)
          then Some (Some (le_val (take n (drop q (obj_buf obj))))) else None)"

definition cps_api_obj_attr_get_bool :: "std_tlv_api \<Rightarrow> cps_obj \<Rightarrow> u64 \<Rightarrow> bool \<Rightarrow> bool option" where
  "cps_api_obj_attr_get_bool T obj i default_value = do {
     p \<leftarrow> get_data_uint T obj i 1;
     Some (case p of None \<Rightarrow> default_value | Some v \<Rightarrow> v \<noteq> 0)
   }"

text \<open>The message is the text \<open>vsnprintf\<close> wrote, cut to 4096 bytes; it is empty without a format.\<close>

definition MAX_REASONABLE_ERROR_STRING :: nat where
  "MAX_REASONABLE_ERROR_STRING = 4096"

definition cps_api_set_object_return_attrs ::
  "std_tlv_api \<Rightarrow> libc \<Rightarrow> cps_obj \<Rightarrow> u32 \<Rightarrow> bytes \<Rightarrow> (bool \<times> cps_obj) option" where
  "cps_api_set_object_return_attrs T E obj error text = do {
     let msg = (if length text > MAX_REASONABLE_ERROR_STRING
                then take (MAX_REASONABLE_ERROR_STRING - 1) text @ [0] else text);
     (_, obj) \<leftarrow> cps_api_object_attr_delete T obj CPS_OBJECT_GROUP_RETURN_CODE;
     (_, obj) \<leftarrow> cps_api_object_attr_delete T obj CPS_OBJECT_GROUP_RETURN_STRING;
     (ok, obj) \<leftarrow> cps_api_object_attr_add_u32 T E obj CPS_OBJECT_GROUP_RETURN_CODE error;
     if \<not> ok then Some (False, obj)
     else cps_api_object_attr_add T E obj CPS_OBJECT_GROUP_RETURN_STRING msg (length msg)
   }"

definition cps_api_object_set_return_code ::
  "std_tlv_api \<Rightarrow> libc \<Rightarrow> cps_obj \<Rightarrow> u32 \<Rightarrow> (bool \<times> cps_obj) option" where
  "cps_api_object_set_return_code T E obj error = do {
     (_, obj) \<leftarrow> cps_api_object_attr_delete T obj CPS_OBJECT_GROUP_RETURN_CODE;
     cps_api_object_attr_add_u32 T E obj CPS_OBJECT_GROUP_RETURN_CODE error
   }"

definition cps_api_object_return_string :: "std_tlv_api \<Rightarrow> cps_obj \<Rightarrow> nat option" where
  "cps_api_object_return_string T obj = cps_api_object_get_data T obj CPS_OBJECT_GROUP_RETURN_STRING"

definition cps_api_object_return_code :: "std_tlv_api \<Rightarrow> cps_obj \<Rightarrow> nat option option" where
  "cps_api_object_return_code T obj = get_data_uint T obj CPS_OBJECT_GROUP_RETURN_CODE 4"

definition cps_api_object_exact_match ::
  "std_tlv_api \<Rightarrow> libc \<Rightarrow> cps_obj \<Rightarrow> bool \<Rightarrow> (bool \<times> cps_obj) option" where
  "cps_api_object_exact_match T E obj have_exact_match = do {
     (_, obj) \<leftarrow> cps_api_object_attr_delete T obj CPS_OBJECT_GROUP_EXACT_MATCH;
     if \<not> have_exact_match then Some (True, obj)
     else cps_api_object_attr_add_u32 T E obj CPS_OBJECT_GROUP_EXACT_MATCH 1
   }"

definition cps_api_object_get_exact_match_flag :: "std_tlv_api \<Rightarrow> cps_obj \<Rightarrow> bool option" where
  "cps_api_object_get_exact_match_flag T obj = do {
     p \<leftarrow> get_data_uint T obj CPS_OBJECT_GROUP_EXACT_MATCH 4;
     Some (case p of None \<Rightarrow> False | Some v \<Rightarrow> v \<noteq> 0)
   }"

text \<open>
  The loop of \<open>cps_api_object_compact\<close>: a deletion restarts the iterator, and the loop header then
  steps over the first attribute.
\<close>

partial_function (option) compact_loop ::
  "std_tlv_api \<Rightarrow> cps_obj \<Rightarrow> cps_api_object_it_t \<Rightarrow> cps_obj option" where
  "compact_loop T obj it =
     (if \<not> cps_api_object_it_valid T (obj_buf obj) it then Some obj
      else (case it_attr it of
         None \<Rightarrow> None
       | Some p \<Rightarrow>
           if cps_api_attr_id_is_temporary (cps_api_object_attr_id T (obj_buf obj) p) then do {
             (_, obj') \<leftarrow> cps_api_object_attr_delete T obj (cps_api_object_attr_id T (obj_buf obj) p);
             compact_loop T obj'
               (snd (cps_api_object_it_next T (obj_buf obj') (cps_api_object_it_begin obj')))
           }
           else compact_loop T obj (snd (cps_api_object_it_next T (obj_buf obj) it))))"

definition cps_api_object_compact :: "std_tlv_api \<Rightarrow> cps_obj \<Rightarrow> cps_obj option" where
  "cps_api_object_compact T obj = compact_loop T obj (cps_api_object_it_begin obj)"

end
