(* ===== verification/Cps_Object_Tools_Proofs.thy ===== *)
theory Cps_Object_Tools_Proofs
  imports Cps_Object_Tools
begin

text \<open>
  Matching as a statement about attribute lists, the exact-match and return-code attributes, and
  what compaction removes.
\<close>

section \<open>What a match means\<close>

definition attr_matches :: "bool \<Rightarrow> attr list \<Rightarrow> attr \<Rightarrow> bool" where
  "attr_matches ra os x \<longleftrightarrow> cps_api_attr_id_is_temporary (fst x) \<or>
     (case map_of os (fst x) of None \<Rightarrow> \<not> ra | Some e \<Rightarrow> snd x = e)"

text \<open>\<open>dec\<close> gives the attributes inside a key container.\<close>

definition key_matches :: "(bytes \<Rightarrow> attr list) \<Rightarrow> bool \<Rightarrow> attr list \<Rightarrow> attr \<Rightarrow> bool" where
  "key_matches dec ra os x \<longleftrightarrow>
     (case map_of os CPS_API_OBJ_KEY_ATTRS of
        None \<Rightarrow> \<not> ra
      | Some e \<Rightarrow> dec (snd x) = [] \<or>
          (if dec e = [] then \<not> ra else list_all (attr_matches ra (dec e)) (dec (snd x))))"

definition object_matches :: "(bytes \<Rightarrow> attr list) \<Rightarrow> bool \<Rightarrow> attr list \<Rightarrow> attr list \<Rightarrow> bool" where
  "object_matches dec ra os fs =
     list_all (\<lambda>x. if fst x = CPS_API_OBJ_KEY_ATTRS then key_matches dec ra os x
                   else attr_matches ra os x) fs"

text \<open>Attributes whose values fit the signed comparison and that are not leaf lists.\<close>

definition plain_attrs :: "cps_dict \<Rightarrow> bool \<Rightarrow> attr list \<Rightarrow> bool" where
  "plain_attrs D ra fs \<longleftrightarrow> (\<forall>x \<in> set fs. length (snd x) < 2 ^ 31 \<and>
     (ra \<longrightarrow> cps_class_map_attr_class D (fst x) \<noteq> Some CPS_CLASS_ATTR_T_LEAF_LIST))"

lemma attrs_size_mem: "x \<in> set xs \<Longrightarrow> length (snd x) \<le> attrs_size T xs"
  by (induction xs) (auto simp: attr_size_def)

lemma map_of_split:
  assumes "map_of os t = Some e"
  obtains us vs where "os = us @ (t, e) # vs" and "t \<notin> fst ` set us"
proof -
  have "\<exists>us vs. os = us @ (t, e) # vs \<and> t \<notin> fst ` set us"
    using assms
  proof (induction os)
    case (Cons x os)
    show ?case
    proof (cases "fst x = t")
      case True
      then have "x = (t, e)" using Cons.prems by (cases x) auto
      then show ?thesis by (intro exI [of _ "[]"] exI [of _ os]) simp
    next
      case False
      then obtain us vs where "os = us @ (t, e) # vs" "t \<notin> fst ` set us"
        using Cons by (auto simp: fun_upd_def split: if_splits)
      then show ?thesis using False by (intro exI [of _ "x # us"] exI [of _ vs]) auto
    qed
  qed simp
  then show thesis using that by blast
qed

context std_tlv
begin

text \<open>A region of a buffer that is a sequence of attributes, and the iterator at its start.\<close>

definition region :: "bytes \<Rightarrow> nat \<Rightarrow> nat \<Rightarrow> attr list \<Rightarrow> bool" where
  "region m p n xs \<longleftrightarrow> tlv_seq T m p n xs \<and> p + n \<le> length m \<and> n < size_lim"

abbreviation at :: "nat \<Rightarrow> nat \<Rightarrow> cps_api_object_it_t" where
  "at p n \<equiv> \<lparr>it_len = n, it_attr = Some p\<rparr>"

lemma region_obj: "obj_wf T p xs \<Longrightarrow> region (obj_buf p) 0 (attrs_size T xs) xs"
  using obj_wf_seq [of T p xs] obj_cap_lt by (simp add: region_def)

lemma region_Cons:
  assumes "region m p n (x # xs)"
  shows "cps_api_object_it_valid T m (at p n)" and "cps_api_object_attr_id T m p = fst x"
    and "std_tlv_len T m p = length (snd x)" and "attr_data T m p = snd x"
    and "p + H + length (snd x) \<le> length m"
    and "region m (p + attr_size T x) (n - attr_size T x) xs"
  using tlv_seq_Cons_facts [of m p n x xs] assms
  by (auto simp: region_def cps_api_object_it_valid_def cps_api_object_attr_id_def attr_data_def
      attr_size_def data)

lemma region_Nil: "region m p n [] \<Longrightarrow> n = 0"
  by (simp add: region_def)

lemma short_invalid: "\<not> cps_api_object_it_valid T m \<lparr>it_len = 0, it_attr = q\<rparr>"
  using valid_short hdr_pos by (simp add: cps_api_object_it_valid_def)

lemma region_Nil_invalid: "region m p n [] \<Longrightarrow> \<not> cps_api_object_it_valid T m (at p n)"
  using region_Nil [of m p n] short_invalid [of m "Some p"] by simp

lemma region_next:
  assumes "region m p n (x # xs)"
  shows "snd (cps_api_object_it_next T m (at p n)) =
      \<lparr>it_len = n - attr_size T x, it_attr = fst (std_tlv_next T m (Some p) n)\<rparr>"
    and "xs \<noteq> [] \<Longrightarrow> fst (std_tlv_next T m (Some p) n) = Some (p + attr_size T x)"
    and "xs = [] \<Longrightarrow> n - attr_size T x = 0"
  using tlv_seq_next [of m p n x xs] region_Cons(6) [OF assms] assms
  by (auto simp: region_def cps_api_object_it_next_def case_prod_beta)

lemma region_find:
  assumes "region m p n os"
  shows "map_of os t = None \<Longrightarrow> cps_api_object_it_find T m (at p n) t = None"
    and "map_of os t = Some e \<Longrightarrow> \<exists>a. cps_api_object_it_find T m (at p n) t = Some a \<and>
      cps_api_object_it_valid T m (at a n) \<and> std_tlv_len T m a = length e \<and> attr_data T m a = e \<and>
      a + H + length e \<le> length m"
proof -
  assume "map_of os t = None"
  then have "\<forall>x \<in> set os. fst x \<noteq> t" by (auto simp: map_of_eq_None_iff)
  then show "cps_api_object_it_find T m (at p n) t = None"
    using find_next_miss [of m p n os t] assms by (simp add: region_def cps_api_object_it_find_def)
next
  assume "map_of os t = Some e"
  then obtain us vs where o: "os = us @ (t, e) # vs" "t \<notin> fst ` set us" by (rule map_of_split)
  let ?a = "p + attrs_size T us"
  have r: "tlv_seq T m p n (us @ (t, e) # vs)" "p + n \<le> length m" "n < size_lim"
    using assms o(1) by (simp_all add: region_def)
  note s = seq_at [OF r]
  have "std_tlv_find_next T m (Some p) n t = (Some ?a, n - attrs_size T us)"
    using find_next_hit [OF r] o(2) by force
  moreover have b: "?a + H + length e \<le> length m" "H + length e \<le> n"
    using s(5) r(2) by (simp_all add: attr_size_def)
  moreover have "std_tlv_valid T m (Some ?a) n"
    using valid_fits [of m ?a n] b r(3) s(2) by simp
  ultimately show "\<exists>a. cps_api_object_it_find T m (at p n) t = Some a \<and>
      cps_api_object_it_valid T m (at a n) \<and> std_tlv_len T m a = length e \<and> attr_data T m a = e \<and>
      a + H + length e \<le> length m"
    using s(2,4) by (auto simp: cps_api_object_it_find_def cps_api_object_it_valid_def)
qed

lemma compare_zero:
  assumes "std_tlv_len T ml l = length d" and "attr_data T ml l = d" and "l + H + length d \<le> length ml"
    and "std_tlv_len T mr r = length e" and "attr_data T mr r = e" and "r + H + length e \<le> length mr"
    and "length d < 2 ^ 31" and "length e < 2 ^ 31"
  shows "cps_api_object_attrs_compare T ml l mr r = 0 \<longleftrightarrow> d = e"
proof -
  let ?k = "min (length d) (length e)"
  have dd: "take (length d) (drop (l + H) ml) = d" and ee: "take (length e) (drop (r + H) mr) = e"
    using assms by (simp_all add: attr_data_def data)
  have k: "?k \<le> length (drop (l + H) ml)" "?k \<le> length (drop (r + H) mr)" using assms(3,6) by auto
  have "take ?k (drop (l + H) ml) = take ?k d" "take ?k (drop (r + H) mr) = take ?k e"
    using take_eq_shorter [of "length d" "drop (l + H) ml" d ?k]
      take_eq_shorter [of "length e" "drop (r + H) mr" e ?k] dd ee by simp_all
  then have m: "memcmp (drop (l + H) ml) (drop (r + H) mr) ?k = 0 \<longleftrightarrow> take ?k d = take ?k e"
    using memcmp_zero_iff [OF k] by simp
  have z: "to_int32 (sz_sub (length d) (length e)) = 0 \<longleftrightarrow> length d = length e"
  proof (cases "length d = length e")
    case True
    then have "sz_sub (length d) (length e) = 0"
      using assms(7) by (simp add: sz_sub_exact size_lim_def)
    then show ?thesis using True by (simp add: to_int32_def)
  qed (use to_int32_diff_nonzero [OF assms(7,8)] in simp)
  have "cps_api_object_attrs_compare T ml l mr r = 0 \<longleftrightarrow> take ?k d = take ?k e \<and> length d = length e"
    using m z assms(1,4)
    by (simp add: cps_api_object_attrs_compare_def cps_api_object_attr_len_def data Let_def)
  also have "\<dots> \<longleftrightarrow> d = e" by auto
  finally show ?thesis .
qed

section \<open>The matching loop\<close>

lemma matches_filter_next:
  assumes "region mf p n (x # fs)"
  shows "matches_filter T D mf mo (snd (cps_api_object_it_next T mf (at p n))) oit ra =
     matches_filter T D mf mo (at (p + attr_size T x) (n - attr_size T x)) oit ra"
proof (cases "fs = []")
  case True
  then show ?thesis
    unfolding region_next(1) [OF assms]
    using region_next(3) [OF assms] short_invalid [of mf] by (simp add: matches_filter.simps)
next
  case False
  then show ?thesis unfolding region_next(1) [OF assms] using region_next(2) [OF assms] by simp
qed

lemma match_step_plain:
  assumes "region mf p n (x # fs)" and "region mo q k os" and "fst x \<noteq> CPS_API_OBJ_KEY_ATTRS"
    and "plain_attrs D ra [x]" and "\<forall>y \<in> set os. length (snd y) < 2 ^ 31"
  shows "match_step T D mf mo (at p n) p (at q k) ra =
     Some (if attr_matches ra os x then Match_next else Match_return False)"
proof (cases "map_of os (fst x)")
  case None
  then show ?thesis
    using region_Cons(2) [OF assms(1)] region_find(1) [OF assms(2) None]
    by (simp add: match_step_def Let_def attr_matches_def)
next
  case (Some e)
  obtain a where a: "cps_api_object_it_find T mo (at q k) (fst x) = Some a"
    "cps_api_object_it_valid T mo (at a k)" "std_tlv_len T mo a = length e" "attr_data T mo a = e"
    "a + H + length e \<le> length mo"
    using region_find(2) [OF assms(2) Some] by blast
  have "(fst x, e) \<in> set os" using Some by (rule map_of_SomeD)
  then have le: "length e < 2 ^ 31" using assms(5) by force
  have "length (snd x) < 2 ^ 31" using assms(4) by (simp add: plain_attrs_def)
  then have cmp: "cps_api_object_attrs_compare T mf p mo a = 0 \<longleftrightarrow> snd x = e"
    using compare_zero [of mf p "snd x" mo a e] region_Cons(3-5) [OF assms(1)] a(3-5) le by simp
  show ?thesis
    using a(1,2) cmp assms(3,4) region_Cons(2) [OF assms(1)] Some
    by (auto simp: match_step_def Let_def attr_matches_def plain_attrs_def)
qed

lemma matches_filter_plain:
  assumes "region mf p n fs" and "region mo q k os" and "CPS_API_OBJ_KEY_ATTRS \<notin> fst ` set fs"
    and "plain_attrs D ra fs" and "\<forall>y \<in> set os. length (snd y) < 2 ^ 31"
  shows "matches_filter T D mf mo (at p n) (at q k) ra = Some (list_all (attr_matches ra os) fs)"
  using assms(1,3,4)
proof (induction fs arbitrary: p n)
  case Nil
  then show ?case using region_Nil_invalid [of mf p n] by (subst matches_filter.simps) simp
next
  case (Cons x fs)
  have st: "match_step T D mf mo (at p n) p (at q k) ra =
      Some (if attr_matches ra os x then Match_next else Match_return False)"
    using match_step_plain [OF Cons.prems(1) assms(2)] Cons.prems(2,3) assms(5)
    by (auto simp: plain_attrs_def)
  have ih: "matches_filter T D mf mo (at (p + attr_size T x) (n - attr_size T x)) (at q k) ra =
      Some (list_all (attr_matches ra os) fs)"
    using Cons.IH [OF region_Cons(6) [OF Cons.prems(1)]] Cons.prems(2,3) by (auto simp: plain_attrs_def)
  show ?case
    using region_Cons(1) [OF Cons.prems(1)] st ih matches_filter_next [OF Cons.prems(1)]
    by (subst matches_filter.simps) auto
qed

text \<open>The inside of a container is a region of the same buffer.\<close>

lemma region_inside:
  assumes "std_tlv_len T m a = length c" and "attr_data T m a = c" and "a + H + length c \<le> length m"
    and "tlv_seq T c 0 (length c) cs" and "length c < size_lim"
  shows "cps_api_object_it_inside T m \<lparr>it_len = l, it_attr = Some a\<rparr> = Some (at (a + H) (length c))"
    and "region m (a + H) (length c) cs"
    and "cps_api_object_it_valid T m (at (a + H) (length c)) \<longleftrightarrow> cs \<noteq> []"
proof -
  show "cps_api_object_it_inside T m \<lparr>it_len = l, it_attr = Some a\<rparr> = Some (at (a + H) (length c))"
    using assms(1) by (simp add: cps_api_object_it_inside_def data)
  have "take (length c) (drop (a + H) m) = c" using assms(1,2) by (simp add: attr_data_def data)
  then have "tlv_seq T m (a + H) (length c) cs"
    using assms(3) by (intro tlv_seq_relocate [OF assms(4)]) auto
  then show r: "region m (a + H) (length c) cs" using assms(3,5) by (simp add: region_def)
  show "cps_api_object_it_valid T m (at (a + H) (length c)) \<longleftrightarrow> cs \<noteq> []"
  proof (cases cs)
    case Nil
    then show ?thesis using region_Nil_invalid r by blast
  next
    case (Cons x xs)
    then show ?thesis using region_Cons(1) r by blast
  qed
qed

lemma match_key_container:
  assumes "region mf p n (x # fs)" and "region mo q k os" and "fst x = CPS_API_OBJ_KEY_ATTRS"
    and "\<forall>c. (CPS_API_OBJ_KEY_ATTRS, c) \<in> set (x # fs) \<union> set os \<longrightarrow>
      tlv_seq T c 0 (length c) (dec c) \<and> CPS_API_OBJ_KEY_ATTRS \<notin> fst ` set (dec c) \<and>
      plain_attrs D ra (dec c)"
  shows "matches_filter T D mf mo (at p n) (at q k) ra =
     (if key_matches dec ra os x
      then matches_filter T D mf mo (at (p + attr_size T x) (n - attr_size T x)) (at q k) ra
      else Some False)"
proof -
  let ?K = CPS_API_OBJ_KEY_ATTRS and ?c = "snd x"
  note rc = region_Cons [OF assms(1)] and nx = matches_filter_next [OF assms(1), of D mo "at q k" ra]
  have nt: "\<not> cps_api_attr_id_is_temporary ?K" by (simp add: cps_api_attr_id_is_temporary_def)
  have lc: "length ?c < size_lim"
    using tlv_seq_Cons_facts(5) [of mf p n x fs] assms(1) by (auto simp: region_def attr_size_def)
  have xc: "x = (?K, ?c)" using assms(3) by (cases x) auto
  then have dc: "tlv_seq T ?c 0 (length ?c) (dec ?c)" "?K \<notin> fst ` set (dec ?c)" "plain_attrs D ra (dec ?c)"
    using assms(4) by auto
  note fin = region_inside [OF rc(3,4,5) dc(1) lc]
  show ?thesis
  proof (cases "map_of os ?K")
    case None
    then show ?thesis
      using rc(1,2) region_find(1) [OF assms(2) None] nt assms(3) nx
      by (subst matches_filter.simps) (simp add: match_step_def Let_def key_matches_def)
  next
    case (Some e)
    obtain a where a: "cps_api_object_it_find T mo (at q k) ?K = Some a"
      "cps_api_object_it_valid T mo (at a k)" "std_tlv_len T mo a = length e" "attr_data T mo a = e"
      "a + H + length e \<le> length mo"
      using region_find(2) [OF assms(2) Some] by blast
    have "(?K, e) \<in> set os" using Some by (rule map_of_SomeD)
    then have de: "tlv_seq T e 0 (length e) (dec e)" "plain_attrs D ra (dec e)" using assms(4) by auto
    have le: "length e < size_lim"
      using attrs_size_mem [OF \<open>(?K, e) \<in> set os\<close>, of T] assms(2) tlv_seq_size [of T mo q k os]
      by (simp add: region_def)
    note tin = region_inside [OF a(3-5) de(1) le]
    have inner: "matches_filter T D mf mo (at (p + H) (length ?c)) (at (a + H) (length e)) ra =
        Some (list_all (attr_matches ra (dec e)) (dec ?c))"
      using matches_filter_plain [OF fin(2) tin(2) dc(2,3)] de(2) by (simp add: plain_attrs_def)
    show ?thesis
      using rc(1,2) a(1,2) nt assms(3) nx fin(1,3) tin(1,3) inner Some
      by (subst matches_filter.simps) (simp add: match_step_def Let_def key_matches_def)
  qed
qed

lemma matches_filter_region:
  assumes "region mf p n fs" and "region mo q k os" and "plain_attrs D ra fs"
    and "\<forall>y \<in> set os. length (snd y) < 2 ^ 31"
    and "\<forall>c. (CPS_API_OBJ_KEY_ATTRS, c) \<in> set fs \<union> set os \<longrightarrow>
      tlv_seq T c 0 (length c) (dec c) \<and> CPS_API_OBJ_KEY_ATTRS \<notin> fst ` set (dec c) \<and>
      plain_attrs D ra (dec c)"
  shows "matches_filter T D mf mo (at p n) (at q k) ra = Some (object_matches dec ra os fs)"
  using assms(1,3,5)
proof (induction fs arbitrary: p n)
  case Nil
  then show ?case
    using region_Nil_invalid [of mf p n] by (subst matches_filter.simps) (simp add: object_matches_def)
next
  case (Cons x fs)
  have ih: "matches_filter T D mf mo (at (p + attr_size T x) (n - attr_size T x)) (at q k) ra =
      Some (object_matches dec ra os fs)"
    using Cons.IH [OF region_Cons(6) [OF Cons.prems(1)]] Cons.prems(2,3) by (auto simp: plain_attrs_def)
  show ?case
  proof (cases "fst x = CPS_API_OBJ_KEY_ATTRS")
    case True
    then show ?thesis
      using match_key_container [OF Cons.prems(1) assms(2) True Cons.prems(3)] ih
      by (simp add: object_matches_def)
  next
    case False
    have "match_step T D mf mo (at p n) p (at q k) ra =
        Some (if attr_matches ra os x then Match_next else Match_return False)"
      using match_step_plain [OF Cons.prems(1) assms(2) False] Cons.prems(2) assms(4)
      by (auto simp: plain_attrs_def)
    then show ?thesis
      using False region_Cons(1) [OF Cons.prems(1)] ih matches_filter_next [OF Cons.prems(1)]
      by (subst matches_filter.simps) (auto simp: object_matches_def)
  qed
qed

section \<open>Reading integers\<close>

lemma get_data_uint_obj:
  assumes "obj_wf T p xs"
  shows "map_of xs t = None \<Longrightarrow> get_data_uint T p t n = Some None"
    and "map_of xs t = Some d \<Longrightarrow> n \<le> length d \<Longrightarrow> get_data_uint T p t n = Some (Some (le_val (take n d)))"
proof -
  note r = region_obj [OF assms]
  have g: "cps_api_object_get_data T p t =
      map_option (std_tlv_data T) (cps_api_object_it_find T (obj_buf p) (at 0 (attrs_size T xs)) t)"
    using obj_wf_used(1) [OF assms]
    by (simp add: cps_api_object_get_data_def cps_api_object_e_get_data_def cps_api_object_e_get_def
        efind_one cps_api_object_it_find_def split: option.splits)
  show "map_of xs t = None \<Longrightarrow> get_data_uint T p t n = Some None"
    using region_find(1) [OF r] g by (simp add: get_data_uint_def)
  assume m: "map_of xs t = Some d" "n \<le> length d"
  then obtain a where a: "cps_api_object_it_find T (obj_buf p) (at 0 (attrs_size T xs)) t = Some a"
    "std_tlv_len T (obj_buf p) a = length d" "attr_data T (obj_buf p) a = d"
    "a + H + length d \<le> length (obj_buf p)"
    using region_find(2) [OF r m(1)] by auto
  have "take (length d) (drop (a + H) (obj_buf p)) = take (length d) d"
    using a(2,3) by (simp add: attr_data_def data)
  from take_eq_shorter [OF this m(2)] show "get_data_uint T p t n = Some (Some (le_val (take n d)))"
    using g a(1,4) m(2) by (simp add: get_data_uint_def data)
qed

lemma add_u32_obj:
  assumes "obj_wf T p xs" and "t \<notin> fst ` set xs" and "can_reserve E p (4 + H)"
    and "attrs_size T xs + H + 132 < obj_cap"
  obtains p' where "cps_api_object_attr_add_u32 T E p t v = Some (True, p')"
    and "obj_wf T p' (xs @ [(t, le_bytes 4 (unat v))])"
    and "get_data_uint T p' t 4 = Some (Some (unat v))"
proof -
  have sz: "attrs_size T xs + 4 + H + DEF_OBJECT_REALLOC_STEP_SIZE < obj_cap"
    using assms(4) by (simp add: DEF_OBJECT_REALLOC_STEP_SIZE_def)
  obtain p' where p': "cps_api_object_e_add T E p [t] cps_api_object_ATTR_T_U32 (le_bytes 4 (unat v)) 4 =
      Some (True, p')" "obj_wf T p' (xs @ [(t, le_bytes 4 (unat v))])"
    by (rule e_add_uint [OF assms(1,3,2) sz, of cps_api_object_ATTR_T_U32 "unat v"])
      (use unat_lt_u32 [of v] in auto)
  have "map_of xs t = None" using assms(2) by (simp add: map_of_eq_None_iff)
  then have "map_of (xs @ [(t, le_bytes 4 (unat v))]) t = Some (le_bytes 4 (unat v))"
    by (simp add: map_add_def)
  from get_data_uint_obj(2) [OF p'(2) this, of 4] have "get_data_uint T p' t 4 = Some (Some (unat v))"
    using unat_lt_u32 [of v] by (simp add: le_val_le_bytes)
  with that p' show thesis by (simp add: cps_api_object_attr_add_u32_def)
qed

lemma replace_u32:
  assumes "obj_wf T p xs" and "obj_allocated p" and "\<forall>k. alloc_ok E k"
    and "attrs_size T xs + H + 132 < obj_cap"
  shows "\<exists>q p'. cps_api_object_attr_delete T p t = Some (t \<in> fst ` set xs, q) \<and>
     obj_wf T q (filter (\<lambda>x. fst x \<noteq> t) xs) \<and>
     cps_api_object_attr_add_u32 T E q t v = Some (True, p') \<and>
     obj_wf T p' (filter (\<lambda>x. fst x \<noteq> t) xs @ [(t, le_bytes 4 (unat v))]) \<and>
     get_data_uint T p' t 4 = Some (Some (unat v))"
proof -
  obtain q where q: "cps_api_object_attr_delete T p t = Some (t \<in> fst ` set xs, q)"
    "obj_wf T q (filter (\<lambda>x. fst x \<noteq> t) xs)" "obj_allocated q = obj_allocated p"
    using attr_delete [OF assms(1), of t] by blast
  have c: "can_reserve E q (4 + H)" using q(3) assms(2,3) by (simp add: can_reserve_def)
  have "t \<notin> fst ` set (filter (\<lambda>x. fst x \<noteq> t) xs)" by auto
  moreover have "attrs_size T (filter (\<lambda>x. fst x \<noteq> t) xs) + H + 132 < obj_cap"
    using attrs_size_filter [of T "\<lambda>x. fst x \<noteq> t" xs] assms(4) by simp
  ultimately obtain p' where "cps_api_object_attr_add_u32 T E q t v = Some (True, p')"
    "obj_wf T p' (filter (\<lambda>x. fst x \<noteq> t) xs @ [(t, le_bytes 4 (unat v))])"
    "get_data_uint T p' t 4 = Some (Some (unat v))"
    by (rule add_u32_obj [OF q(2) _ c])
  with q(1,2) show ?thesis by blast
qed

section \<open>Compaction\<close>

definition it_at :: "cps_api_object_it_t \<Rightarrow> attr list \<Rightarrow> attr list \<Rightarrow> bool" where
  "it_at it ys zs \<longleftrightarrow> it_len it = attrs_size T zs \<and> (zs \<noteq> [] \<longrightarrow> it_attr it = Some (attrs_size T ys))"

lemma it_at_Nil: "it_at it ys [] \<Longrightarrow> \<not> cps_api_object_it_valid T m it"
  using valid_short hdr_pos by (simp add: it_at_def cps_api_object_it_valid_def)

lemma it_at_Cons:
  assumes "obj_wf T p (ys @ z # zs)" and "it_at it ys (z # zs)"
  shows "cps_api_object_it_valid T (obj_buf p) it" and "it_attr it = Some (attrs_size T ys)"
    and "cps_api_object_attr_id T (obj_buf p) (attrs_size T ys) = fst z"
    and "it_at (snd (cps_api_object_it_next T (obj_buf p) it)) (ys @ [z]) zs"
proof -
  note s = obj_wf_seq [OF assms(1)]
  have it: "it = at (attrs_size T ys) (attrs_size T (z # zs))" using assms(2) by (simp add: it_at_def)
  have r: "region (obj_buf p) (attrs_size T ys) (attrs_size T (z # zs)) (z # zs)"
    using s(1,2) obj_cap_lt [OF s(3)] unfolding region_def tlv_seq_append by simp
  show "cps_api_object_it_valid T (obj_buf p) it" "it_attr it = Some (attrs_size T ys)"
    "cps_api_object_attr_id T (obj_buf p) (attrs_size T ys) = fst z"
    using region_Cons(1,2) [OF r] it by simp_all
  show "it_at (snd (cps_api_object_it_next T (obj_buf p) it)) (ys @ [z]) zs"
    using region_next(1,2) [OF r] it by (simp add: it_at_def)
qed

lemma it_at_begin: "obj_wf T p xs \<Longrightarrow> it_at (cps_api_object_it_begin p) [] xs"
  using obj_wf_used(1) [of T p xs] by (simp add: it_at_def cps_api_object_it_begin_def)

abbreviation lasting :: "attr \<Rightarrow> bool" where
  "lasting x \<equiv> \<not> cps_api_attr_id_is_temporary (fst x)"

lemma compact_loop_spec:
  assumes "obj_wf T p (ys @ zs)" and "ys \<noteq> []" and "list_all lasting ys" and "it_at it ys zs"
  shows "\<exists>p'. compact_loop T p it = Some p' \<and> obj_wf T p' (filter lasting (ys @ zs)) \<and>
     obj_key p' = obj_key p"
  using assms
proof (induction "length (ys @ zs)" arbitrary: p ys zs it rule: less_induct)
  case less
  define n where "n = length (ys @ zs)"
  have outer: "\<exists>p'. compact_loop T q jt = Some p' \<and> obj_wf T p' (filter lasting (us @ vs)) \<and>
      obj_key p' = obj_key q"
    if "length (us @ vs) < n" "obj_wf T q (us @ vs)" "us \<noteq> []" "list_all lasting us" "it_at jt us vs"
    for q us vs jt
    using less.hyps [of us vs] that by (simp add: n_def)
  have "length (ys @ zs) = n" by (simp add: n_def)
  then show ?case using less.prems
  proof (induction zs arbitrary: ys it)
    case Nil
    then have "compact_loop T p it = Some p" using it_at_Nil by (subst compact_loop.simps) simp
    moreover have "filter lasting ys = ys" using Nil.prems(4) by (simp add: list_all_iff filter_id_conv)
    ultimately show ?case using Nil.prems(2) by simp
  next
    case (Cons z zs)
    note c = it_at_Cons [OF Cons.prems(2,5)]
    show ?case
    proof (cases "lasting z")
      case True
      have "compact_loop T p it = compact_loop T p (snd (cps_api_object_it_next T (obj_buf p) it))"
        using c(1-3) True by (subst compact_loop.simps) simp
      moreover have "\<exists>p'. compact_loop T p (snd (cps_api_object_it_next T (obj_buf p) it)) = Some p' \<and>
          obj_wf T p' (filter lasting ((ys @ [z]) @ zs)) \<and> obj_key p' = obj_key p"
        by (rule Cons.IH) (use Cons.prems c(4) True in auto)
      ultimately show ?thesis by simp
    next
      case False
      obtain q where q: "cps_api_object_attr_delete T p (fst z) = Some (True, q)"
        "obj_wf T q (filter (\<lambda>x. fst x \<noteq> fst z) (ys @ z # zs))" "obj_key q = obj_key p"
        using attr_delete [OF Cons.prems(2), of "fst z"] by auto
      obtain y us where ys: "ys = y # us" using Cons.prems(3) by (cases ys) auto
      have yz: "fst y \<noteq> fst z" using Cons.prems(4) False ys by auto
      define vs where "vs = filter (\<lambda>x. fst x \<noteq> fst z) (us @ z # zs)"
      have fv: "filter (\<lambda>x. fst x \<noteq> fst z) (ys @ z # zs) = [] @ y # vs" using yz by (simp add: ys vs_def)
      have q': "obj_wf T q ([] @ y # vs)" using q(2) unfolding fv .
      have nx: "it_at (snd (cps_api_object_it_next T (obj_buf q) (cps_api_object_it_begin q))) [y] vs"
        using it_at_Cons(4) [OF q'] it_at_begin [OF q'] by simp
      have step: "compact_loop T p it =
          compact_loop T q (snd (cps_api_object_it_next T (obj_buf q) (cps_api_object_it_begin q)))"
        using c(1-3) False q(1) by (subst compact_loop.simps) simp
      have "length vs \<le> length us + length zs" by (simp add: vs_def add_mono)
      then have lt: "length ([y] @ vs) < n" using Cons.prems(1) by (simp add: ys)
      have "obj_wf T q ([y] @ vs)" "list_all lasting [y]" using q' Cons.prems(4) ys by simp_all
      from outer [OF lt this(1) _ this(2) nx] obtain p' where
        "compact_loop T p it = Some p'" "obj_wf T p' (filter lasting ([y] @ vs))" "obj_key p' = obj_key p"
        using step q(3) by auto
      moreover have "filter (\<lambda>x. fst x \<noteq> fst z \<and> lasting x) ws = filter lasting ws" for ws
        using False by (intro filter_cong) auto
      then have "filter lasting ([y] @ vs) = filter lasting (ys @ z # zs)"
        using False by (simp add: ys vs_def)
      ultimately show ?thesis by metis
    qed
  qed
qed

end

lemma matches_filter_obj:
  assumes "std_tlv T" and "obj_wf T f fs" and "obj_wf T p os" and "plain_attrs D ra fs"
    and "\<forall>y \<in> set os. length (snd y) < 2 ^ 31"
    and "\<forall>c. (CPS_API_OBJ_KEY_ATTRS, c) \<in> set fs \<union> set os \<longrightarrow>
      tlv_seq T c 0 (length c) (dec c) \<and> CPS_API_OBJ_KEY_ATTRS \<notin> fst ` set (dec c) \<and>
      plain_attrs D ra (dec c)"
  shows "cps_api_obj_tool_matches_filter T D f p ra = Some (object_matches dec ra os fs)"
  using std_tlv.matches_filter_region [OF assms(1) std_tlv.region_obj [OF assms(1,2)]
      std_tlv.region_obj [OF assms(1,3)] assms(4-6)] obj_wf_used(1) [OF assms(2)]
    obj_wf_used(1) [OF assms(3)]
  by (simp add: cps_api_obj_tool_matches_filter_def cps_api_object_it_begin_def)

section \<open>Properties\<close>



text \<open>
  \<^bold>\<open>C34.\<close> Compacting an object whose first attribute is not temporary removes exactly the temporary
  attributes, keeps the others in order and keeps the key.
\<close>

theorem object_compact_correct:
  assumes "std_tlv T" and "obj_wf T p (x # xs)" and "\<not> cps_api_attr_id_is_temporary (fst x)"
  shows "\<exists>p'. cps_api_object_compact T p = Some p' \<and>
     obj_wf T p' (filter (\<lambda>y. \<not> cps_api_attr_id_is_temporary (fst y)) (x # xs)) \<and> obj_key p' = obj_key p"
proof -
  have wf: "obj_wf T p ([] @ x # xs)" using assms(2) by simp
  note c = std_tlv.it_at_Cons [OF assms(1) wf std_tlv.it_at_begin [OF assms(1) wf, simplified]]
  have "cps_api_object_compact T p =
      compact_loop T p (snd (cps_api_object_it_next T (obj_buf p) (cps_api_object_it_begin p)))"
    using c(1-3) assms(3) by (simp add: cps_api_object_compact_def compact_loop.simps [of T p])
  then show ?thesis
    using std_tlv.compact_loop_spec [OF assms(1), of p "[x]" xs] assms(2,3) c(4) by simp
qed

theorem object_compact_correct_witness:
  "\<exists>p'. cps_api_object_compact tlv16 demo_obj = Some p' \<and> obj_wf tlv16 p' [(5, [9])] \<and>
     obj_key p' = obj_key demo_obj"
proof -
  have "\<not> cps_api_attr_id_is_temporary (fst (5, [9 :: u8]))"
    by (simp add: cps_api_attr_id_is_temporary_def is_in_cps_attr_set_def cps_metadata_ids_def cps_ids)
  from object_compact_correct [OF tlv16.std_tlv_axioms demo_obj_wf this] this show ?thesis by simp
qed

text \<open>
  With two temporary attributes at the front the second one survives: the restarted iterator is
  stepped over it.
\<close>

lemma compact_skips_second_temporary:
  assumes "std_tlv T" and "obj_wf T p [(t, d), (u, e)]" and "t \<noteq> u"
    and "cps_api_attr_id_is_temporary t" and "cps_api_attr_id_is_temporary u"
  shows "\<exists>p'. cps_api_object_compact T p = Some p' \<and> obj_wf T p' [(u, e)]"
proof -
  have wf: "obj_wf T p ([] @ (t, d) # [(u, e)])" using assms(2) by simp
  note c = std_tlv.it_at_Cons [OF assms(1) wf std_tlv.it_at_begin [OF assms(1) wf, simplified]]
  obtain q where q: "cps_api_object_attr_delete T p t = Some (True, q)" "obj_wf T q [(u, e)]"
    using std_tlv.attr_delete [OF assms(1,2), of t] assms(3) by auto
  have wq: "obj_wf T q ([] @ (u, e) # [])" using q(2) by simp
  have "std_tlv.it_at T (snd (cps_api_object_it_next T (obj_buf q) (cps_api_object_it_begin q))) [(u, e)] []"
    using std_tlv.it_at_Cons(4) [OF assms(1) wq std_tlv.it_at_begin [OF assms(1) wq, simplified]] by simp
  then have "compact_loop T q (snd (cps_api_object_it_next T (obj_buf q) (cps_api_object_it_begin q))) =
      Some q"
    using std_tlv.it_at_Nil [OF assms(1)] by (subst compact_loop.simps) simp
  then have "cps_api_object_compact T p = Some q"
    using c(1-3) q(1) assms(4)
    by (simp add: cps_api_object_compact_def compact_loop.simps [of T p])
  then show ?thesis using q(2) by blast
qed

text \<open>
  The exact-match flag reads back as it was set, setting it twice leaves one attribute, and the
  other attributes stay.
\<close>

theorem exact_match_flag_roundtrip:
  assumes "std_tlv T" and "obj_wf T p xs" and "obj_allocated p" and "\<forall>k. alloc_ok E k"
    and "attrs_size T xs + STD_TLV_HDR_LEN T + 132 < obj_cap"
  shows "\<exists>p'. cps_api_object_exact_match T E p b = Some (True, p') \<and>
     cps_api_object_get_exact_match_flag T p' = Some b \<and>
     obj_wf T p' (filter (\<lambda>x. fst x \<noteq> CPS_OBJECT_GROUP_EXACT_MATCH) xs @
       (if b then [(CPS_OBJECT_GROUP_EXACT_MATCH, [1, 0, 0, 0])] else []))"
proof -
  let ?t = CPS_OBJECT_GROUP_EXACT_MATCH
  have le: "le_bytes 4 (unat (1 :: u32)) = [1, 0, 0, 0]" by (simp add: le_bytes_def upt_rec)
  obtain q p' where r: "cps_api_object_attr_delete T p ?t = Some (?t \<in> fst ` set xs, q)"
    "obj_wf T q (filter (\<lambda>x. fst x \<noteq> ?t) xs)" "cps_api_object_attr_add_u32 T E q ?t 1 = Some (True, p')"
    "obj_wf T p' (filter (\<lambda>x. fst x \<noteq> ?t) xs @ [(?t, [1, 0, 0, 0])])"
    "get_data_uint T p' ?t 4 = Some (Some 1)"
    using std_tlv.replace_u32 [OF assms, of ?t 1] le by auto
  have "map_of (filter (\<lambda>x. fst x \<noteq> ?t) xs) ?t = None" by (auto simp: map_of_eq_None_iff)
  then have "get_data_uint T q ?t 4 = Some None" by (rule std_tlv.get_data_uint_obj(1) [OF assms(1) r(2)])
  with r show ?thesis
    by (auto simp: cps_api_object_exact_match_def cps_api_object_get_exact_match_flag_def)
qed

theorem exact_match_flag_roundtrip_witness:
  "\<exists>p'. cps_api_object_exact_match tlv16 libc_ok demo_obj True = Some (True, p') \<and>
     cps_api_object_get_exact_match_flag tlv16 p' = Some True \<and>
     obj_wf tlv16 p' [(5, [9]), (CPS_OBJECT_GROUP_EXACT_MATCH, [1, 0, 0, 0])]"
proof -
  have "\<forall>k. alloc_ok libc_ok k" by simp
  moreover have "attrs_size tlv16 [(5, [9])] + STD_TLV_HDR_LEN tlv16 + 132 < obj_cap"
    by (simp add: demo_sizes)
  ultimately show ?thesis
    using exact_match_flag_roundtrip [OF tlv16.std_tlv_axioms demo_obj_wf demo_obj_used(3), of libc_ok True]
    by (simp add: CPS_OBJECT_GROUP_EXACT_MATCH_def)
qed

end
