(* ===== verification/Cps_Operation.thy ===== *)
theory Cps_Operation
  imports Cps_Object_Tools Cps_Object_Heap
begin

text \<open>
  The client side of get requests and transactions (\<open>src/cps_api_operation_common.cpp\<close> and
  \<open>src/db/cps_api_db_operations.cpp\<close>): the attributes that steer a request, the parameters of a
  request, \<open>cps_api_get\<close> with its exact match filter and \<open>cps_api_commit\<close> with its roll back.

  The objects live in the object heap; everything else a request touches (sockets, the database, the
  clock) is an external state of any type. What is done with one object of a request, by the owning
  service or by the database, is a field of a record of functions, so that the order in which
  \<open>cps_api_commit\<close> does things can be stated for every such service.
\<close>

section \<open>Attributes that steer a request\<close>

definition cps_api_filter_set_count ::
  "std_tlv_api \<Rightarrow> libc \<Rightarrow> cps_obj \<Rightarrow> u64 \<Rightarrow> (bool \<times> cps_obj) option" where
  "cps_api_filter_set_count T E obj obj_count =
     cps_api_object_attr_add_u64 T E obj CPS_OBJECT_GROUP_NUMBER_OF_ENTRIES obj_count"

definition cps_api_filter_get_count :: "std_tlv_api \<Rightarrow> cps_obj \<Rightarrow> nat option option" where
  "cps_api_filter_get_count T obj = get_data_uint T obj CPS_OBJECT_GROUP_NUMBER_OF_ENTRIES 8"

definition cps_api_filter_set_getnext ::
  "std_tlv_api \<Rightarrow> libc \<Rightarrow> cps_obj \<Rightarrow> (bool \<times> cps_obj) option" where
  "cps_api_filter_set_getnext T E obj = cps_api_object_attr_add_u32 T E obj CPS_OBJECT_GROUP_GET_NEXT 1"

text \<open>The value of a 32-bit attribute as a flag; without the attribute the flag is off.\<close>

definition u32_flag :: "std_tlv_api \<Rightarrow> cps_obj \<Rightarrow> u64 \<Rightarrow> bool option" where
  "u32_flag T obj i = do {
     p \<leftarrow> get_data_uint T obj i 4;
     Some (case p of None \<Rightarrow> False | Some v \<Rightarrow> v \<noteq> 0)
   }"

definition cps_api_filter_is_getnext :: "std_tlv_api \<Rightarrow> cps_obj \<Rightarrow> bool option" where
  "cps_api_filter_is_getnext T obj = u32_flag T obj CPS_OBJECT_GROUP_GET_NEXT"

definition cps_api_object_set_timestamp ::
  "std_tlv_api \<Rightarrow> libc \<Rightarrow> cps_obj \<Rightarrow> u64 \<Rightarrow> (bool \<times> cps_obj) option" where
  "cps_api_object_set_timestamp T E obj timestamp =
     cps_api_object_attr_add_u64 T E obj CPS_OBJECT_GROUP_USER_TIMESTAMP_NSEC timestamp"

definition cps_api_object_get_timestamp :: "std_tlv_api \<Rightarrow> cps_obj \<Rightarrow> nat option" where
  "cps_api_object_get_timestamp T obj = do {
     attr \<leftarrow> cps_api_object_attr_get T obj CPS_OBJECT_GROUP_USER_TIMESTAMP_NSEC;
     (case attr of None \<Rightarrow> Some 0 | Some a \<Rightarrow> attr_uint T (obj_buf obj) a 8)
   }"

definition CPS_CONFIG_TYPE_STARTUP_CONFIG :: nat where "CPS_CONFIG_TYPE_STARTUP_CONFIG = 1"
definition CPS_CONFIG_TYPE_RUNNING_CONFIG :: nat where "CPS_CONFIG_TYPE_RUNNING_CONFIG = 2"
definition CPS_CONFIG_TYPE_STARTUP_AND_RUNNING :: nat where "CPS_CONFIG_TYPE_STARTUP_AND_RUNNING = 3"
definition CPS_CONFIG_TYPE_RUNNING_CONFIG_ONLY :: nat where "CPS_CONFIG_TYPE_RUNNING_CONFIG_ONLY = 4"

definition cps_api_object_get_config_type :: "std_tlv_api \<Rightarrow> cps_obj \<Rightarrow> nat option" where
  "cps_api_object_get_config_type T obj = do {
     p \<leftarrow> get_data_uint T obj CPS_OBJECT_GROUP_CONFIG_TYPE 4;
     Some (case p of None \<Rightarrow> CPS_CONFIG_TYPE_RUNNING_CONFIG | Some v \<Rightarrow> v)
   }"

definition cps_api_object_set_config_type ::
  "std_tlv_api \<Rightarrow> libc \<Rightarrow> cps_obj \<Rightarrow> nat \<Rightarrow> (bool \<times> cps_obj) option" where
  "cps_api_object_set_config_type T E obj type =
     cps_api_object_attr_add_u32 T E obj CPS_OBJECT_GROUP_CONFIG_TYPE (of_nat type)"

text \<open>\<open>while (cps_api_object_attr_delete(obj,...)) ;\<close>\<close>

partial_function (option) delete_wildcard_loop :: "std_tlv_api \<Rightarrow> cps_obj \<Rightarrow> cps_obj option" where
  "delete_wildcard_loop T obj = do {
     (again, obj) \<leftarrow> cps_api_object_attr_delete T obj CPS_OBJECT_GROUP_WILDCARD_SEARCH;
     if again then delete_wildcard_loop T obj else Some obj
   }"

definition cps_api_filter_wildcard_attrs ::
  "std_tlv_api \<Rightarrow> libc \<Rightarrow> cps_obj \<Rightarrow> bool \<Rightarrow> (bool \<times> cps_obj) option" where
  "cps_api_filter_wildcard_attrs T E obj has_wildcard_attributes = do {
     obj \<leftarrow> delete_wildcard_loop T obj;
     cps_api_object_attr_add_u32 T E obj CPS_OBJECT_GROUP_WILDCARD_SEARCH (of_bool has_wildcard_attributes)
   }"

definition cps_api_filter_has_wildcard_attrs :: "std_tlv_api \<Rightarrow> cps_obj \<Rightarrow> bool option" where
  "cps_api_filter_has_wildcard_attrs T obj = u32_flag T obj CPS_OBJECT_GROUP_WILDCARD_SEARCH"

text \<open>
  Escaping the characters that mean something in a pattern. \<open>attr\<close> is the output array with room for
  \<open>attr_len\<close> bytes; the result is the flag, the array and the length written. On a little-endian
  host the conversions of the integer types leave the bytes as they are.
\<close>

definition wildcard_char :: "u8 \<Rightarrow> bool" where
  "wildcard_char c \<longleftrightarrow> c = 42 \<or> c = 63 \<or> c = 91 \<or> c = 93 \<or> c = 92"

fun escape_bytes :: "bytes \<Rightarrow> bytes" where
  "escape_bytes [] = []"
| "escape_bytes (c # cs) = (if wildcard_char c then [92, c] else [c]) @ escape_bytes cs"

definition cps_api_attr_create_escaped ::
  "cps_api_object_ATTR_TYPE_t \<Rightarrow> bytes \<Rightarrow> nat \<Rightarrow> bytes \<Rightarrow> nat \<Rightarrow> (bool \<times> bytes \<times> nat) option" where
  "cps_api_attr_create_escaped type buff len attr attr_len =
     (if attr_len < 2 * len then Some (False, attr, attr_len)
      else if (case type of
             cps_api_object_ATTR_T_U16 \<Rightarrow> len \<noteq> 2
           | cps_api_object_ATTR_T_U32 \<Rightarrow> len \<noteq> 4
           | cps_api_object_ATTR_T_U64 \<Rightarrow> len \<noteq> 8
           | _ \<Rightarrow> False) then Some (False, attr, attr_len)
      else if length buff < len then None
      else do {
        let out = escape_bytes (take len buff);
        attr \<leftarrow> memcpy attr 0 out;
        Some (True, attr, length out)
      })"

section \<open>The state of a request\<close>

text \<open>What the library reads of its surroundings, and the state a request runs in.\<close>

record cps_env =
  en_tlv :: std_tlv_api
  en_libc :: libc
  en_hash :: "u64 \<Rightarrow> u64"
  en_dict :: cps_dict

record 'x cps_world =
  w_heap :: obj_heap
  w_ext :: 'x

definition obj_at :: "'x cps_world \<Rightarrow> obj_ptr \<Rightarrow> cps_obj option" where
  "obj_at w p = Option.bind p (hp_objs (w_heap w))"

definition obj_put :: "'x cps_world \<Rightarrow> nat \<Rightarrow> cps_obj \<Rightarrow> 'x cps_world" where
  "obj_put w a p = w\<lparr>w_heap := heap_set (w_heap w) a p\<rparr>"

record cps_api_get_params_t =
  gp_keys :: "cps_api_key_t list"
  gp_list :: obj_list
  gp_filters :: "obj_list option"
  gp_timeout :: nat

record cps_api_transaction_params_t =
  tr_change_list :: obj_list
  tr_prev :: obj_list
  tr_timeout :: nat

definition cps_api_oper_NULL :: u32 where "cps_api_oper_NULL = 0"
definition cps_api_oper_DELETE :: u32 where "cps_api_oper_DELETE = 1"
definition cps_api_oper_CREATE :: u32 where "cps_api_oper_CREATE = 2"
definition cps_api_oper_SET :: u32 where "cps_api_oper_SET = 3"
definition cps_api_oper_ACTION :: u32 where "cps_api_oper_ACTION = 4"

lemmas cps_opers = cps_api_oper_NULL_def cps_api_oper_DELETE_def cps_api_oper_CREATE_def
  cps_api_oper_SET_def cps_api_oper_ACTION_def

definition cps_api_get_request_init :: "cps_api_return_code_t \<times> cps_api_get_params_t" where
  "cps_api_get_request_init =
     (cps_api_ret_code_OK, \<lparr>gp_keys = [], gp_list = cps_api_object_list_create,
        gp_filters = Some cps_api_object_list_create, gp_timeout = 0\<rparr>)"

definition cps_api_get_request_close ::
  "cps_api_get_params_t \<Rightarrow> obj_heap \<Rightarrow> (cps_api_return_code_t \<times> obj_heap) option" where
  "cps_api_get_request_close req h = do {
     h \<leftarrow> cps_api_object_list_destroy h (gp_list req) True;
     h \<leftarrow> (case gp_filters req of None \<Rightarrow> Some h | Some l \<Rightarrow> cps_api_object_list_destroy h l True);
     Some (cps_api_ret_code_OK, h)
   }"

definition cps_api_transaction_init :: "cps_api_return_code_t \<times> cps_api_transaction_params_t" where
  "cps_api_transaction_init =
     (cps_api_ret_code_OK, \<lparr>tr_change_list = cps_api_object_list_create,
        tr_prev = cps_api_object_list_create, tr_timeout = 0\<rparr>)"

definition cps_api_transaction_close ::
  "cps_api_transaction_params_t \<Rightarrow> obj_heap \<Rightarrow> (cps_api_return_code_t \<times> obj_heap) option" where
  "cps_api_transaction_close req h = do {
     h \<leftarrow> cps_api_object_list_destroy h (tr_change_list req) True;
     h \<leftarrow> cps_api_object_list_destroy h (tr_prev req) True;
     Some (cps_api_ret_code_OK, h)
   }"

definition ds_tran_op_append ::
  "libc \<Rightarrow> cps_api_transaction_params_t \<Rightarrow> obj_ptr \<Rightarrow>
     cps_api_return_code_t \<times> cps_api_transaction_params_t" where
  "ds_tran_op_append E param obj =
     (case cps_api_object_list_append E (tr_change_list param) obj of
        (False, _) \<Rightarrow> (cps_api_ret_code_ERR, param)
      | (True, l) \<Rightarrow> (cps_api_ret_code_OK, param\<lparr>tr_change_list := l\<rparr>))"

text \<open>\<open>cps_api_set\<close>, \<open>cps_api_create\<close>, \<open>cps_api_delete\<close> and \<open>cps_api_action\<close> differ in the operation.\<close>

definition tran_append_as ::
  "libc \<Rightarrow> u32 \<Rightarrow> cps_api_transaction_params_t \<Rightarrow> obj_heap \<Rightarrow> nat \<Rightarrow>
     (cps_api_return_code_t \<times> cps_api_transaction_params_t \<times> obj_heap) option" where
  "tran_append_as E op tp h obj = do {
     p \<leftarrow> hp_objs h obj;
     k \<leftarrow> cps_api_key_set_attr (obj_key p) op;
     let h = heap_set h obj (p\<lparr>obj_key := k\<rparr>);
     let (rc, tp) = ds_tran_op_append E tp (Some obj);
     Some (rc, tp, h)
   }"

definition cps_api_set ::
  "libc \<Rightarrow> cps_api_transaction_params_t \<Rightarrow> obj_heap \<Rightarrow> nat \<Rightarrow>
     (cps_api_return_code_t \<times> cps_api_transaction_params_t \<times> obj_heap) option" where
  "cps_api_set E tp h obj = tran_append_as E cps_api_oper_SET tp h obj"

definition cps_api_create ::
  "libc \<Rightarrow> cps_api_transaction_params_t \<Rightarrow> obj_heap \<Rightarrow> nat \<Rightarrow>
     (cps_api_return_code_t \<times> cps_api_transaction_params_t \<times> obj_heap) option" where
  "cps_api_create E tp h obj = tran_append_as E cps_api_oper_CREATE tp h obj"

definition cps_api_delete ::
  "libc \<Rightarrow> cps_api_transaction_params_t \<Rightarrow> obj_heap \<Rightarrow> nat \<Rightarrow>
     (cps_api_return_code_t \<times> cps_api_transaction_params_t \<times> obj_heap) option" where
  "cps_api_delete E tp h obj = tran_append_as E cps_api_oper_DELETE tp h obj"

definition cps_api_action ::
  "libc \<Rightarrow> cps_api_transaction_params_t \<Rightarrow> obj_heap \<Rightarrow> nat \<Rightarrow>
     (cps_api_return_code_t \<times> cps_api_transaction_params_t \<times> obj_heap) option" where
  "cps_api_action E tp h obj = tran_append_as E cps_api_oper_ACTION tp h obj"


text \<open>What is done with one object of a request, by the database or by the service that owns it.\<close>

record 'x req_backend =
  be_db_get :: "cps_api_get_params_t \<Rightarrow> nat \<Rightarrow> 'x cps_world \<Rightarrow>
     (cps_api_return_code_t \<times> cps_api_get_params_t \<times> 'x cps_world) option"
  be_svc_get :: "cps_api_get_params_t \<Rightarrow> nat \<Rightarrow> 'x cps_world \<Rightarrow>
     (cps_api_return_code_t \<times> cps_api_get_params_t \<times> 'x cps_world) option"
  be_db_commit :: "cps_api_transaction_params_t \<Rightarrow> nat \<Rightarrow> 'x cps_world \<Rightarrow>
     (cps_api_return_code_t \<times> cps_api_transaction_params_t \<times> 'x cps_world) option"
  be_svc_commit :: "cps_api_transaction_params_t \<Rightarrow> nat \<Rightarrow> 'x cps_world \<Rightarrow>
     (cps_api_return_code_t \<times> cps_api_transaction_params_t \<times> 'x cps_world) option"
  be_db_rollback :: "cps_api_transaction_params_t \<Rightarrow> nat \<Rightarrow> 'x cps_world \<Rightarrow>
     (cps_api_return_code_t \<times> cps_api_transaction_params_t \<times> 'x cps_world) option"
  be_svc_rollback :: "cps_api_transaction_params_t \<Rightarrow> nat \<Rightarrow> 'x cps_world \<Rightarrow>
     (cps_api_return_code_t \<times> cps_api_transaction_params_t \<times> 'x cps_world) option"
  be_publish :: "nat \<Rightarrow> 'x cps_world \<Rightarrow> (bool \<times> 'x cps_world) option"

section \<open>Get requests\<close>

text \<open>The loop of \<open>_cps_api_get_clone\<close> that turns the keys of the request into filters.\<close>

fun get_clone_keys ::
  "libc \<Rightarrow> obj_heap \<Rightarrow> obj_list option \<Rightarrow> cps_api_key_t list \<Rightarrow> (bool \<times> obj_list option \<times> obj_heap) option" where
  "get_clone_keys E h l [] = Some (True, l, h)"
| "get_clone_keys E h l (k # ks) = do {
     l \<leftarrow> l;
     (obj, l, h) \<leftarrow> cps_api_object_list_create_obj_and_append E h l;
     (case obj of
        None \<Rightarrow> Some (False, Some l, h)
      | Some a \<Rightarrow> do {
          p \<leftarrow> hp_objs h a;
          k' \<leftarrow> cps_api_key_copy (obj_key p) k;
          get_clone_keys E (heap_set h a (p\<lparr>obj_key := k'\<rparr>)) (Some l) ks
        })
   }"

definition cps_api_get_clone ::
  "libc \<Rightarrow> obj_heap \<Rightarrow> cps_api_get_params_t \<Rightarrow> cps_api_get_params_t \<Rightarrow>
     (bool \<times> cps_api_get_params_t \<times> obj_heap) option" where
  "cps_api_get_clone E h dest src = do {
     l \<leftarrow> gp_filters dest;
     h \<leftarrow> cps_api_object_list_destroy h l True;
     l \<leftarrow> gp_filters src;
     (l, h) \<leftarrow> cps_api_object_list_clone E h l False;
     (ok, l, h) \<leftarrow> get_clone_keys E h l (gp_keys src);
     let dest = dest\<lparr>gp_filters := l\<rparr>;
     Some (ok, if ok then dest\<lparr>gp_timeout := gp_timeout src, gp_keys := []\<rparr> else dest, h)
   }"

text \<open>
  \<open>_filter_list_as_needed\<close>: the results that do not match are replaced by \<open>NULL\<close>, then the list is
  closed up. The first loop runs over \<open>n\<close> entries from \<open>ix\<close> on.
\<close>

primrec filter_mark ::
  "cps_env \<Rightarrow> cps_obj \<Rightarrow> obj_list \<Rightarrow> obj_heap \<Rightarrow> nat \<Rightarrow> nat \<Rightarrow> (obj_list \<times> obj_heap) option" where
  "filter_mark N obj results h 0 ix = Some (results, h)"
| "filter_mark N obj results h (Suc n) ix = do {
     (results, h) \<leftarrow>
       (case cps_api_object_list_get results ix of
          None \<Rightarrow> Some (results, h)
        | Some a \<Rightarrow> do {
            p \<leftarrow> hp_objs h a;
            m \<leftarrow> cps_api_obj_tool_matches_filter (en_tlv N) (en_dict N) obj p True;
            if m then Some (results, h)
            else map_option snd (cps_api_object_list_set (en_libc N) h results ix None True)
          });
     filter_mark N obj results h n (ix + 1)
   }"

function filter_close_up :: "obj_list \<Rightarrow> nat \<Rightarrow> nat \<Rightarrow> obj_list" where
  "filter_close_up results list_walker lst_mx =
     (if list_walker < lst_mx then
        (if cps_api_object_list_get results list_walker = None
         then filter_close_up (cps_api_object_list_remove results list_walker) list_walker (lst_mx - 1)
         else filter_close_up results (list_walker + 1) lst_mx)
      else results)"
  by pat_completeness auto
termination by (relation "measure (\<lambda>(_, w, m). m - w)") auto

declare filter_close_up.simps [simp del]

definition filter_list_as_needed ::
  "cps_env \<Rightarrow> cps_obj \<Rightarrow> obj_list \<Rightarrow> obj_heap \<Rightarrow> nat \<Rightarrow> nat \<Rightarrow> (obj_list \<times> obj_heap) option" where
  "filter_list_as_needed N obj results h frm to = do {
     exact \<leftarrow> cps_api_object_get_exact_match_flag (en_tlv N) obj;
     if \<not> exact then Some (results, h)
     else do {
       (results, h) \<leftarrow> filter_mark N obj results h (to - frm) frm;
       Some (filter_close_up results frm (cps_api_object_list_size results), h)
     }
   }"

text \<open>
  The loop of \<open>cps_api_get\<close>. \<open>copy\<close> tells whether the request was copied; then \<open>req\<close> is the copy and
  \<open>plist\<close> the list in the caller's parameters, otherwise they are the same structure.
\<close>

definition param_list :: "bool \<Rightarrow> cps_api_get_params_t \<Rightarrow> obj_list \<Rightarrow> obj_list" where
  "param_list copy req plist = (if copy then plist else gp_list req)"

primrec get_loop ::
  "cps_env \<Rightarrow> 'x req_backend \<Rightarrow> bool \<Rightarrow> nat \<Rightarrow> nat \<Rightarrow> cps_api_return_code_t \<Rightarrow> cps_api_get_params_t \<Rightarrow>
     obj_list \<Rightarrow> 'x cps_world \<Rightarrow>
     (cps_api_return_code_t \<times> cps_api_get_params_t \<times> obj_list \<times> 'x cps_world) option" where
  "get_loop N B copy 0 ix rc req plist w = Some (rc, req, plist, w)"
| "get_loop N B copy (Suc n) ix rc req plist w = do {
     let cur_lst_len = cps_api_object_list_size (param_list copy req plist);
     filters \<leftarrow> gp_filters req;
     let o_ptr = cps_api_object_list_get filters ix;
     p \<leftarrow> obj_at w o_ptr;
     owner \<leftarrow> cps_api_obj_get_ownership_type (en_hash N) (en_dict N) (obj_key p);
     (rc, req, w) \<leftarrow> (if owner \<noteq> CPS_API_OBJECT_SERVICE then be_db_get B req ix w else be_svc_get B req ix w);
     p \<leftarrow> obj_at w o_ptr;
     go \<leftarrow> (if rc \<noteq> cps_api_ret_code_OK
            then cps_api_obj_attr_get_bool (en_tlv N) p CPS_OBJECT_GROUP_CONTINUE_ON_FAILURE False
            else Some True);
     if \<not> go then Some (rc, req, plist, w)
     else do {
       let l = param_list copy req plist;
       (l, h) \<leftarrow> filter_list_as_needed N p l (w_heap w) cur_lst_len (cps_api_object_list_size l);
       let w = w\<lparr>w_heap := h\<rparr>;
       if copy then get_loop N B copy n (ix + 1) rc req l w
       else get_loop N B copy n (ix + 1) rc (req\<lparr>gp_list := l\<rparr>) plist w
     }
   }"

definition cps_api_get ::
  "cps_env \<Rightarrow> 'x req_backend \<Rightarrow> cps_api_get_params_t \<Rightarrow> 'x cps_world \<Rightarrow>
     (cps_api_return_code_t \<times> cps_api_get_params_t \<times> 'x cps_world) option" where
  "cps_api_get N B param w =
     (if gp_keys param = [] then do {
        filters \<leftarrow> gp_filters param;
        (rc, param, _, w) \<leftarrow>
          get_loop N B False (cps_api_object_list_size filters) 0 cps_api_ret_code_ERR param [] w;
        Some (rc, param, w)
      }
      else do {
        let (init_rc, new_req) = cps_api_get_request_init;
        if init_rc \<noteq> cps_api_ret_code_OK then Some (cps_api_ret_code_INTERNAL_FAILURE, param, w)
        else do {
          (ok, new_req, h) \<leftarrow> cps_api_get_clone (en_libc N) (w_heap w) new_req param;
          if \<not> ok then do {
            (_, h) \<leftarrow> cps_api_get_request_close new_req h;
            Some (cps_api_ret_code_INTERNAL_FAILURE, param, w\<lparr>w_heap := h\<rparr>)
          }
          else do {
            filters \<leftarrow> gp_filters new_req;
            (rc, new_req, plist, w) \<leftarrow>
              get_loop N B True (cps_api_object_list_size filters) 0 cps_api_ret_code_ERR
                (new_req\<lparr>gp_list := gp_list param\<rparr>) (gp_list new_req) (w\<lparr>w_heap := h\<rparr>);
            (_, h) \<leftarrow> cps_api_get_request_close (new_req\<lparr>gp_list := plist\<rparr>) (w_heap w);
            Some (rc, param\<lparr>gp_list := gp_list new_req\<rparr>, w\<lparr>w_heap := h\<rparr>)
          }
        }
      })"

section \<open>Transactions\<close>

text \<open>
  One round of the first loop of \<open>cps_api_commit\<close>: the return code after the round, whether the loop
  is left, and the state.
\<close>

definition commit_step ::
  "cps_env \<Rightarrow> 'x req_backend \<Rightarrow> nat \<Rightarrow> cps_api_transaction_params_t \<Rightarrow> 'x cps_world \<Rightarrow>
     (cps_api_return_code_t \<times> bool \<times> cps_api_transaction_params_t \<times> 'x cps_world) option" where
  "commit_step N B ix param w = do {
     a \<leftarrow> cps_api_object_list_get (tr_change_list param) ix;
     p \<leftarrow> hp_objs (w_heap w) a;
     (_, p) \<leftarrow> cps_api_object_attr_delete (en_tlv N) p CPS_OBJECT_GROUP_FAILED_NODES;
     let w = obj_put w a p;
     owner \<leftarrow> cps_api_obj_get_ownership_type (en_hash N) (en_dict N) (obj_key p);
     let is_db_handled = (owner \<noteq> CPS_API_OBJECT_SERVICE);
     (rc, param, w) \<leftarrow> (if is_db_handled then be_db_commit B param ix w else be_svc_commit B param ix w);
     p \<leftarrow> hp_objs (w_heap w) a;
     if rc \<noteq> cps_api_ret_code_OK then do {
       continue_on_fail \<leftarrow> cps_api_obj_attr_get_bool (en_tlv N) p CPS_OBJECT_GROUP_CONTINUE_ON_FAILURE False;
       Some (if continue_on_fail then cps_api_ret_code_OK else rc, \<not> continue_on_fail, param, w)
     }
     else do {
       ev \<leftarrow> (if is_db_handled then Some False
             else cps_api_obj_has_auto_events (en_hash N) (en_dict N) (obj_key p));
       op \<leftarrow> (if ev then cps_api_object_type_operation (obj_key p) else Some cps_api_oper_ACTION);
       if op \<noteq> cps_api_oper_ACTION then do {
         (_, w) \<leftarrow> be_publish B a w;
         Some (rc, False, param, w)
       }
       else Some (rc, False, param, w)
     }
   }"

text \<open>The loop, with \<open>n\<close> objects left from \<open>ix\<close> on; it also returns the index it stopped at.\<close>

primrec commit_loop ::
  "cps_env \<Rightarrow> 'x req_backend \<Rightarrow> nat \<Rightarrow> nat \<Rightarrow> cps_api_return_code_t \<Rightarrow> cps_api_transaction_params_t \<Rightarrow>
     'x cps_world \<Rightarrow>
     (cps_api_return_code_t \<times> nat \<times> cps_api_transaction_params_t \<times> 'x cps_world) option" where
  "commit_loop N B 0 ix rc param w = Some (rc, ix, param, w)"
| "commit_loop N B (Suc n) ix rc param w = do {
     (rc, stop, param, w) \<leftarrow> commit_step N B ix param w;
     if stop then Some (rc, ix, param, w) else commit_loop N B n (ix + 1) rc param w
   }"

text \<open>
  One round of the roll back of \<open>cps_api_commit\<close>. The event is guarded by the return code \<open>rc\<close> of the
  failed commit, as in the source.
\<close>

definition rollback_step ::
  "cps_env \<Rightarrow> 'x req_backend \<Rightarrow> cps_api_return_code_t \<Rightarrow> nat \<Rightarrow> cps_api_transaction_params_t \<Rightarrow>
     'x cps_world \<Rightarrow> (cps_api_transaction_params_t \<times> 'x cps_world) option" where
  "rollback_step N B rc ix param w = do {
     a \<leftarrow> cps_api_object_list_get (tr_change_list param) ix;
     p \<leftarrow> hp_objs (w_heap w) a;
     owner \<leftarrow> cps_api_obj_get_ownership_type (en_hash N) (en_dict N) (obj_key p);
     (_, param, w) \<leftarrow> (if owner \<noteq> CPS_API_OBJECT_SERVICE then be_db_rollback B param ix w
                       else be_svc_rollback B param ix w);
     p \<leftarrow> hp_objs (w_heap w) a;
     op_type \<leftarrow> cps_api_object_type_operation (obj_key p);
     if rc = cps_api_ret_code_OK \<and> op_type \<noteq> cps_api_oper_ACTION then do {
       let tmp_op_type = (if op_type = cps_api_oper_DELETE then cps_api_oper_CREATE
                          else if op_type = cps_api_oper_CREATE then cps_api_oper_DELETE
                          else cps_api_oper_SET);
       k \<leftarrow> cps_api_object_set_type_operation (obj_key p) tmp_op_type;
       (_, w) \<leftarrow> be_publish B a (obj_put w a (p\<lparr>obj_key := k\<rparr>));
       p \<leftarrow> hp_objs (w_heap w) a;
       k \<leftarrow> cps_api_object_set_type_operation (obj_key p) op_type;
       Some (param, obj_put w a (p\<lparr>obj_key := k\<rparr>))
     }
     else Some (param, w)
   }"

primrec rollback_loop ::
  "cps_env \<Rightarrow> 'x req_backend \<Rightarrow> cps_api_return_code_t \<Rightarrow> nat \<Rightarrow> cps_api_transaction_params_t \<Rightarrow>
     'x cps_world \<Rightarrow> (cps_api_transaction_params_t \<times> 'x cps_world) option" where
  "rollback_loop N B rc 0 param w = Some (param, w)"
| "rollback_loop N B rc (Suc ix) param w = do {
     (param, w) \<leftarrow> rollback_step N B rc ix param w;
     rollback_loop N B rc ix param w
   }"

definition cps_api_commit ::
  "cps_env \<Rightarrow> 'x req_backend \<Rightarrow> cps_api_transaction_params_t \<Rightarrow> 'x cps_world \<Rightarrow>
     (cps_api_return_code_t \<times> cps_api_transaction_params_t \<times> 'x cps_world) option" where
  "cps_api_commit N B param w = do {
     (rc, ix, param, w) \<leftarrow>
       commit_loop N B (cps_api_object_list_size (tr_change_list param)) 0 cps_api_ret_code_OK param w;
     if rc \<noteq> cps_api_ret_code_OK then do {
       (param, w) \<leftarrow> rollback_loop N B rc ix param w;
       Some (rc, param, w)
     }
     else Some (rc, param, w)
   }"

section \<open>Database requests of an operation\<close>

text \<open>
  \<open>cps_api_db_get\<close> and \<open>cps_api_db_commit_one\<close> are arguments here. The commit takes the operation, the
  object, the previous object or \<open>NULL\<close>, and whether to publish.
\<close>

type_synonym 'x db_commit_one = "u32 \<Rightarrow> nat \<Rightarrow> obj_ptr \<Rightarrow> bool \<Rightarrow> 'x cps_world \<Rightarrow>
  (cps_api_return_code_t \<times> 'x cps_world) option"

definition cps_api_db_operation_get ::
  "(nat \<Rightarrow> obj_list \<Rightarrow> 'x cps_world \<Rightarrow> (cps_api_return_code_t \<times> obj_list \<times> 'x cps_world) option) \<Rightarrow>
     cps_api_get_params_t \<Rightarrow> nat \<Rightarrow> 'x cps_world \<Rightarrow>
     (cps_api_return_code_t \<times> cps_api_get_params_t \<times> 'x cps_world) option" where
  "cps_api_db_operation_get db_get param ix w = do {
     filters \<leftarrow> gp_filters param;
     a \<leftarrow> cps_api_object_list_get filters ix;
     (rc, l, w) \<leftarrow> db_get a (gp_list param) w;
     Some (rc, param\<lparr>gp_list := l\<rparr>, w)
   }"

definition cps_api_db_operation_commit ::
  "cps_env \<Rightarrow> 'x db_commit_one \<Rightarrow> cps_api_transaction_params_t \<Rightarrow> nat \<Rightarrow> 'x cps_world \<Rightarrow>
     (cps_api_return_code_t \<times> cps_api_transaction_params_t \<times> 'x cps_world) option" where
  "cps_api_db_operation_commit N commit_one param ix w = do {
     a \<leftarrow> cps_api_object_list_get (tr_change_list param) ix;
     (prev, l, h) \<leftarrow>
       (case cps_api_object_list_get (tr_prev param) ix of
          Some q \<Rightarrow> Some (Some q, tr_prev param, w_heap w)
        | None \<Rightarrow> cps_api_object_list_create_obj_and_append (en_libc N) (w_heap w) (tr_prev param));
     let param = param\<lparr>tr_prev := l\<rparr>;
     let w = w\<lparr>w_heap := h\<rparr>;
     p \<leftarrow> hp_objs h a;
     send_event \<leftarrow> cps_api_obj_has_auto_events (en_hash N) (en_dict N) (obj_key p);
     op \<leftarrow> cps_api_object_type_operation (obj_key p);
     (rc, w) \<leftarrow> commit_one op a prev send_event w;
     Some (rc, param, w)
   }"

text \<open>
  The operation of the roll back goes through two assignments in sequence. The guard object
  \<open>_key_patch\<close> restores the operation field of the previous object's key at the end.
\<close>

definition rollback_operation :: "u32 \<Rightarrow> u32" where
  "rollback_operation op =
     (let op = (if op = cps_api_oper_DELETE then cps_api_oper_CREATE else op);
          op = (if op = cps_api_oper_CREATE then cps_api_oper_DELETE else op) in op)"

definition cps_api_db_operation_rollback ::
  "cps_env \<Rightarrow> 'x db_commit_one \<Rightarrow> cps_api_transaction_params_t \<Rightarrow> nat \<Rightarrow> 'x cps_world \<Rightarrow>
     (cps_api_return_code_t \<times> cps_api_transaction_params_t \<times> 'x cps_world) option" where
  "cps_api_db_operation_rollback N commit_one param ix w = do {
     a \<leftarrow> cps_api_object_list_get (tr_change_list param) ix;
     (case cps_api_object_list_get (tr_prev param) ix of
        None \<Rightarrow> Some (cps_api_ret_code_ERR, param, w)
      | Some prev \<Rightarrow> do {
          q \<leftarrow> hp_objs (w_heap w) prev;
          send_event \<leftarrow> cps_api_obj_has_auto_events (en_hash N) (en_dict N) (obj_key q);
          saved \<leftarrow> cps_api_key_elem_raw_get (obj_key q) CPS_OBJ_KEY_ATTR_POS;
          p \<leftarrow> hp_objs (w_heap w) a;
          op \<leftarrow> cps_api_object_type_operation (obj_key p);
          (rc, w) \<leftarrow> commit_one (rollback_operation op) prev None send_event w;
          q \<leftarrow> hp_objs (w_heap w) prev;
          k \<leftarrow> cps_api_key_elem_raw_set (obj_key q) CPS_OBJ_KEY_ATTR_POS saved;
          Some (rc, param, obj_put w prev (q\<lparr>obj_key := k\<rparr>))
        })
   }"

end
