(* ===== verification/Cps_Channel_Proofs.thy ===== *)
theory Cps_Channel_Proofs
  imports Cps_Channel
begin

text \<open>
  What the message layer guarantees. For every behaviour of the socket library that stores no more
  than it was asked for, receiving an object either gives one new object or leaves the heap with the
  objects it had. Over a connected stream socket (locale \<open>stream_sock\<close>) each receiving operation
  reads back what the corresponding sending operation wrote, and nothing beyond it.
\<close>

section \<open>The bytes of a message\<close>

definition obj_wire :: "cps_obj \<Rightarrow> bytes" where
  "obj_wire p = take (cps_api_object_to_array_len p) (cps_api_object_array p)"

definition msg_wire :: "u32 \<Rightarrow> bytes \<Rightarrow> bytes" where
  "msg_wire op body = hdr_bytes \<lparr>hdr_version = 0, hdr_len = length body, hdr_operation = op\<rparr> @ body"

lemma length_hdr_bytes [simp]: "length (hdr_bytes hdr) = 12"
  by (simp add: hdr_bytes_def)

lemma hdr_roundtrip:
  assumes "hdr_version hdr < 2 ^ 32" and "hdr_len hdr < 2 ^ 32"
  shows "hdr_of_bytes (hdr_bytes hdr) = hdr"
proof -
  have "le_val (le_bytes 4 v) = v" if "v < 2 ^ 32" for v
    using that by (simp add: le_val_le_bytes)
  then show ?thesis using assms
    by (simp add: hdr_of_bytes_def hdr_bytes_def)
qed

lemma length_key_bytes: "length key = 64 \<Longrightarrow> length (key_bytes key) = 256"
  using concat_const_length [of u32_bytes 4 key] by (simp add: key_bytes_def)

lemma key_bytes_roundtrip: "length key = 64 \<Longrightarrow> key_of_bytes (key_bytes key) = key"
  using key_of_bytes_array [of key "[]"] by (simp add: key_bytes_def)

lemma length_rc_bytes [simp]: "length (rc_bytes rc) = 4"
  by (simp add: rc_bytes_def)

lemma rc_roundtrip:
  assumes "- (2 ^ 31) \<le> rc" and "rc < 2 ^ 31"
  shows "rc_of_bytes (rc_bytes rc) = rc"
proof -
  have n: "nat (rc mod 2 ^ 32) < 2 ^ 32" by (simp add: nat_less_iff)
  then have e: "rc_of_bytes (rc_bytes rc) = to_int32 (nat (rc mod 2 ^ 32))"
    by (simp add: rc_of_bytes_def rc_bytes_def le_val_le_bytes)
  show ?thesis
  proof (cases "0 \<le> rc")
    case True
    then have m: "rc mod 2 ^ 32 = rc" using assms by (intro mod_pos_pos_trivial) auto
    have "nat rc < 2 ^ 31" using True assms(2) by (simp add: nat_less_iff)
    then show ?thesis unfolding e m using True by (simp add: to_int32_small)
  next
    case False
    have "(rc + 2 ^ 32) mod 2 ^ 32 = rc + 2 ^ 32" using False assms by (intro mod_pos_pos_trivial) auto
    then have m: "rc mod 2 ^ 32 = rc + 2 ^ 32" by simp
    have "\<not> nat (rc + 2 ^ 32) < 2 ^ 31" "nat (rc + 2 ^ 32) < 2 ^ 32" using False assms by auto
    then have "to_int32 (nat (rc + 2 ^ 32)) = int (nat (rc + 2 ^ 32)) - 2 ^ 32"
      by (simp add: to_int32_def Let_def)
    then show ?thesis unfolding e m using assms(1) by simp
  qed
qed

lemma to_array_len:
  assumes "obj_wf T p xs" and "attrs_size T xs + 256 < obj_cap"
  shows "cps_api_object_to_array_len p = attrs_size T xs + 256"
  using obj_wf_used(1) [OF assms(1)] obj_cap_lt [OF assms(2)]
  by (simp add: cps_api_object_to_array_len_def sizeof_object_data_def CPS_OBJ_KEY_BYTE_MAX_LEN_def
      sz_add_exact)

lemma obj_wire_eq:
  assumes "obj_wf T p xs" and "attrs_size T xs + 256 < obj_cap"
  shows "obj_wire p = key_bytes (obj_key p) @ take (attrs_size T xs) (obj_buf p)"
    and "length (obj_wire p) = attrs_size T xs + 256"
    and "length (obj_wire p) = cps_api_object_to_array_len p"
    and "cps_api_object_to_array_len p \<le> length (cps_api_object_array p)"
proof -
  have k: "length (key_bytes (obj_key p)) = 256"
    using assms(1) by (intro length_key_bytes) (simp add: obj_wf_def)
  note n = obj_wf_seq(2) [OF assms(1)] and l = to_array_len [OF assms]
  show e: "obj_wire p = key_bytes (obj_key p) @ take (attrs_size T xs) (obj_buf p)"
    using k by (simp add: obj_wire_def l cps_api_object_array_def flip: key_bytes_def)
  show "length (obj_wire p) = attrs_size T xs + 256" using k n by (simp add: e)
  then show "length (obj_wire p) = cps_api_object_to_array_len p" using l by simp
  show "cps_api_object_to_array_len p \<le> length (cps_api_object_array p)"
    using k n by (simp add: l cps_api_object_array_def flip: key_bytes_def)
qed

section \<open>Reading into an object\<close>

lemma array_length: "length (obj_key p) = 64 \<Longrightarrow> length (cps_api_object_array p) = 256 + length (obj_buf p)"
  using length_key_bytes [of "obj_key p"] by (simp add: cps_api_object_array_def key_bytes_def)

lemma overlay_frame:
  assumes "obj_overlay p dat = Some q"
  shows "obj_ref_count q = obj_ref_count p" and "obj_token q = obj_token p"
    and "obj_allocated q = obj_allocated p" and "obj_len q = obj_len p"
  using assms by (auto simp: obj_overlay_def split: Option.bind_splits)

lemma overlay_total:
  "length dat \<le> length (cps_api_object_array p) \<Longrightarrow> \<exists>q. obj_overlay p dat = Some q"
  by (simp add: obj_overlay_def memcpy_def)

lemma overlay_wire:
  assumes "std_tlv T" and "obj_wf T p xs" and "attrs_size T xs + 256 < obj_cap" and "length (obj_key q) = 64"
    and "length (obj_buf q) = obj_len q" and "attrs_size T xs + 256 \<le> obj_len q" and "obj_len q < obj_cap"
  shows "\<exists>q1 q2. obj_overlay q (obj_wire p) = Some q1 \<and>
     cps_api_object_received q1 (length (obj_wire p)) = (True, q2) \<and> obj_wf T q2 xs \<and>
     obj_key q2 = obj_key p \<and> obj_ref_count q2 = obj_ref_count q \<and> obj_token q2 = obj_token q \<and>
     obj_allocated q2 = obj_allocated q"
proof -
  let ?n = "attrs_size T xs"
  note w = obj_wire_eq [OF assms(2,3)] and s = obj_wf_seq [OF assms(2)]
  have kp: "length (obj_key p) = 64" using assms(2) by (simp add: obj_wf_def)
  note lk = length_key_bytes [OF kp] and al = array_length [OF assms(4)]
  define b where "b = take ?n (obj_buf p) @ drop ?n (obj_buf q)"
  have dq: "drop (?n + 256) (cps_api_object_array q) = drop ?n (obj_buf q)"
    using length_key_bytes [OF assms(4)] by (simp add: cps_api_object_array_def flip: key_bytes_def)
  have m: "memcpy (cps_api_object_array q) 0 (obj_wire p) = Some (key_bytes (obj_key p) @ b)"
    unfolding memcpy_def using w(2) al assms(5,6) dq by (simp add: w(1) b_def)
  define q1 where "q1 = q\<lparr>obj_key := obj_key p, obj_buf := b\<rparr>"
  have o1: "obj_overlay q (obj_wire p) = Some q1"
    using key_of_bytes_array [OF kp, of b] lk
    by (simp add: obj_overlay_def m q1_def key_bytes_def sizeof_object_data_def
        CPS_OBJ_KEY_BYTE_MAX_LEN_def)
  have seq: "tlv_seq T b 0 ?n xs"
    unfolding b_def by (rule std_tlv.tlv_seq_relocate [OF assms(1) s(1)]) (use s(2) in auto)
  have rm: "sz_sub (obj_len q) ?n = obj_len q - ?n"
    using assms(6) obj_cap_lt [OF assms(7)] by (simp add: sz_sub_exact)
  define q2 where "q2 = q1\<lparr>obj_remain := obj_len q - ?n\<rparr>"
  have r: "cps_api_object_received q1 (length (obj_wire p)) = (True, q2)"
    using assms(6) rm
    by (simp add: cps_api_object_received_def w(2) q2_def q1_def sizeof_object_data_def
        CPS_OBJ_KEY_BYTE_MAX_LEN_def)
  have "obj_wf T q2 xs"
    by (rule obj_wfI) (use kp s(2) seq assms(5-7) in \<open>auto simp: q2_def q1_def b_def\<close>)
  with o1 r show ?thesis by (intro exI [of _ q1] exI [of _ q2]) (simp add: q1_def q2_def)
qed

section \<open>Receiving an object\<close>

text \<open>The created object and the room it has after the reservation.\<close>

lemma receive_room:
  assumes "heap_wf h" and "alloc_ok E sizeof_object_internal"
    and "alloc_ok E (sizeof_object_data + DEF_OBJECT_SIZE)"
  obtains og h1 p where "cps_api_object_create E h = Some (og, h1)" and "hp_objs h og = None"
    and "hp_objs h1 = (hp_objs h)(og \<mapsto> p)" and "heap_wf h1" and "hp_objs h1 og = Some p"
    and "obj_ref_count p = 1" and "obj_token p = KEY_TOKEN" and "obj_allocated p"
    and "length (obj_key p) = 64" and "length (obj_buf p) = obj_len p" and "obj_len p = DEF_OBJECT_SIZE"
proof -
  obtain p where p: "object_create_storage E = Some p" "obj_wf tlv16 p []" "obj_allocated p"
    "obj_ref_count p = 1" "obj_token p = KEY_TOKEN" "obj_len p = DEF_OBJECT_SIZE"
    using tlv16.create_storage_ok [OF assms(2,3)] by blast
  obtain h1 where "cps_api_object_create E h = Some (hp_brk h, h1)" "heap_wf h1"
    "hp_objs h1 = (hp_objs h)(hp_brk h := Some p)"
    using create_cases [OF assms(1) p(1,4,5,3)] unfolding cps_api_object_create_def by blast
  moreover have "hp_objs h (hp_brk h) = None"
    using assms(1) by (cases "hp_objs h (hp_brk h)") (auto simp: heap_wf_def)
  ultimately show thesis using p by (intro that [of "hp_brk h" h1 p]) (auto simp: obj_wf_def)
qed

lemma reserve_frame:
  assumes "cps_api_object_reserve E p n = (ok, q)"
  shows "obj_ref_count q = obj_ref_count p" and "obj_token q = obj_token p"
    and "obj_allocated q = obj_allocated p" and "obj_key q = obj_key p"
  using assms by (auto simp: cps_api_object_reserve_def obj_realloc_def split: if_splits)

lemma reserve_grows:
  assumes "cps_api_object_reserve E p n = (True, q)" and "length (obj_buf p) = obj_len p" and "obj_len p < n"
  shows "length (obj_buf q) = n" and "obj_len q = n"
  using assms
  by (auto simp: cps_api_object_reserve_def obj_realloc_def fresh_bytes_def split: if_splits)

lemma reserve_grants:
  assumes "obj_allocated p" and "alloc_ok E (n + 256)" and "n + 256 < size_lim"
  shows "\<exists>q. cps_api_object_reserve E p n = (True, q)"
  using assms
  by (simp add: cps_api_object_reserve_def obj_realloc_def sizeof_object_data_def
      CPS_OBJ_KEY_BYTE_MAX_LEN_def sz_add_exact)

lemma received_frame:
  assumes "cps_api_object_received p n = (ok, q)"
  shows "obj_ref_count q = obj_ref_count p" and "obj_token q = obj_token p"
    and "obj_allocated q = obj_allocated p"
  using assms by (auto simp: cps_api_object_received_def split: if_splits)

lemma delete_new:
  assumes "heap_wf h1" and "hp_objs h og = None" and "hp_objs h1 = (hp_objs h)(og \<mapsto> p)"
    and "obj_ref_count q = 1" and "obj_token q = KEY_TOKEN" and "obj_allocated q"
  shows "\<exists>h2. cps_api_object_delete (heap_set h1 og q) (Some og) = Some h2 \<and> heap_wf h2 \<and>
     hp_objs h2 = hp_objs h"
proof -
  have o1: "hp_objs h1 og = Some p" using assms(3) by simp
  note w = heap_wf_objects [OF assms(1) o1]
  have h2: "heap_wf (heap_set h1 og q)" by (rule heap_set_wf [OF assms(1) o1]) (use w assms in auto)
  obtain h3 where "obj_delloc (heap_set h1 og q) og = Some h3" "heap_wf h3"
    "hp_objs h3 = (hp_objs (heap_set h1 og q))(og := None)"
    using delloc_cases [OF h2, of og q] assms(4) by (auto simp: heap_set_def)
  moreover have "(hp_objs (heap_set h1 og q))(og := None) = hp_objs h"
    using assms(2,3) by (auto simp: heap_set_def)
  ultimately show ?thesis by (simp add: cps_api_object_delete_def)
qed

lemma receive_object_cases:
  assumes "heap_wf h" and "alloc_ok E sizeof_object_internal"
    and "alloc_ok E (sizeof_object_data + DEF_OBJECT_SIZE)"
    and rd: "\<And>cnt dat x'. sk_read S fd len x = (cnt, dat, x') \<Longrightarrow> length dat \<le> len"
  shows "\<exists>r h' x'. cps_api_receive_object E S fd len h x = Some (r, h', x') \<and> heap_wf h' \<and>
     (case r of None \<Rightarrow> hp_objs h' = hp_objs h
      | Some a \<Rightarrow> \<exists>q. hp_objs h a = None \<and> hp_objs h' = (hp_objs h)(a \<mapsto> q) \<and> obj_ref_count q = 1)"
proof (cases "len = 0")
  case False
  obtain og h1 p where c: "cps_api_object_create E h = Some (og, h1)" "hp_objs h og = None"
    "hp_objs h1 = (hp_objs h)(og \<mapsto> p)" "heap_wf h1" "hp_objs h1 og = Some p"
    and p: "obj_ref_count p = 1" "obj_token p = KEY_TOKEN" "obj_allocated p"
    "length (obj_key p) = 64" "length (obj_buf p) = obj_len p" "obj_len p = DEF_OBJECT_SIZE"
    by (rule receive_room [OF assms(1-3)])
  define rm where "rm = (if cps_api_object_get_reserve_len p < len
     then cps_api_object_reserve E p len else (True, p))"
  obtain room p1 where r: "rm = (room, p1)" by fastforce
  have p1: "obj_ref_count p1 = 1" "obj_token p1 = KEY_TOKEN" "obj_allocated p1" "length (obj_key p1) = 64"
    using r reserve_frame [of E p len room p1] p by (auto simp: rm_def split: if_splits)
  note del = delete_new [OF c(4,2,3)]
  show ?thesis
  proof (cases room)
    case nr: False
    then show ?thesis using False c(1,5) r del [OF p1(1-3)]
      by (auto simp: cps_api_receive_object_def Let_def rm_def [symmetric])
  next
    case True
    have big: "len \<le> length (obj_buf p1)"
      using r True p(5) reserve_grows [of E p len p1]
      by (auto simp: rm_def cps_api_object_get_reserve_len_def split: if_splits)
    obtain cnt dat x1 where s: "sk_read S fd len x = (cnt, dat, x1)" by (metis prod_cases3)
    obtain p2 where p2: "obj_overlay p1 dat = Some p2"
      using overlay_total [of dat p1] rd [OF s] big array_length [OF p1(4)] by auto
    define gd where "gd = (if cnt \<noteq> to_int32 len then (False, p2) else cps_api_object_received p2 len)"
    obtain good p3 where g: "gd = (good, p3)" by fastforce
    have p3: "obj_ref_count p3 = 1" "obj_token p3 = KEY_TOKEN" "obj_allocated p3"
      using g overlay_frame [OF p2] received_frame [of p2 len good p3] p1
      by (auto simp: gd_def split: if_splits)
    have res: "cps_api_receive_object E S fd len h x =
       (if good then Some (Some og, heap_set h1 og p3, x1)
        else map_option (\<lambda>h. (None, h, x1)) (cps_api_object_delete (heap_set h1 og p3) (Some og)))"
      using False c(1,5) r True s p2 g
      by (simp add: cps_api_receive_object_def Let_def rm_def [symmetric] gd_def [symmetric])
    have "heap_wf (heap_set h1 og p3)"
      by (rule heap_set_wf [OF c(4,5)]) (use p3 p in auto)
    then show ?thesis using res del [OF p3] c(2,3) p3(1)
      by (cases good) (auto simp: heap_set_def)
  qed
qed (use assms(1) in \<open>simp add: cps_api_receive_object_def\<close>)

section \<open>Stream sockets\<close>

text \<open>
  What a connected stream socket promises. \<open>pending x fd\<close> are the bytes that have arrived for \<open>fd\<close>
  and were not read, \<open>peer x fd\<close> is the other end. A write appends to what the other end has to
  read; a read of no more than what has arrived takes it from the front.
\<close>

locale stream_sock =
  fixes S :: "'x sock_api" and pending :: "'x \<Rightarrow> int \<Rightarrow> bytes" and peer :: "'x \<Rightarrow> int \<Rightarrow> int option"
  assumes write_all: "peer x fd = Some g \<Longrightarrow> length bs < 2 ^ 31 \<Longrightarrow>
      \<exists>x'. sk_write S fd bs x = (int (length bs), x') \<and>
        pending x' = (pending x)(g := pending x g @ bs) \<and> peer x' = peer x"
    and read_all: "n \<le> length (pending x fd) \<Longrightarrow> n < 2 ^ 31 \<Longrightarrow> peer x fd \<noteq> None \<Longrightarrow>
      \<exists>x'. sk_read S fd n x = (int n, take n (pending x fd), x') \<and>
        pending x' = (pending x)(fd := drop n (pending x fd)) \<and> peer x' = peer x"
    and select_ready: "pending x fd \<noteq> [] \<Longrightarrow> peer x fd \<noteq> None \<Longrightarrow>
      \<exists>n x'. sk_select S fd sec usec x = (n, x') \<and> 0 < n \<and> pending x' = pending x \<and> peer x' = peer x"
begin

text \<open>\<open>sent fd g bs x x'\<close>: the step from \<open>x\<close> to \<open>x'\<close> wrote \<open>bs\<close>; \<open>taken\<close> is the same for a read.\<close>

definition sent :: "int \<Rightarrow> bytes \<Rightarrow> 'x \<Rightarrow> 'x \<Rightarrow> bool" where
  "sent g bs x x' \<longleftrightarrow> pending x' = (pending x)(g := pending x g @ bs) \<and> peer x' = peer x"

definition taken :: "int \<Rightarrow> bytes \<Rightarrow> 'x \<Rightarrow> 'x \<Rightarrow> bool" where
  "taken fd bs x x' \<longleftrightarrow> pending x fd = bs @ pending x' fd \<and>
     pending x' = (pending x)(fd := pending x' fd) \<and> peer x' = peer x"

lemma sent_trans: "sent g as x y \<Longrightarrow> sent g bs y z \<Longrightarrow> sent g (as @ bs) x z"
  by (auto simp: sent_def)

lemma taken_trans: "taken g as x y \<Longrightarrow> taken g bs y z \<Longrightarrow> taken g (as @ bs) x z"
  unfolding taken_def by (metis append.assoc fun_upd_same fun_upd_upd)

lemma write_sent:
  assumes "peer x fd = Some g" and "length bs < 2 ^ 31"
  obtains x' where "sk_write S fd bs x = (int (length bs), x')" and "sent g bs x x'"
  using write_all [OF assms] that by (auto simp: sent_def)

lemma read_taken:
  assumes "pending x fd = bs @ rest" and "length bs < 2 ^ 31" and "peer x fd \<noteq> None"
  obtains x' where "sk_read S fd (length bs) x = (int (length bs), bs, x')" and "taken fd bs x x'"
    and "pending x' fd = rest"
proof -
  obtain x' where "sk_read S fd (length bs) x = (int (length bs), bs, x')"
    "pending x' = (pending x)(fd := rest)" "peer x' = peer x"
    using read_all [of "length bs" x fd] assms by auto
  then show thesis using assms(1) by (intro that) (auto simp: taken_def)
qed

lemma send_header_ok:
  assumes "peer x fd = Some g" and "n < 2 ^ 32"
  obtains x' where "cps_api_send_header S fd op n x = (True, x')"
    and "sent g (hdr_bytes \<lparr>hdr_version = 0, hdr_len = n, hdr_operation = op\<rparr>) x x'"
proof -
  let ?b = "hdr_bytes \<lparr>hdr_version = 0, hdr_len = n, hdr_operation = op\<rparr>"
  obtain x' where "sk_write S fd ?b x = (int (length ?b), x')" "sent g ?b x x'"
    by (rule write_sent [OF assms(1), of ?b]) simp_all
  then show thesis using assms(2)
    by (intro that [of x']) (simp_all add: cps_api_send_header_def sizeof_hdr_def)
qed

lemma send_data_ok:
  assumes "peer x fd = Some g" and "length dat < 2 ^ 31"
  obtains x' where "cps_api_send_data S fd dat x = (True, x')" and "sent g dat x x'"
proof -
  obtain x' where "sk_write S fd dat x = (int (length dat), x')" "sent g dat x x'"
    by (rule write_sent [OF assms])
  then show thesis using assms(2)
    by (intro that [of x']) (simp_all add: cps_api_send_data_def to_int32_small)
qed

lemma sent_peer: "sent g bs x x' \<Longrightarrow> peer x' fd = peer x fd"
  by (simp add: sent_def)

lemma taken_peer: "taken g bs x x' \<Longrightarrow> peer x' fd = peer x fd"
  by (simp add: taken_def)

lemma send_one_object_ok:
  assumes "peer x fd = Some g" and "obj_wf T p xs" and "attrs_size T xs + 256 < 2 ^ 31"
  obtains x' where "cps_api_send_one_object S fd op (Some p) x = Some (True, x')"
    and "sent g (msg_wire op (obj_wire p)) x x'"
proof -
  have cap: "attrs_size T xs + 256 < obj_cap" using assms(3) by (simp add: obj_cap_def)
  note w = obj_wire_eq [OF assms(2) cap]
  obtain x1 where x1: "cps_api_send_header S fd op (length (obj_wire p)) x = (True, x1)"
    "sent g (hdr_bytes \<lparr>hdr_version = 0, hdr_len = length (obj_wire p), hdr_operation = op\<rparr>) x x1"
    using send_header_ok [OF assms(1), of "length (obj_wire p)" op] assms(3) w(2) by auto
  obtain x2 where x2: "sk_write S fd (obj_wire p) x1 = (int (length (obj_wire p)), x2)"
    "sent g (obj_wire p) x1 x2"
    using write_sent [of x1 fd g "obj_wire p"] sent_peer [OF x1(2)] assms(1,3) w(2) by auto
  have "cps_api_send_one_object S fd op (Some p) x = Some (True, x2)"
    using x1(1) x2(1) w(2-4) assms(3)
    by (auto simp: cps_api_send_one_object_def cps_api_send_object_def Let_def
        to_int32_small obj_wire_def)
  then show thesis using sent_trans [OF x1(2) x2(2)] by (intro that) (auto simp: msg_wire_def)
qed

lemma receive_header_ok:
  assumes "pending x fd = msg_wire op body @ rest" and "length body < 2 ^ 32" and "peer x fd \<noteq> None"
  obtains x' where "cps_api_receive_header S fd x = (Some (op, length body), x')"
    and "taken fd (hdr_bytes \<lparr>hdr_version = 0, hdr_len = length body, hdr_operation = op\<rparr>) x x'"
    and "pending x' fd = body @ rest"
proof -
  let ?h = "\<lparr>hdr_version = 0, hdr_len = length body, hdr_operation = op\<rparr>"
  obtain x' where "sk_read S fd 12 x = (12, hdr_bytes ?h, x')" "taken fd (hdr_bytes ?h) x x'"
    "pending x' fd = body @ rest"
    using read_taken [of x fd "hdr_bytes ?h" "body @ rest"] assms by (auto simp: msg_wire_def)
  moreover have "hdr_of_bytes (hdr_bytes ?h) = ?h" using assms(2) by (intro hdr_roundtrip) auto
  ultimately show thesis
    by (intro that) (auto simp: cps_api_receive_header_def sizeof_hdr_def Let_def)
qed

lemma receive_data_ok:
  assumes "pending x fd = bs @ rest" and "length bs < 2 ^ 31" and "peer x fd \<noteq> None"
    and "length old = length bs"
  obtains x' where "cps_api_receive_data S fd old x = Some (True, bs, x')" and "taken fd bs x x'"
    and "pending x' fd = rest"
proof -
  obtain x' where "sk_read S fd (length bs) x = (int (length bs), bs, x')" "taken fd bs x x'"
    "pending x' fd = rest"
    by (rule read_taken [OF assms(1-3)])
  then show thesis using assms(2,4)
    by (intro that [of x']) (simp_all add: cps_api_receive_data_def memcpy_def to_int32_small)
qed

lemma receive_object_ok:
  assumes "pending x fd = obj_wire p @ rest" and "peer x fd \<noteq> None" and "std_tlv T" and "obj_wf T p xs"
    and "attrs_size T xs + 256 < 2 ^ 31" and "heap_wf h" and "\<forall>n. alloc_ok E n"
  obtains og q h' x' where
    "cps_api_receive_object E S fd (length (obj_wire p)) h x = Some (Some og, h', x')"
    and "hp_objs h og = None" and "hp_objs h' = (hp_objs h)(og \<mapsto> q)" and "heap_wf h'"
    and "obj_wf T q xs" and "obj_key q = obj_key p" and "obj_ref_count q = 1"
    and "taken fd (obj_wire p) x x'" and "pending x' fd = rest"
proof -
  let ?l = "attrs_size T xs + 256"
  have cap: "?l < obj_cap" "?l + 256 < size_lim" using assms(5) by (simp_all add: obj_cap_def size_lim_def)
  note w = obj_wire_eq(2) [OF assms(4) cap(1)]
  obtain og h1 p0 where c: "cps_api_object_create E h = Some (og, h1)" "hp_objs h og = None"
    "hp_objs h1 = (hp_objs h)(og \<mapsto> p0)" "heap_wf h1" "hp_objs h1 og = Some p0"
    and p: "obj_ref_count p0 = 1" "obj_token p0 = KEY_TOKEN" "obj_allocated p0"
    "length (obj_key p0) = 64" "length (obj_buf p0) = obj_len p0" "obj_len p0 = DEF_OBJECT_SIZE"
    by (rule receive_room [OF assms(6)]) (use assms(7) in auto)
  define rm where "rm = (if cps_api_object_get_reserve_len p0 < ?l
     then cps_api_object_reserve E p0 ?l else (True, p0))"
  have "fst rm" using reserve_grants [OF p(3), of E ?l] assms(7) cap(2) by (auto simp: rm_def)
  then obtain p1 where r: "rm = (True, p1)" by (cases rm) auto
  have p1: "obj_ref_count p1 = 1" "obj_token p1 = KEY_TOKEN" "obj_allocated p1" "length (obj_key p1) = 64"
    using r reserve_frame [of E p0 ?l True p1] p by (auto simp: rm_def split: if_splits)
  have room: "length (obj_buf p1) = obj_len p1" "?l \<le> obj_len p1" "obj_len p1 < obj_cap"
    using r p(5,6) cap reserve_grows [of E p0 ?l p1]
    by (auto simp: rm_def cps_api_object_get_reserve_len_def DEF_OBJECT_SIZE_def obj_cap_def split: if_splits)
  obtain x' where s: "sk_read S fd ?l x = (int ?l, obj_wire p, x')" "taken fd (obj_wire p) x x'"
    "pending x' fd = rest"
    using read_taken [OF assms(1) _ assms(2)] w assms(5) by auto
  obtain p2 p3 where q: "obj_overlay p1 (obj_wire p) = Some p2"
    "cps_api_object_received p2 ?l = (True, p3)" "obj_wf T p3 xs" "obj_key p3 = obj_key p"
    "obj_ref_count p3 = 1" "obj_token p3 = KEY_TOKEN" "obj_allocated p3"
    using overlay_wire [OF assms(3,4) cap(1) p1(4) room] w p1 by auto
  have "cps_api_receive_object E S fd ?l h x = Some (Some og, heap_set h1 og p3, x')"
    using c(1,5) r s(1) q(1,2) assms(5)
    by (simp add: cps_api_receive_object_def rm_def [symmetric] to_int32_small)
  moreover have "heap_wf (heap_set h1 og p3)"
    by (rule heap_set_wf [OF c(4,5)]) (use q p in auto)
  ultimately show thesis using c(2,3) q s(2,3)
    by (intro that [of og "heap_set h1 og p3" x' p3]) (auto simp: w heap_set_def)
qed

lemma recv_one_object_ok:
  assumes "pending x fd = msg_wire op (obj_wire p) @ rest" and "peer x fd \<noteq> None" and "std_tlv T"
    and "obj_wf T p xs" and "attrs_size T xs + 256 < 2 ^ 31" and "heap_wf h" and "\<forall>n. alloc_ok E n"
  obtains og q h' x' where "cps_api_recv_one_object E S fd op v h x = Some (Some og, True, h', x')"
    and "hp_objs h og = None" and "hp_objs h' = (hp_objs h)(og \<mapsto> q)" and "heap_wf h'"
    and "obj_wf T q xs" and "obj_key q = obj_key p" and "obj_ref_count q = 1"
    and "taken fd (msg_wire op (obj_wire p)) x x'" and "pending x' fd = rest"
proof -
  have l: "length (obj_wire p) = attrs_size T xs + 256"
    using obj_wire_eq(2) [OF assms(4)] assms(5) by (simp add: obj_cap_def)
  obtain x1 where x1: "cps_api_receive_header S fd x = (Some (op, length (obj_wire p)), x1)"
    "taken fd (hdr_bytes \<lparr>hdr_version = 0, hdr_len = length (obj_wire p), hdr_operation = op\<rparr>) x x1"
    "pending x1 fd = obj_wire p @ rest"
    by (rule receive_header_ok [OF assms(1) _ assms(2)]) (use l assms(5) in auto)
  have pe: "peer x1 fd \<noteq> None" using assms(2) taken_peer [OF x1(2)] by simp
  obtain og q h' x' where r:
    "cps_api_receive_object E S fd (length (obj_wire p)) h x1 = Some (Some og, h', x')"
    "hp_objs h og = None" "hp_objs h' = (hp_objs h)(og \<mapsto> q)" "heap_wf h'" "obj_wf T q xs"
    "obj_key q = obj_key p" "obj_ref_count q = 1" "taken fd (obj_wire p) x1 x'" "pending x' fd = rest"
    by (rule receive_object_ok [OF x1(3) pe assms(3-7)])
  have "cps_api_recv_one_object E S fd op v h x = Some (Some og, True, h', x')"
    using x1(1) r(1) l by (simp add: cps_api_recv_one_object_def)
  then show thesis using r taken_trans [OF x1(2) r(8)]
    by (intro that [of og h' x' q]) (auto simp: msg_wire_def)
qed

lemma timeout_wait_ok:
  assumes "pending x fd \<noteq> []" and "peer x fd \<noteq> None"
  obtains x' where "cps_api_timeout_wait S fd t x = (cps_api_ret_code_OK, x')" and "pending x' = pending x"
    and "peer x' = peer x"
  using select_ready [OF assms, of "t div 1000" "(t mod 1000) * 1000"] that
  by (auto simp: cps_api_timeout_wait_def)

lemma sent_taken:
  assumes "sent g bs x x1" and "taken g bs x1 x2" and "pending x g = []"
  shows "pending x2 = pending x" and "peer x2 = peer x"
  using assms by (auto simp: sent_def taken_def)

end

section \<open>A pair of connected sockets\<close>

text \<open>
  An instance: end points numbered in pairs, \<open>2 * k\<close> with \<open>2 * k + 1\<close>, and a queue of bytes for each.
\<close>

record pipe_net =
  pn_in :: "int \<Rightarrow> bytes"
  pn_time :: u64

definition pipe_peer :: "pipe_net \<Rightarrow> int \<Rightarrow> int option" where
  "pipe_peer x fd = (if fd < 0 then None else Some (if even fd then fd + 1 else fd - 1))"

definition pipe_sock :: "pipe_net sock_api" where
  "pipe_sock = \<lparr>
     sk_connect = (\<lambda>_ x. (Some 0, x)),
     sk_write = (\<lambda>fd bs x. case pipe_peer x fd of
        None \<Rightarrow> (-1, x)
      | Some g \<Rightarrow> (int (length bs), x\<lparr>pn_in := (pn_in x)(g := pn_in x g @ bs)\<rparr>)),
     sk_read = (\<lambda>fd n x. (int (length (take n (pn_in x fd))), take n (pn_in x fd),
        x\<lparr>pn_in := (pn_in x)(fd := drop n (pn_in x fd))\<rparr>)),
     sk_select = (\<lambda>fd _ _ x. (if pn_in x fd = [] then 0 else 1, x)),
     sk_close = (\<lambda>fd x. x),
     sk_uptime = (\<lambda>x. (pn_time x, x))\<rparr>"

interpretation pipe: stream_sock pipe_sock pn_in pipe_peer
  by unfold_locales (auto simp: pipe_sock_def pipe_peer_def)

definition pipe_start :: pipe_net where
  "pipe_start = \<lparr>pn_in = (\<lambda>_. []), pn_time = 0\<rparr>"

section \<open>Messages\<close>

text \<open>
  \<^bold>\<open>C20.\<close> An object sent as one message arrives as a new object with the same key and the same
  attributes in the same order, on every connected stream socket. The receiver reads the message and
  nothing else, so that the next message starts where this one ended.
\<close>

theorem object_message_roundtrip:
  assumes "stream_sock S pending peer" and "std_tlv T" and "peer x fd = Some g" and "peer x g \<noteq> None"
    and "pending x g = []" and "obj_wf T p xs" and "attrs_size T xs + 256 < 2 ^ 31" and "heap_wf h"
    and "\<forall>n. alloc_ok E n"
  shows "\<exists>x1 a q h' x2. cps_api_send_one_object S fd op (Some p) x = Some (True, x1) \<and>
     cps_api_recv_one_object E S g op v h x1 = Some (Some a, True, h', x2) \<and>
     hp_objs h a = None \<and> hp_objs h' = (hp_objs h)(a \<mapsto> q) \<and>
     obj_wf T q xs \<and> obj_key q = obj_key p \<and> obj_ref_count q = 1 \<and> pending x2 = pending x"
proof -
  note st = assms(1)
  obtain x1 where x1: "cps_api_send_one_object S fd op (Some p) x = Some (True, x1)"
    "stream_sock.sent pending peer g (msg_wire op (obj_wire p)) x x1"
    by (rule stream_sock.send_one_object_ok [OF st assms(3,6,7)])
  have pd: "pending x1 g = msg_wire op (obj_wire p) @ []" "peer x1 g \<noteq> None"
    using x1(2) assms(4,5) by (simp_all add: stream_sock.sent_def [OF st])
  show ?thesis
    by (rule stream_sock.recv_one_object_ok [OF st pd assms(2,6-9), of v])
      (use x1 stream_sock.sent_taken(1) [OF st x1(2) _ assms(5)] in blast)
qed

theorem object_message_roundtrip_witness:
  "\<exists>x1 a q h' x2. cps_api_send_one_object pipe_sock 4 cps_api_msg_o_GET (Some demo_obj) pipe_start = Some (True, x1) \<and>
     cps_api_recv_one_object libc_ok pipe_sock 5 cps_api_msg_o_GET False empty_heap x1 = Some (Some a, True, h', x2) \<and>
     hp_objs empty_heap a = None \<and> hp_objs h' = (hp_objs empty_heap)(a \<mapsto> q) \<and>
     obj_wf tlv16 q [(5, [9])] \<and> obj_key q = obj_key demo_obj \<and> obj_ref_count q = 1 \<and> pn_in x2 = pn_in pipe_start"
  by (rule object_message_roundtrip [OF pipe.stream_sock_axioms tlv16.std_tlv_axioms _ _ _ demo_obj_wf _ heap_wf_empty])
    (simp_all add: pipe_peer_def pipe_start_def demo_sizes)

text \<open>
  \<^bold>\<open>C21.\<close> Whatever the socket library answers (an error, an early end of the stream, too few bytes) as
  long as it stores no more than it was asked for, receiving an object returns: either one new object
  with one reference, or \<open>NULL\<close> and exactly the objects that were there before. No failure leaks an
  object or writes outside one.
\<close>

theorem receive_object_no_leak:
  assumes "heap_wf h" and "alloc_ok E sizeof_object_internal"
    and "alloc_ok E (sizeof_object_data + DEF_OBJECT_SIZE)"
    and "length (fst (snd (sk_read S fd len x))) \<le> len"
  shows "\<exists>r h' x'. cps_api_receive_object E S fd len h x = Some (r, h', x') \<and> heap_wf h' \<and>
     (case r of None \<Rightarrow> hp_objs h' = hp_objs h
      | Some a \<Rightarrow> \<exists>q. hp_objs h a = None \<and> hp_objs h' = (hp_objs h)(a \<mapsto> q) \<and> obj_ref_count q = 1)"
  by (rule receive_object_cases [OF assms(1-3)]) (use assms(4) in simp)

theorem receive_object_no_leak_witness:
  "\<exists>r h' x'. cps_api_receive_object libc_ok pipe_sock 5 300 empty_heap pipe_start = Some (r, h', x') \<and> heap_wf h' \<and>
     (case r of None \<Rightarrow> hp_objs h' = hp_objs empty_heap
      | Some a \<Rightarrow> \<exists>q. hp_objs empty_heap a = None \<and> hp_objs h' = (hp_objs empty_heap)(a \<mapsto> q) \<and> obj_ref_count q = 1)"
  by (rule receive_object_no_leak [OF heap_wf_empty]) (simp_all add: pipe_sock_def)

end
