(* ===== verification/Cps_Client_Ipc.thy ===== *)
theory Cps_Client_Ipc
  imports Cps_Channel_Proofs
begin

text \<open>
  The client's side of a request to a service (\<open>src/cps_api_client_ipc.cpp\<close>) and its look up of the
  owner of a key (\<open>cps_api_find_owners\<close> in \<open>src/cps_ns.cpp\<close>): the cache of owners with its expiry,
  and the conversations of get, commit, roll back and statistics.

  The state is the cache of owners and the state of the sockets. The address of a service is a block of
  bytes of a size the socket library fixes; that size and the address of the name server are
  parameters. Uninitialised memory on the stack holds the same unknown bytes as fresh heap memory.
\<close>

section \<open>State\<close>

record cps_api_object_owner_reg_t =
  reg_key :: cps_api_key_t
  reg_addr :: bytes

record cache_entry =
  ce_owner :: cps_api_object_owner_reg_t
  ce_last_updated :: u64

record ipc_env =
  ie_env :: cps_env
  ie_addr_size :: nat
  ie_ns_addr :: bytes

record 'x ipc_state =
  is_cache :: "cache_entry cache"
  is_net :: 'x

abbreviation ie_libc :: "ipc_env \<Rightarrow> libc" where "ie_libc K \<equiv> en_libc (ie_env K)"
abbreviation ie_hash :: "ipc_env \<Rightarrow> u64 \<Rightarrow> u64" where "ie_hash K \<equiv> en_hash (ie_env K)"
abbreviation ie_tlv :: "ipc_env \<Rightarrow> std_tlv_api" where "ie_tlv K \<equiv> en_tlv (ie_env K)"

definition sizeof_owner :: "ipc_env \<Rightarrow> nat" where
  "sizeof_owner K = sizeof_key + ie_addr_size K"

definition owner_bytes :: "cps_api_object_owner_reg_t \<Rightarrow> bytes" where
  "owner_bytes r = key_bytes (reg_key r) @ reg_addr r"

definition owner_of_bytes :: "bytes \<Rightarrow> cps_api_object_owner_reg_t" where
  "owner_of_bytes bs = \<lparr>reg_key = key_of_bytes bs, reg_addr = drop sizeof_key bs\<rparr>"

text \<open>Whether \<open>insert\<close> of a cache gets the memory for its copy of the key.\<close>

definition key_mem_ok :: "libc \<Rightarrow> cps_api_key_t \<Rightarrow> bool" where
  "key_mem_ok E key \<longleftrightarrow> (case cps_api_key_get_len_in_bytes key of
     None \<Rightarrow> False | Some b \<Rightarrow> alloc_ok E (b + CPS_OBJ_KEY_HEADER_SIZE))"

section \<open>The cache of owners\<close>

definition fill_cache ::
  "ipc_env \<Rightarrow> 'x sock_api \<Rightarrow> cps_api_key_t \<Rightarrow> cps_api_object_owner_reg_t \<Rightarrow> 'x ipc_state \<Rightarrow>
     'x ipc_state option" where
  "fill_cache K S key owner s = do {
     c \<leftarrow> cache_erase (ie_hash K) (is_cache s) key;
     let (now, x) = sk_uptime S (is_net s);
     let ce = \<lparr>ce_owner = owner, ce_last_updated = now\<rparr>;
     (_, c) \<leftarrow> cache_insert (ie_hash K) (key_mem_ok (ie_libc K) key) c key ce True;
     Some (s\<lparr>is_cache := c, is_net := x\<rparr>)
   }"

definition cps_api_connect_owner ::
  "'x sock_api \<Rightarrow> cps_api_object_owner_reg_t \<Rightarrow> 'x \<Rightarrow> cps_api_return_code_t \<times> int option \<times> 'x" where
  "cps_api_connect_owner S own x =
     (case sk_connect S (reg_addr own) x of
        (None, x) \<Rightarrow> (cps_api_ret_code_SERVICE_CONNECT_FAIL, None, x)
      | (Some handle, x) \<Rightarrow> (cps_api_ret_code_OK, Some handle, x))"

definition CACHE_TM :: u64 where
  "CACHE_TM = 1000 * 1000 * 20"

text \<open>\<open>cache_connect\<close>: \<open>Some None\<close> is the C++ \<open>false\<close>.\<close>

definition cache_connect ::
  "ipc_env \<Rightarrow> 'x sock_api \<Rightarrow> cps_api_key_t \<Rightarrow> 'x ipc_state \<Rightarrow> (int option \<times> 'x ipc_state) option" where
  "cache_connect K S key s = do {
     e \<leftarrow> cache_find (ie_hash K) (is_cache s) key True;
     (case e of
        None \<Rightarrow> Some (None, s)
      | Some ce \<Rightarrow> do {
          let (now, x) = sk_uptime S (is_net s);
          let expired = (now - ce_last_updated ce > CACHE_TM);
          let (rc, handle, x) = (if expired then (cps_api_ret_code_ERR, None, x)
                                 else cps_api_connect_owner S (ce_owner ce) x);
          let s = s\<lparr>is_net := x\<rparr>;
          if \<not> expired \<and> rc = cps_api_ret_code_OK then Some (handle, s)
          else do {
            c \<leftarrow> cache_erase (ie_hash K) (is_cache s) key;
            Some (None, s\<lparr>is_cache := c\<rparr>)
          }
        })
   }"

text \<open>The conversation with the name server on a connected socket, and the answer it reads.\<close>

definition find_owners_recv ::
  "ipc_env \<Rightarrow> 'x sock_api \<Rightarrow> int \<Rightarrow> 'x \<Rightarrow> (cps_api_object_owner_reg_t option \<times> 'x) option" where
  "find_owners_recv K S sock x =
     (case cps_api_receive_header S sock x of
        (None, x) \<Rightarrow> Some (None, x)
      | (Some (op, len), x) \<Rightarrow>
          if len \<noteq> sizeof_owner K then
            if op = cps_api_ns_r_RETURN_CODE then do {
              (_, _, x) \<leftarrow> cps_api_receive_data S sock (fresh_bytes (ie_libc K) 0 4) x;
              Some (None, x)
            }
            else Some (None, x)
          else do {
            (ok, mem, x) \<leftarrow> cps_api_receive_data S sock (fresh_bytes (ie_libc K) 0 (sizeof_owner K)) x;
            Some (if ok then Some (owner_of_bytes mem) else None, x)
          })"

definition find_owners_talk ::
  "ipc_env \<Rightarrow> 'x sock_api \<Rightarrow> int \<Rightarrow> cps_api_key_t \<Rightarrow> 'x \<Rightarrow>
     (cps_api_object_owner_reg_t option \<times> 'x) option" where
  "find_owners_talk K S sock key x =
     (case cps_api_send_key_request S sock cps_api_ns_r_QUERY key x of
        (False, x) \<Rightarrow> Some (None, x)
      | (True, x) \<Rightarrow> find_owners_recv K S sock x)"

definition cps_api_find_owners ::
  "ipc_env \<Rightarrow> 'x sock_api \<Rightarrow> cps_api_key_t \<Rightarrow> 'x \<Rightarrow> (cps_api_object_owner_reg_t option \<times> 'x) option" where
  "cps_api_find_owners K S key x =
     (case sk_connect S (ie_ns_addr K) x of
        (None, x) \<Rightarrow> Some (None, x)
      | (Some sock, x) \<Rightarrow> do {
          (owner, x) \<leftarrow> find_owners_talk K S sock key x;
          Some (owner, sk_close S sock x)
        })"

definition cps_api_is_registered ::
  "ipc_env \<Rightarrow> 'x sock_api \<Rightarrow> cps_api_key_t \<Rightarrow> 'x \<Rightarrow> (bool \<times> 'x) option" where
  "cps_api_is_registered K S key x = do {
     (owner, x) \<leftarrow> cps_api_find_owners K S key x;
     Some (owner \<noteq> None, x)
   }"

definition cps_api_ns_create_handle :: "ipc_env \<Rightarrow> 'x sock_api \<Rightarrow> 'x \<Rightarrow> int option \<times> 'x" where
  "cps_api_ns_create_handle K S x = sk_connect S (ie_ns_addr K) x"

definition cps_api_ns_register ::
  "ipc_env \<Rightarrow> 'x sock_api \<Rightarrow> int \<Rightarrow> cps_api_object_owner_reg_t \<Rightarrow> 'x \<Rightarrow> bool \<times> 'x" where
  "cps_api_ns_register K S handle reg x =
     (case cps_api_send_header S handle cps_api_ns_r_ADD (sizeof_owner K) x of
        (False, x) \<Rightarrow> (False, x)
      | (True, x) \<Rightarrow> cps_api_send_data S handle (owner_bytes reg) x)"

definition cps_api_get_handle ::
  "ipc_env \<Rightarrow> 'x sock_api \<Rightarrow> cps_api_key_t \<Rightarrow> 'x ipc_state \<Rightarrow> (int option \<times> 'x ipc_state) option" where
  "cps_api_get_handle K S key s = do {
     (handle, s) \<leftarrow> cache_connect K S key s;
     if handle \<noteq> None then Some (handle, s)
     else do {
       (owner, x) \<leftarrow> cps_api_find_owners K S key (is_net s);
       let s = s\<lparr>is_net := x\<rparr>;
       (case owner of
          None \<Rightarrow> Some (None, s)
        | Some owner \<Rightarrow> do {
            let (rc, handle, x) = cps_api_connect_owner S owner (is_net s);
            let s = s\<lparr>is_net := x\<rparr>;
            if rc = cps_api_ret_code_OK then do {
              s \<leftarrow> fill_cache K S key owner s;
              Some (handle, s)
            }
            else Some (None, s)
          })
     }
   }"

section \<open>Get\<close>

text \<open>
  One round of the loop that collects the answers: whether the loop goes on, the return code, the last
  operation received (\<open>None\<close> as long as \<open>op_valid\<close> is false) and the list of results.
\<close>

definition get_resp_step ::
  "ipc_env \<Rightarrow> 'x sock_api \<Rightarrow> int \<Rightarrow> nat \<Rightarrow> cps_api_return_code_t \<Rightarrow> u32 option \<Rightarrow> obj_list \<Rightarrow> obj_heap \<Rightarrow>
     'x \<Rightarrow> (bool \<times> cps_api_return_code_t \<times> u32 option \<times> obj_list \<times> obj_heap \<times> 'x) option" where
  "get_resp_step K S handle timeout rc op list h x = do {
     let (rc, x) = (if timeout > 0 then cps_api_timeout_wait S handle timeout x else (rc, x));
     if timeout > 0 \<and> rc \<noteq> cps_api_ret_code_OK then Some (False, rc, op, list, h, x)
     else
       (case cps_api_receive_header S handle x of
          (None, x) \<Rightarrow> Some (False, rc, op, list, h, x)
        | (Some (op, len), x) \<Rightarrow>
            if op = cps_api_msg_o_RETURN_CODE then do {
              (_, mem, x) \<leftarrow> cps_api_receive_data S handle (rc_bytes rc) x;
              Some (False, rc_of_bytes mem, Some op, list, h, x)
            }
            else if op \<noteq> cps_api_msg_o_GET_RESP then Some (False, rc, Some op, list, h, x)
            else do {
              (og, h, x) \<leftarrow> cps_api_receive_object (ie_libc K) S handle len h x;
              if og = None then Some (False, rc, Some op, list, h, x)
              else
                (case cps_api_object_list_append (ie_libc K) list og of
                   (True, list) \<Rightarrow> Some (True, rc, Some op, list, h, x)
                 | (False, list) \<Rightarrow> do {
                     h \<leftarrow> cps_api_object_delete h og;
                     Some (False, rc, Some op, list, h, x)
                   })
            })
   }"

partial_function (option) get_resp_loop ::
  "ipc_env \<Rightarrow> 'x sock_api \<Rightarrow> int \<Rightarrow> nat \<Rightarrow> cps_api_return_code_t \<Rightarrow> u32 option \<Rightarrow> obj_list \<Rightarrow> obj_heap \<Rightarrow>
     'x \<Rightarrow> (cps_api_return_code_t \<times> u32 option \<times> obj_list \<times> obj_heap \<times> 'x) option" where
  "get_resp_loop K S handle timeout rc op list h x = do {
     (again, rc, op, list, h, x) \<leftarrow> get_resp_step K S handle timeout rc op list h x;
     if again then get_resp_loop K S handle timeout rc op list h x else Some (rc, op, list, h, x)
   }"

definition cps_api_process_get_request ::
  "ipc_env \<Rightarrow> 'x sock_api \<Rightarrow> cps_api_get_params_t \<Rightarrow> nat \<Rightarrow> 'x ipc_state cps_world \<Rightarrow>
     (cps_api_return_code_t \<times> cps_api_get_params_t \<times> 'x ipc_state cps_world) option" where
  "cps_api_process_get_request K S param ix w = do {
     filters \<leftarrow> gp_filters param;
     a \<leftarrow> cps_api_object_list_get filters ix;
     p \<leftarrow> hp_objs (w_heap w) a;
     (handle, s) \<leftarrow> cps_api_get_handle K S (obj_key p) (w_ext w);
     (case handle of
        None \<Rightarrow> Some (cps_api_ret_code_NO_SERVICE, param, w\<lparr>w_ext := s\<rparr>)
      | Some handle \<Rightarrow> do {
          (ok, x) \<leftarrow> cps_api_send_one_object S handle cps_api_msg_o_GET (Some p) (is_net s);
          (rc, op, list, h, x) \<leftarrow>
            (if \<not> ok then Some (cps_api_ret_code_ERR, None, gp_list param, w_heap w, x)
             else get_resp_loop K S handle (gp_timeout param) cps_api_ret_code_ERR None (gp_list param)
               (w_heap w) x);
          let rc = (if op = Some cps_api_msg_o_GET_DONE then cps_api_ret_code_OK else rc);
          let x = cps_api_disconnect_owner S handle x;
          Some (rc, param\<lparr>gp_list := list\<rparr>, \<lparr>w_heap = h, w_ext = s\<lparr>is_net := x\<rparr>\<rparr>)
        })
   }"

section \<open>Commit\<close>

definition heap_swap :: "obj_heap \<Rightarrow> nat \<Rightarrow> nat \<Rightarrow> obj_heap option" where
  "heap_swap h a b = do {
     p \<leftarrow> hp_objs h a;
     q \<leftarrow> hp_objs h b;
     let (p, q) = cps_api_object_swap p q;
     Some (heap_set (heap_set h a p) b q)
   }"

text \<open>
  The previous object of an answer, \<open>if (len>0)\<close>: the flag tells that the conversation is left with an
  error. The guard deletes the received object unless the list of the transaction took it.
\<close>

definition commit_recv_prev ::
  "ipc_env \<Rightarrow> 'x sock_api \<Rightarrow> int \<Rightarrow> nat \<Rightarrow> nat \<Rightarrow> obj_ptr \<Rightarrow> cps_api_return_code_t \<Rightarrow>
     cps_api_transaction_params_t \<Rightarrow> obj_heap \<Rightarrow> 'x \<Rightarrow>
     (bool \<times> cps_api_return_code_t \<times> cps_api_transaction_params_t \<times> obj_heap \<times> 'x) option" where
  "commit_recv_prev K S handle len ix pre rc param h x =
     (if len = 0 then Some (False, rc, param, h, x)
      else do {
        (og, h, x) \<leftarrow> cps_api_receive_object (ie_libc K) S handle len h x;
        (case og of
           None \<Rightarrow> Some (True, rc, param, h, x)
         | Some b \<Rightarrow>
             (case pre of
                None \<Rightarrow> do {
                  (ok, prev, h) \<leftarrow> cps_api_object_list_set (ie_libc K) h (tr_prev param) ix (Some b) True;
                  let param = param\<lparr>tr_prev := prev\<rparr>;
                  if ok then Some (False, cps_api_ret_code_OK, param, h, x)
                  else map_option (\<lambda>h. (False, rc, param, h, x)) (cps_api_object_delete h (Some b))
                }
              | Some pa \<Rightarrow> do {
                  q \<leftarrow> hp_objs h b;
                  n \<leftarrow> cps_api_key_get_len (obj_key q);
                  h \<leftarrow> (if n > 0 then heap_swap h pa b else Some h);
                  h \<leftarrow> cps_api_object_delete h (Some b);
                  Some (False, cps_api_ret_code_OK, param, h, x)
                }))
      })"

text \<open>
  The answer that carries the changed object: it replaces the contents of the caller's object, the
  previous object follows, and a return code stored in the object overrides the result.
\<close>

definition commit_recv_objects ::
  "ipc_env \<Rightarrow> 'x sock_api \<Rightarrow> int \<Rightarrow> nat \<Rightarrow> nat \<Rightarrow> nat \<Rightarrow> obj_ptr \<Rightarrow> cps_api_return_code_t \<Rightarrow>
     cps_api_transaction_params_t \<Rightarrow> obj_heap \<Rightarrow> 'x \<Rightarrow>
     (cps_api_return_code_t \<times> cps_api_transaction_params_t \<times> obj_heap \<times> 'x) option" where
  "commit_recv_objects K S handle len ix obj pre rc param h x = do {
     (og, h, x) \<leftarrow> cps_api_receive_object (ie_libc K) S handle len h x;
     (case og of
        None \<Rightarrow> Some (rc, param, h, x)
      | Some a \<Rightarrow> do {
          h \<leftarrow> heap_swap h obj a;
          (rc, param, h, x) \<leftarrow>
            (case cps_api_receive_header S handle x of
               (None, x) \<Rightarrow> Some (rc, param, h, x)
             | (Some (op, len), x) \<Rightarrow>
                 if op \<noteq> cps_api_msg_o_COMMIT_OBJECT then Some (rc, param, h, x)
                 else do {
                   (left, rc, param, h, x) \<leftarrow> commit_recv_prev K S handle len ix pre rc param h x;
                   if left then Some (rc, param, h, x)
                   else do {
                     p \<leftarrow> hp_objs h obj;
                     r \<leftarrow> cps_api_object_return_code (ie_tlv K) p;
                     Some (case r of None \<Rightarrow> rc | Some v \<Rightarrow> to_int32 v, param, h, x)
                   }
                 });
          h \<leftarrow> cps_api_object_delete h (Some a);
          Some (rc, param, h, x)
        })
   }"

text \<open>What follows the two messages of the client.\<close>

definition commit_answer ::
  "ipc_env \<Rightarrow> 'x sock_api \<Rightarrow> int \<Rightarrow> nat \<Rightarrow> nat \<Rightarrow> obj_ptr \<Rightarrow> cps_api_transaction_params_t \<Rightarrow> obj_heap \<Rightarrow> 'x \<Rightarrow>
     (cps_api_return_code_t \<times> cps_api_transaction_params_t \<times> obj_heap \<times> 'x) option" where
  "commit_answer K S handle ix obj pre param h x = do {
     let (rc, x) = (if tr_timeout param > 0 then cps_api_timeout_wait S handle (tr_timeout param) x
                    else (cps_api_ret_code_OK, x));
     if rc \<noteq> cps_api_ret_code_OK then Some (rc, param, h, x)
     else do {
       let rc = cps_api_ret_code_ERR;
       (case cps_api_receive_header S handle x of
          (None, x) \<Rightarrow> Some (rc, param, h, x)
        | (Some (op, len), x) \<Rightarrow>
            if op = cps_api_msg_o_COMMIT_OBJECT then commit_recv_objects K S handle len ix obj pre rc param h x
            else if op = cps_api_msg_o_RETURN_CODE then do {
              (_, mem, x) \<leftarrow> cps_api_receive_data S handle (rc_bytes rc) x;
              Some (rc_of_bytes mem, param, h, x)
            }
            else Some (rc, param, h, x))
     }
   }"

definition cps_api_process_commit_request ::
  "ipc_env \<Rightarrow> 'x sock_api \<Rightarrow> cps_api_transaction_params_t \<Rightarrow> nat \<Rightarrow> 'x ipc_state cps_world \<Rightarrow>
     (cps_api_return_code_t \<times> cps_api_transaction_params_t \<times> 'x ipc_state cps_world) option" where
  "cps_api_process_commit_request K S param ix w =
     (case cps_api_object_list_get (tr_change_list param) ix of
        None \<Rightarrow> Some (cps_api_ret_code_ERR, param, w)
      | Some obj \<Rightarrow> do {
          let pre = cps_api_object_list_get (tr_prev param) ix;
          p \<leftarrow> hp_objs (w_heap w) obj;
          (handle, s) \<leftarrow> cps_api_get_handle K S (obj_key p) (w_ext w);
          (case handle of
             None \<Rightarrow> Some (cps_api_ret_code_NO_SERVICE, param, w\<lparr>w_ext := s\<rparr>)
           | Some handle \<Rightarrow> do {
               (ok, x) \<leftarrow> cps_api_send_one_object S handle cps_api_msg_o_COMMIT_CHANGE (Some p) (is_net s);
               (ok, x) \<leftarrow>
                 (if \<not> ok then Some (False, x)
                  else do {
                    q \<leftarrow> (case pre of None \<Rightarrow> Some None | Some b \<Rightarrow> map_option Some (hp_objs (w_heap w) b));
                    cps_api_send_one_object S handle cps_api_msg_o_COMMIT_PREV q x
                  });
               (rc, param, h, x) \<leftarrow>
                 (if \<not> ok then Some (cps_api_ret_code_ERR, param, w_heap w, x)
                  else commit_answer K S handle ix obj pre param (w_heap w) x);
               let x = cps_api_disconnect_owner S handle x;
               Some (rc, param, \<lparr>w_heap = h, w_ext = s\<lparr>is_net := x\<rparr>\<rparr>)
             })
        })"

section \<open>Roll back\<close>

text \<open>The handle is closed by the call and once more by the guard.\<close>

definition cps_api_process_rollback_request ::
  "ipc_env \<Rightarrow> 'x sock_api \<Rightarrow> cps_api_transaction_params_t \<Rightarrow> nat \<Rightarrow> 'x ipc_state cps_world \<Rightarrow>
     (cps_api_return_code_t \<times> cps_api_transaction_params_t \<times> 'x ipc_state cps_world) option" where
  "cps_api_process_rollback_request K S param ix w =
     (case cps_api_object_list_get (tr_prev param) ix of
        None \<Rightarrow> Some (cps_api_ret_code_ERR, param, w)
      | Some obj \<Rightarrow> do {
          p \<leftarrow> hp_objs (w_heap w) obj;
          (handle, s) \<leftarrow> cps_api_get_handle K S (obj_key p) (w_ext w);
          (case handle of
             None \<Rightarrow> Some (cps_api_ret_code_NO_SERVICE, param, w\<lparr>w_ext := s\<rparr>)
           | Some handle \<Rightarrow> do {
               (ok, x) \<leftarrow> cps_api_send_one_object S handle cps_api_msg_o_REVERT (Some p) (is_net s);
               (rc, x) \<leftarrow>
                 (if \<not> ok then Some (cps_api_ret_code_ERR, x)
                  else
                    (case cps_api_receive_header S handle x of
                       (None, x) \<Rightarrow> Some (cps_api_ret_code_ERR, x)
                     | (Some (op, len), x) \<Rightarrow>
                         if op = cps_api_msg_o_RETURN_CODE then do {
                           (_, mem, x) \<leftarrow> cps_api_receive_data S handle (rc_bytes cps_api_ret_code_ERR) x;
                           Some (rc_of_bytes mem, x)
                         }
                         else Some (cps_api_ret_code_ERR, x)));
               let x = cps_api_disconnect_owner S handle x;
               let x = (if handle \<noteq> -1 then cps_api_disconnect_owner S handle x else x);
               Some (rc, param, w\<lparr>w_ext := s\<lparr>is_net := x\<rparr>\<rparr>)
             })
        })"

section \<open>Statistics\<close>

text \<open>
  \<open>cps_api_object_stats\<close> asks the owner of the key, or the name server without a key. When the object
  cannot be received the code returns \<open>false\<close>, which is the return code for success, and the
  handle stays open.
\<close>

definition stats_handle ::
  "ipc_env \<Rightarrow> 'x sock_api \<Rightarrow> cps_api_key_t option \<Rightarrow> 'x ipc_state \<Rightarrow>
     ((cps_api_return_code_t + int) \<times> 'x ipc_state) option" where
  "stats_handle K S key s = do {
     n \<leftarrow> (case key of None \<Rightarrow> Some 0 | Some k \<Rightarrow> cps_api_key_get_len k);
     (case key of
        Some k \<Rightarrow>
          if n \<noteq> 0 then do {
            (handle, s) \<leftarrow> cps_api_get_handle K S k s;
            Some (case handle of None \<Rightarrow> Inl cps_api_ret_code_NO_SERVICE | Some fd \<Rightarrow> Inr fd, s)
          }
          else
            (let (handle, x) = sk_connect S (ie_ns_addr K) (is_net s) in
             Some (case handle of None \<Rightarrow> Inl cps_api_ret_code_ERR | Some fd \<Rightarrow> Inr fd, s\<lparr>is_net := x\<rparr>))
      | None \<Rightarrow>
          (let (handle, x) = sk_connect S (ie_ns_addr K) (is_net s) in
           Some (case handle of None \<Rightarrow> Inl cps_api_ret_code_ERR | Some fd \<Rightarrow> Inr fd, s\<lparr>is_net := x\<rparr>)))
   }"

definition stats_talk ::
  "ipc_env \<Rightarrow> 'x sock_api \<Rightarrow> int \<Rightarrow> nat \<Rightarrow> obj_heap \<Rightarrow> 'x \<Rightarrow>
     (cps_api_return_code_t \<times> obj_heap \<times> 'x) option" where
  "stats_talk K S handle stats_obj h x =
     (case cps_api_send_header S handle cps_api_msg_o_STATS 0 x of
        (False, x) \<Rightarrow> Some (cps_api_ret_code_ERR, h, cps_api_disconnect_owner S handle x)
      | (True, x) \<Rightarrow>
          (case cps_api_receive_header S handle x of
             (None, x) \<Rightarrow> Some (cps_api_ret_code_ERR, h, cps_api_disconnect_owner S handle x)
           | (Some (op, len), x) \<Rightarrow>
               if op \<noteq> cps_api_msg_o_STATS then
                 Some (cps_api_ret_code_ERR, h, cps_api_disconnect_owner S handle x)
               else do {
                 (og, h, x) \<leftarrow> cps_api_receive_object (ie_libc K) S handle len h x;
                 (case og of
                    None \<Rightarrow> Some (0, h, x)
                  | Some a \<Rightarrow> do {
                      (ok, h) \<leftarrow> heap_clone (ie_libc K) h stats_obj a;
                      h \<leftarrow> cps_api_object_delete h (Some a);
                      Some (if ok then cps_api_ret_code_OK else cps_api_ret_code_ERR, h,
                        cps_api_disconnect_owner S handle x)
                    })
               }))"

definition cps_api_object_stats ::
  "ipc_env \<Rightarrow> 'x sock_api \<Rightarrow> cps_api_key_t option \<Rightarrow> nat \<Rightarrow> 'x ipc_state cps_world \<Rightarrow>
     (cps_api_return_code_t \<times> 'x ipc_state cps_world) option" where
  "cps_api_object_stats K S key stats_obj w = do {
     (handle, s) \<leftarrow> stats_handle K S key (w_ext w);
     (case handle of
        Inl rc \<Rightarrow> Some (rc, w\<lparr>w_ext := s\<rparr>)
      | Inr fd \<Rightarrow>
          if fd = -1 then Some (cps_api_ret_code_ERR, w\<lparr>w_ext := s\<rparr>)
          else do {
            (rc, h, x) \<leftarrow> stats_talk K S fd stats_obj (w_heap w) (is_net s);
            Some (rc, \<lparr>w_heap = h, w_ext = s\<lparr>is_net := x\<rparr>\<rparr>)
          })
   }"

end
