(* ===== verification/Cps_Service.thy ===== *)
theory Cps_Service
  imports Cps_Client_Ipc
begin

text \<open>
  The service side of requests (\<open>src/cps_api_operation_service.cpp\<close>): the table of registered
  handlers, the dispatch of a request to the handler of the longest matching key, the conversations
  that answer get, commit, roll back and statistics requests, the counters, and the registration of
  the keys with the name server.

  The handlers of an application are functions in the table; they may change the objects, the request
  and the state of the world in any way. The locks serialise the operations and are not modelled.
\<close>

section \<open>Counters\<close>

definition cps_api_obj_stat_e_OPERATIONS :: u64 where "cps_api_obj_stat_e_OPERATIONS = 8 * 2 ^ 16"
definition cps_api_obj_stat_BEGIN :: u64 where "cps_api_obj_stat_BEGIN = cps_api_obj_stat_e_OPERATIONS + 1"
definition cps_api_obj_stat_SET_MIN_TIME :: u64 where "cps_api_obj_stat_SET_MIN_TIME = cps_api_obj_stat_BEGIN"
definition cps_api_obj_stat_SET_MAX_TIME :: u64 where "cps_api_obj_stat_SET_MAX_TIME = cps_api_obj_stat_BEGIN + 1"
definition cps_api_obj_stat_SET_AVE_TIME :: u64 where "cps_api_obj_stat_SET_AVE_TIME = cps_api_obj_stat_BEGIN + 2"
definition cps_api_obj_stat_SET_COUNT :: u64 where "cps_api_obj_stat_SET_COUNT = cps_api_obj_stat_BEGIN + 3"
definition cps_api_obj_stat_GET_MIN_TIME :: u64 where "cps_api_obj_stat_GET_MIN_TIME = cps_api_obj_stat_BEGIN + 4"
definition cps_api_obj_stat_GET_MAX_TIME :: u64 where "cps_api_obj_stat_GET_MAX_TIME = cps_api_obj_stat_BEGIN + 5"
definition cps_api_obj_stat_GET_AVE_TIME :: u64 where "cps_api_obj_stat_GET_AVE_TIME = cps_api_obj_stat_BEGIN + 6"
definition cps_api_obj_stat_GET_COUNT :: u64 where "cps_api_obj_stat_GET_COUNT = cps_api_obj_stat_BEGIN + 7"
definition cps_api_obj_stat_NS_CONNECTS :: u64 where "cps_api_obj_stat_NS_CONNECTS = cps_api_obj_stat_BEGIN + 8"
definition cps_api_obj_stat_NS_DISCONNECTS :: u64 where "cps_api_obj_stat_NS_DISCONNECTS = cps_api_obj_stat_BEGIN + 9"
definition cps_api_obj_stat_SET_FAILED :: u64 where "cps_api_obj_stat_SET_FAILED = cps_api_obj_stat_BEGIN + 10"
definition cps_api_obj_stat_SET_INVALID :: u64 where "cps_api_obj_stat_SET_INVALID = cps_api_obj_stat_BEGIN + 11"
definition cps_api_obj_stat_GET_FAILED :: u64 where "cps_api_obj_stat_GET_FAILED = cps_api_obj_stat_BEGIN + 12"
definition cps_api_obj_stat_GET_INVALID :: u64 where "cps_api_obj_stat_GET_INVALID = cps_api_obj_stat_BEGIN + 13"
definition cps_api_obj_stat_KEY :: u64 where "cps_api_obj_stat_KEY = cps_api_obj_stat_BEGIN + 14"
definition cps_api_obj_stat_CLOSE_COUNT :: u64 where "cps_api_obj_stat_CLOSE_COUNT = cps_api_obj_stat_BEGIN + 15"
definition cps_api_obj_stat_CLOSE_CLEANUP_RUNS :: u64 where
  "cps_api_obj_stat_CLOSE_CLEANUP_RUNS = cps_api_obj_stat_BEGIN + 16"
definition cps_api_obj_stat_EVENT_SEND :: u64 where "cps_api_obj_stat_EVENT_SEND = cps_api_obj_stat_BEGIN + 17"
definition cps_api_obj_stat_PROCESS_ID :: u64 where "cps_api_obj_stat_PROCESS_ID = cps_api_obj_stat_BEGIN + 18"
definition cps_api_obj_stat_OBJECTS_ALLOCATED :: u64 where
  "cps_api_obj_stat_OBJECTS_ALLOCATED = cps_api_obj_stat_BEGIN + 19"
definition cps_api_obj_stat_MAX :: u64 where "cps_api_obj_stat_MAX = cps_api_obj_stat_BEGIN + 20"

definition cps_api_qualifier_OBSERVED :: u32 where "cps_api_qualifier_OBSERVED = 2"
definition cps_api_qualifier_REGISTRATION :: u32 where "cps_api_qualifier_REGISTRATION = 5"

type_synonym stats_t = "(u64 \<times> u64) list"

text \<open>Reading a missing counter through \<open>operator[]\<close> creates it with the value zero.\<close>

definition stat_exists :: "stats_t \<Rightarrow> u64 \<Rightarrow> bool" where
  "stat_exists st s \<longleftrightarrow> umap_find st s \<noteq> None"

definition get_stat :: "stats_t \<Rightarrow> u64 \<Rightarrow> u64 \<times> stats_t" where
  "get_stat st s = (case umap_find st s of None \<Rightarrow> (0, umap_set st s 0) | Some v \<Rightarrow> (v, st))"

definition set_stat :: "stats_t \<Rightarrow> u64 \<Rightarrow> u64 \<Rightarrow> stats_t" where
  "set_stat st s v = umap_set st s v"

definition inc_stat :: "stats_t \<Rightarrow> u64 \<Rightarrow> stats_t" where
  "inc_stat st s = (let (v, st) = get_stat st s in set_stat st s (v + 1))"

text \<open>
  The division \<open>(uint64_t)(tot/((double)cnt))\<close>: both operands and the quotient are rounded to 53
  significant bits, to the nearest and in a tie to the even neighbour, then the fraction is dropped.
  A quotient that does not fit, or a division by zero, has no defined conversion.
\<close>

fun bit_len :: "nat \<Rightarrow> nat" where
  "bit_len n = (if n = 0 then 0 else Suc (bit_len (n div 2)))"

declare bit_len.simps [simp del]

definition round_div :: "nat \<Rightarrow> nat \<Rightarrow> nat" where
  "round_div n d = (let q = n div d; r = n mod d in if 2 * r > d \<or> (2 * r = d \<and> odd q) then q + 1 else q)"

definition double_of_nat :: "nat \<Rightarrow> nat" where
  "double_of_nat n = (let s = bit_len n - 53 in round_div n (2 ^ s) * 2 ^ s)"

definition double_quotient :: "nat \<Rightarrow> nat \<Rightarrow> nat" where
  "double_quotient a b =
     (let l = bit_len (a div b) in
      if l \<ge> 53 then round_div a (b * 2 ^ (l - 53)) * 2 ^ (l - 53)
      else round_div (a * 2 ^ (53 - l)) b div 2 ^ (53 - l))"

definition ave_of :: "u64 \<Rightarrow> u64 \<Rightarrow> u64 option" where
  "ave_of tot cnt =
     (if cnt = 0 then None
      else
        (let q = double_quotient (double_of_nat (unat tot)) (double_of_nat (unat cnt)) in
         if q < 2 ^ 64 then Some (of_nat q) else None))"

definition make_ave :: "stats_t \<Rightarrow> u64 \<Rightarrow> u64 \<Rightarrow> u64 \<Rightarrow> stats_t option" where
  "make_ave st stat count val = do {
     let st = inc_stat st count;
     let (cnt, st) = get_stat st count;
     let (v, st) = get_stat st stat;
     a \<leftarrow> ave_of (v + val) cnt;
     Some (set_stat st stat a)
   }"

text \<open>
  \<open>Function_Timer\<close>: \<open>tm\<close> is the start time once \<open>start\<close> was called. \<open>timer_stop\<close> is the destructor,
  \<open>now\<close> the time it reads.
\<close>

record timer_stats =
  ts_min :: u64
  ts_max :: u64
  ts_ave :: u64
  ts_count :: u64

definition timer_stop :: "timer_stats \<Rightarrow> u64 option \<Rightarrow> u64 \<Rightarrow> stats_t \<Rightarrow> stats_t option" where
  "timer_stop ts tm now st =
     (case tm of
        None \<Rightarrow> Some (inc_stat st (ts_count ts))
      | Some tm \<Rightarrow> do {
          let diff = now - tm;
          st \<leftarrow> make_ave st (ts_ave ts) (ts_count ts) diff;
          let (mn, st) = get_stat st (ts_min ts);
          let st = (if mn = 0 \<or> diff < mn then set_stat st (ts_min ts) diff else st);
          let (mx, st) = get_stat st (ts_max ts);
          Some (if diff > mx then set_stat st (ts_max ts) diff else st)
        })"

definition get_timer :: timer_stats where
  "get_timer = \<lparr>ts_min = cps_api_obj_stat_GET_MIN_TIME, ts_max = cps_api_obj_stat_GET_MAX_TIME,
     ts_ave = cps_api_obj_stat_GET_AVE_TIME, ts_count = cps_api_obj_stat_GET_COUNT\<rparr>"

definition set_timer :: timer_stats where
  "set_timer = \<lparr>ts_min = cps_api_obj_stat_SET_MIN_TIME, ts_max = cps_api_obj_stat_SET_MAX_TIME,
     ts_ave = cps_api_obj_stat_SET_AVE_TIME, ts_count = cps_api_obj_stat_SET_COUNT\<rparr>"

section \<open>The table of handlers\<close>

record 'x cps_api_registration_functions_t =
  rf_key :: cps_api_key_t
  rf_read_function :: "(cps_api_get_params_t \<Rightarrow> nat \<Rightarrow> 'x cps_world \<Rightarrow>
     (cps_api_return_code_t \<times> cps_api_get_params_t \<times> 'x cps_world) option) option"
  rf_write_function :: "(cps_api_transaction_params_t \<Rightarrow> nat \<Rightarrow> 'x cps_world \<Rightarrow>
     (cps_api_return_code_t \<times> cps_api_transaction_params_t \<times> 'x cps_world) option) option"
  rf_rollback_function :: "(cps_api_transaction_params_t \<Rightarrow> nat \<Rightarrow> 'x cps_world \<Rightarrow>
     (cps_api_return_code_t \<times> cps_api_transaction_params_t \<times> 'x cps_world) option) option"

record 'x cps_api_operation_data_t =
  od_db_functions :: "'x cps_api_registration_functions_t list"
  od_ns_handle :: int
  od_address :: bytes
  od_stats :: stats_t

text \<open>The parts of the socket service library the code calls, beside the sockets.\<close>

record 'x svc_api =
  sv_sock :: "'x sock_api"
  sv_client_add :: "int \<Rightarrow> 'x \<Rightarrow> bool \<times> 'x"
  sv_init :: "'x \<Rightarrow> bool \<times> 'x"
  sv_run :: "'x \<Rightarrow> bool \<times> 'x"
  sv_destroy :: "'x \<Rightarrow> 'x"
  sv_pid :: u64

definition STD_INVALID_FD :: int where "STD_INVALID_FD = -1"

text \<open>
  \<open>insert_functions\<close>: the new entry goes before the first one whose key is a prefix of the new key,
  otherwise to the end.
\<close>

fun insert_functions ::
  "'x cps_api_registration_functions_t list \<Rightarrow> 'x cps_api_registration_functions_t \<Rightarrow>
     'x cps_api_registration_functions_t list option" where
  "insert_functions [] reg = Some [reg]"
| "insert_functions (it # its) reg = do {
     key_size \<leftarrow> cps_api_key_get_len (rf_key reg);
     m \<leftarrow> cps_api_key_matches (rf_key reg) (rf_key it) False;
     target_len \<leftarrow> cps_api_key_get_len (rf_key it);
     if m = 0 \<and> \<not> key_size < target_len then Some (reg # it # its)
     else map_option ((#) it) (insert_functions its reg)
   }"

text \<open>The loop that looks for the handler of a key; \<open>sel\<close> picks the function of an entry.\<close>

fun find_function ::
  "('x cps_api_registration_functions_t \<Rightarrow> 'f option) \<Rightarrow> cps_api_key_t \<Rightarrow>
     'x cps_api_registration_functions_t list \<Rightarrow> 'x cps_api_registration_functions_t option option" where
  "find_function sel key [] = Some None"
| "find_function sel key (p # ps) =
     (if sel p = None then find_function sel key ps
      else do {
        m \<leftarrow> cps_api_key_matches key (rf_key p) False;
        if m = 0 then Some (Some p) else find_function sel key ps
      })"

section \<open>Answering a get\<close>

fun send_results ::
  "'x sock_api \<Rightarrow> int \<Rightarrow> obj_heap \<Rightarrow> obj_list \<Rightarrow> 'x \<Rightarrow> (bool \<times> 'x) option" where
  "send_results S fd h [] x = Some (True, x)"
| "send_results S fd h (None # ps) x = send_results S fd h ps x"
| "send_results S fd h (Some a # ps) x = do {
     p \<leftarrow> hp_objs h a;
     (ok, x) \<leftarrow> cps_api_send_one_object S fd cps_api_msg_o_GET_RESP (Some p) x;
     if ok then send_results S fd h ps x else Some (False, x)
   }"

definition get_reply ::
  "'x sock_api \<Rightarrow> int \<Rightarrow> cps_api_return_code_t \<Rightarrow> obj_list \<Rightarrow> obj_heap \<Rightarrow> stats_t \<Rightarrow> 'x \<Rightarrow>
     (bool \<times> stats_t \<times> 'x) option" where
  "get_reply S fd rc l h st x =
     (if rc \<noteq> cps_api_ret_code_OK then
        (let st = inc_stat st cps_api_obj_stat_GET_FAILED;
             (ok, x) = cps_api_send_return_code S fd cps_api_msg_o_RETURN_CODE rc x
         in Some (ok, st, x))
      else do {
        (ok, x) \<leftarrow> send_results S fd h l x;
        if \<not> ok then Some (False, st, x)
        else (let (ok, x) = cps_api_send_header S fd cps_api_msg_o_GET_DONE 0 x in Some (ok, st, x))
      })"

text \<open>
  The body of \<open>cps_api_handle_get\<close> between the construction and the destruction of the timer; it also
  returns the start time of the timer. The guard closes the request at every exit.
\<close>

definition handle_get_body ::
  "ipc_env \<Rightarrow> 'x svc_api \<Rightarrow> 'x cps_api_operation_data_t \<Rightarrow> int \<Rightarrow> nat \<Rightarrow> stats_t \<Rightarrow> 'x cps_world \<Rightarrow>
     (bool \<times> u64 option \<times> stats_t \<times> 'x cps_world) option" where
  "handle_get_body K V d fd len st w = do {
     let S = sv_sock V;
     let (init_rc, param) = cps_api_get_request_init;
     if init_rc \<noteq> cps_api_ret_code_OK then Some (False, None, inc_stat st cps_api_obj_stat_GET_INVALID, w)
     else do {
       (flt, h, x) \<leftarrow> cps_api_receive_object (ie_libc K) S fd len (w_heap w) (w_ext w);
       (case flt of
          None \<Rightarrow> do {
            (_, h) \<leftarrow> cps_api_get_request_close param h;
            Some (False, None, inc_stat st cps_api_obj_stat_GET_INVALID, \<lparr>w_heap = h, w_ext = x\<rparr>)
          }
        | Some a \<Rightarrow> do {
            filters \<leftarrow> gp_filters param;
            (case cps_api_object_list_append (ie_libc K) filters (Some a) of
               (False, _) \<Rightarrow> do {
                 h \<leftarrow> cps_api_object_delete h (Some a);
                 (_, h) \<leftarrow> cps_api_get_request_close param h;
                 Some (False, None, inc_stat st cps_api_obj_stat_GET_INVALID, \<lparr>w_heap = h, w_ext = x\<rparr>)
               }
             | (True, filters) \<Rightarrow> do {
                 p \<leftarrow> hp_objs h a;
                 let param = param\<lparr>gp_filters := Some filters, gp_keys := [obj_key p]\<rparr>;
                 let w = \<lparr>w_heap = h, w_ext = x\<rparr>;
                 f \<leftarrow> find_function rf_read_function (obj_key p) (od_db_functions d);
                 (tm, rc, param, w) \<leftarrow>
                   (case f of
                      None \<Rightarrow> Some (None, cps_api_ret_code_ERR, param, w)
                    | Some reg \<Rightarrow> do {
                        fn \<leftarrow> rf_read_function reg;
                        let (now, x) = sk_uptime S (w_ext w);
                        (rc, param, w) \<leftarrow> fn param 0 (w\<lparr>w_ext := x\<rparr>);
                        Some (Some now, rc, param, w)
                      });
                 (ok, st, x) \<leftarrow> get_reply S fd rc (gp_list param) (w_heap w) st (w_ext w);
                 (_, h) \<leftarrow> cps_api_get_request_close param (w_heap w);
                 Some (ok, tm, st, \<lparr>w_heap = h, w_ext = x\<rparr>)
               })
          })
     }
   }"

text \<open>The destructor of the timer at the end of a handler.\<close>

definition with_timer ::
  "'x svc_api \<Rightarrow> timer_stats \<Rightarrow> (bool \<times> u64 option \<times> stats_t \<times> 'x cps_world) option \<Rightarrow>
     (bool \<times> stats_t \<times> 'x cps_world) option" where
  "with_timer V ts r = do {
     (ok, tm, st, w) \<leftarrow> r;
     let (now, x) = (case tm of None \<Rightarrow> (0, w_ext w) | Some _ \<Rightarrow> sk_uptime (sv_sock V) (w_ext w));
     st \<leftarrow> timer_stop ts tm now st;
     Some (ok, st, w\<lparr>w_ext := x\<rparr>)
   }"

definition cps_api_handle_get ::
  "ipc_env \<Rightarrow> 'x svc_api \<Rightarrow> 'x cps_api_operation_data_t \<Rightarrow> int \<Rightarrow> nat \<Rightarrow> 'x cps_world \<Rightarrow>
     (bool \<times> 'x cps_api_operation_data_t \<times> 'x cps_world) option" where
  "cps_api_handle_get K V d fd len w = do {
     (ok, st, w) \<leftarrow> with_timer V get_timer (handle_get_body K V d fd len (od_stats d) w);
     Some (ok, d\<lparr>od_stats := st\<rparr>, w)
   }"

section \<open>Answering a commit\<close>

text \<open>
  Receiving the transaction: the changed object, the header of the previous object and that object. The
  first component is the address of the changed object when everything arrived.
\<close>

definition commit_receive ::
  "ipc_env \<Rightarrow> 'x sock_api \<Rightarrow> int \<Rightarrow> nat \<Rightarrow> stats_t \<Rightarrow> obj_heap \<Rightarrow> 'x \<Rightarrow>
     (nat option \<times> cps_api_transaction_params_t \<times> stats_t \<times> obj_heap \<times> 'x) option" where
  "commit_receive K S fd len st h x = do {
     let invalid = inc_stat st cps_api_obj_stat_SET_INVALID;
     let (init_rc, param) = cps_api_transaction_init;
     (o_ptr, h, x) \<leftarrow> cps_api_receive_object (ie_libc K) S fd len h x;
     (case o_ptr of
        None \<Rightarrow> Some (None, param, invalid, h, x)
      | Some l \<Rightarrow>
          if init_rc \<noteq> cps_api_ret_code_OK then do {
            h \<leftarrow> cps_api_object_delete h (Some l);
            Some (None, param, invalid, h, x)
          }
          else
            (case cps_api_object_list_append (ie_libc K) (tr_change_list param) (Some l) of
               (False, _) \<Rightarrow> do {
                 h \<leftarrow> cps_api_object_delete h (Some l);
                 Some (None, param, st, h, x)
               }
             | (True, change) \<Rightarrow> do {
                 let param = param\<lparr>tr_change_list := change\<rparr>;
                 (case cps_api_receive_header S fd x of
                    (None, x) \<Rightarrow> Some (None, param, invalid, h, x)
                  | (Some (act, len), x) \<Rightarrow>
                      if act \<noteq> cps_api_msg_o_COMMIT_PREV then Some (None, param, invalid, h, x)
                      else if len = 0 then Some (Some l, param, st, h, x)
                      else do {
                        (prev, h, x) \<leftarrow> cps_api_receive_object (ie_libc K) S fd len h x;
                        if prev = None then Some (None, param, invalid, h, x)
                        else
                          (case cps_api_object_list_append (ie_libc K) (tr_prev param) prev of
                             (False, _) \<Rightarrow> do {
                               h \<leftarrow> cps_api_object_delete h prev;
                               Some (None, param, st, h, x)
                             }
                           | (True, prevs) \<Rightarrow> Some (Some l, param\<lparr>tr_prev := prevs\<rparr>, st, h, x))
                      })
               }))
   }"

text \<open>Sending the changed and the previous object back, the return code stored in the first.\<close>

definition commit_reply ::
  "ipc_env \<Rightarrow> 'x sock_api \<Rightarrow> int \<Rightarrow> cps_api_return_code_t \<Rightarrow> cps_api_transaction_params_t \<Rightarrow> stats_t \<Rightarrow>
     obj_heap \<Rightarrow> 'x \<Rightarrow> (bool \<times> cps_api_transaction_params_t \<times> stats_t \<times> obj_heap \<times> 'x) option" where
  "commit_reply K S fd rc param st h x = do {
     let st = (if rc \<noteq> cps_api_ret_code_OK then inc_stat st cps_api_obj_stat_SET_FAILED else st);
     let invalid = inc_stat st cps_api_obj_stat_SET_INVALID;
     let cur = cps_api_object_list_get (tr_change_list param) 0;
     (prevs, h) \<leftarrow>
       (if cps_api_object_list_size (tr_prev param) = 0 then do {
          (_, l, h) \<leftarrow> cps_api_object_list_create_obj_and_append (ie_libc K) h (tr_prev param);
          Some (l, h)
        } else Some (tr_prev param, h));
     let param = param\<lparr>tr_prev := prevs\<rparr>;
     let prev = cps_api_object_list_get prevs 0;
     (case (cur, prev) of
        (Some c, Some b) \<Rightarrow> do {
          p \<leftarrow> hp_objs h c;
          (_, p) \<leftarrow> cps_api_object_set_return_code (ie_tlv K) (ie_libc K) p (of_int rc);
          let h = heap_set h c p;
          (ok, x) \<leftarrow> cps_api_send_one_object S fd cps_api_msg_o_COMMIT_OBJECT (Some p) x;
          q \<leftarrow> hp_objs h b;
          (ok, x) \<leftarrow> (if ok then cps_api_send_one_object S fd cps_api_msg_o_COMMIT_OBJECT (Some q) x
                     else Some (False, x));
          Some (ok, param, if ok then st else invalid, h, x)
        }
      | _ \<Rightarrow> Some (False, param, invalid, h, x))
   }"

definition handle_commit_body ::
  "ipc_env \<Rightarrow> 'x svc_api \<Rightarrow> 'x cps_api_operation_data_t \<Rightarrow> int \<Rightarrow> nat \<Rightarrow> stats_t \<Rightarrow> 'x cps_world \<Rightarrow>
     (bool \<times> u64 option \<times> stats_t \<times> 'x cps_world) option" where
  "handle_commit_body K V d fd len st w = do {
     let S = sv_sock V;
     (l, param, st, h, x) \<leftarrow> commit_receive K S fd len st (w_heap w) (w_ext w);
     (case l of
        None \<Rightarrow> do {
          (_, h) \<leftarrow> cps_api_transaction_close param h;
          Some (False, None, st, \<lparr>w_heap = h, w_ext = x\<rparr>)
        }
      | Some a \<Rightarrow> do {
          p \<leftarrow> hp_objs h a;
          let w = \<lparr>w_heap = h, w_ext = x\<rparr>;
          f \<leftarrow> find_function rf_write_function (obj_key p) (od_db_functions d);
          (tm, rc, param, w) \<leftarrow>
            (case f of
               None \<Rightarrow> Some (None, cps_api_ret_code_OK, param, w)
             | Some reg \<Rightarrow> do {
                 fn \<leftarrow> rf_write_function reg;
                 let (now, x) = sk_uptime S (w_ext w);
                 (rc, param, w) \<leftarrow> fn param 0 (w\<lparr>w_ext := x\<rparr>);
                 Some (Some now, rc, param, w)
               });
          (ok, param, st, h, x) \<leftarrow> commit_reply K S fd rc param st (w_heap w) (w_ext w);
          (_, h) \<leftarrow> cps_api_transaction_close param h;
          Some (ok, tm, st, \<lparr>w_heap = h, w_ext = x\<rparr>)
        })
   }"

definition cps_api_handle_commit ::
  "ipc_env \<Rightarrow> 'x svc_api \<Rightarrow> 'x cps_api_operation_data_t \<Rightarrow> int \<Rightarrow> nat \<Rightarrow> 'x cps_world \<Rightarrow>
     (bool \<times> 'x cps_api_operation_data_t \<times> 'x cps_world) option" where
  "cps_api_handle_commit K V d fd len w = do {
     (ok, st, w) \<leftarrow> with_timer V set_timer (handle_commit_body K V d fd len (od_stats d) w);
     Some (ok, d\<lparr>od_stats := st\<rparr>, w)
   }"

section \<open>Answering a roll back and a statistics request\<close>

definition cps_api_handle_revert ::
  "ipc_env \<Rightarrow> 'x svc_api \<Rightarrow> 'x cps_api_operation_data_t \<Rightarrow> int \<Rightarrow> nat \<Rightarrow> 'x cps_world \<Rightarrow>
     (bool \<times> 'x cps_api_operation_data_t \<times> 'x cps_world) option" where
  "cps_api_handle_revert K V d fd len w = do {
     let S = sv_sock V;
     (o_ptr, h, x) \<leftarrow> cps_api_receive_object (ie_libc K) S fd len (w_heap w) (w_ext w);
     (case o_ptr of
        None \<Rightarrow> Some (False, d, \<lparr>w_heap = h, w_ext = x\<rparr>)
      | Some l \<Rightarrow> do {
          let (init_rc, param) = cps_api_transaction_init;
          (case (if init_rc \<noteq> cps_api_ret_code_OK then (False, [])
                 else cps_api_object_list_append (ie_libc K) (tr_prev param) (Some l)) of
             (False, _) \<Rightarrow> do {
               h \<leftarrow> cps_api_object_delete h (Some l);
               Some (False, d, \<lparr>w_heap = h, w_ext = x\<rparr>)
             }
           | (True, prevs) \<Rightarrow> do {
               let param = param\<lparr>tr_prev := prevs\<rparr>;
               p \<leftarrow> hp_objs h l;
               f \<leftarrow> find_function rf_rollback_function (obj_key p) (od_db_functions d);
               (rc, param, w) \<leftarrow>
                 (case f of
                    None \<Rightarrow> Some (cps_api_ret_code_OK, param, \<lparr>w_heap = h, w_ext = x\<rparr>)
                  | Some reg \<Rightarrow> do {
                      fn \<leftarrow> rf_rollback_function reg;
                      fn param 0 \<lparr>w_heap = h, w_ext = x\<rparr>
                    });
               let (ok, x) = cps_api_send_return_code S fd cps_api_msg_o_RETURN_CODE rc (w_ext w);
               (_, h) \<leftarrow> cps_api_transaction_close param (w_heap w);
               Some (ok, d, \<lparr>w_heap = h, w_ext = x\<rparr>)
             })
        })
   }"

text \<open>The loop over the counters, \<open>n\<close> of them from \<open>cur\<close> on.\<close>

primrec stats_attrs ::
  "std_tlv_api \<Rightarrow> libc \<Rightarrow> stats_t \<Rightarrow> nat \<Rightarrow> u64 \<Rightarrow> cps_obj \<Rightarrow> cps_obj option" where
  "stats_attrs T E st 0 cur obj = Some obj"
| "stats_attrs T E st (Suc n) cur obj = do {
     obj \<leftarrow> (if stat_exists st cur
             then map_option snd (cps_api_object_attr_add_u64 T E obj cur (fst (get_stat st cur)))
             else Some obj);
     stats_attrs T E st n (cur + 1) obj
   }"

definition cps_api_handle_stats ::
  "ipc_env \<Rightarrow> 'x svc_api \<Rightarrow> 'x cps_api_operation_data_t \<Rightarrow> int \<Rightarrow> nat \<Rightarrow> 'x cps_world \<Rightarrow>
     (bool \<times> 'x cps_api_operation_data_t \<times> 'x cps_world) option" where
  "cps_api_handle_stats K V d fd len w = do {
     (og, h) \<leftarrow> cps_api_object_create (ie_libc K) (w_heap w);
     p \<leftarrow> hp_objs h og;
     k \<leftarrow> cps_api_key_init (obj_key p) cps_api_qualifier_OBSERVED (ucast cps_api_obj_stat_e_OPERATIONS) 0 [];
     p \<leftarrow> stats_attrs (ie_tlv K) (ie_libc K) (od_stats d) (unat (cps_api_obj_stat_MAX - cps_api_obj_stat_BEGIN))
            cps_api_obj_stat_BEGIN (p\<lparr>obj_key := k\<rparr>);
     (_, p) \<leftarrow> cps_api_object_attr_add_u64 (ie_tlv K) (ie_libc K) p cps_api_obj_stat_PROCESS_ID (sv_pid V);
     (_, p) \<leftarrow> cps_api_object_attr_add_u64 (ie_tlv K) (ie_libc K) p cps_api_obj_stat_OBJECTS_ALLOCATED
            (of_nat (cps_api_objects_allocated h));
     (ok, x) \<leftarrow> cps_api_send_one_object (sv_sock V) fd cps_api_msg_o_STATS (Some p) (w_ext w);
     h \<leftarrow> cps_api_object_delete (heap_set h og p) (Some og);
     Some (ok, d, \<lparr>w_heap = h, w_ext = x\<rparr>)
   }"

text \<open>\<open>_some_data_\<close>: one message of a client.\<close>

definition service_some_data ::
  "ipc_env \<Rightarrow> 'x svc_api \<Rightarrow> 'x cps_api_operation_data_t \<Rightarrow> int \<Rightarrow> 'x cps_world \<Rightarrow>
     (bool \<times> 'x cps_api_operation_data_t \<times> 'x cps_world) option" where
  "service_some_data K V d fd w =
     (case cps_api_receive_header (sv_sock V) fd (w_ext w) of
        (None, x) \<Rightarrow> Some (False, d, w\<lparr>w_ext := x\<rparr>)
      | (Some (op, len), x) \<Rightarrow>
          (let w = w\<lparr>w_ext := x\<rparr> in
           if op = cps_api_msg_o_GET then cps_api_handle_get K V d fd len w
           else if op = cps_api_msg_o_COMMIT_CHANGE then cps_api_handle_commit K V d fd len w
           else if op = cps_api_msg_o_REVERT then cps_api_handle_revert K V d fd len w
           else if op = cps_api_msg_o_STATS then cps_api_handle_stats K V d fd len w
           else Some (True, d, w)))"

section \<open>Registration with the name server\<close>

definition register_one_key ::
  "ipc_env \<Rightarrow> 'x svc_api \<Rightarrow> 'x cps_api_operation_data_t \<Rightarrow> cps_api_key_t \<Rightarrow> 'x \<Rightarrow> bool \<times> 'x" where
  "register_one_key K V p key x =
     (let r = \<lparr>reg_key = key, reg_addr = od_address p\<rparr> in
      case cps_api_ns_register K (sv_sock V) (od_ns_handle p) r x of
        (False, x) \<Rightarrow> (False, sk_close (sv_sock V) (od_ns_handle p) x)
      | (True, x) \<Rightarrow> (True, x))"

fun register_all ::
  "ipc_env \<Rightarrow> 'x svc_api \<Rightarrow> 'x cps_api_operation_data_t \<Rightarrow> 'x cps_api_registration_functions_t list \<Rightarrow> 'x \<Rightarrow>
     bool \<times> 'x" where
  "register_all K V d [] x = (True, x)"
| "register_all K V d (f # fs) x =
     (case register_one_key K V d (rf_key f) x of
        (False, x) \<Rightarrow> (False, x)
      | (True, x) \<Rightarrow> register_all K V d fs x)"

definition reconnect_with_ns ::
  "ipc_env \<Rightarrow> 'x svc_api \<Rightarrow> 'x cps_api_operation_data_t \<Rightarrow> 'x \<Rightarrow> bool \<times> 'x cps_api_operation_data_t \<times> 'x" where
  "reconnect_with_ns K V d x =
     (case cps_api_ns_create_handle K (sv_sock V) x of
        (None, x) \<Rightarrow> (False, d\<lparr>od_ns_handle := STD_INVALID_FD\<rparr>, x)
      | (Some fd, x) \<Rightarrow>
          (let d = d\<lparr>od_ns_handle := fd\<rparr> in
           case sv_client_add V fd x of
             (False, x) \<Rightarrow> (False, d, sk_close (sv_sock V) fd x)
           | (True, x) \<Rightarrow>
               (case register_all K V d (od_db_functions d) x of
                  (False, x) \<Rightarrow> (False, d\<lparr>od_ns_handle := STD_INVALID_FD\<rparr>, sk_close (sv_sock V) fd x)
                | (True, x) \<Rightarrow> (True, d\<lparr>od_stats := inc_stat (od_stats d) cps_api_obj_stat_NS_CONNECTS\<rparr>, x))))"

definition cps_api_register ::
  "ipc_env \<Rightarrow> 'x svc_api \<Rightarrow> 'x cps_api_operation_data_t \<Rightarrow> 'x cps_api_registration_functions_t \<Rightarrow> 'x \<Rightarrow>
     (cps_api_return_code_t \<times> 'x cps_api_operation_data_t \<times> 'x) option" where
  "cps_api_register K V p reg x = do {
     let (_, p, x) = (if od_ns_handle p = STD_INVALID_FD then reconnect_with_ns K V p x else (True, p, x));
     fs \<leftarrow> insert_functions (od_db_functions p) reg;
     let p = p\<lparr>od_db_functions := fs\<rparr>;
     if od_ns_handle p \<noteq> STD_INVALID_FD then
       (case register_one_key K V p (rf_key reg) x of
          (False, x) \<Rightarrow> Some (cps_api_ret_code_OK, p\<lparr>od_ns_handle := STD_INVALID_FD\<rparr>,
             sk_close (sv_sock V) (od_ns_handle p) x)
        | (True, x) \<Rightarrow> Some (cps_api_ret_code_OK, p, x))
     else Some (cps_api_ret_code_OK, p, x)
   }"

definition service_timedout ::
  "ipc_env \<Rightarrow> 'x svc_api \<Rightarrow> 'x cps_api_operation_data_t \<Rightarrow> 'x \<Rightarrow> 'x cps_api_operation_data_t \<times> 'x" where
  "service_timedout K V p x =
     (if od_ns_handle p = STD_INVALID_FD then snd (reconnect_with_ns K V p x) else (p, x))"

definition service_del_client :: "'x cps_api_operation_data_t \<Rightarrow> int \<Rightarrow> bool \<times> 'x cps_api_operation_data_t" where
  "service_del_client p fd =
     (True, if od_ns_handle p = fd
            then p\<lparr>od_stats := inc_stat (od_stats p) cps_api_obj_stat_NS_DISCONNECTS, od_ns_handle := STD_INVALID_FD\<rparr>
            else p)"

text \<open>
  \<open>cps_api_operation_subsystem_init\<close>: every counter starts at zero, the socket service is created and
  started on a fresh address, then the name server is contacted.
\<close>

definition cps_api_operation_subsystem_init ::
  "ipc_env \<Rightarrow> 'x svc_api \<Rightarrow> bytes \<Rightarrow> 'x \<Rightarrow>
     cps_api_return_code_t \<times> 'x cps_api_operation_data_t option \<times> 'x" where
  "cps_api_operation_subsystem_init K V addr x =
     (let n = unat (cps_api_obj_stat_MAX - cps_api_obj_stat_BEGIN);
          p = \<lparr>od_db_functions = [], od_ns_handle = 0, od_address = addr,
               od_stats = map (\<lambda>i. (cps_api_obj_stat_BEGIN + of_nat i, 0)) [0..<n]\<rparr> in
      case sv_init V x of
        (False, x) \<Rightarrow> (cps_api_ret_code_ERR, None, x)
      | (True, x) \<Rightarrow>
          (case sv_run V x of
             (False, x) \<Rightarrow> (cps_api_ret_code_ERR, None, sv_destroy V x)
           | (True, x) \<Rightarrow>
               (let (_, p, x) = reconnect_with_ns K V p x in (cps_api_ret_code_OK, Some p, x))))"

end
