(* ===== verification/Cps_Ns.thy ===== *)
theory Cps_Ns
  imports Cps_Service
begin

text \<open>
  The name server (\<open>src/cps_ns.cpp\<close>): the registrations of keys by services, the queries of clients,
  the counters, and the removal of what a service registered when its connection closes.

  Publishing an event is a parameter \<open>P\<close>, a function of the event object and the state of the world.
\<close>

section \<open>State\<close>

record client_reg_t =
  cr_details :: cps_api_object_owner_reg_t
  cr_fd :: int
  cr_count :: nat

record ns_state =
  ns_registration :: "client_reg_t list cache"
  ns_stats :: stats_t
  ns_reg_created :: "int list"

type_synonym 'x publish = "cps_obj \<Rightarrow> 'x \<Rightarrow> 'x"

text \<open>\<open>std::set\<close> of descriptors: insertion and removal.\<close>

definition fd_insert :: "int list \<Rightarrow> int \<Rightarrow> int list" where
  "fd_insert s fd = (if fd \<in> set s then s else s @ [fd])"

definition fd_erase :: "int list \<Rightarrow> int \<Rightarrow> int list" where
  "fd_erase s fd = filter (\<lambda>e. e \<noteq> fd) s"

definition cps_api_obj_tool_create ::
  "ipc_env \<Rightarrow> obj_heap \<Rightarrow> u32 \<Rightarrow> u64 \<Rightarrow> (obj_ptr \<times> obj_heap) option" where
  "cps_api_obj_tool_create K h qual i = do {
     (og, h) \<leftarrow> cps_api_object_create (ie_libc K) h;
     p \<leftarrow> hp_objs h og;
     (ok, k) \<leftarrow> cps_api_key_from_attr_with_qual (en_dict (ie_env K)) (obj_key p) i qual;
     let h = heap_set h og (p\<lparr>obj_key := k\<rparr>);
     if ok then Some (Some og, h)
     else map_option (\<lambda>h. (None, h)) (cps_api_object_delete h (Some og))
   }"

section \<open>Events\<close>

text \<open>The event names the key with the registration qualifier in front.\<close>

definition key_event :: "cps_api_key_t \<Rightarrow> bool \<Rightarrow> cps_obj option" where
  "key_event key how = do {
     obj \<leftarrow> cps_api_object_init (replicate CPS_API_MIN_OBJ_LEN 0) CPS_API_MIN_OBJ_LEN;
     obj \<leftarrow> obj;
     k \<leftarrow> cps_api_key_copy (obj_key obj) key;
     (_, k) \<leftarrow> cps_api_key_insert_element k CPS_OBJ_KEY_INST_POS cps_api_qualifier_REGISTRATION;
     k \<leftarrow> cps_api_object_set_type_operation k (if how then cps_api_oper_CREATE else cps_api_oper_DELETE);
     Some (obj\<lparr>obj_key := k\<rparr>)
   }"

definition send_out_key_event ::
  "'x publish \<Rightarrow> cps_api_key_t \<Rightarrow> bool \<Rightarrow> stats_t \<Rightarrow> 'x \<Rightarrow> (stats_t \<times> 'x) option" where
  "send_out_key_event P key how st x = do {
     obj \<leftarrow> key_event key how;
     Some (inc_stat st cps_api_obj_stat_EVENT_SEND, P obj x)
   }"

section \<open>Messages\<close>

text \<open>The change of the table in \<open>process_registration\<close>.\<close>

definition add_registration ::
  "ipc_env \<Rightarrow> client_reg_t \<Rightarrow> ns_state \<Rightarrow> ns_state option" where
  "add_registration K r n = do {
     let st = inc_stat (ns_stats n) cps_api_obj_stat_SET_COUNT;
     let key = reg_key (cr_details r);
     lst \<leftarrow> cache_at (ie_hash K) (ns_registration n) key True;
     c \<leftarrow> (case lst of
            None \<Rightarrow> map_option snd (cache_insert (ie_hash K) (key_mem_ok (ie_libc K) key)
                      (ns_registration n) key [r] True)
          | Some e \<Rightarrow> cache_at_update (ns_registration n) e (\<lambda>l. l @ [r]));
     Some \<lparr>ns_registration = c, ns_stats = st, ns_reg_created = fd_insert (ns_reg_created n) (cr_fd r)\<rparr>
   }"

definition process_registration ::
  "ipc_env \<Rightarrow> 'x sock_api \<Rightarrow> 'x publish \<Rightarrow> int \<Rightarrow> nat \<Rightarrow> ns_state \<Rightarrow> 'x \<Rightarrow> (bool \<times> ns_state \<times> 'x) option" where
  "process_registration K S P fd len n x =
     (if len \<noteq> sizeof_owner K then Some (False, n, x)
      else do {
        (ok, mem, x) \<leftarrow> cps_api_receive_data S fd (fresh_bytes (ie_libc K) 0 (sizeof_owner K)) x;
        if \<not> ok then Some (False, n, x)
        else do {
          let r = \<lparr>cr_details = owner_of_bytes mem, cr_fd = fd, cr_count = 0\<rparr>;
          l \<leftarrow> cps_api_key_get_len (reg_key (cr_details r));
          if l = 0 then Some (False, n, x)
          else do {
            n \<leftarrow> add_registration K r n;
            (st, x) \<leftarrow> send_out_key_event P (reg_key (cr_details r)) True (ns_stats n) x;
            Some (True, n\<lparr>ns_stats := st\<rparr>, x)
          }
        }
      })"

text \<open>\<open>process_query\<close>: the first registration of the longest registered prefix of the key answers.\<close>

definition query_registration ::
  "ipc_env \<Rightarrow> cps_api_key_t \<Rightarrow> ns_state \<Rightarrow> (cps_api_object_owner_reg_t option \<times> ns_state) option" where
  "query_registration K key n = do {
     let n = n\<lparr>ns_stats := inc_stat (ns_stats n) cps_api_obj_stat_GET_COUNT\<rparr>;
     e \<leftarrow> cache_at (ie_hash K) (ns_registration n) key False;
     (case e of
        None \<Rightarrow> Some (None, n)
      | Some p \<Rightarrow> do {
          d \<leftarrow> entry_data (ns_registration n) (Some p);
          l \<leftarrow> d;
          (case l of
             [] \<Rightarrow> None
           | r # _ \<Rightarrow> do {
               c \<leftarrow> cache_at_update (ns_registration n) p
                     (\<lambda>l. (hd l)\<lparr>cr_count := sz_add (cr_count (hd l)) 1\<rparr> # tl l);
               Some (Some (cr_details r), n\<lparr>ns_registration := c\<rparr>)
             })
        })
   }"

definition process_query ::
  "ipc_env \<Rightarrow> 'x sock_api \<Rightarrow> int \<Rightarrow> nat \<Rightarrow> ns_state \<Rightarrow> 'x \<Rightarrow> (bool \<times> ns_state \<times> 'x) option" where
  "process_query K S fd len n x = do {
     (ok, key, x) \<leftarrow> cps_api_receive_key S fd (fresh_bytes (ie_libc K) 0 sizeof_key) x;
     if \<not> ok then Some (False, n, x)
     else do {
       (cpy, n) \<leftarrow> query_registration K key n;
       (case cpy of
          None \<Rightarrow>
            (let (ok, x) = cps_api_send_return_code S fd cps_api_ns_r_RETURN_CODE cps_api_ret_code_ERR x
             in Some (ok, n, x))
        | Some own \<Rightarrow>
            (case cps_api_send_header S fd cps_api_ns_r_QUERY_RESULTS (sizeof_owner K) x of
               (False, x) \<Rightarrow> Some (False, n, x)
             | (True, x) \<Rightarrow>
                 (let (ok, x) = cps_api_send_data S fd (owner_bytes own) x in Some (ok, n, x))))
     }
   }"

text \<open>\<open>process_stats\<close>: the counters, then a key and a use count for every registration.\<close>

fun add_counters :: "std_tlv_api \<Rightarrow> libc \<Rightarrow> stats_t \<Rightarrow> cps_obj \<Rightarrow> cps_obj option" where
  "add_counters T E [] obj = Some obj"
| "add_counters T E ((s, v) # st) obj = do {
     (_, obj) \<leftarrow> cps_api_object_attr_add_u64 T E obj s v;
     add_counters T E st obj
   }"

fun add_reg_counts :: "std_tlv_api \<Rightarrow> libc \<Rightarrow> client_reg_t list \<Rightarrow> cps_obj \<Rightarrow> cps_obj option" where
  "add_reg_counts T E [] obj = Some obj"
| "add_reg_counts T E (r # rs) obj = do {
     (_, obj) \<leftarrow> cps_api_object_attr_add T E obj cps_api_obj_stat_KEY (key_bytes (reg_key (cr_details r))) sizeof_key;
     (_, obj) \<leftarrow> cps_api_object_attr_add_u64 T E obj cps_api_obj_stat_GET_COUNT (of_nat (cr_count r));
     add_reg_counts T E rs obj
   }"

fun add_bucket_counts ::
  "std_tlv_api \<Rightarrow> libc \<Rightarrow> client_reg_t list bucket \<Rightarrow> cps_obj \<Rightarrow> cps_obj option" where
  "add_bucket_counts T E [] obj = Some obj"
| "add_bucket_counts T E (e # es) obj = do {
     obj \<leftarrow> add_reg_counts T E (fe_data e) obj;
     add_bucket_counts T E es obj
   }"

definition process_stats ::
  "ipc_env \<Rightarrow> 'x sock_api \<Rightarrow> int \<Rightarrow> ns_state \<Rightarrow> obj_heap \<Rightarrow> 'x \<Rightarrow> (bool \<times> ns_state \<times> obj_heap \<times> 'x) option" where
  "process_stats K S fd n h x = do {
     (og, h) \<leftarrow> cps_api_obj_tool_create K h cps_api_qualifier_OBSERVED cps_api_obj_stat_e_OPERATIONS;
     (case og of
        None \<Rightarrow> Some (False, n, h, x)
      | Some a \<Rightarrow> do {
          p \<leftarrow> hp_objs h a;
          p \<leftarrow> add_counters (ie_tlv K) (ie_libc K) (ns_stats n) p;
          let (c, r) = cache_walk (\<lambda>v s. (True, v, Option.bind s (add_bucket_counts (ie_tlv K) (ie_libc K) v)))
                 (Some p) [] (ns_registration n);
          p \<leftarrow> r;
          let n = n\<lparr>ns_registration := c\<rparr>;
          (ok, x) \<leftarrow> cps_api_send_one_object S fd cps_api_msg_o_STATS (Some p) x;
          h \<leftarrow> cps_api_object_delete (heap_set h a p) (Some a);
          Some (ok, n, h, x)
        })
   }"

text \<open>\<open>_some_data_\<close>: one message.\<close>

definition ns_some_data ::
  "ipc_env \<Rightarrow> 'x sock_api \<Rightarrow> 'x publish \<Rightarrow> int \<Rightarrow> ns_state \<Rightarrow> 'x cps_world \<Rightarrow>
     (bool \<times> ns_state \<times> 'x cps_world) option" where
  "ns_some_data K S P fd n w =
     (case cps_api_receive_header S fd (w_ext w) of
        (None, x) \<Rightarrow> Some (False, n, w\<lparr>w_ext := x\<rparr>)
      | (Some (op, len), x) \<Rightarrow>
          if op = cps_api_ns_r_ADD then
            map_option (\<lambda>(ok, n, x). (ok, n, w\<lparr>w_ext := x\<rparr>)) (process_registration K S P fd len n x)
          else if op = cps_api_ns_r_QUERY then
            map_option (\<lambda>(ok, n, x). (ok, n, w\<lparr>w_ext := x\<rparr>)) (process_query K S fd len n x)
          else if op = cps_api_msg_o_STATS then
            map_option (\<lambda>(ok, n, h, x). (ok, n, \<lparr>w_heap = h, w_ext = x\<rparr>)) (process_stats K S fd n (w_heap w) x)
          else Some (False, n, w\<lparr>w_ext := x\<rparr>))"

section \<open>A closed connection\<close>

text \<open>
  The inner loop of \<open>_client_closed_\<close> over the registrations of a key: an event for each one removed,
  and another one when the key is still registered by someone.
\<close>

function close_entries ::
  "'x publish \<Rightarrow> int \<Rightarrow> cps_api_key_t \<Rightarrow> nat \<Rightarrow> client_reg_t list \<Rightarrow> stats_t \<Rightarrow> 'x \<Rightarrow>
     (client_reg_t list \<times> stats_t \<times> 'x) option" where
  "close_entries P fd key ix l st x =
     (if ix < length l then
        (if cr_fd (l ! ix) = fd then
           Option.bind (send_out_key_event P key False st x) (\<lambda>(st, x).
             Option.bind (if list_erase l ix \<noteq> [] then send_out_key_event P key True st x else Some (st, x))
               (\<lambda>(st, x). close_entries P fd key 0 (list_erase l ix) st x))
         else close_entries P fd key (ix + 1) l st x)
      else Some (l, st, x))"
  by pat_completeness auto
termination
  by (relation "measures [\<lambda>(P, fd, key, ix, l, st, x). length l, \<lambda>(P, fd, key, ix, l, st, x). length l - ix]")
    (auto simp: list_erase_def)

declare close_entries.simps [simp del]

text \<open>
  The outer loop over the keys of a bucket. After a key is removed the index is set to zero and then
  advanced.
\<close>

function close_keys ::
  "'x publish \<Rightarrow> int \<Rightarrow> nat \<Rightarrow> client_reg_t list bucket \<Rightarrow> stats_t \<Rightarrow> 'x \<Rightarrow>
     (client_reg_t list bucket \<times> stats_t \<times> 'x) option" where
  "close_keys P fd ix v st x =
     (if ix < length v then
        Option.bind (close_entries P fd (fe_key (v ! ix)) 0 (fe_data (v ! ix)) st x) (\<lambda>(l, st, x).
          if l = [] then close_keys P fd 1 (list_erase v ix) st x
          else close_keys P fd (ix + 1) (v[ix := (v ! ix)\<lparr>fe_data := l\<rparr>]) st x)
      else Some (v, st, x))"
  by pat_completeness auto
termination
  by (relation "measures [\<lambda>(P, fd, ix, v, st, x). length v, \<lambda>(P, fd, ix, v, st, x). length v - ix]")
    (auto simp: list_erase_def)

declare close_keys.simps [simp del]

definition close_bucket ::
  "'x publish \<Rightarrow> int \<Rightarrow> client_reg_t list bucket \<Rightarrow> (stats_t \<times> 'x) option \<Rightarrow>
     bool \<times> client_reg_t list bucket \<times> (stats_t \<times> 'x) option" where
  "close_bucket P fd v s =
     (case Option.bind s (\<lambda>(st, x). close_keys P fd 0 v st x) of
        None \<Rightarrow> (True, v, None)
      | Some (v', st, x) \<Rightarrow> (True, v', Some (st, x)))"

definition ns_client_closed ::
  "'x publish \<Rightarrow> int \<Rightarrow> ns_state \<Rightarrow> 'x \<Rightarrow> (bool \<times> ns_state \<times> 'x) option" where
  "ns_client_closed P fd n x = do {
     let st = inc_stat (ns_stats n) cps_api_obj_stat_CLOSE_COUNT;
     if fd \<notin> set (ns_reg_created n) then Some (True, n\<lparr>ns_stats := st\<rparr>, x)
     else do {
       let st = inc_stat st cps_api_obj_stat_CLOSE_CLEANUP_RUNS;
       let (c, r) = cache_walk (close_bucket P fd) (Some (st, x)) [] (ns_registration n);
       (st, x) \<leftarrow> r;
       Some (True, \<lparr>ns_registration = c, ns_stats = st,
         ns_reg_created = fd_erase (ns_reg_created n) fd\<rparr>, x)
     }
   }"

end
