(* ===== verification/Cps_Operation_Proofs.thy ===== *)
theory Cps_Operation_Proofs
  imports Cps_Operation Cps_Object_Tools_Proofs Cps_Dictionary_Proofs
begin

text \<open>
  What get requests and transactions do: the order of the calls of \<open>cps_api_commit\<close>, which objects a
  get request keeps, and the attributes that steer a request.
\<close>

section \<open>The calls of a transaction\<close>

text \<open>
  A log of the calls is kept in the external state, behind the state of the backend: \<open>logged B\<close> does
  what \<open>B\<close> does and appends one entry per call.
\<close>

datatype op_call =
    Commit_call nat cps_api_return_code_t
  | Rollback_call nat
  | Publish_call nat

definition with_log :: "'x cps_world \<Rightarrow> op_call list \<Rightarrow> ('x \<times> op_call list) cps_world" where
  "with_log w l = \<lparr>w_heap = w_heap w, w_ext = (w_ext w, l)\<rparr>"

definition no_log :: "('x \<times> op_call list) cps_world \<Rightarrow> 'x cps_world" where
  "no_log w = \<lparr>w_heap = w_heap w, w_ext = fst (w_ext w)\<rparr>"

definition log_call ::
  "(nat \<Rightarrow> cps_api_return_code_t \<Rightarrow> op_call) \<Rightarrow>
   ('p \<Rightarrow> nat \<Rightarrow> 'x cps_world \<Rightarrow> (cps_api_return_code_t \<times> 'p \<times> 'x cps_world) option) \<Rightarrow>
   'p \<Rightarrow> nat \<Rightarrow> ('x \<times> op_call list) cps_world \<Rightarrow>
   (cps_api_return_code_t \<times> 'p \<times> ('x \<times> op_call list) cps_world) option" where
  "log_call mk f par ix w =
     map_option (\<lambda>(rc, par, v). (rc, par, with_log v (snd (w_ext w) @ [mk ix rc]))) (f par ix (no_log w))"

definition silent_call ::
  "('p \<Rightarrow> nat \<Rightarrow> 'x cps_world \<Rightarrow> (cps_api_return_code_t \<times> 'p \<times> 'x cps_world) option) \<Rightarrow>
   'p \<Rightarrow> nat \<Rightarrow> ('x \<times> op_call list) cps_world \<Rightarrow>
   (cps_api_return_code_t \<times> 'p \<times> ('x \<times> op_call list) cps_world) option" where
  "silent_call f par ix w = map_option (\<lambda>(rc, par, v). (rc, par, with_log v (snd (w_ext w)))) (f par ix (no_log w))"

definition logged :: "'x req_backend \<Rightarrow> ('x \<times> op_call list) req_backend" where
  "logged B = \<lparr>be_db_get = silent_call (be_db_get B), be_svc_get = silent_call (be_svc_get B),
     be_db_commit = log_call Commit_call (be_db_commit B),
     be_svc_commit = log_call Commit_call (be_svc_commit B),
     be_db_rollback = log_call (\<lambda>ix _. Rollback_call ix) (be_db_rollback B),
     be_svc_rollback = log_call (\<lambda>ix _. Rollback_call ix) (be_svc_rollback B),
     be_publish = (\<lambda>a w. map_option (\<lambda>(b, v). (b, with_log v (snd (w_ext w) @ [Publish_call a])))
        (be_publish B a (no_log w)))\<rparr>"

lemma log_sel [simp]:
  "w_heap (with_log w l) = w_heap w" "w_ext (with_log w l) = (w_ext w, l)" "no_log (with_log w l) = w"
  "obj_put (with_log w l) a p = with_log (obj_put w a p) l" "w_heap (obj_put w a p) = heap_set (w_heap w) a p"
  by (simp_all add: with_log_def no_log_def obj_put_def)

lemma logged_commit [simp]:
  "be_db_commit (logged B) par ix (with_log w l) =
     map_option (\<lambda>(rc, par, v). (rc, par, with_log v (l @ [Commit_call ix rc]))) (be_db_commit B par ix w)"
  "be_svc_commit (logged B) par ix (with_log w l) =
     map_option (\<lambda>(rc, par, v). (rc, par, with_log v (l @ [Commit_call ix rc]))) (be_svc_commit B par ix w)"
  "be_db_rollback (logged B) par ix (with_log w l) =
     map_option (\<lambda>(rc, par, v). (rc, par, with_log v (l @ [Rollback_call ix]))) (be_db_rollback B par ix w)"
  "be_svc_rollback (logged B) par ix (with_log w l) =
     map_option (\<lambda>(rc, par, v). (rc, par, with_log v (l @ [Rollback_call ix]))) (be_svc_rollback B par ix w)"
  "be_publish (logged B) a (with_log w l) =
     map_option (\<lambda>(b, v). (b, with_log v (l @ [Publish_call a]))) (be_publish B a w)"
  by (simp_all add: logged_def log_call_def)

text \<open>
  The objects a transaction can work on, and what the calls for one object have to keep: the list of
  changes and the objects on it.
\<close>

definition request_obj :: "cps_env \<Rightarrow> cps_obj \<Rightarrow> bool" where
  "request_obj N p \<longleftrightarrow> key_ok (obj_key p) \<and>
     (\<exists>xs. obj_wf (en_tlv N) p xs \<and> (\<forall>d. (CPS_OBJECT_GROUP_CONTINUE_ON_FAILURE, d) \<in> set xs \<longrightarrow> d \<noteq> []))"

definition commit_inv :: "cps_env \<Rightarrow> obj_list \<Rightarrow> 'x cps_world \<Rightarrow> bool" where
  "commit_inv N cl w \<longleftrightarrow> (\<forall>q \<in> set cl. \<exists>a p. q = Some a \<and> hp_objs (w_heap w) a = Some p \<and> request_obj N p)"

definition call_keeps ::
  "cps_env \<Rightarrow> (cps_api_transaction_params_t \<Rightarrow> nat \<Rightarrow> 'x cps_world \<Rightarrow>
     (cps_api_return_code_t \<times> cps_api_transaction_params_t \<times> 'x cps_world) option) \<Rightarrow> bool" where
  "call_keeps N f \<longleftrightarrow> (\<forall>par ix w. commit_inv N (tr_change_list par) w \<and> ix < length (tr_change_list par) \<longrightarrow>
     (\<exists>rc par' w'. f par ix w = Some (rc, par', w') \<and> tr_change_list par' = tr_change_list par \<and>
        commit_inv N (tr_change_list par) w'))"

definition backend_keeps :: "cps_env \<Rightarrow> 'x req_backend \<Rightarrow> bool" where
  "backend_keeps N B \<longleftrightarrow> call_keeps N (be_db_commit B) \<and> call_keeps N (be_svc_commit B) \<and>
     call_keeps N (be_db_rollback B) \<and> call_keeps N (be_svc_rollback B) \<and>
     (\<forall>cl a w. commit_inv N cl w \<and> Some a \<in> set cl \<longrightarrow>
        (\<exists>b w'. be_publish B a w = Some (b, w') \<and> commit_inv N cl w'))"

text \<open>One round of the commit loop, and the whole log.\<close>

definition round_ok :: "obj_list \<Rightarrow> nat \<Rightarrow> op_call list \<Rightarrow> bool" where
  "round_ok cl i r \<longleftrightarrow> (\<exists>rc. r = [Commit_call i rc]) \<or>
     (\<exists>a. cl ! i = Some a \<and> r = [Commit_call i cps_api_ret_code_OK, Publish_call a])"

definition commit_log_ok :: "obj_list \<Rightarrow> cps_api_return_code_t \<Rightarrow> op_call list \<Rightarrow> bool" where
  "commit_log_ok cl rc lg \<longleftrightarrow> (\<exists>rs. (\<forall>i < length rs. round_ok cl i (rs ! i)) \<and>
     (if rc = cps_api_ret_code_OK then length rs = length cl \<and> lg = concat rs
      else length rs < length cl \<and>
        lg = concat rs @ [Commit_call (length rs) rc] @ map Rollback_call (rev [0..<length rs])))"

lemma request_obj_reads:
  assumes "std_tlv (en_tlv N)" and "dict_wf (en_hash N) (en_dict N)" and "request_obj N p"
  shows "\<exists>t. cps_api_obj_get_ownership_type (en_hash N) (en_dict N) (obj_key p) = Some t"
    and "\<exists>b. cps_api_obj_has_auto_events (en_hash N) (en_dict N) (obj_key p) = Some b"
    and "\<exists>op. cps_api_object_type_operation (obj_key p) = Some op"
    and "\<exists>b. cps_api_obj_attr_get_bool (en_tlv N) p CPS_OBJECT_GROUP_CONTINUE_ON_FAILURE d = Some b"
    and "\<exists>b p'. cps_api_object_attr_delete (en_tlv N) p t = Some (b, p') \<and> obj_key p' = obj_key p \<and>
      request_obj N p'"
proof -
  have k: "key_ok (obj_key p)" using assms(3) by (simp add: request_obj_def)
  obtain xs where xs: "obj_wf (en_tlv N) p xs"
    "\<forall>d. (CPS_OBJECT_GROUP_CONTINUE_ON_FAILURE, d) \<in> set xs \<longrightarrow> d \<noteq> []"
    using assms(3) by (auto simp: request_obj_def)
  show "\<exists>t. cps_api_obj_get_ownership_type (en_hash N) (en_dict N) (obj_key p) = Some t"
    and "\<exists>b. cps_api_obj_has_auto_events (en_hash N) (en_dict N) (obj_key p) = Some b"
    by (simp_all add: cps_api_obj_get_ownership_type_def cps_api_obj_has_auto_events_def
        characteristics_at [OF assms(2) k])
  show "\<exists>op. cps_api_object_type_operation (obj_key p) = Some op"
    using xs(1) by (simp add: obj_wf_def cps_api_object_type_operation_def cps_api_key_get_attr_def
        cps_api_key_elem_raw_get_def CPS_OBJ_KEY_ATTR_POS_def)
  show "\<exists>b. cps_api_obj_attr_get_bool (en_tlv N) p CPS_OBJECT_GROUP_CONTINUE_ON_FAILURE d = Some b"
  proof (cases "map_of xs CPS_OBJECT_GROUP_CONTINUE_ON_FAILURE")
    case None
    then show ?thesis
      using std_tlv.get_data_uint_obj(1) [OF assms(1) xs(1)] by (simp add: cps_api_obj_attr_get_bool_def)
  next
    case (Some e)
    then have "1 \<le> length e" using xs(2) map_of_SomeD [of xs] by (cases e) auto
    then show ?thesis
      using std_tlv.get_data_uint_obj(2) [OF assms(1) xs(1) Some, of 1] by (simp add: cps_api_obj_attr_get_bool_def)
  qed
  show "\<exists>b p'. cps_api_object_attr_delete (en_tlv N) p t = Some (b, p') \<and> obj_key p' = obj_key p \<and>
      request_obj N p'"
    using std_tlv.attr_delete [OF assms(1) xs(1), of t] k xs(2) by (fastforce simp: request_obj_def)
qed

lemma commit_inv_nth:
  assumes "commit_inv N cl w" and "i < length cl"
  obtains a p where "cl ! i = Some a" "hp_objs (w_heap w) a = Some p" "request_obj N p"
  using assms unfolding commit_inv_def by (meson nth_mem)

lemma commit_inv_put:
  "commit_inv N cl w \<Longrightarrow> request_obj N p \<Longrightarrow> commit_inv N cl (obj_put w a p)"
  by (auto simp: commit_inv_def heap_set_def) metis


text \<open>Each call of a backend that keeps the objects ends, on the logged backend too.\<close>

lemma call_keepsE:
  assumes "call_keeps N f" and "commit_inv N (tr_change_list par) w" and "ix < length (tr_change_list par)"
  obtains rc par' w' where "f par ix w = Some (rc, par', w')" "tr_change_list par' = tr_change_list par"
    "commit_inv N (tr_change_list par) w'"
  using assms unfolding call_keeps_def by blast

lemma commit_step_logged:
  assumes "std_tlv (en_tlv N)" and "dict_wf (en_hash N) (en_dict N)" and "backend_keeps N B"
    and "commit_inv N (tr_change_list par) w" and "ix < length (tr_change_list par)"
  shows "\<exists>rc stop par' w' r. commit_step N B ix par w = Some (rc, stop, par', w') \<and>
     commit_step N (logged B) ix par (with_log w l) = Some (rc, stop, par', with_log w' (l @ r)) \<and>
     tr_change_list par' = tr_change_list par \<and> commit_inv N (tr_change_list par) w' \<and>
     (if stop then rc \<noteq> cps_api_ret_code_OK \<and> r = [Commit_call ix rc]
      else rc = cps_api_ret_code_OK \<and> round_ok (tr_change_list par) ix r)"
proof -
  let ?cl = "tr_change_list par"
  note reads = request_obj_reads [OF assms(1,2)]
  obtain a p where a: "?cl ! ix = Some a" "hp_objs (w_heap w) a = Some p" "request_obj N p"
    by (rule commit_inv_nth [OF assms(4,5)])
  have g: "cps_api_object_list_get ?cl ix = Some a" using a(1) assms(5) by (simp add: cps_api_object_list_get_def)
  obtain b p' where del: "cps_api_object_attr_delete (en_tlv N) p CPS_OBJECT_GROUP_FAILED_NODES = Some (b, p')"
    "request_obj N p'" using reads(5) [OF a(3)] by blast
  obtain t where t: "cps_api_obj_get_ownership_type (en_hash N) (en_dict N) (obj_key p') = Some t"
    using reads(1) [OF del(2)] by blast
  define f where "f = (if t \<noteq> CPS_API_OBJECT_SERVICE then be_db_commit B else be_svc_commit B)"
  have "call_keeps N f" using assms(3) by (simp add: f_def backend_keeps_def)
  then obtain rc par' w' where c: "f par ix (obj_put w a p') = Some (rc, par', w')"
    "tr_change_list par' = ?cl" "commit_inv N ?cl w'"
    using call_keepsE [OF _ commit_inv_put [OF assms(4) del(2)] assms(5)] by blast
  have cB: "(if t \<noteq> CPS_API_OBJECT_SERVICE then be_db_commit B par ix (obj_put w a p')
      else be_svc_commit B par ix (obj_put w a p')) = Some (rc, par', w')"
    using c(1) by (simp add: f_def split: if_splits)
  have cL: "(if t \<noteq> CPS_API_OBJECT_SERVICE then be_db_commit (logged B) par ix (with_log (obj_put w a p') l)
      else be_svc_commit (logged B) par ix (with_log (obj_put w a p') l)) =
      Some (rc, par', with_log w' (l @ [Commit_call ix rc]))"
    using c(1) by (simp add: f_def split: if_splits)
  obtain p2 where p2: "hp_objs (w_heap w') a = Some p2" "request_obj N p2"
    by (rule commit_inv_nth [OF c(3) assms(5)]) (use a(1) in auto)
  obtain cf ev op where r: "cps_api_obj_attr_get_bool (en_tlv N) p2 CPS_OBJECT_GROUP_CONTINUE_ON_FAILURE False = Some cf"
    "cps_api_obj_has_auto_events (en_hash N) (en_dict N) (obj_key p2) = Some ev"
    "cps_api_object_type_operation (obj_key p2) = Some op"
    using reads(2-4) [OF p2(2)] by meson
  have "Some a \<in> set ?cl" using a(1) assms(5) nth_mem by fastforce
  then obtain bp wp where pub: "be_publish B a w' = Some (bp, wp)" "commit_inv N ?cl wp"
    using assms(3) c(3) unfolding backend_keeps_def by blast
  define pubs where "pubs \<longleftrightarrow> rc = cps_api_ret_code_OK \<and> t = CPS_API_OBJECT_SERVICE \<and> ev \<and> op \<noteq> cps_api_oper_ACTION"
  define stop where "stop \<longleftrightarrow> rc \<noteq> cps_api_ret_code_OK \<and> \<not> cf"
  define rc' where "rc' = (if rc \<noteq> cps_api_ret_code_OK \<and> cf then cps_api_ret_code_OK else rc)"
  define r where "r = Commit_call ix rc # (if pubs then [Publish_call a] else [])"
  have "commit_step N B ix par w = Some (rc', stop, par', if pubs then wp else w')"
    unfolding commit_step_def using g a(2) del t cB p2(1) r pub(1)
    by (auto simp: pubs_def stop_def rc'_def)
  moreover have "commit_step N (logged B) ix par (with_log w l) =
      Some (rc', stop, par', with_log (if pubs then wp else w') (l @ r))"
    unfolding commit_step_def using g a(2) del t cL p2(1) r pub(1)
    by (auto simp: pubs_def stop_def rc'_def r_def)
  moreover have "if stop then rc' \<noteq> cps_api_ret_code_OK \<and> r = [Commit_call ix rc']
      else rc' = cps_api_ret_code_OK \<and> round_ok ?cl ix r"
    using a(1) by (auto simp: stop_def rc'_def r_def pubs_def round_ok_def)
  moreover have "commit_inv N ?cl (if pubs then wp else w')" using c(3) pub(2) by simp
  ultimately show ?thesis using c(2)
    by (intro exI [of _ rc'] exI [of _ stop] exI [of _ par'] exI [of _ "if pubs then wp else w'"] exI [of _ r] conjI)
qed

lemma rollback_step_logged:
  assumes "std_tlv (en_tlv N)" and "dict_wf (en_hash N) (en_dict N)" and "backend_keeps N B"
    and "commit_inv N (tr_change_list par) w" and "ix < length (tr_change_list par)"
    and "rc \<noteq> cps_api_ret_code_OK"
  shows "\<exists>par' w'. rollback_step N B rc ix par w = Some (par', w') \<and>
     rollback_step N (logged B) rc ix par (with_log w l) = Some (par', with_log w' (l @ [Rollback_call ix])) \<and>
     tr_change_list par' = tr_change_list par \<and> commit_inv N (tr_change_list par) w'"
proof -
  let ?cl = "tr_change_list par"
  note reads = request_obj_reads [OF assms(1,2)]
  obtain a p where a: "?cl ! ix = Some a" "hp_objs (w_heap w) a = Some p" "request_obj N p"
    by (rule commit_inv_nth [OF assms(4,5)])
  have g: "cps_api_object_list_get ?cl ix = Some a" using a(1) assms(5) by (simp add: cps_api_object_list_get_def)
  obtain t where t: "cps_api_obj_get_ownership_type (en_hash N) (en_dict N) (obj_key p) = Some t"
    using reads(1) [OF a(3)] by blast
  define f where "f = (if t \<noteq> CPS_API_OBJECT_SERVICE then be_db_rollback B else be_svc_rollback B)"
  have "call_keeps N f" using assms(3) by (simp add: f_def backend_keeps_def)
  then obtain rc' par' w' where c: "f par ix w = Some (rc', par', w')"
    "tr_change_list par' = ?cl" "commit_inv N ?cl w'"
    using call_keepsE [OF _ assms(4,5)] by blast
  obtain p2 where p2: "hp_objs (w_heap w') a = Some p2" "request_obj N p2"
    by (rule commit_inv_nth [OF c(3) assms(5)]) (use a(1) in auto)
  obtain op where op: "cps_api_object_type_operation (obj_key p2) = Some op"
    using reads(3) [OF p2(2)] by blast
  show ?thesis
    using g a(2) t c p2(1) op assms(6) by (auto simp: rollback_step_def f_def split: if_splits)
qed


lemma commit_loop_logged:
  assumes "std_tlv (en_tlv N)" and "dict_wf (en_hash N) (en_dict N)" and "backend_keeps N B"
    and "commit_inv N cl w" and "tr_change_list par = cl" and "ix + n = length cl"
  shows "\<exists>rc ix' par' w' rs lg. commit_loop N B n ix cps_api_ret_code_OK par w = Some (rc, ix', par', w') \<and>
     commit_loop N (logged B) n ix cps_api_ret_code_OK par (with_log w l) =
       Some (rc, ix', par', with_log w' (l @ lg)) \<and>
     tr_change_list par' = cl \<and> commit_inv N cl w' \<and> (\<forall>i < length rs. round_ok cl (ix + i) (rs ! i)) \<and>
     (if rc = cps_api_ret_code_OK then length rs = n \<and> lg = concat rs
      else length rs < n \<and> ix' = ix + length rs \<and> lg = concat rs @ [Commit_call ix' rc])"
  using assms(4-6)
proof (induction n arbitrary: ix par w l)
  case 0
  then show ?case by (intro exI [of _ "[]"] exI conjI) auto
next
  case (Suc n)
  have inv: "commit_inv N (tr_change_list par) w" "ix < length (tr_change_list par)" using Suc.prems by auto
  obtain rc stop par1 w1 r where st: "commit_step N B ix par w = Some (rc, stop, par1, w1)"
    "commit_step N (logged B) ix par (with_log w l) = Some (rc, stop, par1, with_log w1 (l @ r))"
    "tr_change_list par1 = cl" "commit_inv N cl w1"
    "if stop then rc \<noteq> cps_api_ret_code_OK \<and> r = [Commit_call ix rc]
      else rc = cps_api_ret_code_OK \<and> round_ok cl ix r"
    using commit_step_logged [OF assms(1-3) inv, of l] unfolding Suc.prems(2) by blast
  show ?case
  proof (cases stop)
    case True
    then show ?thesis using st by (intro exI [of _ "[]"] exI conjI) auto
  next
    case False
    then have rc: "rc = cps_api_ret_code_OK" "round_ok cl ix r" using st(5) by auto
    have "ix + 1 + n = length cl" using Suc.prems(3) by simp
    from Suc.IH [OF st(4,3) this, of "l @ r"] obtain rc2 ix2 par2 w2 rs lg where
      ih: "commit_loop N B n (ix + 1) cps_api_ret_code_OK par1 w1 = Some (rc2, ix2, par2, w2)"
      "commit_loop N (logged B) n (ix + 1) cps_api_ret_code_OK par1 (with_log w1 (l @ r)) =
         Some (rc2, ix2, par2, with_log w2 ((l @ r) @ lg))"
      "tr_change_list par2 = cl" "commit_inv N cl w2" "\<forall>i < length rs. round_ok cl (ix + 1 + i) (rs ! i)"
      "if rc2 = cps_api_ret_code_OK then length rs = n \<and> lg = concat rs
       else length rs < n \<and> ix2 = ix + 1 + length rs \<and> lg = concat rs @ [Commit_call ix2 rc2]" by blast
    have "\<forall>i < length (r # rs). round_ok cl (ix + i) ((r # rs) ! i)"
    proof (intro allI impI)
      fix i assume "i < length (r # rs)"
      then show "round_ok cl (ix + i) ((r # rs) ! i)" using rc(2) ih(5) by (cases i) auto
    qed
    moreover have "commit_loop N B (Suc n) ix cps_api_ret_code_OK par w = Some (rc2, ix2, par2, w2)"
      using st(1) rc(1) False ih(1) by simp
    moreover have "commit_loop N (logged B) (Suc n) ix cps_api_ret_code_OK par (with_log w l) =
        Some (rc2, ix2, par2, with_log w2 (l @ (r @ lg)))"
      using st(2) rc(1) False ih(2) by simp
    moreover have "if rc2 = cps_api_ret_code_OK then length (r # rs) = Suc n \<and> r @ lg = concat (r # rs)
       else length (r # rs) < Suc n \<and> ix2 = ix + length (r # rs) \<and> r @ lg = concat (r # rs) @ [Commit_call ix2 rc2]"
      using ih(6) by auto
    ultimately show ?thesis using ih(3,4) by blast
  qed
qed

lemma rollback_loop_logged:
  assumes "std_tlv (en_tlv N)" and "dict_wf (en_hash N) (en_dict N)" and "backend_keeps N B"
    and "commit_inv N cl w" and "tr_change_list par = cl" and "n \<le> length cl"
    and "rc \<noteq> cps_api_ret_code_OK"
  shows "\<exists>par' w'. rollback_loop N B rc n par w = Some (par', w') \<and>
     rollback_loop N (logged B) rc n par (with_log w l) =
       Some (par', with_log w' (l @ map Rollback_call (rev [0..<n]))) \<and>
     tr_change_list par' = cl \<and> commit_inv N cl w'"
  using assms(4-6)
proof (induction n arbitrary: par w l)
  case (Suc n)
  have inv: "commit_inv N (tr_change_list par) w" "n < length (tr_change_list par)" using Suc.prems by auto
  obtain par1 w1 where st: "rollback_step N B rc n par w = Some (par1, w1)"
    "rollback_step N (logged B) rc n par (with_log w l) = Some (par1, with_log w1 (l @ [Rollback_call n]))"
    "tr_change_list par1 = cl" "commit_inv N cl w1"
    using rollback_step_logged [OF assms(1-3) inv assms(7), of l] unfolding Suc.prems(2) by blast
  have "n \<le> length cl" using Suc.prems(3) by simp
  from Suc.IH [OF st(4,3) this, of "l @ [Rollback_call n]"] show ?case using st(1,2) by auto
qed auto



text \<open>A backend that accepts every object but the second one.\<close>

definition demo_env :: cps_env where
  "demo_env = \<lparr>en_tlv = tlv16, en_libc = libc_ok, en_hash = id, en_dict = empty_dict\<rparr>"

definition demo_world :: "unit cps_world" where
  "demo_world = \<lparr>w_heap = demo_heap, w_ext = ()\<rparr>"

definition demo_backend :: "unit req_backend" where
  "demo_backend = \<lparr>be_db_get = (\<lambda>par ix w. Some (cps_api_ret_code_OK, par, w)),
     be_svc_get = (\<lambda>par ix w. Some (cps_api_ret_code_OK, par\<lparr>gp_list := gp_list par @ [Some 1]\<rparr>, w)),
     be_db_commit = (\<lambda>par ix w. Some (cps_api_ret_code_OK, par, w)),
     be_svc_commit = (\<lambda>par ix w. Some (if ix = 1 then cps_api_ret_code_ERR else cps_api_ret_code_OK, par, w)),
     be_db_rollback = (\<lambda>par ix w. Some (cps_api_ret_code_OK, par, w)),
     be_svc_rollback = (\<lambda>par ix w. Some (cps_api_ret_code_OK, par, w)),
     be_publish = (\<lambda>a w. Some (True, w))\<rparr>"

definition demo_trans :: cps_api_transaction_params_t where
  "demo_trans = \<lparr>tr_change_list = [Some 1, Some 1, Some 1], tr_prev = [], tr_timeout = 0\<rparr>"

lemma demo_backend_keeps: "backend_keeps demo_env demo_backend"
  by (auto simp: backend_keeps_def call_keeps_def demo_backend_def)

lemma demo_commit_inv: "commit_inv demo_env (tr_change_list demo_trans) demo_world"
proof -
  have "key_ok (obj_key demo_obj)" by (simp add: demo_obj_def key_ok_def)
  moreover have "(CPS_OBJECT_GROUP_CONTINUE_ON_FAILURE, d) \<notin> set [(5, [9 :: u8])]" for d
    by (simp add: CPS_OBJECT_GROUP_CONTINUE_ON_FAILURE_def)
  ultimately have "request_obj demo_env demo_obj"
    using demo_obj_wf unfolding request_obj_def by (auto simp: demo_env_def)
  then show ?thesis by (simp add: commit_inv_def demo_trans_def demo_world_def demo_heap_def)
qed



section \<open>The exact match filter of a get request\<close>

lemma filter_close_up_nth:
  "w \<le> length l \<Longrightarrow> filter_close_up l w (length l) = take w l @ filter (\<lambda>q. q \<noteq> None) (drop w l)"
proof (induction l w "length l" rule: filter_close_up.induct)
  case (1 l w)
  show ?case
  proof (cases "w < length l")
    case True
    then have d: "drop w l = l ! w # drop (Suc w) l" by (simp add: Cons_nth_drop_Suc)
    show ?thesis
    proof (cases "l ! w")
      case None
      let ?l = "take w l @ drop (w + 1) l"
      have "filter_close_up l w (length l) = filter_close_up ?l w (length ?l)"
        using True None by (subst filter_close_up.simps)
          (simp add: cps_api_object_list_get_def cps_api_object_list_remove_def)
      also have "\<dots> = take w ?l @ filter (\<lambda>q. q \<noteq> None) (drop w ?l)"
        using 1(1) [OF True] True None
        by (simp add: cps_api_object_list_get_def cps_api_object_list_remove_def)
      finally show ?thesis using True None d by simp
    next
      case (Some a)
      have "filter_close_up l w (length l) = filter_close_up l (w + 1) (length l)"
        using True Some by (subst filter_close_up.simps) (simp add: cps_api_object_list_get_def)
      also have "\<dots> = take (w + 1) l @ filter (\<lambda>q. q \<noteq> None) (drop (w + 1) l)"
        using 1(2) [OF True] True Some by (simp add: cps_api_object_list_get_def)
      finally show ?thesis using True Some d by (simp add: take_Suc_conv_app_nth)
    qed
  next
    case False
    then show ?thesis using 1(3) by (subst filter_close_up.simps) simp
  qed
qed

text \<open>The results that the filter judges, and what it says of each.\<close>

definition judged :: "cps_env \<Rightarrow> cps_obj \<Rightarrow> obj_heap \<Rightarrow> nat list \<Rightarrow> (nat \<Rightarrow> bool) \<Rightarrow> bool" where
  "judged N obj h as m \<longleftrightarrow> (\<forall>a \<in> set as. \<exists>p. hp_objs h a = Some p \<and>
     cps_api_obj_tool_matches_filter (en_tlv N) (en_dict N) obj p True = Some (m a))"

lemma filter_mark_judged:
  assumes "heap_wf h" and "distinct as" and "judged N obj h as m"
  shows "\<exists>h'. filter_mark N obj (pre @ map Some as) h (length as) (length pre) =
      Some (pre @ map (\<lambda>a. if m a then Some a else None) as, h') \<and>
     (\<forall>a. a \<notin> set as \<or> m a \<longrightarrow> hp_objs h' a = hp_objs h a)"
  using assms
proof (induction as arbitrary: pre h)
  case (Cons a as)
  obtain p where p: "hp_objs h a = Some p"
    "cps_api_obj_tool_matches_filter (en_tlv N) (en_dict N) obj p True = Some (m a)"
    using Cons.prems(3) by (auto simp: judged_def)
  let ?e = "if m a then Some a else None"
  obtain h1 where d: "obj_delloc h a = Some h1" "heap_wf h1" "\<forall>b. b \<noteq> a \<longrightarrow> hp_objs h1 b = hp_objs h b"
    using delloc_cases [OF Cons.prems(1) p(1)] by auto
  define h2 where "h2 = (if m a then h else h1)"
  have step: "filter_mark N obj (pre @ map Some (a # as)) h (length (a # as)) (length pre) =
      filter_mark N obj ((pre @ [?e]) @ map Some as) h2 (length as) (length (pre @ [?e]))"
    using p d(1) by (simp add: cps_api_object_list_get_def cps_api_object_list_set_def
        cps_api_object_delete_def h2_def)
  have "heap_wf h2" "judged N obj h2 as m" "distinct as"
    using Cons.prems d by (auto simp: h2_def judged_def)
  from Cons.IH [OF this(1,3,2), of "pre @ [?e]"] obtain h' where
    "filter_mark N obj ((pre @ [?e]) @ map Some as) h2 (length as) (length (pre @ [?e])) =
      Some ((pre @ [?e]) @ map (\<lambda>a. if m a then Some a else None) as, h')"
    "\<forall>b. b \<notin> set as \<or> m b \<longrightarrow> hp_objs h' b = hp_objs h2 b" by blast
  then show ?case using step d(3) by (auto simp: h2_def)
qed simp

lemma filter_list_judged:
  assumes "heap_wf h" and "distinct as" and "judged N obj h as m"
    and "cps_api_object_get_exact_match_flag (en_tlv N) obj = Some True"
  shows "\<exists>h'. filter_list_as_needed N obj (pre @ map Some as) h (length pre) (length (pre @ map Some as)) =
      Some (pre @ map Some (filter m as), h') \<and>
     (\<forall>a. a \<notin> set as \<or> m a \<longrightarrow> hp_objs h' a = hp_objs h a)"
proof -
  let ?l = "pre @ map (\<lambda>a. if m a then Some a else None) as"
  have "filter (\<lambda>q. q \<noteq> None) (map (\<lambda>a. if m a then Some a else None) as) = map Some (filter m as)"
    by (induction as) auto
  then have "filter_close_up ?l (length pre) (length ?l) = pre @ map Some (filter m as)"
    using filter_close_up_nth [of "length pre" ?l] by simp
  then show ?thesis
    using filter_mark_judged [OF assms(1-3), of pre] assms(4)
    by (auto simp: filter_list_as_needed_def cps_api_object_list_size_def)
qed


text \<open>
  \<^bold>\<open>C4.\<close> A get request with one filter that asks for exact matches, answered by the owning service,
  returns what was in the list before and, of the service's answers, exactly the objects that match
  the filter, in their order. The references to the other answers are given back, nothing else on the
  heap changes.
\<close>

theorem get_exact_match:
  assumes "gp_keys param = []" and "gp_filters param = Some [Some f]"
    and "hp_objs (w_heap w) f = Some pf"
    and "cps_api_obj_get_ownership_type (en_hash N) (en_dict N) (obj_key pf) = Some CPS_API_OBJECT_SERVICE"
    and "be_svc_get B param 0 w =
      Some (cps_api_ret_code_OK, param\<lparr>gp_list := gp_list param @ map Some as\<rparr>, w')"
    and "hp_objs (w_heap w') f = Some pf'"
    and "cps_api_object_get_exact_match_flag (en_tlv N) pf' = Some True"
    and "heap_wf (w_heap w')" and "distinct as" and "judged N pf' (w_heap w') as m"
  shows "\<exists>w''. cps_api_get N B param w =
       Some (cps_api_ret_code_OK, param\<lparr>gp_list := gp_list param @ map Some (filter m as)\<rparr>, w'') \<and>
     w_ext w'' = w_ext w' \<and>
     (\<forall>a. a \<notin> set as \<or> m a \<longrightarrow> hp_objs (w_heap w'') a = hp_objs (w_heap w') a)"
proof -
  obtain h' where "filter_list_as_needed N pf' (gp_list param @ map Some as) (w_heap w') (length (gp_list param))
      (length (gp_list param @ map Some as)) = Some (gp_list param @ map Some (filter m as), h')"
    "\<forall>a. a \<notin> set as \<or> m a \<longrightarrow> hp_objs h' a = hp_objs (w_heap w') a"
    using filter_list_judged [OF assms(8-10,7)] by blast
  then show ?thesis
    using assms(1-6)
    by (simp add: cps_api_get_def cps_api_object_list_size_def cps_api_object_list_get_def obj_at_def
        param_list_def)
qed

text \<open>A service that answers with two objects, one of which matches the filter.\<close>

definition get_filter :: cps_obj where
  "get_filter = tlv16_obj [(CPS_OBJECT_GROUP_EXACT_MATCH, [1, 0, 0, 0]), (5, [9])]"

definition get_heap :: obj_heap where
  "get_heap = \<lparr>hp_objs = [1 \<mapsto> tlv16_obj [(5, [9])], 2 \<mapsto> tlv16_obj [(5, [7])], 3 \<mapsto> get_filter], hp_brk = 4,
     hp_trackers = map (\<lambda>a. (a, \<lparr>trk_desc = [], trk_ln = 0, trk_file = []\<rparr>)) [1, 2, 3],
     hp_allocated_objs = 3, hp_deallocated_objs = 0\<rparr>"

definition get_request :: cps_api_get_params_t where
  "get_request = \<lparr>gp_keys = [], gp_list = [], gp_filters = Some [Some 3], gp_timeout = 0\<rparr>"

lemma get_heap_wf: "heap_wf get_heap"
  by (auto simp: heap_wf_def get_heap_def get_filter_def tlv16_obj_def)

lemma get_filter_facts:
  "obj_wf tlv16 get_filter [(CPS_OBJECT_GROUP_EXACT_MATCH, [1, 0, 0, 0]), (5, [9])]"
  "obj_wf tlv16 (tlv16_obj [(5, [x])]) [(5, [x])]"
  unfolding get_filter_def by (rule tlv16_obj_wf; simp add: size_lim_def obj_cap_def)+

lemma get_filter_matches:
  "cps_api_obj_tool_matches_filter tlv16 empty_dict get_filter (tlv16_obj [(5, [x])]) True = Some (x = 9)"
proof -
  let ?fs = "[(CPS_OBJECT_GROUP_EXACT_MATCH, [1, 0, 0, 0]), (5, [9])] :: attr list"
  have ne: "(5 :: u64) \<noteq> CPS_API_OBJ_KEY_ATTRS" "CPS_OBJECT_GROUP_EXACT_MATCH \<noteq> CPS_API_OBJ_KEY_ATTRS"
    "(5 :: u64) \<noteq> CPS_OBJECT_GROUP_EXACT_MATCH"
    by (simp_all add: CPS_API_OBJ_KEY_ATTRS_def CPS_OBJECT_GROUP_EXACT_MATCH_def)
  have p: "plain_attrs empty_dict True ?fs"
    by (simp add: plain_attrs_def cps_class_map_attr_class_def cps_dict_find_by_id_def umap_find_def
        empty_dict_def)
  have l: "\<forall>y \<in> set [(5 :: u64, [x])]. length (snd y) < 2 ^ 31" by simp
  have "\<forall>c. (CPS_API_OBJ_KEY_ATTRS, c) \<in> set ?fs \<union> set [(5, [x])] \<longrightarrow>
      tlv_seq tlv16 c 0 (length c) [] \<and> CPS_API_OBJ_KEY_ATTRS \<notin> fst ` set ([] :: attr list) \<and>
      plain_attrs empty_dict True []" using ne by auto
  note m = matches_filter_obj [OF tlv16.std_tlv_axioms get_filter_facts p l this]
  have "cps_api_attr_id_is_temporary CPS_OBJECT_GROUP_EXACT_MATCH" "\<not> cps_api_attr_id_is_temporary 5"
    by (simp_all add: cps_api_attr_id_is_temporary_def is_in_cps_attr_set_def cps_metadata_ids_def cps_ids
        CPS_API_OBJ_KEY_ATTRS_def)
  then show ?thesis using m ne by (auto simp: object_matches_def attr_matches_def)
qed

theorem get_exact_match_witness:
  "\<exists>w''. cps_api_get demo_env
       (demo_backend\<lparr>be_svc_get := (\<lambda>par ix w. Some (cps_api_ret_code_OK, par\<lparr>gp_list := gp_list par @ [Some 1, Some 2]\<rparr>, w))\<rparr>)
       get_request \<lparr>w_heap = get_heap, w_ext = ()\<rparr> =
     Some (cps_api_ret_code_OK, get_request\<lparr>gp_list := [Some 1]\<rparr>, w'') \<and>
     hp_objs (w_heap w'') 1 = Some (tlv16_obj [(5, [9])])"
proof -
  let ?B = "demo_backend\<lparr>be_svc_get := (\<lambda>par ix w. Some (cps_api_ret_code_OK, par\<lparr>gp_list := gp_list par @ [Some 1, Some 2]\<rparr>, w))\<rparr>"
  let ?w = "\<lparr>w_heap = get_heap, w_ext = ()\<rparr>"
  have h: "hp_objs (w_heap ?w) 3 = Some get_filter" by (simp add: get_heap_def)
  have "key_ok (obj_key get_filter)" by (simp add: get_filter_def tlv16_obj_def key_ok_def)
  then have o: "cps_api_obj_get_ownership_type (en_hash demo_env) (en_dict demo_env) (obj_key get_filter) =
      Some CPS_API_OBJECT_SERVICE"
    using characteristics_at [OF dict_wf_empty, of "obj_key get_filter" id]
    by (simp add: cps_api_obj_get_ownership_type_def demo_env_def) (simp add: empty_dict_def)
  have "get_data_uint tlv16 get_filter CPS_OBJECT_GROUP_EXACT_MATCH 4 = Some (Some (le_val (take 4 [1, 0, 0, 0])))"
    by (rule tlv16.get_data_uint_obj(2) [OF get_filter_facts(1)]) simp_all
  then have e: "cps_api_object_get_exact_match_flag (en_tlv demo_env) get_filter = Some True"
    by (simp add: cps_api_object_get_exact_match_flag_def demo_env_def)
  have j: "judged demo_env get_filter (w_heap ?w) [1, 2] (\<lambda>a. a = 1)"
    using get_filter_matches by (simp add: judged_def demo_env_def get_heap_def)
  have b: "be_svc_get ?B get_request 0 ?w =
      Some (cps_api_ret_code_OK, get_request\<lparr>gp_list := gp_list get_request @ map Some [1, 2]\<rparr>, ?w)"
    by (simp add: get_request_def)
  have r: "gp_keys get_request = []" "gp_filters get_request = Some [Some 3]" "gp_list get_request = []"
    by (simp_all add: get_request_def)
  have wf: "heap_wf (w_heap ?w)" using get_heap_wf by simp
  have d: "distinct [1 :: nat, 2]" by simp
  have g: "hp_objs (w_heap ?w) 1 = Some (tlv16_obj [(5, [9])])" by (simp add: get_heap_def)
  show ?thesis
    using get_exact_match [OF r(1,2) h o b h e wf d j] r(3) g by auto
qed

text \<open>
  In a request that names keys the filter runs on the wrong one of two swapped lists, which stays
  empty: the answers of the services are in the other list and are never filtered.
\<close>

lemma get_loop_copy_unfiltered:
  assumes "get_loop N B True n ix rc req [] w = Some (rc', req', l, w')"
  shows "l = []"
  using assms
proof (induction n arbitrary: ix rc req w)
  case (Suc n)
  have e: "filter_list_as_needed N p [] h 0 0 = Some (l, h') \<Longrightarrow> l = []" for p h l h'
    by (auto simp: filter_list_as_needed_def cps_api_object_list_size_def filter_close_up.simps
        split: Option.bind_splits if_splits)
  from Suc show ?case
    by (auto simp: param_list_def cps_api_object_list_size_def Let_def split: Option.bind_splits if_splits dest!: e)
qed simp

section \<open>Escaping and the operation of a roll back\<close>

fun unescape_bytes :: "bytes \<Rightarrow> bytes" where
  "unescape_bytes [] = []"
| "unescape_bytes [c] = [c]"
| "unescape_bytes (c # d # cs) = (if c = 92 then d # unescape_bytes cs else c # unescape_bytes (d # cs))"

text \<open>Every character with a meaning in a pattern stands behind a backslash.\<close>

fun no_bare_wildcard :: "bytes \<Rightarrow> bool" where
  "no_bare_wildcard [] \<longleftrightarrow> True"
| "no_bare_wildcard [c] \<longleftrightarrow> \<not> wildcard_char c"
| "no_bare_wildcard (c # d # cs) \<longleftrightarrow>
     (if c = 92 then no_bare_wildcard cs else \<not> wildcard_char c \<and> no_bare_wildcard (d # cs))"

lemma unescape_Cons: "c \<noteq> 92 \<Longrightarrow> unescape_bytes (c # cs) = c # unescape_bytes cs"
  by (cases cs) auto

lemma no_bare_Cons: "\<not> wildcard_char c \<Longrightarrow> no_bare_wildcard (c # cs) = no_bare_wildcard cs"
  by (cases cs) (auto simp: wildcard_char_def)

lemma escape_bytes_facts:
  "unescape_bytes (escape_bytes cs) = cs \<and> no_bare_wildcard (escape_bytes cs) \<and>
   length (escape_bytes cs) \<le> 2 * length cs"
  by (induction cs) (auto simp: unescape_Cons no_bare_Cons wildcard_char_def)

text \<open>
  Escaping an attribute value for a pattern needs at most twice its length and stays within the
  output buffer whose size was checked; the result has no character with a pattern meaning that is
  not escaped, and removing the escapes gives back the value.
\<close>

theorem attr_escape_roundtrip:
  assumes "len \<le> length buff" and "2 * len \<le> attr_len" and "attr_len \<le> length attr"
    and "type \<in> {cps_api_object_ATTR_T_U16, cps_api_object_ATTR_T_U32, cps_api_object_ATTR_T_U64} \<longrightarrow>
      (type, len) \<in> {(cps_api_object_ATTR_T_U16, 2), (cps_api_object_ATTR_T_U32, 4),
        (cps_api_object_ATTR_T_U64, 8)}"
  shows "\<exists>attr' n. cps_api_attr_create_escaped type buff len attr attr_len = Some (True, attr', n) \<and>
     n \<le> 2 * len \<and> length attr' = length attr \<and> drop n attr' = drop n attr \<and>
     no_bare_wildcard (take n attr') \<and> unescape_bytes (take n attr') = take len buff"
proof -
  let ?e = "escape_bytes (take len buff)"
  note e = escape_bytes_facts [of "take len buff"]
  have "length ?e \<le> 2 * len" using e assms(1) by (auto simp: min_def split: if_splits)
  moreover have "memcpy attr 0 ?e = Some (?e @ drop (length ?e) attr)"
    using calculation assms(2,3) by (simp add: memcpy_def)
  moreover have "\<not> (case type of cps_api_object_ATTR_T_U16 \<Rightarrow> len \<noteq> 2 | cps_api_object_ATTR_T_U32 \<Rightarrow> len \<noteq> 4
      | cps_api_object_ATTR_T_U64 \<Rightarrow> len \<noteq> 8 | _ \<Rightarrow> False)"
    using assms(4) by (auto split: cps_api_object_ATTR_TYPE_t.splits)
  ultimately show ?thesis
    using e assms(1-3) by (simp add: cps_api_attr_create_escaped_def Let_def)
qed

theorem attr_escape_roundtrip_witness:
  "\<exists>attr' n. cps_api_attr_create_escaped cps_api_object_ATTR_T_BIN [101, 42] 2 [0, 0, 0, 0] 4 = Some (True, attr', n) \<and>
     no_bare_wildcard (take n attr') \<and> unescape_bytes (take n attr') = [101, 42]"
  using attr_escape_roundtrip [of 2 "[101, 42]" 4 "[0, 0, 0, 0]" cps_api_object_ATTR_T_BIN]
  by (auto simp: numeral_2_eq_2)

text \<open>
  The operation that undoes a database change: a creation is undone by a deletion, but so is a
  deletion, since the two tests of the source run one after the other.
\<close>

lemma rollback_operation_delete:
  "rollback_operation cps_api_oper_CREATE = cps_api_oper_DELETE \<and>
   rollback_operation cps_api_oper_DELETE = cps_api_oper_DELETE \<and>
   rollback_operation cps_api_oper_SET = cps_api_oper_SET"
  by (simp add: rollback_operation_def cps_opers)

end
