(* ===== verification/Cps_Client_Ipc_Proofs.thy ===== *)
theory Cps_Client_Ipc_Proofs
  imports Cps_Client_Ipc Cps_Operation_Proofs
begin

text \<open>
  The client's conversations. The answers of a service to a get are a stream of objects that ends with
  a marker; the client's loop collects them in order and ends. The cache of owners keeps at most one
  entry for a key, so that filling it replaces what was known, and an entry older than twenty seconds
  is never used.
\<close>

section \<open>Collecting the answers of a get\<close>

text \<open>The answer of a service: one message for each object and the end marker.\<close>

definition resp_wire :: "cps_obj list \<Rightarrow> bytes" where
  "resp_wire ps = concat (map (\<lambda>p. msg_wire cps_api_msg_o_GET_RESP (obj_wire p)) ps)"

definition get_wire :: "cps_obj list \<Rightarrow> bytes" where
  "get_wire ps = resp_wire ps @ msg_wire cps_api_msg_o_GET_DONE []"

text \<open>
  \<open>arrived T h h' ps as\<close>: \<open>as\<close> are new addresses, the objects there in \<open>h'\<close> hold the keys and
  attributes of \<open>ps\<close>, and \<open>h'\<close> keeps the objects of \<open>h\<close>.
\<close>

definition arrived :: "std_tlv_api \<Rightarrow> obj_heap \<Rightarrow> obj_heap \<Rightarrow> (cps_obj \<times> attr list) list \<Rightarrow> nat list \<Rightarrow> bool" where
  "arrived T h h' ps as \<longleftrightarrow> distinct as \<and> (\<forall>a \<in> set as. hp_objs h a = None) \<and>
     (\<forall>a. a \<notin> set as \<longrightarrow> hp_objs h' a = hp_objs h a) \<and>
     list_all2 (\<lambda>(p, xs) a. \<exists>q. hp_objs h' a = Some q \<and> obj_wf T q xs \<and> obj_key q = obj_key p \<and>
       obj_ref_count q = 1) ps as"

definition wire_ok :: "std_tlv_api \<Rightarrow> (cps_obj \<times> attr list) list \<Rightarrow> bool" where
  "wire_ok T ps \<longleftrightarrow> (\<forall>(p, xs) \<in> set ps. obj_wf T p xs \<and> attrs_size T xs + 256 < 2 ^ 31)"

lemma arrived_Nil: "arrived T h h [] []"
  by (simp add: arrived_def)

lemma arrived_Cons:
  assumes "hp_objs h a = None" and "hp_objs h1 = (hp_objs h)(a \<mapsto> q)" and "obj_wf T q xs"
    and "obj_key q = obj_key p" and "obj_ref_count q = 1" and "arrived T h1 h2 ps as"
  shows "arrived T h h2 ((p, xs) # ps) (a # as)"
proof -
  have a: "a \<notin> set as" using assms(2,6) by (auto simp: arrived_def)
  have "hp_objs h2 a = Some q" using a assms(2,6) by (simp add: arrived_def)
  moreover have "hp_objs h b = None" if "b \<in> set as" for b
    using assms(2,6) that a by (auto simp: arrived_def split: if_splits)
  moreover have "hp_objs h2 b = hp_objs h b" if "b \<notin> set (a # as)" for b
    using assms(2,6) that by (auto simp: arrived_def)
  ultimately show ?thesis using assms a by (auto simp: arrived_def)
qed

context stream_sock
begin

lemma resp_step_wait:
  assumes "pending x fd \<noteq> []" and "peer x fd \<noteq> None"
  obtains x1 rc1 where "pending x1 = pending x" and "peer x1 = peer x"
    and "get_resp_step K S fd t rc op l h x = get_resp_step K S fd 0 rc1 op l h x1"
proof (cases "t = 0")
  case False
  obtain x1 where "cps_api_timeout_wait S fd t x = (cps_api_ret_code_OK, x1)" "pending x1 = pending x"
    "peer x1 = peer x"
    by (rule timeout_wait_ok [OF assms])
  then show thesis using False that [of x1 cps_api_ret_code_OK] by (simp add: get_resp_step_def)
qed (use that in blast)

lemma msg_wire_neq [simp]: "msg_wire op b \<noteq> []"
proof
  assume "msg_wire op b = []"
  then have "length (msg_wire op b) = 0" by simp
  then show False by (simp add: msg_wire_def)
qed

lemma resp_step_object:
  assumes "pending x fd = msg_wire cps_api_msg_o_GET_RESP (obj_wire p) @ rest" and "peer x fd \<noteq> None"
    and "std_tlv T" and "obj_wf T p xs" and "attrs_size T xs + 256 < 2 ^ 31" and "heap_wf h"
    and "\<forall>n. alloc_ok (ie_libc K) n"
  obtains rc1 a q h1 x1 where
    "get_resp_step K S fd t rc op l h x =
       Some (True, rc1, Some cps_api_msg_o_GET_RESP, l @ [Some a], h1, x1)"
    and "hp_objs h a = None" and "hp_objs h1 = (hp_objs h)(a \<mapsto> q)" and "heap_wf h1"
    and "obj_wf T q xs" and "obj_key q = obj_key p" and "obj_ref_count q = 1"
    and "pending x1 fd = rest" and "peer x1 = peer x"
proof -
  have ne: "pending x fd \<noteq> []" using assms(1) by simp
  obtain x0 rc1 where w: "pending x0 = pending x" "peer x0 = peer x"
    "get_resp_step K S fd t rc op l h x = get_resp_step K S fd 0 rc1 op l h x0"
    by (rule resp_step_wait [OF ne assms(2), of K t rc op l h])
  have len: "length (obj_wire p) < 2 ^ 32"
    using obj_wire_eq(2) [OF assms(4)] assms(5) by (simp add: obj_cap_def)
  obtain x1 where x1: "cps_api_receive_header S fd x0 = (Some (cps_api_msg_o_GET_RESP, length (obj_wire p)), x1)"
    "taken fd (hdr_bytes \<lparr>hdr_version = 0, hdr_len = length (obj_wire p), hdr_operation = cps_api_msg_o_GET_RESP\<rparr>) x0 x1"
    "pending x1 fd = obj_wire p @ rest"
    using receive_header_ok [OF _ len, of x0 fd cps_api_msg_o_GET_RESP rest] assms(1,2) w(1,2) by metis
  have pe: "peer x1 fd \<noteq> None" using assms(2) taken_peer [OF x1(2)] w(2) by simp
  obtain a q h1 x2 where r:
    "cps_api_receive_object (ie_libc K) S fd (length (obj_wire p)) h x1 = Some (Some a, h1, x2)"
    "hp_objs h a = None" "hp_objs h1 = (hp_objs h)(a \<mapsto> q)" "heap_wf h1" "obj_wf T q xs"
    "obj_key q = obj_key p" "obj_ref_count q = 1" "taken fd (obj_wire p) x1 x2" "pending x2 fd = rest"
    by (rule receive_object_ok [OF x1(3) pe assms(3-7)])
  have "get_resp_step K S fd 0 rc1 op l h x0 =
      Some (True, rc1, Some cps_api_msg_o_GET_RESP, l @ [Some a], h1, x2)"
    using x1(1) r(1) assms(7)
    by (simp add: get_resp_step_def cps_api_object_list_append_def vector_ok_def msg_ops)
  moreover have "peer x2 = peer x" using r(8) x1(2) w(2) by (simp add: taken_def)
  ultimately show thesis using w(3) r by (intro that [of rc1 a h1 x2 q]) auto
qed

lemma resp_loop_collects:
  assumes "pending x fd = get_wire (map fst ps) @ rest" and "peer x fd \<noteq> None" and "std_tlv T"
    and "wire_ok T ps" and "heap_wf h" and "\<forall>n. alloc_ok (ie_libc K) n"
  shows "\<exists>rc' as h' x'. get_resp_loop K S fd t rc op l h x =
       Some (rc', Some cps_api_msg_o_GET_DONE, l @ map Some as, h', x') \<and>
     arrived T h h' ps as \<and> heap_wf h' \<and> pending x' fd = rest"
  using assms(1,2,4,5)
proof (induction ps arbitrary: x h l rc op)
  case Nil
  then have p: "pending x fd = msg_wire cps_api_msg_o_GET_DONE [] @ rest"
    by (simp add: get_wire_def resp_wire_def)
  then have ne: "pending x fd \<noteq> []" by simp
  obtain x0 rc1 where w: "pending x0 = pending x" "peer x0 = peer x"
    "get_resp_step K S fd t rc op l h x = get_resp_step K S fd 0 rc1 op l h x0"
    by (rule resp_step_wait [OF ne Nil.prems(2), of K t rc op l h])
  obtain x1 where "cps_api_receive_header S fd x0 = (Some (cps_api_msg_o_GET_DONE, 0), x1)"
    "pending x1 fd = rest"
    using receive_header_ok [of x0 fd cps_api_msg_o_GET_DONE "[]" rest] p w(1,2) Nil.prems(2)
    by (metis append_Nil length_greater_0_conv list.size(3) zero_less_numeral zero_less_power)
  then show ?case using w(3) Nil.prems(4) arrived_Nil [of T h]
    by (subst get_resp_loop.simps) (auto simp: get_resp_step_def msg_ops)
next
  case (Cons pr ps)
  obtain p xs where pr: "pr = (p, xs)" by (cases pr)
  have ok: "obj_wf T p xs" "attrs_size T xs + 256 < 2 ^ 31" "wire_ok T ps"
    using Cons.prems(3) by (auto simp: pr wire_ok_def)
  have "pending x fd = msg_wire cps_api_msg_o_GET_RESP (obj_wire p) @ (get_wire (map fst ps) @ rest)"
    using Cons.prems(1) by (simp add: pr get_wire_def resp_wire_def)
  from resp_step_object [OF this Cons.prems(2) assms(3) ok(1,2) Cons.prems(4) assms(6), of t rc op l]
  obtain rc1 a q h1 x1 where s: "get_resp_step K S fd t rc op l h x =
       Some (True, rc1, Some cps_api_msg_o_GET_RESP, l @ [Some a], h1, x1)"
    and n: "hp_objs h a = None" "hp_objs h1 = (hp_objs h)(a \<mapsto> q)" "heap_wf h1"
    "obj_wf T q xs" "obj_key q = obj_key p" "obj_ref_count q = 1"
    "pending x1 fd = get_wire (map fst ps) @ rest" "peer x1 = peer x"
    by metis
  have "peer x1 fd \<noteq> None" using n(8) Cons.prems(2) by simp
  from Cons.IH [OF n(7) this ok(3) n(3), of rc1 "Some cps_api_msg_o_GET_RESP" "l @ [Some a]"]
  obtain rc' as h' x' where i: "get_resp_loop K S fd t rc1 (Some cps_api_msg_o_GET_RESP) (l @ [Some a]) h1 x1 =
      Some (rc', Some cps_api_msg_o_GET_DONE, (l @ [Some a]) @ map Some as, h', x')"
    "arrived T h1 h' ps as" "heap_wf h'" "pending x' fd = rest"
    by blast
  have "get_resp_loop K S fd t rc op l h x =
      Some (rc', Some cps_api_msg_o_GET_DONE, l @ map Some (a # as), h', x')"
    using s i(1) by (subst get_resp_loop.simps) simp
  then show ?case using arrived_Cons [OF n(1,2,4-6) i(2)] i(3,4) pr by blast
qed

end

section \<open>The cache of owners\<close>

text \<open>At most one entry for a key.\<close>

definition cache_single :: "'d cache \<Rightarrow> bool" where
  "cache_single c \<longleftrightarrow>
     (\<forall>hv v. umap_find c hv = Some v \<longrightarrow> distinct (map (\<lambda>e. key_elems (fe_key e)) v))"

lemma bucket_map_None: "bucket_map v es = None \<longleftrightarrow> es \<notin> set (map (\<lambda>e. key_elems (fe_key e)) v)"
  by (auto simp: bucket_map_def find_None_iff)

lemma distinct_erase:
  assumes "ix < length xs" and "distinct xs"
  shows "distinct (list_erase xs ix)" and "xs ! ix \<notin> set (list_erase xs ix)"
  using assms id_take_nth_drop [OF assms(1)]
  by (auto simp: list_erase_def set_take_disj_set_drop_if_distinct in_set_conv_nth nth_eq_iff_index_eq)

lemma list_erase_map: "list_erase (map f xs) i = map f (list_erase xs i)"
  by (simp add: list_erase_def take_map drop_map)

lemma cache_erase_single:
  assumes "cache_inv h c" and "cache_single c" and "key_ok key"
  shows "\<exists>c'. cache_erase h c key = Some c' \<and> cache_inv h c' \<and> cache_single c' \<and>
     cache_map h c' = (cache_map h c)(key_elems key := None)"
proof -
  obtain c' where c': "cache_erase h c key = Some c'" "cache_inv h c'"
    "\<And>es. es \<noteq> key_elems key \<Longrightarrow> cache_map h c' es = cache_map h c es"
    using cache_erase_map [OF assms(1,3)] by blast
  obtain r where r: "find_entry h c key True = Some r" "entry_for h c (key_elems key) r"
    using find_entry_exact [OF assms(1,3)] by blast
  let ?hv = "elems_hash h (key_elems key)" and ?f = "\<lambda>e. key_elems (fe_key e)"
  have "cache_single c' \<and> cache_map h c' (key_elems key) = None"
  proof (cases r)
    case None
    then have "c' = c" using r(1) c'(1) by (simp add: cache_erase_def)
    then show ?thesis using None r(2) assms(2) by (simp add: entry_for_def)
  next
    case (Some p)
    then obtain ix v where p: "r = Some (?hv, ix)" "umap_find c ?hv = Some v" "ix < length v"
      "?f (v ! ix) = key_elems key"
      using r(2) by (cases p) (auto simp: entry_for_def found_at_def)
    have e: "c' = umap_set c ?hv (list_erase v ix)" using r(1) p(1,2) c'(1) by (simp add: cache_erase_def)
    have d: "distinct (map ?f v)" using assms(2) p(2) by (simp add: cache_single_def)
    note m = distinct_erase [of ix "map ?f v", OF _ d]
    have "cache_single c'" using assms(2) m(1) p(3) by (auto simp: cache_single_def e list_erase_map)
    moreover have "cache_map h c' (key_elems key) = None"
      using m(2) p(3,4) by (simp add: cache_map_def e bucket_map_None list_erase_map)
    ultimately show ?thesis by simp
  qed
  with c' show ?thesis by (intro exI [of _ c']) auto
qed

lemma cache_insert_single:
  assumes "cache_inv h c" and "cache_single c" and "key_ok key" and "mem_ok"
    and "cache_map h c (key_elems key) = None"
  shows "\<exists>c'. cache_insert h mem_ok c key d True = Some (True, c') \<and> cache_inv h c' \<and> cache_single c' \<and>
     cache_map h c' = (cache_map h c)(key_elems key \<mapsto> d)"
proof -
  let ?hv = "elems_hash h (key_elems key)" and ?f = "\<lambda>e. key_elems (fe_key e)"
  obtain c' where c': "cache_insert h mem_ok c key d True = Some (True, c')" "cache_inv h c'"
    "cache_map h c' = (cache_map h c)(key_elems key \<mapsto> d)"
    using cache_insert_map [OF assms(1,3), of True mem_ok d] assms(4,5) by auto
  define v where "v = (case umap_find c ?hv of None \<Rightarrow> [] | Some v \<Rightarrow> v)"
  have "(4 * length (key_elems key) + 8) div 4 = unat (key ! 0) + 2" using key_ok_len [OF assms(3)] by simp
  then have e: "c' = umap_set c ?hv (v @ [\<lparr>fe_key = take (unat (key ! 0) + 2) key, fe_allocated = True, fe_data = d\<rparr>])"
    using c'(1) assms(3,4)
    by (auto simp: cache_insert_def key_hash key_layout Let_def v_def split: if_splits)
  have "distinct (map ?f v)" using assms(2) by (auto simp: v_def cache_single_def split: option.splits)
  moreover have "key_elems key \<notin> set (map ?f v)"
    using assms(5) by (auto simp: cache_map_def v_def bucket_map_None split: option.splits)
  ultimately have "cache_single c'"
    using assms(2) key_take_elems [OF assms(3)] by (auto simp: cache_single_def e)
  with c' show ?thesis by blast
qed

lemma cache_single_empty [simp]: "cache_single []"
  by (simp add: cache_single_def umap_find_def)

lemma key_mem_ok_all: "key_ok key \<Longrightarrow> \<forall>n. alloc_ok E n \<Longrightarrow> key_mem_ok E key"
  by (simp add: key_mem_ok_def key_layout)

lemma fill_cache_spec:
  assumes "cache_inv (ie_hash K) (is_cache s)" and "cache_single (is_cache s)" and "key_ok key"
    and "key_mem_ok (ie_libc K) key"
  shows "\<exists>s'. fill_cache K S key own s = Some s' \<and> cache_inv (ie_hash K) (is_cache s') \<and>
     cache_single (is_cache s') \<and> is_net s' = snd (sk_uptime S (is_net s)) \<and>
     cache_map (ie_hash K) (is_cache s') = (cache_map (ie_hash K) (is_cache s))
       (key_elems key \<mapsto> \<lparr>ce_owner = own, ce_last_updated = fst (sk_uptime S (is_net s))\<rparr>)"
proof -
  obtain now x where u: "sk_uptime S (is_net s) = (now, x)" by fastforce
  obtain c where c: "cache_erase (ie_hash K) (is_cache s) key = Some c" "cache_inv (ie_hash K) c"
    "cache_single c" "cache_map (ie_hash K) c = (cache_map (ie_hash K) (is_cache s))(key_elems key := None)"
    using cache_erase_single [OF assms(1-3)] by blast
  have n: "cache_map (ie_hash K) c (key_elems key) = None" by (simp add: c(4))
  show ?thesis
    using c u cache_insert_single [OF c(2,3) assms(3,4) n, of "\<lparr>ce_owner = own, ce_last_updated = now\<rparr>"]
    by (auto simp: fill_cache_def)
qed

text \<open>\<open>cache_connect\<close> by cases: no entry, a usable one, or one that is dropped.\<close>

lemma cache_connect_spec:
  assumes "cache_inv (ie_hash K) (is_cache s)" and "cache_single (is_cache s)" and "key_ok key"
    and "sk_uptime S (is_net s) = (now, x)"
  shows "cache_connect K S key s =
     (case cache_map (ie_hash K) (is_cache s) (key_elems key) of
        None \<Rightarrow> Some (None, s)
      | Some ce \<Rightarrow>
          (let (rc, fd, y) = (if now - ce_last_updated ce > CACHE_TM then (cps_api_ret_code_ERR, None, x)
                 else cps_api_connect_owner S (ce_owner ce) x);
               c = the (cache_erase (ie_hash K) (is_cache s) key) in
           Some (fd, if fd = None then s\<lparr>is_net := y, is_cache := c\<rparr> else s\<lparr>is_net := y\<rparr>)))"
proof -
  obtain c where c: "cache_erase (ie_hash K) (is_cache s) key = Some c"
    using cache_erase_single [OF assms(1-3)] by blast
  show ?thesis
    using cache_find_exact [OF assms(1,3)] c assms(4)
    by (auto simp: cache_connect_def cps_api_connect_owner_def ret_codes split: option.splits prod.splits)
qed

text \<open>The second half of \<open>cps_api_get_handle\<close>, when the cache did not help.\<close>

lemma get_handle_asked:
  assumes "cache_inv (ie_hash K) (is_cache s)" and "cache_single (is_cache s)" and "key_ok key"
    and "key_mem_ok (ie_libc K) key" and "cache_map (ie_hash K) (is_cache s) (key_elems key) = None"
    and "cps_api_get_handle K S key s = Some (r, s')"
  shows "cache_inv (ie_hash K) (is_cache s') \<and> cache_single (is_cache s') \<and>
     (case r of None \<Rightarrow> is_cache s' = is_cache s
      | Some fd \<Rightarrow> \<exists>ce y. fst (sk_connect S (reg_addr (ce_owner ce)) y) = Some fd \<and>
          cache_map (ie_hash K) (is_cache s') = (cache_map (ie_hash K) (is_cache s))(key_elems key \<mapsto> ce))"
proof -
  have cc: "cache_connect K S key s = Some (None, s)"
    using cache_find_exact [OF assms(1,3)] assms(5) by (simp add: cache_connect_def)
  obtain own x where fo: "cps_api_find_owners K S key (is_net s) = Some (own, x)"
    using assms(6) cc by (auto simp: cps_api_get_handle_def split: Option.bind_splits)
  show ?thesis
  proof (cases own)
    case None
    then show ?thesis using assms(1,2,6) cc fo by (auto simp: cps_api_get_handle_def)
  next
    case (Some w)
    obtain fd y where co: "sk_connect S (reg_addr w) x = (fd, y)" by fastforce
    show ?thesis
    proof (cases fd)
      case None
      then show ?thesis using assms(1,2,6) cc fo Some co
        by (auto simp: cps_api_get_handle_def cps_api_connect_owner_def ret_codes)
    next
      case (Some g)
      let ?s = "s\<lparr>is_net := y\<rparr>"
      obtain s2 where f: "fill_cache K S key w ?s = Some s2" "cache_inv (ie_hash K) (is_cache s2)"
        "cache_single (is_cache s2)" "cache_map (ie_hash K) (is_cache s2) = (cache_map (ie_hash K) (is_cache s))
         (key_elems key \<mapsto> \<lparr>ce_owner = w, ce_last_updated = fst (sk_uptime S y)\<rparr>)"
        using fill_cache_spec [of K ?s key S w] assms(1-4) by auto
      have "r = Some g" "s' = s2" using assms(6) cc fo \<open>own = Some w\<close> co Some f(1)
        by (auto simp: cps_api_get_handle_def cps_api_connect_owner_def ret_codes)
      moreover have "fst (sk_connect S (reg_addr w) x) = Some g" using co Some by simp
      ultimately show ?thesis using f(2-4)
        by (auto intro!: exI [of _ "\<lparr>ce_owner = w, ce_last_updated = fst (sk_uptime S y)\<rparr>"])
    qed
  qed
qed

lemma get_handle_after_cache:
  "cps_api_get_handle K S key s = Option.bind (cache_connect K S key s) (\<lambda>(fd, s1).
     if fd \<noteq> None then Some (fd, s1)
     else Option.bind (cps_api_find_owners K S key (is_net s1)) (\<lambda>(owner, x).
       let s = s1\<lparr>is_net := x\<rparr> in
       case owner of None \<Rightarrow> Some (None, s)
       | Some owner \<Rightarrow>
           (let (rc, handle, x) = cps_api_connect_owner S owner (is_net s); s = s\<lparr>is_net := x\<rparr> in
            if rc = cps_api_ret_code_OK
            then Option.bind (fill_cache K S key owner s) (\<lambda>s. Some (handle, s)) else Some (None, s))))"
  by (simp add: cps_api_get_handle_def)

text \<open>An entry that is not used is dropped: the rest of the call runs as without it.\<close>

lemma get_handle_dropped:
  assumes "cache_inv (ie_hash K) (is_cache s)" and "cache_single (is_cache s)" and "key_ok key"
    and "cache_connect K S key s = Some (None, s1)"
  shows "cps_api_get_handle K S key s = cps_api_get_handle K S key s1"
    and "cache_inv (ie_hash K) (is_cache s1)" and "cache_single (is_cache s1)"
    and "cache_map (ie_hash K) (is_cache s1) = (cache_map (ie_hash K) (is_cache s))(key_elems key := None)"
proof -
  obtain now x where u: "sk_uptime S (is_net s) = (now, x)" by fastforce
  obtain c where c: "cache_erase (ie_hash K) (is_cache s) key = Some c" "cache_inv (ie_hash K) c"
    "cache_single c" "cache_map (ie_hash K) c = (cache_map (ie_hash K) (is_cache s))(key_elems key := None)"
    using cache_erase_single [OF assms(1-3)] by blast
  note sp = cache_connect_spec [OF assms(1-3) u]
  have k: "is_cache s1 = c \<or> (s1 = s \<and> cache_map (ie_hash K) (is_cache s) (key_elems key) = None)"
    using sp assms(4) c(1)
    by (cases "cache_map (ie_hash K) (is_cache s) (key_elems key)")
      (auto simp: Let_def split: prod.splits if_splits)
  then show i: "cache_inv (ie_hash K) (is_cache s1)" "cache_single (is_cache s1)"
    and m: "cache_map (ie_hash K) (is_cache s1) = (cache_map (ie_hash K) (is_cache s))(key_elems key := None)"
    using c assms(1,2) by auto
  have "cache_find (ie_hash K) (is_cache s1) key True = Some None"
    using cache_find_exact [OF i(1) assms(3)] m by simp
  then have "cache_connect K S key s1 = Some (None, s1)" by (simp add: cache_connect_def)
  then show "cps_api_get_handle K S key s = cps_api_get_handle K S key s1"
    using assms(4) by (simp add: get_handle_after_cache)
qed

section \<open>A client with one known owner\<close>

definition demo_ipc :: ipc_env where
  "demo_ipc = \<lparr>ie_env = demo_env, ie_addr_size = 4, ie_ns_addr = []\<rparr>"

lemma demo_ipc_simps [simp]: "ie_hash demo_ipc = id" "ie_libc demo_ipc = libc_ok" "ie_tlv demo_ipc = tlv16"
  by (simp_all add: demo_ipc_def demo_env_def)

lemma demo_obj_key: "key_ok (obj_key demo_obj)"
  by (simp add: demo_obj_def key_ok_def)

definition demo_owner :: "u64 \<Rightarrow> cache_entry" where
  "demo_owner t = \<lparr>ce_owner = \<lparr>reg_key = obj_key demo_obj, reg_addr = [1, 2, 3, 4]\<rparr>, ce_last_updated = t\<rparr>"

lemma demo_client:
  obtains s where "cache_inv id (is_cache s)" and "cache_single (is_cache s)" and "is_net s = x"
    and "cache_map id (is_cache s) (key_elems (obj_key demo_obj)) = Some (demo_owner (pn_time x))"
    and "cps_api_get_handle demo_ipc pipe_sock (obj_key demo_obj) s = Some (Some 0, s)"
proof -
  let ?k = "obj_key demo_obj"
  let ?s = "\<lparr>is_cache = [], is_net = x\<rparr>"
  have i: "cache_inv (ie_hash demo_ipc) (is_cache ?s)" "cache_single (is_cache ?s)"
    "key_mem_ok (ie_libc demo_ipc) ?k"
    by (simp_all add: key_mem_ok_all demo_obj_key)
  have u: "sk_uptime pipe_sock (is_net ?s) = (pn_time x, x)" by (simp add: pipe_sock_def)
  obtain s :: "pipe_net ipc_state" where f: "cache_inv id (is_cache s)" "cache_single (is_cache s)" "is_net s = x"
    "cache_map id (is_cache s) = [key_elems ?k \<mapsto>
       \<lparr>ce_owner = ce_owner (demo_owner 0), ce_last_updated = pn_time x\<rparr>]"
    using fill_cache_spec [OF i(1,2) demo_obj_key i(3), of pipe_sock "ce_owner (demo_owner 0)"]
    unfolding u by auto
  then have s: "cache_inv id (is_cache s)" "cache_single (is_cache s)" "is_net s = x"
    "cache_map id (is_cache s) (key_elems ?k) = Some (demo_owner (pn_time x))"
    by (simp_all add: demo_owner_def)
  have "cache_connect demo_ipc pipe_sock ?k s = Some (Some 0, s)"
    using cache_connect_spec [of demo_ipc s ?k pipe_sock "pn_time x" x] s demo_obj_key
    by (simp add: pipe_sock_def cps_api_connect_owner_def CACHE_TM_def demo_owner_def)
  then show thesis using that [OF s] by (simp add: cps_api_get_handle_def)
qed

section \<open>Correctness of the client\<close>

text \<open>
  \<^bold>\<open>C37.\<close> The cache of owners stays consistent: after \<open>cps_api_get_handle\<close> it still has at most one
  entry for each key, the entries of other keys are the ones before, and for the requested key it
  holds the owner whose address gave the returned handle, or nothing when no handle was returned.
\<close>

theorem owner_cache_consistent:
  assumes "cache_inv (ie_hash K) (is_cache s)" and "cache_single (is_cache s)" and "key_ok key"
    and "key_mem_ok (ie_libc K) key" and "cps_api_get_handle K S key s = Some (r, s')"
  shows "cache_inv (ie_hash K) (is_cache s') \<and> cache_single (is_cache s') \<and>
     (\<forall>es. es \<noteq> key_elems key \<longrightarrow> cache_map (ie_hash K) (is_cache s') es = cache_map (ie_hash K) (is_cache s) es) \<and>
     (case r of None \<Rightarrow> cache_map (ie_hash K) (is_cache s') (key_elems key) = None
      | Some fd \<Rightarrow> \<exists>ce y. cache_map (ie_hash K) (is_cache s') (key_elems key) = Some ce \<and>
          fst (sk_connect S (reg_addr (ce_owner ce)) y) = Some fd)"
proof -
  obtain fd s1 where cc: "cache_connect K S key s = Some (fd, s1)"
    using assms(5) by (auto simp: cps_api_get_handle_def split: Option.bind_splits)
  show ?thesis
  proof (cases fd)
    case None
    note d = get_handle_dropped [OF assms(1-3) cc [unfolded None]]
    have "cache_map (ie_hash K) (is_cache s1) (key_elems key) = None" by (simp add: d(4))
    from get_handle_asked [OF d(2,3) assms(3,4) this, of S r s'] assms(5) d(1)
    have a: "cache_inv (ie_hash K) (is_cache s') \<and> cache_single (is_cache s') \<and>
      (case r of None \<Rightarrow> is_cache s' = is_cache s1
       | Some fd \<Rightarrow> \<exists>ce y. fst (sk_connect S (reg_addr (ce_owner ce)) y) = Some fd \<and>
           cache_map (ie_hash K) (is_cache s') = (cache_map (ie_hash K) (is_cache s1))(key_elems key \<mapsto> ce))"
      by simp
    show ?thesis
    proof (cases r)
      case None
      then show ?thesis using a d(4) by auto
    next
      case (Some g)
      then obtain ce y where "fst (sk_connect S (reg_addr (ce_owner ce)) y) = Some g"
        "cache_map (ie_hash K) (is_cache s') = (cache_map (ie_hash K) (is_cache s1))(key_elems key \<mapsto> ce)"
        using a by auto
      then show ?thesis using Some a d(4) by auto
    qed
  next
    case (Some g)
    then have r: "r = Some g" "s' = s1" using assms(5) cc by (auto simp: cps_api_get_handle_def)
    obtain now x where u: "sk_uptime S (is_net s) = (now, x)" by fastforce
    obtain ce where ce: "cache_map (ie_hash K) (is_cache s) (key_elems key) = Some ce"
      "fst (sk_connect S (reg_addr (ce_owner ce)) x) = Some g" "is_cache s1 = is_cache s"
      using cache_connect_spec [OF assms(1-3) u] cc Some
      by (cases "cache_map (ie_hash K) (is_cache s) (key_elems key)")
        (auto simp: Let_def cps_api_connect_owner_def split: prod.splits if_splits option.splits)
    then show ?thesis using assms(1,2) r by auto
  qed
qed

theorem owner_cache_consistent_witness:
  "\<exists>s s'. cps_api_get_handle demo_ipc pipe_sock (obj_key demo_obj) s = Some (Some 0, s') \<and>
     cache_inv (ie_hash demo_ipc) (is_cache s') \<and> cache_single (is_cache s') \<and>
     (\<forall>es. es \<noteq> key_elems (obj_key demo_obj) \<longrightarrow>
        cache_map (ie_hash demo_ipc) (is_cache s') es = cache_map (ie_hash demo_ipc) (is_cache s) es) \<and>
     (case Some 0 of None \<Rightarrow> cache_map (ie_hash demo_ipc) (is_cache s') (key_elems (obj_key demo_obj)) = None
      | Some fd \<Rightarrow> \<exists>ce y. cache_map (ie_hash demo_ipc) (is_cache s') (key_elems (obj_key demo_obj)) = Some ce \<and>
          fst (sk_connect pipe_sock (reg_addr (ce_owner ce)) y) = Some fd)"
proof -
  obtain s where s: "cache_inv id (is_cache s)" "cache_single (is_cache s)"
    "cps_api_get_handle demo_ipc pipe_sock (obj_key demo_obj) s = Some (Some 0, s)"
    by (rule demo_client [of pipe_start])
  have m: "key_mem_ok (ie_libc demo_ipc) (obj_key demo_obj)" by (simp add: key_mem_ok_all demo_obj_key)
  have "cache_inv (ie_hash demo_ipc) (is_cache s)" using s(1) by simp
  from owner_cache_consistent [OF this s(2) demo_obj_key m s(3)] s(3) show ?thesis by blast
qed

text \<open>
  \<^bold>\<open>C38.\<close> An owner that was stored more than twenty seconds ago is not contacted: the call does what it
  does when the cache has no entry for the key.
\<close>

theorem stale_owner_unused:
  assumes "cache_inv (ie_hash K) (is_cache s)" and "cache_single (is_cache s)" and "key_ok key"
    and "cache_map (ie_hash K) (is_cache s) (key_elems key) = Some ce"
    and "sk_uptime S (is_net s) = (now, x)" and "now - ce_last_updated ce > 20000000"
  shows "\<exists>c. cache_map (ie_hash K) c = (cache_map (ie_hash K) (is_cache s))(key_elems key := None) \<and>
     cps_api_get_handle K S key s = cps_api_get_handle K S key (s\<lparr>is_net := x, is_cache := c\<rparr>)"
proof -
  have "now - ce_last_updated ce > CACHE_TM" using assms(6) by (simp add: CACHE_TM_def)
  then have cc: "cache_connect K S key s =
      Some (None, s\<lparr>is_net := x, is_cache := the (cache_erase (ie_hash K) (is_cache s) key)\<rparr>)"
    using cache_connect_spec [OF assms(1-3,5)] assms(4) by simp
  show ?thesis using get_handle_dropped(1,4) [OF assms(1-3) cc] by (intro exI conjI) simp_all
qed

theorem stale_owner_unused_witness:
  "\<exists>s x c. cache_map id (is_cache s) (key_elems (obj_key demo_obj)) = Some (demo_owner 5) \<and>
     cache_map (ie_hash demo_ipc) c = (cache_map (ie_hash demo_ipc) (is_cache s))(key_elems (obj_key demo_obj) := None) \<and>
     cps_api_get_handle demo_ipc pipe_sock (obj_key demo_obj) s =
       cps_api_get_handle demo_ipc pipe_sock (obj_key demo_obj) (s\<lparr>is_net := x, is_cache := c\<rparr>)"
proof -
  obtain s :: "pipe_net ipc_state" where s: "cache_inv id (is_cache s)" "cache_single (is_cache s)"
    "cache_map id (is_cache s) (key_elems (obj_key demo_obj)) = Some (demo_owner (pn_time (pipe_start\<lparr>pn_time := 5\<rparr>)))"
    by (rule demo_client [of "pipe_start\<lparr>pn_time := 5\<rparr>"])
  define s1 where "s1 = s\<lparr>is_net := pipe_start\<lparr>pn_time := 20000006\<rparr>\<rparr>"
  have u: "sk_uptime pipe_sock (is_net s1) = (20000006, is_net s1)" by (simp add: s1_def pipe_sock_def)
  have m: "cache_map (ie_hash demo_ipc) (is_cache s1) (key_elems (obj_key demo_obj)) = Some (demo_owner 5)"
    using s(3) by (simp add: s1_def)
  have "\<exists>c. cache_map (ie_hash demo_ipc) c = (cache_map (ie_hash demo_ipc) (is_cache s1))(key_elems (obj_key demo_obj) := None) \<and>
     cps_api_get_handle demo_ipc pipe_sock (obj_key demo_obj) s1 =
       cps_api_get_handle demo_ipc pipe_sock (obj_key demo_obj) (s1\<lparr>is_net := is_net s1, is_cache := c\<rparr>)"
    by (rule stale_owner_unused [OF _ _ demo_obj_key m u]) (use s in \<open>simp_all add: s1_def demo_owner_def\<close>)
  with m show ?thesis by (intro exI [of _ s1] exI [of _ "is_net s1"]) simp
qed

text \<open>
  \<^bold>\<open>C5.\<close> A get request whose service answers with a sequence of objects and the end marker returns
  success, and the result list is extended by new objects with the same keys and attributes in the
  same order, whatever the timeout. The loop ends with the marker.
\<close>

theorem get_request_collects:
  assumes "stream_sock S pending peer" and "std_tlv T" and "gp_filters param = Some fl"
    and "cps_api_object_list_get fl ix = Some a" and "hp_objs (w_heap w) a = Some p" and "obj_wf T p zs"
    and "attrs_size T zs + 256 < 2 ^ 31" and "heap_wf (w_heap w)" and "\<forall>n. alloc_ok (ie_libc K) n"
    and "cps_api_get_handle K S (obj_key p) (w_ext w) = Some (Some fd, s)"
    and "peer (is_net s) fd = Some g" and "g \<noteq> fd" and "wire_ok T ps"
    and "pending (is_net s) fd = get_wire (map fst ps)"
  shows "\<exists>as w'. cps_api_process_get_request K S param ix w =
       Some (cps_api_ret_code_OK, param\<lparr>gp_list := gp_list param @ map Some as\<rparr>, w') \<and>
     arrived T (w_heap w) (w_heap w') ps as"
proof -
  note st = assms(1)
  obtain x1 where x1: "cps_api_send_one_object S fd cps_api_msg_o_GET (Some p) (is_net s) = Some (True, x1)"
    "stream_sock.sent pending peer g (msg_wire cps_api_msg_o_GET (obj_wire p)) (is_net s) x1"
    by (rule stream_sock.send_one_object_ok [OF st assms(11,6,7)])
  have pd: "pending x1 fd = get_wire (map fst ps) @ []" "peer x1 fd \<noteq> None"
    using x1(2) assms(11,12,14) by (simp_all add: stream_sock.sent_def [OF st])
  obtain rc' as h' x' where l: "get_resp_loop K S fd (gp_timeout param) cps_api_ret_code_ERR None
      (gp_list param) (w_heap w) x1 = Some (rc', Some cps_api_msg_o_GET_DONE, gp_list param @ map Some as, h', x')"
    "arrived T (w_heap w) h' ps as"
    using stream_sock.resp_loop_collects [OF st pd assms(2,13,8,9)] by blast
  have "cps_api_process_get_request K S param ix w =
      Some (cps_api_ret_code_OK, param\<lparr>gp_list := gp_list param @ map Some as\<rparr>,
        \<lparr>w_heap = h', w_ext = s\<lparr>is_net := cps_api_disconnect_owner S fd x'\<rparr>\<rparr>)"
    using assms(3-5,10) x1(1) l(1) by (simp add: cps_api_process_get_request_def)
  then show ?thesis using l(2) by auto
qed

theorem get_request_collects_witness:
  "\<exists>w as w'. cps_api_process_get_request demo_ipc pipe_sock
       \<lparr>gp_keys = [], gp_list = [], gp_filters = Some [Some 1], gp_timeout = 500\<rparr> 0 w =
       Some (cps_api_ret_code_OK,
         \<lparr>gp_keys = [], gp_list = [], gp_filters = Some [Some 1], gp_timeout = 500\<rparr>\<lparr>gp_list := [] @ map Some as\<rparr>, w') \<and>
     arrived tlv16 (w_heap w) (w_heap w') [(demo_obj, [(5, [9])])] as"
proof -
  let ?x = "pipe_start\<lparr>pn_in := (\<lambda>_. [])(0 := get_wire [demo_obj])\<rparr>"
  let ?h = "\<lparr>hp_objs = [1 \<mapsto> demo_obj], hp_brk = 2, hp_trackers = [(1, \<lparr>trk_desc = [], trk_ln = 0, trk_file = []\<rparr>)],
     hp_allocated_objs = 1, hp_deallocated_objs = 0\<rparr>"
  obtain s where s: "is_net s = ?x"
    "cps_api_get_handle demo_ipc pipe_sock (obj_key demo_obj) s = Some (Some 0, s)"
    by (rule demo_client [of ?x])
  let ?w = "\<lparr>w_heap = ?h, w_ext = s\<rparr>"
  let ?p = "\<lparr>gp_keys = [], gp_list = [], gp_filters = Some [Some 1], gp_timeout = 500\<rparr> :: cps_api_get_params_t"
  have wf: "heap_wf (w_heap ?w)" by (simp add: heap_wf_def demo_obj_def)
  have ok: "wire_ok tlv16 [(demo_obj, [(5, [9])])]"
    using demo_obj_wf by (simp add: wire_ok_def demo_sizes)
  have h: "cps_api_get_handle demo_ipc pipe_sock (obj_key demo_obj) (w_ext ?w) = Some (Some 0, s)"
    using s(2) by simp
  have "\<exists>as w'. cps_api_process_get_request demo_ipc pipe_sock ?p 0 ?w =
       Some (cps_api_ret_code_OK, ?p\<lparr>gp_list := gp_list ?p @ map Some as\<rparr>, w') \<and>
     arrived tlv16 (w_heap ?w) (w_heap w') [(demo_obj, [(5, [9])])] as"
    by (rule get_request_collects [OF pipe.stream_sock_axioms tlv16.std_tlv_axioms, where fl = "[Some 1]" and
          a = 1 and p = demo_obj and zs = "[(5, [9])]" and fd = 0 and g = 1 and s = s])
      (use s(1) demo_obj_wf wf ok h in \<open>simp_all add: cps_api_object_list_get_def pipe_peer_def demo_sizes\<close>)
  then show ?thesis by (intro exI [of _ ?w]) simp
qed

text \<open>
  With a timeout, a failure to read the answer after the wait is reported as success: the wait has set
  the return code.
\<close>

lemma get_failed_header_ok:
  assumes "0 < t" and "cps_api_timeout_wait S fd t x = (cps_api_ret_code_OK, x1)"
    and "cps_api_receive_header S fd x1 = (None, x2)"
  shows "get_resp_loop K S fd t cps_api_ret_code_ERR None l h x = Some (cps_api_ret_code_OK, None, l, h, x2)"
  using assms by (subst get_resp_loop.simps) (simp add: get_resp_step_def)

end
