(* ===== verification/Cps_Service_Proofs.thy ===== *)
theory Cps_Service_Proofs
  imports Cps_Service Cps_Client_Ipc_Proofs "HOL-Library.Sublist"
begin

text \<open>
  Properties of the service: a request is dispatched to the handler with the longest key that is a
  prefix of the requested one, whatever the order of registration, and the answer a service writes is
  the one the client's loop reads.
\<close>

section \<open>The order of the handler table\<close>

abbreviation rf_elems :: "'x cps_api_registration_functions_t \<Rightarrow> u32 list" where
  "rf_elems f \<equiv> key_elems (rf_key f)"

text \<open>No entry is a strict prefix of a later one.\<close>

definition table_ok :: "'x cps_api_registration_functions_t list \<Rightarrow> bool" where
  "table_ok fs \<longleftrightarrow> (\<forall>f \<in> set fs. key_ok (rf_key f)) \<and>
     sorted_wrt (\<lambda>f g. \<not> strict_prefix (rf_elems f) (rf_elems g)) fs"

lemma take_prefix: "take (length xs) ys = xs \<longleftrightarrow> prefix xs ys"
  by (metis append_eq_conv_conj prefix_def)

lemma matches_prefix:
  assumes "key_ok k" and "key_ok c"
  shows "\<exists>r. cps_api_key_matches k c False = Some r \<and> (r = 0 \<longleftrightarrow> prefix (key_elems c) (key_elems k))"
  using key_matches_sem [OF assms, of False] by (simp add: take_prefix)

lemma insert_functions_split:
  assumes "\<forall>f \<in> set fs. key_ok (rf_key f)" and "key_ok (rf_key reg)"
  shows "\<exists>us vs. fs = us @ vs \<and> insert_functions fs reg = Some (us @ reg # vs) \<and>
     (\<forall>u \<in> set us. \<not> prefix (rf_elems u) (rf_elems reg)) \<and>
     (vs = [] \<or> prefix (rf_elems (hd vs)) (rf_elems reg))"
  using assms(1)
proof (induction fs)
  case (Cons f fs)
  obtain r where r: "cps_api_key_matches (rf_key reg) (rf_key f) False = Some r"
    "r = 0 \<longleftrightarrow> prefix (rf_elems f) (rf_elems reg)"
    using matches_prefix [OF assms(2), of "rf_key f"] Cons.prems by auto
  have l: "cps_api_key_get_len (rf_key reg) = Some (length (rf_elems reg))"
    "cps_api_key_get_len (rf_key f) = Some (length (rf_elems f))"
    using assms(2) Cons.prems by (simp_all add: key_layout)
  show ?case
  proof (cases "prefix (rf_elems f) (rf_elems reg)")
    case True
    then have "length (rf_elems f) \<le> length (rf_elems reg)" by (rule prefix_length_le)
    then have "insert_functions (f # fs) reg = Some ([] @ reg # f # fs)" using r l True by simp
    then show ?thesis using True by (intro exI [of _ "[]"] exI [of _ "f # fs"]) simp
  next
    case False
    obtain us vs where "fs = us @ vs" "insert_functions fs reg = Some (us @ reg # vs)"
      "\<forall>u \<in> set us. \<not> prefix (rf_elems u) (rf_elems reg)" "vs = [] \<or> prefix (rf_elems (hd vs)) (rf_elems reg)"
      using Cons by auto
    then show ?thesis using False r l by (intro exI [of _ "f # us"] exI [of _ vs]) simp
  qed
qed simp

lemma insert_functions_ok:
  assumes "table_ok fs" and "key_ok (rf_key reg)"
  shows "\<exists>fs'. insert_functions fs reg = Some fs' \<and> table_ok fs' \<and> set fs' = insert reg (set fs) \<and>
     (\<forall>es. filter (\<lambda>f. rf_elems f = es) fs' =
        (if rf_elems reg = es then [reg] else []) @ filter (\<lambda>f. rf_elems f = es) fs)"
proof -
  obtain us vs where s: "fs = us @ vs" "insert_functions fs reg = Some (us @ reg # vs)"
    "\<forall>u \<in> set us. \<not> prefix (rf_elems u) (rf_elems reg)" "vs = [] \<or> prefix (rf_elems (hd vs)) (rf_elems reg)"
    using insert_functions_split [OF _ assms(2), of fs] assms(1) by (auto simp: table_ok_def)
  have "\<not> strict_prefix (rf_elems reg) (rf_elems v)" if v: "v \<in> set vs" for v
  proof
    assume p: "strict_prefix (rf_elems reg) (rf_elems v)"
    obtain w ws where vs: "vs = w # ws" using v by (cases vs) auto
    then have "strict_prefix (rf_elems w) (rf_elems v)" using s(4) p by auto
    moreover have "v = w \<or> v \<in> set ws" using v vs by auto
    ultimately show False using assms(1) by (auto simp: table_ok_def s(1) vs sorted_wrt_append)
  qed
  then have "table_ok (us @ reg # vs)"
    using assms s(3) by (auto simp: table_ok_def s(1) sorted_wrt_append strict_prefix_def)
  moreover have "filter (\<lambda>f. rf_elems f = es) us = []" if "rf_elems reg = es" for es
    using that s(3) by (auto simp: filter_empty_conv)
  ultimately show ?thesis using s(1,2) by auto
qed

text \<open>The table after a sequence of registrations.\<close>

fun insert_all_functions ::
  "'x cps_api_registration_functions_t list \<Rightarrow> 'x cps_api_registration_functions_t list \<Rightarrow>
     'x cps_api_registration_functions_t list option" where
  "insert_all_functions fs [] = Some fs"
| "insert_all_functions fs (r # rs) = Option.bind (insert_functions fs r) (\<lambda>fs. insert_all_functions fs rs)"

lemma insert_all_ok:
  assumes "table_ok fs" and "\<forall>r \<in> set rs. key_ok (rf_key r)"
  shows "\<exists>fs'. insert_all_functions fs rs = Some fs' \<and> table_ok fs' \<and> set fs' = set rs \<union> set fs \<and>
     (\<forall>es. filter (\<lambda>f. rf_elems f = es) fs' =
        rev (filter (\<lambda>f. rf_elems f = es) rs) @ filter (\<lambda>f. rf_elems f = es) fs)"
  using assms
proof (induction rs arbitrary: fs)
  case (Cons r rs)
  obtain f1 where f1: "insert_functions fs r = Some f1" "table_ok f1" "set f1 = insert r (set fs)"
    "\<And>es. filter (\<lambda>f. rf_elems f = es) f1 = (if rf_elems r = es then [r] else []) @ filter (\<lambda>f. rf_elems f = es) fs"
    using insert_functions_ok [OF Cons.prems(1), of r] Cons.prems(2) by auto
  then show ?case using Cons.IH [OF f1(2)] Cons.prems(2) by auto
qed simp

section \<open>Dispatch\<close>

lemma find_function_first:
  assumes "\<forall>f \<in> set fs. key_ok (rf_key f)" and "key_ok key"
  shows "find_function sel key fs = Some (find (\<lambda>f. sel f \<noteq> None \<and> prefix (rf_elems f) (key_elems key)) fs)"
  using assms(1)
proof (induction fs)
  case (Cons f fs)
  obtain r where "cps_api_key_matches key (rf_key f) False = Some r"
    "r = 0 \<longleftrightarrow> prefix (rf_elems f) (key_elems key)"
    using matches_prefix [OF assms(2), of "rf_key f"] Cons.prems by auto
  then show ?case using Cons by auto
qed simp

lemma sorted_wrt_find:
  assumes "sorted_wrt R xs" and "find P xs = Some x" and "y \<in> set xs" and "P y" and "y \<noteq> x"
  shows "R x y"
  using assms
proof (induction xs)
  case (Cons a xs)
  then show ?case by (cases "P a") auto
qed simp

lemma find_as_hd: "find P xs = (if filter P xs = [] then None else Some (hd (filter P xs)))"
  by (induction xs) auto

lemma find_filter_same:
  assumes "find P xs = Some x" and "P x \<Longrightarrow> Q x" and "\<And>y. Q y \<Longrightarrow> R y \<Longrightarrow> P y" and "R x"
  shows "find (\<lambda>y. Q y \<and> R y) xs = Some x"
  using assms(1)
proof (induction xs)
  case (Cons a xs)
  show ?case
  proof (cases "P a")
    case True
    then show ?thesis using Cons.prems assms(2,4) by auto
  next
    case False
    then show ?thesis using Cons assms(3) by auto
  qed
qed simp

text \<open>
  \<^bold>\<open>C2.\<close> After any sequence of registrations, a request is given to a handler that was registered for
  a prefix of the requested key and has the wanted function; no such handler has a longer key, and of
  several for the same key the one registered last is called. Without such a handler none is called.
\<close>

theorem dispatch_most_specific:
  assumes "\<forall>r \<in> set regs. key_ok (rf_key r)" and "key_ok key"
  shows "\<exists>table r. insert_all_functions [] regs = Some table \<and> find_function sel key table = Some r \<and>
     (case r of
        None \<Rightarrow> \<forall>f \<in> set regs. sel f \<noteq> None \<longrightarrow> \<not> prefix (rf_elems f) (key_elems key)
      | Some f \<Rightarrow> f \<in> set regs \<and> sel f \<noteq> None \<and> prefix (rf_elems f) (key_elems key) \<and>
          (\<forall>g \<in> set regs. sel g \<noteq> None \<longrightarrow> prefix (rf_elems g) (key_elems key) \<longrightarrow>
             length (rf_elems g) \<le> length (rf_elems f)) \<and>
          f = last (filter (\<lambda>g. sel g \<noteq> None \<and> rf_elems g = rf_elems f) regs))"
proof -
  obtain table where t: "insert_all_functions [] regs = Some table" "table_ok table" "set table = set regs"
    "\<And>es. filter (\<lambda>f. rf_elems f = es) table = rev (filter (\<lambda>f. rf_elems f = es) regs)"
    using insert_all_ok [of "[]" regs] assms(1) by (auto simp: table_ok_def)
  let ?P = "\<lambda>f. sel f \<noteq> None \<and> prefix (rf_elems f) (key_elems key)"
  have ff: "find_function sel key table = Some (find ?P table)"
    by (rule find_function_first [OF _ assms(2)]) (use t(2) in \<open>simp add: table_ok_def\<close>)
  show ?thesis
  proof (cases "find ?P table")
    case None
    then have "\<forall>f \<in> set table. \<not> ?P f" by (auto simp: find_None_iff)
    moreover have "find_function sel key table = Some None" using ff None by (simp only:)
    ultimately show ?thesis using t(1,3) by (intro exI [of _ table] exI [of _ None]) auto
  next
    case (Some f)
    then have f: "f \<in> set table" "?P f" by (auto simp: find_Some_iff)
    have len: "length (rf_elems g) \<le> length (rf_elems f)" if g: "g \<in> set table" "?P g" for g
    proof (cases "g = f")
      case False
      have "\<not> strict_prefix (rf_elems f) (rf_elems g)"
        by (rule sorted_wrt_find [OF _ Some g False]) (use t(2) in \<open>simp add: table_ok_def\<close>)
      moreover have "prefix (rf_elems f) (rf_elems g) \<or> prefix (rf_elems g) (rf_elems f)"
        using f(2) g(2) prefix_same_cases by blast
      ultimately show ?thesis by (metis order_refl prefix_length_le strict_prefix_def)
    qed simp
    let ?Q = "\<lambda>g. rf_elems g = rf_elems f"
    have "find (\<lambda>g. sel g \<noteq> None \<and> ?Q g) table = Some f"
      by (rule find_filter_same [OF Some]) (use f in auto)
    moreover have "filter (\<lambda>g. sel g \<noteq> None \<and> ?Q g) table = rev (filter (\<lambda>g. sel g \<noteq> None \<and> ?Q g) regs)"
      using arg_cong [OF t(4) [of "rf_elems f"], of "filter (\<lambda>g. sel g \<noteq> None)"]
      by (simp add: rev_filter conj_commute)
    ultimately have "f = last (filter (\<lambda>g. sel g \<noteq> None \<and> ?Q g) regs)"
      by (simp add: find_as_hd hd_rev split: if_splits)
    moreover have "find_function sel key table = Some (Some f)" using ff Some by (simp only:)
    ultimately show ?thesis using t(1,3) f len by (intro exI [of _ table] exI [of _ "Some f"]) simp
  qed
qed

definition demo_reg :: "u32 list \<Rightarrow> bool \<Rightarrow> pipe_net cps_api_registration_functions_t" where
  "demo_reg es writes = \<lparr>rf_key = [of_nat (length es), 0] @ es @ replicate 50 0, rf_read_function = None,
     rf_write_function = (if writes then Some (\<lambda>p i w. Some (cps_api_ret_code_OK, p, w)) else None),
     rf_rollback_function = None\<rparr>"

lemma demo_reg_facts:
  assumes "length es \<le> 12"
  shows "key_ok (rf_key (demo_reg es b))" and "rf_elems (demo_reg es b) = es"
proof -
  have "unat (of_nat (length es) :: u32) = length es" using assms by (simp add: unat_of_nat)
  then show "key_ok (rf_key (demo_reg es b))" "rf_elems (demo_reg es b) = es"
    using assms by (auto simp: demo_reg_def key_ok_def key_elems_def)
qed

theorem dispatch_most_specific_witness:
  "\<exists>table f. insert_all_functions [] [demo_reg [1, 4] True, demo_reg [1, 4, 7] True, demo_reg [1, 4, 7, 9] False] =
       Some table \<and>
     find_function rf_write_function (rf_key (demo_reg [1, 4, 7, 9, 2] True)) table = Some (Some f) \<and>
     rf_elems f = [1, 4, 7]"
proof -
  let ?regs = "[demo_reg [1, 4] True, demo_reg [1, 4, 7] True, demo_reg [1, 4, 7, 9] False]"
  let ?k = "rf_key (demo_reg [1, 4, 7, 9, 2] True)"
  have ok: "\<forall>r \<in> set ?regs. key_ok (rf_key r)" "key_ok ?k" by (simp_all add: demo_reg_facts)
  have sel: "rf_write_function (demo_reg es b) = None \<longleftrightarrow> \<not> b" for es b by (simp add: demo_reg_def)
  have e: "key_elems ?k = [1, 4, 7, 9, 2]" using demo_reg_facts(2) [of "[1, 4, 7, 9, 2]" True] by simp
  from dispatch_most_specific [OF ok, of rf_write_function] obtain table r where
    t: "insert_all_functions [] ?regs = Some table" "find_function rf_write_function ?k table = Some r"
    and c: "case r of
        None \<Rightarrow> \<forall>f \<in> set ?regs. rf_write_function f \<noteq> None \<longrightarrow> \<not> prefix (rf_elems f) (key_elems ?k)
      | Some f \<Rightarrow> f \<in> set ?regs \<and> rf_write_function f \<noteq> None \<and> prefix (rf_elems f) (key_elems ?k) \<and>
          (\<forall>g \<in> set ?regs. rf_write_function g \<noteq> None \<longrightarrow> prefix (rf_elems g) (key_elems ?k) \<longrightarrow>
             length (rf_elems g) \<le> length (rf_elems f)) \<and>
          f = last (filter (\<lambda>g. rf_write_function g \<noteq> None \<and> rf_elems g = rf_elems f) ?regs)"
    by blast
  have "r \<noteq> None" using c by (cases r) (auto simp: sel e demo_reg_facts(2))
  then obtain f where f: "r = Some f" by blast
  have none: "rf_write_function (demo_reg es False) = None" for es by (simp add: sel)
  have "rf_elems f = [1, 4, 7]" using c by (auto simp: f sel none e demo_reg_facts(2))
  then show ?thesis using t f by blast
qed

section \<open>The answer to a get\<close>

text \<open>The objects of a result list, without the empty places.\<close>

fun live_objs :: "obj_heap \<Rightarrow> obj_list \<Rightarrow> cps_obj option list" where
  "live_objs h [] = []"
| "live_objs h (None # ps) = live_objs h ps"
| "live_objs h (Some a # ps) = hp_objs h a # live_objs h ps"

context stream_sock
begin

lemma sent_Nil: "sent g [] x x"
  by (simp add: sent_def)

lemma send_results_ok:
  assumes "peer x fd = Some g" and "live_objs h l = map (\<lambda>pr. Some (fst pr)) ps" and "wire_ok T ps"
  shows "\<exists>x'. send_results S fd h l x = Some (True, x') \<and> sent g (resp_wire (map fst ps)) x x'"
  using assms
proof (induction h l arbitrary: x ps rule: live_objs.induct)
  case (1 h)
  then show ?case by (simp add: resp_wire_def sent_Nil)
next
  case (2 h l)
  then show ?case by simp
next
  case (3 h a l)
  then obtain p xs qs where ps: "ps = (p, xs) # qs" "hp_objs h a = Some p"
    "live_objs h l = map (\<lambda>pr. Some (fst pr)) qs"
    by (cases ps) auto
  have ok: "obj_wf T p xs" "attrs_size T xs + 256 < 2 ^ 31" "wire_ok T qs"
    using "3.prems"(3) by (auto simp: ps(1) wire_ok_def)
  obtain x1 where x1: "cps_api_send_one_object S fd cps_api_msg_o_GET_RESP (Some p) x = Some (True, x1)"
    "sent g (msg_wire cps_api_msg_o_GET_RESP (obj_wire p)) x x1"
    by (rule send_one_object_ok [OF "3.prems"(1) ok(1,2)])
  have "peer x1 fd = Some g" using "3.prems"(1) sent_peer [OF x1(2)] by simp
  from "3.IH" [OF this ps(3) ok(3)] obtain x2 where "send_results S fd h l x1 = Some (True, x2)"
    "sent g (resp_wire (map fst qs)) x1 x2"
    by blast
  then show ?case using x1 ps(2) sent_trans [OF x1(2)] by (auto simp: ps(1) resp_wire_def)
qed

lemma get_reply_ok:
  assumes "peer x fd = Some g" and "live_objs h l = map (\<lambda>pr. Some (fst pr)) ps" and "wire_ok T ps"
  shows "\<exists>x'. get_reply S fd cps_api_ret_code_OK l h st x = Some (True, st, x') \<and>
     sent g (get_wire (map fst ps)) x x'"
proof -
  obtain x1 where x1: "send_results S fd h l x = Some (True, x1)" "sent g (resp_wire (map fst ps)) x x1"
    using send_results_ok [OF assms] by blast
  have "peer x1 fd = Some g" using assms(1) sent_peer [OF x1(2)] by simp
  from send_header_ok [OF this, of 0 cps_api_msg_o_GET_DONE]
  obtain x2 where x2: "cps_api_send_header S fd cps_api_msg_o_GET_DONE 0 x1 = (True, x2)"
    "sent g (hdr_bytes \<lparr>hdr_version = 0, hdr_len = 0, hdr_operation = cps_api_msg_o_GET_DONE\<rparr>) x1 x2"
    by auto
  then show ?thesis using x1 sent_trans [OF x1(2) x2(2)]
    by (auto simp: get_reply_def get_wire_def msg_wire_def)
qed

end

text \<open>
  \<^bold>\<open>C17.\<close> What a service answers to a get is what the client collects: the objects of the handler's
  result list arrive at the client as new objects with the same keys and attributes, in the same
  order, without the empty places of the list, and the connection is drained.
\<close>

theorem get_answer_end_to_end:
  assumes "stream_sock S pending peer" and "std_tlv T" and "peer x fd = Some g" and "peer x g \<noteq> None"
    and "pending x g = []" and "wire_ok T ps" and "live_objs h l = map (\<lambda>pr. Some (fst pr)) ps"
    and "heap_wf hc" and "\<forall>n. alloc_ok (ie_libc K) n"
  shows "\<exists>x1 rc as hc' x2. get_reply S fd cps_api_ret_code_OK l h st x = Some (True, st, x1) \<and>
     get_resp_loop K S g t cps_api_ret_code_ERR None lc hc x1 =
       Some (rc, Some cps_api_msg_o_GET_DONE, lc @ map Some as, hc', x2) \<and>
     arrived T hc hc' ps as \<and> pending x2 g = []"
proof -
  note st = assms(1)
  obtain x1 where x1: "get_reply S fd cps_api_ret_code_OK l h st x = Some (True, st, x1)"
    "stream_sock.sent pending peer g (get_wire (map fst ps)) x x1"
    using stream_sock.get_reply_ok [OF st assms(3,7,6)] by blast
  have p: "pending x1 g = get_wire (map fst ps) @ []" "peer x1 g \<noteq> None"
    using x1(2) assms(4,5) by (simp_all add: stream_sock.sent_def [OF st])
  show ?thesis
    using x1(1) stream_sock.resp_loop_collects [OF st p assms(2,6,8,9), of t cps_api_ret_code_ERR None lc]
    by blast
qed

theorem get_answer_end_to_end_witness:
  "\<exists>x1 rc as hc' x2. get_reply pipe_sock 4 cps_api_ret_code_OK [None, Some 1] (empty_heap\<lparr>hp_objs := [1 \<mapsto> demo_obj]\<rparr>) []
       pipe_start = Some (True, [], x1) \<and>
     get_resp_loop demo_ipc pipe_sock 5 250 cps_api_ret_code_ERR None [] empty_heap x1 =
       Some (rc, Some cps_api_msg_o_GET_DONE, [] @ map Some as, hc', x2) \<and>
     arrived tlv16 empty_heap hc' [(demo_obj, [(5, [9])])] as \<and> pn_in x2 5 = []"
  by (rule get_answer_end_to_end [OF pipe.stream_sock_axioms tlv16.std_tlv_axioms _ _ _ _ _ heap_wf_empty])
    (use demo_obj_wf in \<open>simp_all add: pipe_peer_def pipe_start_def wire_ok_def demo_sizes\<close>)

section \<open>Counters\<close>

text \<open>
  The average divides by the number of requests what is already an average: three requests of the same
  duration of 300 microseconds are reported as 200 on average.
\<close>

lemma get_stat_set [simp]: "get_stat (umap_set st s v) s = (v, umap_set st s v)"
  by (simp add: get_stat_def)

lemma bit_len_double: "0 < n \<Longrightarrow> bit_len n = Suc (bit_len (n div 2))" "bit_len 0 = 0"
  by (simp_all add: bit_len.simps [of n] bit_len.simps [of 0])

lemma average_step: "ave_of 600 3 = Some 200"
proof -
  have "bit_len 600 = 10" "bit_len 3 = 2" "bit_len 200 = 8" by (simp_all add: bit_len_double)
  then show ?thesis by (simp add: ave_of_def double_of_nat_def double_quotient_def round_div_def)
qed

lemma average_decays: "make_ave [(1, 300), (2, 2)] 1 2 300 = Some [(1, 200), (2, 3)]"
  by (simp add: make_ave_def inc_stat_def get_stat_def set_stat_def umap_find_def average_step)

end
