(* ===== verification/Cps_Ns_Proofs.thy ===== *)
theory Cps_Ns_Proofs
  imports Cps_Ns Cps_Service_Proofs
begin

text \<open>
  The name server as a map from keys to the registrations made for them: registering appends, a query
  answers with the first registration of the longest registered prefix, and closing a connection
  takes that connection's registrations away. The last part ties the three processes together: a key
  a service registered is found by a client.
\<close>

section \<open>The table as a map\<close>

abbreviation ns_map :: "ipc_env \<Rightarrow> ns_state \<Rightarrow> u32 list \<Rightarrow> client_reg_t list option" where
  "ns_map K n \<equiv> cache_map (ie_hash K) (ns_registration n)"

definition ns_inv :: "ipc_env \<Rightarrow> ns_state \<Rightarrow> bool" where
  "ns_inv K n \<longleftrightarrow> cache_inv (ie_hash K) (ns_registration n) \<and> (\<forall>es. ns_map K n es \<noteq> Some [])"

lemma key_event_ok:
  assumes "key_ok key"
  obtains obj where "key_event key how = Some obj"
proof -
  let ?m = "replicate CPS_API_MIN_OBJ_LEN (0 :: u8)"
  have "length (map (\<lambda>i. bytes_u32 (drop (4 * i) (drop sizeof_object_internal ?m))) [0..<64]) = 64" by simp
  then obtain k0 where k0: "cps_api_key_set_len
      (map (\<lambda>i. bytes_u32 (drop (4 * i) (drop sizeof_object_internal ?m))) [0..<64]) 0 = Some k0" "key_wf k0"
    by (rule key_set_len [of _ 0]) auto
  then have "\<exists>q. cps_api_object_init ?m CPS_API_MIN_OBJ_LEN = Some (Some q) \<and> obj_key q = k0"
    by (simp add: cps_api_object_init_def Let_def)
  then obtain q where q: "cps_api_object_init ?m CPS_API_MIN_OBJ_LEN = Some (Some q)" "obj_key q = k0" by blast
  obtain k1 where k1: "cps_api_key_copy k0 key = Some k1" "key_wf k1"
    using key_copy [OF assms, of k0] k0(2) by (auto simp: key_wf_def)
  obtain ok k2 where k2: "cps_api_key_insert_element k1 CPS_OBJ_KEY_INST_POS cps_api_qualifier_REGISTRATION =
      Some (ok, k2)" "length k2 = 64"
  proof (cases "length (key_elems k1) < 61")
    case True
    then show thesis
      using key_insert_element_spec [OF k1(2), of 0 cps_api_qualifier_REGISTRATION] that
      by (auto simp: CPS_OBJ_KEY_INST_POS_def key_wf_def)
  next
    case False
    then show thesis
      using key_insert_element_full [OF k1(2), of 0 cps_api_qualifier_REGISTRATION] that k1(2)
      by (auto simp: CPS_OBJ_KEY_INST_POS_def key_wf_def)
  qed
  obtain k3 where "cps_api_object_set_type_operation k2
      (if how then cps_api_oper_CREATE else cps_api_oper_DELETE) = Some k3"
    using k2(2) by (auto simp: cps_api_object_set_type_operation_def cps_api_key_set_attr_def
        cps_api_key_elem_raw_set_def key_layout)
  then show thesis using that q k1(1) k2(1) by (auto simp: key_event_def)
qed

lemma add_registration_map:
  assumes "ns_inv K n" and "key_ok (reg_key (cr_details r))" and "key_mem_ok (ie_libc K) (reg_key (cr_details r))"
  defines "es \<equiv> key_elems (reg_key (cr_details r))"
  shows "\<exists>n'. add_registration K r n = Some n' \<and> ns_inv K n' \<and>
     ns_map K n' = (ns_map K n)(es \<mapsto> (case ns_map K n es of None \<Rightarrow> [] | Some l \<Rightarrow> l) @ [r]) \<and>
     cr_fd r \<in> set (ns_reg_created n')"
proof -
  have ci: "cache_inv (ie_hash K) (ns_registration n)" using assms(1) by (simp add: ns_inv_def)
  obtain e where e: "cache_at (ie_hash K) (ns_registration n) (reg_key (cr_details r)) True = Some e"
    "entry_for (ie_hash K) (ns_registration n) es e"
    unfolding es_def by (rule cache_at_exact [OF ci assms(2)])
  have "\<exists>c. (case e of
        None \<Rightarrow> map_option snd (cache_insert (ie_hash K) (key_mem_ok (ie_libc K) (reg_key (cr_details r)))
                  (ns_registration n) (reg_key (cr_details r)) [r] True)
      | Some e \<Rightarrow> cache_at_update (ns_registration n) e (\<lambda>l. l @ [r])) = Some c \<and>
      cache_inv (ie_hash K) c \<and> cache_map (ie_hash K) c =
        (ns_map K n)(es \<mapsto> (case ns_map K n es of None \<Rightarrow> [] | Some l \<Rightarrow> l) @ [r])"
  proof (cases e)
    case None
    then have "ns_map K n es = None" using e(2) by (simp add: entry_for_def)
    then show ?thesis
      using None cache_insert_map [OF ci assms(2), of True "key_mem_ok (ie_libc K) (reg_key (cr_details r))" "[r]"]
        assms(3) es_def by auto
  next
    case (Some p)
    have "ns_map K n es \<noteq> None"
      using e(2) Some by (auto simp: entry_for_def cache_map_def found_at_def)
    then show ?thesis using Some cache_at_update_map [OF ci e(2) [unfolded Some], of "\<lambda>l. l @ [r]"] by auto
  qed
  then obtain c where c: "(case e of
        None \<Rightarrow> map_option snd (cache_insert (ie_hash K) (key_mem_ok (ie_libc K) (reg_key (cr_details r)))
                  (ns_registration n) (reg_key (cr_details r)) [r] True)
      | Some e \<Rightarrow> cache_at_update (ns_registration n) e (\<lambda>l. l @ [r])) = Some c"
      "cache_inv (ie_hash K) c" "cache_map (ie_hash K) c =
        (ns_map K n)(es \<mapsto> (case ns_map K n es of None \<Rightarrow> [] | Some l \<Rightarrow> l) @ [r])"
    by blast
  then show ?thesis using e(1) assms(1)
    by (auto simp: add_registration_def ns_inv_def fd_insert_def)
qed

text \<open>The registrations apart from their use counters.\<close>

definition details_map :: "ipc_env \<Rightarrow> ns_state \<Rightarrow> u32 list \<Rightarrow> (cps_api_object_owner_reg_t \<times> int) list option" where
  "details_map K n es = map_option (map (\<lambda>r. (cr_details r, cr_fd r))) (ns_map K n es)"

lemma query_registration_map:
  assumes "ns_inv K n" and "key_ok key"
  shows "\<exists>r n'. query_registration K key n = Some (r, n') \<and> ns_inv K n' \<and>
     details_map K n' = details_map K n \<and> ns_reg_created n' = ns_reg_created n \<and>
     (case r of
        None \<Rightarrow> \<forall>k. 0 < k \<and> k \<le> length (key_elems key) \<longrightarrow> ns_map K n (take k (key_elems key)) = None
      | Some own \<Rightarrow> \<exists>k l. 0 < k \<and> k \<le> length (key_elems key) \<and>
          ns_map K n (take k (key_elems key)) = Some l \<and> l \<noteq> [] \<and> own = cr_details (hd l) \<and>
          (\<forall>j. k < j \<and> j \<le> length (key_elems key) \<longrightarrow> ns_map K n (take j (key_elems key)) = None))"
proof -
  let ?n = "n\<lparr>ns_stats := inc_stat (ns_stats n) cps_api_obj_stat_GET_COUNT\<rparr>"
  let ?f = "\<lambda>l. (hd l)\<lparr>cr_count := sz_add (cr_count (hd l)) 1\<rparr> # tl l"
  have ci: "cache_inv (ie_hash K) (ns_registration n)" using assms(1) by (simp add: ns_inv_def)
  obtain e where e: "find_entry_prefix (ie_hash K) (ns_registration n) key (length (key_elems key)) = Some e"
    "case e of
       None \<Rightarrow> \<forall>k. 0 < k \<and> k \<le> length (key_elems key) \<longrightarrow> ns_map K n (take k (key_elems key)) = None
     | Some p \<Rightarrow> \<exists>k. 0 < k \<and> k \<le> length (key_elems key) \<and>
         entry_for (ie_hash K) (ns_registration n) (take k (key_elems key)) e \<and>
         (\<forall>j. k < j \<and> j \<le> length (key_elems key) \<longrightarrow> ns_map K n (take j (key_elems key)) = None)"
    using find_entry_prefix_longest [OF ci assms(2) order_refl] by auto
  have at: "cache_at (ie_hash K) (ns_registration n) key False = Some e"
    using e(1) assms(2) by (simp add: cache_at_def find_entry_def)
  show ?thesis
  proof (cases e)
    case None
    then show ?thesis using at e(2) assms(1)
      by (simp add: query_registration_def ns_inv_def details_map_def fun_eq_iff)
  next
    case (Some p)
    then obtain k where k: "0 < k" "k \<le> length (key_elems key)"
      "entry_for (ie_hash K) (ns_registration n) (take k (key_elems key)) (Some p)"
      "\<forall>j. k < j \<and> j \<le> length (key_elems key) \<longrightarrow> ns_map K n (take j (key_elems key)) = None"
      using e(2) by auto
    let ?es = "take k (key_elems key)"
    have "ns_map K n ?es \<noteq> None"
      using k(3) by (auto simp: entry_for_def cache_map_def found_at_def)
    moreover have "ns_map K n ?es \<noteq> Some []" using assms(1) by (simp add: ns_inv_def)
    ultimately obtain r rs where l: "ns_map K n ?es = Some (r # rs)" by (metis neq_Nil_conv not_None_eq)
    have d: "entry_data (ns_registration n) (Some p) = Some (Some (r # rs))"
      using entry_for_data [OF k(3)] l by simp
    obtain c where c: "cache_at_update (ns_registration n) p ?f = Some c" "cache_inv (ie_hash K) c"
      "cache_map (ie_hash K) c = (ns_map K n)(?es \<mapsto> ?f (r # rs))"
      using cache_at_update_map [OF ci k(3), of ?f] l by auto
    have q: "query_registration K key n = Some (Some (cr_details r), ?n\<lparr>ns_registration := c\<rparr>)"
      using at Some d c(1) by (simp add: query_registration_def)
    have "ns_inv K (?n\<lparr>ns_registration := c\<rparr>)"
      using assms(1) c(2,3) by (auto simp: ns_inv_def)
    moreover have "details_map K (?n\<lparr>ns_registration := c\<rparr>) = details_map K n"
      using c(3) l by (auto simp: details_map_def fun_eq_iff)
    ultimately show ?thesis using q k(1,2,4) l
      by (intro exI [of _ "Some (cr_details r)"] exI [of _ "?n\<lparr>ns_registration := c\<rparr>"]) auto
  qed
qed

text \<open>
  \<^bold>\<open>C18.\<close> A query is answered with the owner that registered first for the longest registered prefix of
  the key, and with an error only when no prefix is registered. Apart from the use counters the
  registrations stay as they are.
\<close>

theorem ns_query_longest_prefix:
  assumes "ns_inv K n" and "key_ok key"
  shows "\<exists>r n'. query_registration K key n = Some (r, n') \<and> ns_inv K n' \<and> details_map K n' = details_map K n \<and>
     (case r of
        None \<Rightarrow> \<forall>k. 0 < k \<and> k \<le> length (key_elems key) \<longrightarrow> ns_map K n (take k (key_elems key)) = None
      | Some own \<Rightarrow> \<exists>k l. 0 < k \<and> k \<le> length (key_elems key) \<and>
          ns_map K n (take k (key_elems key)) = Some l \<and> l \<noteq> [] \<and> own = cr_details (hd l) \<and>
          (\<forall>j. k < j \<and> j \<le> length (key_elems key) \<longrightarrow> ns_map K n (take j (key_elems key)) = None))"
  using query_registration_map [OF assms] by blast

lemma query_finds:
  assumes "ns_inv K n" and "key_ok key" and "ns_map K n (take m (key_elems key)) = Some (r # rs)" and "0 < m"
    and "m \<le> length (key_elems key)"
    and "\<And>j. m < j \<Longrightarrow> j \<le> length (key_elems key) \<Longrightarrow> ns_map K n (take j (key_elems key)) = None"
  shows "\<exists>n'. query_registration K key n = Some (Some (cr_details r), n')"
proof -
  obtain q n' where q: "query_registration K key n = Some (q, n')"
    "case q of
        None \<Rightarrow> \<forall>k. 0 < k \<and> k \<le> length (key_elems key) \<longrightarrow> ns_map K n (take k (key_elems key)) = None
      | Some w \<Rightarrow> \<exists>k l. 0 < k \<and> k \<le> length (key_elems key) \<and>
          ns_map K n (take k (key_elems key)) = Some l \<and> l \<noteq> [] \<and> w = cr_details (hd l) \<and>
          (\<forall>j. k < j \<and> j \<le> length (key_elems key) \<longrightarrow> ns_map K n (take j (key_elems key)) = None)"
    using query_registration_map [OF assms(1,2)] by blast
  have "q \<noteq> None" using q(2) assms(3-5) by (cases q) auto
  then obtain w k l where k: "q = Some w" "0 < k" "k \<le> length (key_elems key)"
    "ns_map K n (take k (key_elems key)) = Some l" "w = cr_details (hd l)"
    "\<forall>j. k < j \<and> j \<le> length (key_elems key) \<longrightarrow> ns_map K n (take j (key_elems key)) = None"
    using q(2) by auto
  have "\<not> k < m" using k(6) assms(3,5) by force
  moreover have "\<not> m < k" using assms(6) [of k] k(3,4) by auto
  ultimately have "l = r # rs" using k(4) assms(3) by simp
  then show ?thesis using q(1) k(1,5) by simp
qed

section \<open>Closing a connection\<close>

lemma send_event_ok:
  assumes "key_ok key"
  obtains st' x' where "send_out_key_event P key how st x = Some (st', x')"
proof -
  obtain obj where "key_event key how = Some obj" by (rule key_event_ok [OF assms])
  then show thesis by (intro that) (simp add: send_out_key_event_def)
qed

abbreviation others :: "int \<Rightarrow> client_reg_t list \<Rightarrow> client_reg_t list" where
  "others fd l \<equiv> filter (\<lambda>r. cr_fd r \<noteq> fd) l"

lemma others_erase: "ix < length l \<Longrightarrow> cr_fd (l ! ix) = fd \<Longrightarrow> others fd (list_erase l ix) = others fd l"
  using arg_cong [OF id_take_nth_drop [of ix l], of "others fd"] by (simp add: list_erase_def)

lemma close_entries_filter:
  assumes "key_ok key" and "\<forall>j < ix. j < length l \<longrightarrow> cr_fd (l ! j) \<noteq> fd"
  shows "\<exists>st' x'. close_entries P fd key ix l st x = Some (others fd l, st', x')"
  using assms
proof (induction P fd key ix l st x rule: close_entries.induct)
  case (1 P fd key ix l st x)
  show ?case
  proof (cases "ix < length l")
    case False
    have "cr_fd (l ! j) \<noteq> fd" if "j < length l" for j using "1.prems"(2) False that by simp
    then have "\<forall>r \<in> set l. cr_fd r \<noteq> fd" by (metis in_set_conv_nth)
    then have "others fd l = l" by (intro filter_True)
    then show ?thesis using False by (simp add: close_entries.simps)
  next
    case lt: True
    show ?thesis
    proof (cases "cr_fd (l ! ix) = fd")
      case True
      obtain st1 x1 where e1: "send_out_key_event P key False st x = Some (st1, x1)"
        by (rule send_event_ok [OF "1.prems"(1)])
      obtain st2 x2 where e2: "(if list_erase l ix \<noteq> [] then send_out_key_event P key True st1 x1 else Some (st1, x1)) =
          Some (st2, x2)"
        by (cases "list_erase l ix = []") (use send_event_ok [OF "1.prems"(1), of P True st1 x1] in auto)
      from "1.IH"(1) [OF lt True e1 refl e2 refl "1.prems"(1)]
      show ?thesis using lt True e1 e2 others_erase [OF lt True]
        by (subst close_entries.simps) auto
    next
      case False
      have "\<forall>j < ix + 1. j < length l \<longrightarrow> cr_fd (l ! j) \<noteq> fd"
        using "1.prems"(2) False by (auto simp: less_Suc_eq)
      from "1.IH"(2) [OF lt False "1.prems"(1) this] show ?thesis using lt False
        by (subst close_entries.simps) simp
    qed
  qed
qed

text \<open>One bucket with at most one key.\<close>

definition close_one :: "int \<Rightarrow> client_reg_t list bucket \<Rightarrow> client_reg_t list bucket" where
  "close_one fd v = filter (\<lambda>e. fe_data e \<noteq> []) (map (\<lambda>e. e\<lparr>fe_data := others fd (fe_data e)\<rparr>) v)"

lemma close_bucket_one:
  assumes "length v \<le> 1" and "\<forall>e \<in> set v. key_ok (fe_key e)"
  shows "\<exists>s. close_bucket P fd v (Some (st, x)) = (True, close_one fd v, Some s)"
proof (cases v)
  case Nil
  then show ?thesis by (simp add: close_bucket_def close_keys.simps close_one_def)
next
  case (Cons e es)
  then have v: "v = [e]" using assms(1) by simp
  obtain st1 x1 where c: "close_entries P fd (fe_key e) 0 (fe_data e) st x = Some (others fd (fe_data e), st1, x1)"
    using close_entries_filter [of "fe_key e" 0 "fe_data e" fd P st x] assms(2) v by auto
  show ?thesis
  proof (cases "others fd (fe_data e) = []")
    case True
    then have "close_keys P fd 0 [e] st x = Some ([], st1, x1)"
      using c by (subst close_keys.simps) (simp add: close_keys.simps [of _ _ "Suc 0"] list_erase_def)
    then show ?thesis using True by (simp add: close_bucket_def v close_one_def)
  next
    case False
    then have "close_keys P fd 0 [e] st x = Some ([e\<lparr>fe_data := others fd (fe_data e)\<rparr>], st1, x1)"
      using c by (subst close_keys.simps) (simp add: close_keys.simps [of _ _ "Suc 0"])
    then show ?thesis using False by (simp add: close_bucket_def v close_one_def)
  qed
qed

lemma close_one_idem: "close_one fd (close_one fd v) = close_one fd v"
  by (induction v) (auto simp: close_one_def)

text \<open>The walk over a cache without collisions closes every bucket and drops the ones left empty.\<close>

definition close_cache :: "int \<Rightarrow> client_reg_t list cache \<Rightarrow> client_reg_t list cache" where
  "close_cache fd c = filter (\<lambda>b. snd b \<noteq> []) (map (\<lambda>(hv, v). (hv, close_one fd v)) c)"

lemma close_cache_append: "close_cache fd (a @ b) = close_cache fd a @ close_cache fd b"
  by (simp add: close_cache_def)

lemma close_one_keeps:
  assumes "length v \<le> 1 \<and> (\<forall>e \<in> set v. key_ok (fe_key e))"
  shows "length (close_one fd v) \<le> 1 \<and> (\<forall>e \<in> set (close_one fd v). key_ok (fe_key e))"
  using assms le_trans [OF length_filter_le] by (auto simp: close_one_def)

lemma close_walk:
  assumes "\<forall>b \<in> set (seen @ rest). length (snd b) \<le> 1 \<and> (\<forall>e \<in> set (snd b). key_ok (fe_key e))"
    and "close_cache fd seen = seen" and "cb = close_bucket P fd" and "s = Some s0"
  shows "\<exists>s'. cache_walk cb s seen rest = (close_cache fd (seen @ rest), Some s')"
  using assms
proof (induction cb s seen rest arbitrary: s0 rule: cache_walk.induct)
  case (1 cb s seen)
  then show ?case by simp
next
  case (2 cb s seen hash v rest)
  have v: "length v \<le> 1 \<and> (\<forall>e \<in> set v. key_ok (fe_key e))" using "2.prems"(1) by auto
  obtain s1 where s1: "cb v s = (True, close_one fd v, Some s1)"
    using close_bucket_one [of v P fd "fst s0" "snd s0"] v "2.prems"(3,4) by auto
  show ?case
  proof (cases "close_one fd v = []")
    case True
    have "\<exists>s'. cache_walk cb (Some s1) [] (seen @ rest) = (close_cache fd ([] @ seen @ rest), Some s')"
      by (rule "2.IH"(1) [OF s1 [symmetric] refl]) (use True "2.prems" in \<open>auto simp: close_cache_def\<close>)
    then show ?thesis using True s1 by (auto simp: close_cache_append close_cache_def)
  next
    case False
    have p: "\<forall>b \<in> set ((seen @ [(hash, close_one fd v)]) @ rest).
        length (snd b) \<le> 1 \<and> (\<forall>e \<in> set (snd b). key_ok (fe_key e))"
      using "2.prems"(1) close_one_keeps [OF v, of fd] by auto
    have "close_cache fd (seen @ [(hash, close_one fd v)]) = seen @ [(hash, close_one fd v)]"
      using "2.prems"(2) False by (simp add: close_cache_append) (simp add: close_cache_def close_one_idem)
    from "2.IH"(2) [OF s1 [symmetric] refl _ p this "2.prems"(3) refl] False
    obtain s' where "cache_walk cb (Some s1) (seen @ [(hash, close_one fd v)]) rest =
        (close_cache fd ((seen @ [(hash, close_one fd v)]) @ rest), Some s')" by auto
    moreover have "close_cache fd ((seen @ [(hash, close_one fd v)]) @ rest) = close_cache fd (seen @ (hash, v) # rest)"
      using False by (simp add: close_cache_append) (simp add: close_cache_def close_one_idem)
    ultimately show ?thesis using False s1 by simp
  qed
qed

lemma close_cache_find:
  assumes "distinct (map fst c)"
  shows "umap_find (close_cache fd c) hv =
     (case umap_find c hv of None \<Rightarrow> None | Some v \<Rightarrow> if close_one fd v = [] then None else Some (close_one fd v))"
  using assms
proof (induction c)
  case (Cons b c)
  obtain h v where b: "b = (h, v)" by (cases b)
  have "umap_find c h = None" using Cons.prems b by (auto simp: umap_find_def map_of_eq_None_iff)
  then show ?case using Cons b by (auto simp: close_cache_def umap_find_def)
qed (simp add: close_cache_def umap_find_def)

lemma close_one_map:
  assumes "length v \<le> 1"
  shows "bucket_map (close_one fd v) es =
     (case bucket_map v es of None \<Rightarrow> None | Some l \<Rightarrow> if others fd l = [] then None else Some (others fd l))"
  using assms by (cases v) (auto simp: close_one_def bucket_map_def)

text \<open>
  \<^bold>\<open>C19.\<close> When the connection of a service closes and no two keys share a hash, exactly the
  registrations made over that connection disappear: every other registration stays, in its order,
  and a key nobody is registered for any more is no longer in the table.
\<close>

theorem ns_close_removes:
  assumes "cache_inv (ie_hash K) (ns_registration n)" and "\<forall>b \<in> set (ns_registration n). length (snd b) \<le> 1"
    and "fd \<in> set (ns_reg_created n)"
  shows "\<exists>n' x'. ns_client_closed P fd n x = Some (True, n', x') \<and> fd \<notin> set (ns_reg_created n') \<and>
     (\<forall>es. ns_map K n' es = (case ns_map K n es of None \<Rightarrow> None
        | Some l \<Rightarrow> if others fd l = [] then None else Some (others fd l)))"
proof -
  let ?c = "ns_registration n"
  have d: "distinct (map fst ?c)" using assms(1) by (simp add: cache_inv_def)
  have ok: "\<forall>b \<in> set ([] @ ?c). length (snd b) \<le> 1 \<and> (\<forall>e \<in> set (snd b). key_ok (fe_key e))"
  proof
    fix b assume b: "b \<in> set ([] @ ?c)"
    then have "umap_find ?c (fst b) = Some (snd b)" using d by (simp add: umap_find_def)
    then show "length (snd b) \<le> 1 \<and> (\<forall>e \<in> set (snd b). key_ok (fe_key e))"
      using assms(1,2) b by (auto simp: cache_inv_def bucket_inv_def)
  qed
  let ?st = "inc_stat (inc_stat (ns_stats n) cps_api_obj_stat_CLOSE_COUNT) cps_api_obj_stat_CLOSE_CLEANUP_RUNS"
  have e: "close_cache fd [] = []" by (simp add: close_cache_def)
  obtain st x' where w: "cache_walk (close_bucket P fd) (Some (?st, x)) [] ?c = (close_cache fd ?c, Some (st, x'))"
    using close_walk [OF ok e refl refl] by fastforce
  let ?n = "\<lparr>ns_registration = close_cache fd ?c, ns_stats = st, ns_reg_created = fd_erase (ns_reg_created n) fd\<rparr>"
  have "ns_client_closed P fd n x = Some (True, ?n, x')" using assms(3) w by (simp add: ns_client_closed_def)
  moreover have "ns_map K ?n es = (case ns_map K n es of None \<Rightarrow> None
        | Some l \<Rightarrow> if others fd l = [] then None else Some (others fd l))" for es
  proof (cases "umap_find ?c (elems_hash (ie_hash K) es)")
    case None
    then show ?thesis by (simp add: cache_map_def close_cache_find [OF d])
  next
    case (Some v)
    then have "(elems_hash (ie_hash K) es, v) \<in> set ?c" by (simp add: umap_find_def map_of_SomeD)
    then have "length v \<le> 1" using assms(2) by auto
    from close_one_map [OF this, of fd es] Some show ?thesis
      by (auto simp: cache_map_def close_cache_find [OF d] bucket_map_def split: option.splits)
  qed
  ultimately show ?thesis by (auto simp: fd_erase_def)
qed

text \<open>
  With two keys in one bucket the loop skips the second after it has removed the first, so that a
  registration of the closed connection stays.
\<close>

lemma close_skips_second:
  assumes "key_ok (fe_key e1)" and "fe_data e1 = [r]" and "cr_fd r = fd"
  shows "\<exists>st' x'. close_keys P fd 0 [e1, e2] st x = Some ([e2], st', x')"
proof -
  obtain st1 x1 where "close_entries P fd (fe_key e1) 0 (fe_data e1) st x = Some ([], st1, x1)"
    using close_entries_filter [OF assms(1), of 0 "fe_data e1" fd P st x] assms(2,3) by auto
  then show ?thesis
    by (subst close_keys.simps) (simp add: close_keys.simps [of _ _ "Suc 0"] list_erase_def)
qed

section \<open>A service, the name server and a client\<close>

lemma length_owner_bytes:
  "length (reg_key r) = 64 \<Longrightarrow> length (reg_addr r) = ie_addr_size K \<Longrightarrow> length (owner_bytes r) = sizeof_owner K"
  by (simp add: owner_bytes_def length_key_bytes sizeof_owner_def sizeof_key_def CPS_OBJ_KEY_BYTE_MAX_LEN_def)

lemma owner_roundtrip: "length (reg_key r) = 64 \<Longrightarrow> owner_of_bytes (owner_bytes r) = r"
  using key_of_bytes_array [of "reg_key r" "reg_addr r"] length_key_bytes [of "reg_key r"]
  by (simp add: owner_of_bytes_def owner_bytes_def key_bytes_def sizeof_key_def CPS_OBJ_KEY_BYTE_MAX_LEN_def)

lemma length_fresh [simp]: "length (fresh_bytes E 0 n) = n"
  by (simp add: fresh_bytes_def)

text \<open>What holds of an owner that can be sent.\<close>

definition owner_ok :: "ipc_env \<Rightarrow> cps_api_object_owner_reg_t \<Rightarrow> bool" where
  "owner_ok K r \<longleftrightarrow> key_wf (reg_key r) \<and> key_elems (reg_key r) \<noteq> [] \<and> length (reg_addr r) = ie_addr_size K \<and>
     sizeof_owner K < 2 ^ 31"

lemma owner_ok_facts:
  assumes "owner_ok K r"
  shows "length (reg_key r) = 64" and "key_ok (reg_key r)" and "key_elems (reg_key r) \<noteq> []"
    and "length (owner_bytes r) = sizeof_owner K" and "sizeof_owner K < 2 ^ 31"
  using assms length_owner_bytes [of r K] by (auto simp: owner_ok_def key_wf_def key_ok_def)

context stream_sock
begin

lemma send_two:
  assumes "peer x fd = Some g" and "length dat < 2 ^ 31" and "length dat = n"
  obtains x1 x2 where "cps_api_send_header S fd op n x = (True, x1)"
    and "cps_api_send_data S fd dat x1 = (True, x2)" and "sent g (msg_wire op dat) x x2"
proof -
  have "length dat < 2 ^ 32" using assms(2) by simp
  from send_header_ok [OF assms(1) this]
  obtain x1 where x1: "cps_api_send_header S fd op (length dat) x = (True, x1)"
    "sent g (hdr_bytes \<lparr>hdr_version = 0, hdr_len = length dat, hdr_operation = op\<rparr>) x x1" by metis
  have "peer x1 fd = Some g" using assms(1) sent_peer [OF x1(2)] by simp
  from send_data_ok [OF this assms(2)]
  obtain x2 where x2: "cps_api_send_data S fd dat x1 = (True, x2)" "sent g dat x1 x2" by metis
  show thesis using x1(1) x2(1) sent_trans [OF x1(2) x2(2)] assms(3)
    by (intro that) (auto simp: msg_wire_def)
qed

lemma receive_two:
  assumes "pending x fd = msg_wire op dat @ rest" and "length dat < 2 ^ 31" and "peer x fd \<noteq> None"
    and "length old = n" and "length dat = n"
  obtains x1 x2 where "cps_api_receive_header S fd x = (Some (op, n), x1)"
    and "cps_api_receive_data S fd old x1 = Some (True, dat, x2)" and "taken fd (msg_wire op dat) x x2"
    and "pending x2 fd = rest"
proof -
  have "length dat < 2 ^ 32" using assms(2) by simp
  from receive_header_ok [OF assms(1) this assms(3)]
  obtain x1 where x1: "cps_api_receive_header S fd x = (Some (op, length dat), x1)"
    "taken fd (hdr_bytes \<lparr>hdr_version = 0, hdr_len = length dat, hdr_operation = op\<rparr>) x x1"
    "pending x1 fd = dat @ rest" by metis
  have "peer x1 fd \<noteq> None" using assms(3) taken_peer [OF x1(2)] by simp
  from receive_data_ok [OF x1(3) assms(2) this] assms(4,5)
  obtain x2 where x2: "cps_api_receive_data S fd old x1 = Some (True, dat, x2)" "taken fd dat x1 x2"
    "pending x2 fd = rest" by metis
  show thesis using x1(1) x2 taken_trans [OF x1(2) x2(2)] assms(5)
    by (intro that) (auto simp: msg_wire_def)
qed

lemma ns_register_sent:
  assumes "peer x fd = Some g" and "owner_ok K r"
  obtains x' where "cps_api_ns_register K S fd r x = (True, x')" and "sent g (msg_wire cps_api_ns_r_ADD (owner_bytes r)) x x'"
proof -
  note o = owner_ok_facts [OF assms(2)]
  have "length (owner_bytes r) < 2 ^ 31" using o(4,5) by simp
  from send_two [OF assms(1) this o(4), of cps_api_ns_r_ADD] obtain x1 x2 where
    "cps_api_send_header S fd cps_api_ns_r_ADD (sizeof_owner K) x = (True, x1)"
    "cps_api_send_data S fd (owner_bytes r) x1 = (True, x2)"
    "sent g (msg_wire cps_api_ns_r_ADD (owner_bytes r)) x x2" by metis
  then show thesis by (intro that [of x2]) (simp_all add: cps_api_ns_register_def)
qed

lemma key_request_sent:
  assumes "peer x fd = Some g" and "key_wf key"
  obtains x' where "cps_api_send_key_request S fd op key x = (True, x')" and "sent g (msg_wire op (key_bytes key)) x x'"
proof -
  have l: "length (key_bytes key) = sizeof_key" "length (key_bytes key) < 2 ^ 31"
    using assms(2) by (simp_all add: length_key_bytes key_wf_def sizeof_key_def CPS_OBJ_KEY_BYTE_MAX_LEN_def)
  from send_two [OF assms(1) l(2,1), of op] obtain x1 x2 where
    "cps_api_send_header S fd op sizeof_key x = (True, x1)"
    "cps_api_send_data S fd (key_bytes key) x1 = (True, x2)" "sent g (msg_wire op (key_bytes key)) x x2" by metis
  then show thesis by (intro that [of x2]) (simp_all add: cps_api_send_key_request_def)
qed

lemma ns_handles_registration:
  assumes "pending x t = msg_wire cps_api_ns_r_ADD (owner_bytes r) @ rest" and "peer x t \<noteq> None" and "owner_ok K r"
    and "ns_inv K n" and "\<forall>m. alloc_ok (ie_libc K) m"
    and quiet: "\<And>e y. pending (P e y) = pending y \<and> peer (P e y) = peer y"
  obtains n' x' where "ns_some_data K S P t n \<lparr>w_heap = h, w_ext = x\<rparr> = Some (True, n', \<lparr>w_heap = h, w_ext = x'\<rparr>)"
    and "ns_inv K n'" and "taken t (msg_wire cps_api_ns_r_ADD (owner_bytes r)) x x'"
    and "ns_map K n' = (ns_map K n)(key_elems (reg_key r) \<mapsto>
       (case ns_map K n (key_elems (reg_key r)) of None \<Rightarrow> [] | Some l \<Rightarrow> l) @ [\<lparr>cr_details = r, cr_fd = t, cr_count = 0\<rparr>])"
proof -
  note o = owner_ok_facts [OF assms(3)]
  have len: "length (owner_bytes r) < 2 ^ 31" using o(4,5) by simp
  let ?r = "\<lparr>cr_details = r, cr_fd = t, cr_count = 0\<rparr>"
  obtain x1 x2 where x: "cps_api_receive_header S t x = (Some (cps_api_ns_r_ADD, sizeof_owner K), x1)"
    "cps_api_receive_data S t (fresh_bytes (ie_libc K) 0 (sizeof_owner K)) x1 = Some (True, owner_bytes r, x2)"
    "taken t (msg_wire cps_api_ns_r_ADD (owner_bytes r)) x x2" "pending x2 t = rest"
    by (rule receive_two [OF assms(1) len assms(2) length_fresh o(4)])
  have km: "key_ok (reg_key (cr_details ?r))" "key_mem_ok (ie_libc K) (reg_key (cr_details ?r))"
    using o(2) key_mem_ok_all [OF o(2) assms(5)] by simp_all
  obtain n1 where n1: "add_registration K ?r n = Some n1" "ns_inv K n1"
    "ns_map K n1 = (ns_map K n)(key_elems (reg_key r) \<mapsto>
       (case ns_map K n (key_elems (reg_key r)) of None \<Rightarrow> [] | Some l \<Rightarrow> l) @ [?r])"
    using add_registration_map [OF assms(4) km] by auto
  obtain obj where ev: "key_event (reg_key r) True = Some obj" by (rule key_event_ok [OF o(2)])
  let ?n = "n1\<lparr>ns_stats := inc_stat (ns_stats n1) cps_api_obj_stat_EVENT_SEND\<rparr>"
  have "ns_some_data K S P t n \<lparr>w_heap = h, w_ext = x\<rparr> = Some (True, ?n, \<lparr>w_heap = h, w_ext = P obj x2\<rparr>)"
    using x(1,2) o(2,3) owner_roundtrip [OF o(1)] n1(1) ev
    by (simp add: ns_some_data_def process_registration_def send_out_key_event_def)
  moreover have "taken t (msg_wire cps_api_ns_r_ADD (owner_bytes r)) x (P obj x2)"
    using x(3) quiet [of obj x2] by (simp add: taken_def)
  ultimately show thesis using n1(2,3) by (intro that [of ?n "P obj x2"]) (simp_all add: ns_inv_def)
qed

lemma ns_handles_query:
  assumes "pending x t = msg_wire cps_api_ns_r_QUERY (key_bytes key) @ rest" and "peer x t = Some g" and "g \<noteq> t"
    and "key_wf key" and "ns_inv K n" and "query_registration K key n = Some (Some own, n')" and "owner_ok K own"
  obtains x' where "ns_some_data K S P t n \<lparr>w_heap = h, w_ext = x\<rparr> = Some (True, n', \<lparr>w_heap = h, w_ext = x'\<rparr>)"
    and "pending x' g = pending x g @ msg_wire cps_api_ns_r_QUERY_RESULTS (owner_bytes own)" and "peer x' = peer x"
proof -
  note o = owner_ok_facts [OF assms(7)]
  have k: "length (key_bytes key) = sizeof_key" "length (key_bytes key) < 2 ^ 31"
    using assms(4) by (simp_all add: length_key_bytes key_wf_def sizeof_key_def CPS_OBJ_KEY_BYTE_MAX_LEN_def)
  have pt: "peer x t \<noteq> None" using assms(2) by simp
  obtain x1 x2 where x: "cps_api_receive_header S t x = (Some (cps_api_ns_r_QUERY, sizeof_key), x1)"
    "cps_api_receive_data S t (fresh_bytes (ie_libc K) 0 sizeof_key) x1 = Some (True, key_bytes key, x2)"
    "taken t (msg_wire cps_api_ns_r_QUERY (key_bytes key)) x x2"
    by (rule receive_two [OF assms(1) k(2) pt length_fresh k(1)])
  have p2: "peer x2 t = Some g" "pending x2 g = pending x g"
    using x(3) assms(2,3) by (simp_all add: taken_def) (metis fun_upd_apply)
  have len: "length (owner_bytes own) < 2 ^ 31" using o(4,5) by simp
  obtain x3 x4 where y: "cps_api_send_header S t cps_api_ns_r_QUERY_RESULTS (sizeof_owner K) x2 = (True, x3)"
    "cps_api_send_data S t (owner_bytes own) x3 = (True, x4)"
    "sent g (msg_wire cps_api_ns_r_QUERY_RESULTS (owner_bytes own)) x2 x4"
    by (rule send_two [OF p2(1) len o(4)])
  have "key_of_bytes (key_bytes key) = key" using assms(4) by (intro key_bytes_roundtrip) (simp add: key_wf_def)
  then have "ns_some_data K S P t n \<lparr>w_heap = h, w_ext = x\<rparr> = Some (True, n', \<lparr>w_heap = h, w_ext = x4\<rparr>)"
    using x(1,2) assms(6) y(1,2)
    by (simp add: ns_some_data_def process_query_def cps_api_receive_key_def msg_ops)
  then show thesis using y(3) p2(2) x(3) by (intro that [of x4]) (simp_all add: sent_def taken_def)
qed

lemma find_owners_recv_ok:
  assumes "pending x fd = msg_wire cps_api_ns_r_QUERY_RESULTS (owner_bytes own) @ rest" and "peer x fd \<noteq> None"
    and "owner_ok K own"
  shows "\<exists>x'. find_owners_recv K S fd x = Some (Some own, x')"
proof -
  note o = owner_ok_facts [OF assms(3)]
  have len: "length (owner_bytes own) < 2 ^ 31" using o(4,5) by simp
  obtain x1 x2 where "cps_api_receive_header S fd x = (Some (cps_api_ns_r_QUERY_RESULTS, sizeof_owner K), x1)"
    "cps_api_receive_data S fd (fresh_bytes (ie_libc K) 0 (sizeof_owner K)) x1 = Some (True, owner_bytes own, x2)"
    by (rule receive_two [OF assms(1) len assms(2) length_fresh o(4)])
  then show ?thesis using owner_roundtrip [OF o(1)] by (simp add: find_owners_recv_def)
qed

end

text \<open>
  \<^bold>\<open>C3.\<close> A key that a service registers is found by clients. The service sends its registration, the
  name server handles it, a client asks for a key below the registered one, the name server answers,
  and the client reads back the service's registration with its address, when nobody else registered
  the same key or a more specific one.
\<close>

theorem registered_owner_found:
  assumes "stream_sock S pending peer" and "ns_inv K n" and "owner_ok K own" and "key_wf key"
    and "take (length (key_elems (reg_key own))) (key_elems key) = key_elems (reg_key own)"
    and "\<forall>j. length (key_elems (reg_key own)) \<le> j \<longrightarrow> ns_map K n (take j (key_elems key)) = None"
    and "peer x sv = Some t" and "peer x t = Some sv" and "peer x c = Some d" and "peer x d = Some c"
    and "distinct [sv, t, c, d]" and "pending x t = []" and "pending x d = []" and "pending x c = []"
    and "\<forall>m. alloc_ok (ie_libc K) m" and "\<forall>e y. pending (P e y) = pending y \<and> peer (P e y) = peer y"
  shows "\<exists>x1 n1 x2 x3 n2 x4 x5. cps_api_ns_register K S sv own x = (True, x1) \<and>
     ns_some_data K S P t n \<lparr>w_heap = h, w_ext = x1\<rparr> = Some (True, n1, \<lparr>w_heap = h, w_ext = x2\<rparr>) \<and>
     cps_api_send_key_request S c cps_api_ns_r_QUERY key x2 = (True, x3) \<and>
     ns_some_data K S P d n1 \<lparr>w_heap = h, w_ext = x3\<rparr> = Some (True, n2, \<lparr>w_heap = h, w_ext = x4\<rparr>) \<and>
     find_owners_recv K S c x4 = Some (Some own, x5)"
proof -
  note st = assms(1) and o = owner_ok_facts [OF assms(3)]
  let ?es = "key_elems (reg_key own)" and ?r = "\<lparr>cr_details = own, cr_fd = t, cr_count = 0\<rparr>"
  obtain x1 where x1: "cps_api_ns_register K S sv own x = (True, x1)"
    "stream_sock.sent pending peer t (msg_wire cps_api_ns_r_ADD (owner_bytes own)) x x1"
    by (rule stream_sock.ns_register_sent [OF st assms(7,3)])
  have p1: "pending x1 t = msg_wire cps_api_ns_r_ADD (owner_bytes own) @ []" "peer x1 t \<noteq> None"
    using x1(2) assms(8,12) by (simp_all add: stream_sock.sent_def [OF st])
  have quiet: "pending (P e y) = pending y \<and> peer (P e y) = peer y" for e y using assms(16) by simp
  obtain n1 x2 where x2: "ns_some_data K S P t n \<lparr>w_heap = h, w_ext = x1\<rparr> = Some (True, n1, \<lparr>w_heap = h, w_ext = x2\<rparr>)"
    "ns_inv K n1" "stream_sock.taken pending peer t (msg_wire cps_api_ns_r_ADD (owner_bytes own)) x1 x2"
    "ns_map K n1 = (ns_map K n)(?es \<mapsto> (case ns_map K n ?es of None \<Rightarrow> [] | Some l \<Rightarrow> l) @ [?r])"
    by (rule stream_sock.ns_handles_registration [OF st p1 assms(3,2,15) quiet])
  have p2: "pending x2 = pending x" "peer x2 = peer x"
    using stream_sock.sent_taken [OF st x1(2) x2(3) assms(12)] by simp_all
  have pc: "peer x2 c = Some d" using p2(2) assms(9) by simp
  obtain x3 where x3: "cps_api_send_key_request S c cps_api_ns_r_QUERY key x2 = (True, x3)"
    "stream_sock.sent pending peer d (msg_wire cps_api_ns_r_QUERY (key_bytes key)) x2 x3"
    by (rule stream_sock.key_request_sent [OF st pc assms(4)])
  have p3: "pending x3 d = msg_wire cps_api_ns_r_QUERY (key_bytes key) @ []" "peer x3 d = Some c" "pending x3 c = []"
    using x3(2) p2 assms(10,11,13,14) by (simp_all add: stream_sock.sent_def [OF st])
  have m: "ns_map K n ?es = None" using assms(5,6) by (metis order_refl)
  have at: "ns_map K n1 (take (length ?es) (key_elems key)) = Some [?r]" using assms(5) m x2(4) by simp
  have le: "length ?es \<le> length (key_elems key)" using arg_cong [OF assms(5), of length] by simp
  have above: "ns_map K n1 (take j (key_elems key)) = None" if "length ?es < j" "j \<le> length (key_elems key)" for j
  proof -
    have "take j (key_elems key) \<noteq> ?es" using that by (metis length_take min.absorb2 nat_neq_iff)
    then show ?thesis using x2(4) assms(6) that(1) by simp
  qed
  have pos: "0 < length ?es" using o(3) by simp
  obtain n2 where q1: "query_registration K key n1 = Some (Some own, n2)"
    using query_finds [OF x2(2) key_wf_ok [OF assms(4)] at pos le above] by auto
  have cd: "c \<noteq> d" using assms(11) by simp
  obtain x4 where x4: "ns_some_data K S P d n1 \<lparr>w_heap = h, w_ext = x3\<rparr> = Some (True, n2, \<lparr>w_heap = h, w_ext = x4\<rparr>)"
    "pending x4 c = pending x3 c @ msg_wire cps_api_ns_r_QUERY_RESULTS (owner_bytes own)" "peer x4 = peer x3"
    by (rule stream_sock.ns_handles_query [OF st p3(1,2) cd assms(4) x2(2) q1 assms(3)])
  have p4: "pending x4 c = msg_wire cps_api_ns_r_QUERY_RESULTS (owner_bytes own) @ []" "peer x4 c \<noteq> None"
    using x4(2,3) p3(3) x3(2) pc by (simp_all add: stream_sock.sent_def [OF st])
  from stream_sock.find_owners_recv_ok [OF st p4 assms(3)] x1(1) x2(1) x3(1) x4(1) show ?thesis by blast
qed

section \<open>A name server with one registration\<close>

definition demo_ns_key :: cps_api_key_t where
  "demo_ns_key = [2, 0, 1, 4] @ replicate 60 0"

definition demo_own :: cps_api_object_owner_reg_t where
  "demo_own = \<lparr>reg_key = demo_ns_key, reg_addr = [1, 2, 3, 4]\<rparr>"

definition demo_ns :: ns_state where
  "demo_ns = \<lparr>ns_registration = [(elems_hash id [1, 4], [\<lparr>fe_key = demo_ns_key, fe_allocated = True,
       fe_data = [\<lparr>cr_details = demo_own, cr_fd = 7, cr_count = 0\<rparr>]\<rparr>])],
     ns_stats = [], ns_reg_created = [7]\<rparr>"

lemma demo_ns_key: "key_wf demo_ns_key" "key_elems demo_ns_key = [1, 4]"
  by (simp_all add: demo_ns_key_def key_wf_def key_elems_def)

lemma demo_owner_ok: "owner_ok demo_ipc demo_own"
  by (simp add: owner_ok_def demo_own_def demo_ns_key demo_ipc_def sizeof_owner_def sizeof_key_def
      CPS_OBJ_KEY_BYTE_MAX_LEN_def)

lemma demo_ns_cache: "cache_inv id (ns_registration demo_ns)"
  by (auto simp: cache_inv_def demo_ns_def umap_find_def bucket_inv_def demo_ns_key split: if_splits)

lemma demo_ns_map: "cache_map id (ns_registration demo_ns) es =
  (if es = [1, 4] then Some [\<lparr>cr_details = demo_own, cr_fd = 7, cr_count = 0\<rparr>] else None)"
  by (auto simp: cache_map_def demo_ns_def umap_find_def bucket_map_def demo_ns_key)

lemma demo_ns_inv: "ns_inv demo_ipc demo_ns"
  using demo_ns_cache demo_ns_map by (simp add: ns_inv_def)

theorem ns_query_longest_prefix_witness:
  "\<exists>n'. query_registration demo_ipc ([3, 0, 1, 4, 9] @ replicate 59 0) demo_ns = Some (Some demo_own, n')"
proof -
  let ?k = "[3, 0, 1, 4, 9] @ replicate 59 0 :: cps_api_key_t"
  have k: "key_ok ?k" "key_elems ?k = [1, 4, 9]" by (simp_all add: key_ok_def key_elems_def)
  from ns_query_longest_prefix [OF demo_ns_inv k(1)] obtain r n' where
    q: "query_registration demo_ipc ?k demo_ns = Some (r, n')"
    "case r of
        None \<Rightarrow> \<forall>k. 0 < k \<and> k \<le> length (key_elems ?k) \<longrightarrow> ns_map demo_ipc demo_ns (take k (key_elems ?k)) = None
      | Some own \<Rightarrow> \<exists>k l. 0 < k \<and> k \<le> length (key_elems ?k) \<and>
          ns_map demo_ipc demo_ns (take k (key_elems ?k)) = Some l \<and> l \<noteq> [] \<and> own = cr_details (hd l) \<and>
          (\<forall>j. k < j \<and> j \<le> length (key_elems ?k) \<longrightarrow> ns_map demo_ipc demo_ns (take j (key_elems ?k)) = None)"
    by blast
  have "r \<noteq> None"
  proof
    assume "r = None"
    then have "\<forall>j. 0 < j \<and> j \<le> length (key_elems ?k) \<longrightarrow> ns_map demo_ipc demo_ns (take j (key_elems ?k)) = None"
      using q(2) by simp
    from this [rule_format, of 2] show False unfolding k(2) by (simp add: demo_ns_map)
  qed
  then have "r = Some demo_own" using q(2) by (auto simp: demo_ns_map split: if_splits)
  then show ?thesis using q(1) by blast
qed

theorem ns_close_removes_witness:
  "\<exists>n' x'. ns_client_closed (\<lambda>_ x. x) 7 demo_ns pipe_start = Some (True, n', x') \<and> 7 \<notin> set (ns_reg_created n') \<and>
     (\<forall>es. ns_map demo_ipc n' es = (case ns_map demo_ipc demo_ns es of None \<Rightarrow> None
        | Some l \<Rightarrow> if others 7 l = [] then None else Some (others 7 l)))"
  by (rule ns_close_removes) (use demo_ns_cache in \<open>simp_all add: demo_ns_def\<close>)

theorem registered_owner_found_witness:
  "\<exists>x1 n1 x2 x3 n2 x4 x5. cps_api_ns_register demo_ipc pipe_sock 0 demo_own pipe_start = (True, x1) \<and>
     ns_some_data demo_ipc pipe_sock (\<lambda>_ x. x) 1 \<lparr>ns_registration = [], ns_stats = [], ns_reg_created = []\<rparr>
       \<lparr>w_heap = empty_heap, w_ext = x1\<rparr> = Some (True, n1, \<lparr>w_heap = empty_heap, w_ext = x2\<rparr>) \<and>
     cps_api_send_key_request pipe_sock 2 cps_api_ns_r_QUERY demo_ns_key x2 = (True, x3) \<and>
     ns_some_data demo_ipc pipe_sock (\<lambda>_ x. x) 3 n1 \<lparr>w_heap = empty_heap, w_ext = x3\<rparr> =
       Some (True, n2, \<lparr>w_heap = empty_heap, w_ext = x4\<rparr>) \<and>
     find_owners_recv demo_ipc pipe_sock 2 x4 = Some (Some demo_own, x5)"
  by (rule registered_owner_found [OF pipe.stream_sock_axioms _ demo_owner_ok demo_ns_key(1)])
    (simp_all add: ns_inv_def demo_own_def pipe_peer_def pipe_start_def)

end
