(* ===== verification/Cps_Db_Key.thy ===== *)
theory Cps_Db_Key
  imports Cps_Operation_Proofs Cps_Object_Embedded
begin

text \<open>
  The keys under which objects are stored in the database (\<open>src/db/cps_api_db_object_key.cpp\<close> and
  \<open>src/cps_api_vector_utils.cpp\<close>): the class key, the key of one instance, and the pattern that finds
  the instances of a class. A \<open>std::vector<char>\<close> is a list of bytes; growing it to \<open>n\<close> bytes throws
  when the allocator refuses, and the functions then return \<open>false\<close>.
\<close>

section \<open>Definitions\<close>

definition cps_api_vector_util_append :: "libc \<Rightarrow> bytes \<Rightarrow> bytes \<Rightarrow> nat \<Rightarrow> (bool \<times> bytes) option" where
  "cps_api_vector_util_append E lst dat len =
     (if \<not> alloc_ok E (len + length lst) then Some (False, lst)
      else if length dat < len then None
      else Some (True, lst @ take len dat))"

text \<open>
  \<open>cps_api_range_split\<close> hands out the ranges \<open>[now, ix)\<close> of a number of items in steps; the callback
  may stop it. A step of 0 hands out empty ranges for ever.
\<close>

partial_function (option) range_split_loop ::
  "nat \<Rightarrow> nat \<Rightarrow> (nat \<Rightarrow> nat \<Rightarrow> 's \<Rightarrow> (bool \<times> 's) option) \<Rightarrow> nat \<Rightarrow> 's \<Rightarrow> (bool \<times> 's) option" where
  "range_split_loop tot step visit ix s =
     (if ix < tot then do {
        (ok, s') \<leftarrow> visit ix (min (sz_add ix step) tot) s;
        if ok then range_split_loop tot step visit (min (sz_add ix step) tot) s' else Some (False, s')
      }
      else Some (True, s))"

definition cps_api_range_split ::
  "nat \<Rightarrow> nat \<Rightarrow> (nat \<Rightarrow> nat \<Rightarrow> 's \<Rightarrow> (bool \<times> 's) option) \<Rightarrow> 's \<Rightarrow> (bool \<times> 's) option" where
  "cps_api_range_split tot step visit s = range_split_loop tot step visit 0 s"

text \<open>\<open>std::vector::resize\<close> fills with zero bytes.\<close>

definition vector_resize :: "bytes \<Rightarrow> nat \<Rightarrow> bytes" where
  "vector_resize lst n = take n lst @ replicate (n - length lst) 0"

fun key_escape_loop :: "libc \<Rightarrow> bytes \<Rightarrow> nat \<Rightarrow> nat \<Rightarrow> bytes \<Rightarrow> bool \<times> bytes" where
  "key_escape_loop E lst offset space_wanted [] = (True, lst)"
| "key_escape_loop E lst offset space_wanted (c # cs) =
     (if wildcard_char c then
        (if \<not> alloc_ok E (space_wanted + 1) then (False, lst)
         else key_escape_loop E ((vector_resize lst (space_wanted + 1))[offset := 92, offset + 1 := c])
                (offset + 2) (space_wanted + 1) cs)
      else key_escape_loop E (lst[offset := c]) (offset + 1) space_wanted cs)"

definition db_key_copy_with_escape :: "libc \<Rightarrow> bytes \<Rightarrow> bytes \<Rightarrow> nat \<Rightarrow> (bool \<times> bytes) option" where
  "db_key_copy_with_escape E lst dat len =
     (let space_wanted = len + length lst in
      if \<not> alloc_ok E space_wanted then Some (False, lst)
      else if length dat < len then None
      else Some (key_escape_loop E (vector_resize lst space_wanted) (length lst) space_wanted (take len dat)))"

text \<open>The memory behind \<open>cps_api_key_elem_start_const\<close>.\<close>

definition key_elem_bytes :: "cps_api_key_t \<Rightarrow> bytes" where
  "key_elem_bytes key = concat (map u32_bytes (cps_api_key_elem_start key))"

definition dbkey_from_class_key :: "libc \<Rightarrow> bytes \<Rightarrow> cps_api_key_t \<Rightarrow> (bool \<times> bytes) option" where
  "dbkey_from_class_key E lst key = do {
     len \<leftarrow> cps_api_key_get_len_in_bytes key;
     db_key_copy_with_escape E lst (key_elem_bytes key) len
   }"

text \<open>
  The values of the key attributes an object has, in the order of the class's key; whether one of
  them is a lone asterisk; whether all are there. The arrays on the stack have \<open>len\<close> entries.
\<close>

fun instance_key_loop ::
  "std_tlv_api \<Rightarrow> cps_obj \<Rightarrow> nat \<Rightarrow> bytes list \<Rightarrow> bool \<Rightarrow> u64 list \<Rightarrow> (bytes list \<times> bool) option" where
  "instance_key_loop T obj len vals wildcard [] = Some (vals, wildcard)"
| "instance_key_loop T obj len vals wildcard (i # is) =
     (case cps_api_get_key_data T obj i of
        None \<Rightarrow> instance_key_loop T obj len vals wildcard is
      | Some attr \<Rightarrow>
          (let v = attr_data T (obj_buf obj) attr in
           if len \<le> length vals then None
           else instance_key_loop T obj len (vals @ [v]) (wildcard \<or> v = [42]) is))"

definition get_instance_key_attrs ::
  "std_tlv_api \<Rightarrow> (u64 \<Rightarrow> u64) \<Rightarrow> cps_dict \<Rightarrow> cps_obj \<Rightarrow> nat \<Rightarrow> (bytes list \<times> bool \<times> bool \<times> cps_dict) option" where
  "get_instance_key_attrs T h D obj len = do {
     (key_ids, D) \<leftarrow> cps_api_key_attrs h D (obj_key obj) 1;
     (vals, wildcard) \<leftarrow> instance_key_loop T obj len [] False key_ids;
     Some (vals, wildcard, length vals = length key_ids, D)
   }"

fun append_values ::
  "libc \<Rightarrow> (libc \<Rightarrow> bytes \<Rightarrow> bytes \<Rightarrow> nat \<Rightarrow> (bool \<times> bytes) option) \<Rightarrow> bytes \<Rightarrow> bytes list \<Rightarrow> (bool \<times> bytes) option" where
  "append_values E append_func lst [] = Some (True, lst)"
| "append_values E append_func lst (v # vs) = do {
     (ok, lst) \<leftarrow> cps_api_vector_util_append E lst [35, 45, 0] 3;
     if \<not> ok then Some (False, lst)
     else do {
       (ok, lst) \<leftarrow> append_func E lst v (length v);
       if \<not> ok then Some (False, lst) else append_values E append_func lst vs
     }
   }"

text \<open>The result: the flag, the key, whether it is a pattern (\<open>was_wildcard\<close>), and the dictionary.\<close>

definition append_attrs ::
  "libc \<Rightarrow> std_tlv_api \<Rightarrow> (u64 \<Rightarrow> u64) \<Rightarrow> cps_dict \<Rightarrow> bytes \<Rightarrow> cps_obj \<Rightarrow> bool \<Rightarrow> bool \<Rightarrow>
     (bool \<times> bytes \<times> bool \<times> cps_dict) option" where
  "append_attrs E T h D lst obj believe_wildcard guess_wildcard_from_attrs = do {
     key_len \<leftarrow> cps_api_key_get_len (obj_key obj);
     wildcard_attrs \<leftarrow> cps_api_filter_has_wildcard_attrs T obj;
     (vals, wildcard, contains_all, D) \<leftarrow> get_instance_key_attrs T h D obj key_len;
     let was_wildcard = (wildcard \<or> \<not> contains_all);
     let wildcard = (if guess_wildcard_from_attrs then was_wildcard else believe_wildcard);
     let append_func = (if wildcard then db_key_copy_with_escape else cps_api_vector_util_append);
     len \<leftarrow> cps_api_key_get_len_in_bytes (obj_key obj);
     (ok, lst) \<leftarrow> append_func E lst (key_elem_bytes (obj_key obj)) len;
     if \<not> ok then Some (False, lst, was_wildcard, D)
     else do {
       let append_func = (if wildcard_attrs then cps_api_vector_util_append else append_func);
       (ok, lst) \<leftarrow> append_values E append_func lst vals;
       if \<not> ok then Some (False, lst, was_wildcard, D)
       else if wildcard then do {
         (_, lst) \<leftarrow> cps_api_vector_util_append E lst [42] 1;
         Some (True, lst, was_wildcard, D)
       }
       else Some (True, lst, was_wildcard, D)
     }
   }"

definition dbkey_instance_or_wildcard ::
  "libc \<Rightarrow> std_tlv_api \<Rightarrow> (u64 \<Rightarrow> u64) \<Rightarrow> cps_dict \<Rightarrow> bytes \<Rightarrow> cps_obj \<Rightarrow>
     (bool \<times> bytes \<times> bool \<times> cps_dict) option" where
  "dbkey_instance_or_wildcard E T h D lst obj = append_attrs E T h D lst obj False True"

definition dbkey_from_instance_key ::
  "libc \<Rightarrow> std_tlv_api \<Rightarrow> (u64 \<Rightarrow> u64) \<Rightarrow> cps_dict \<Rightarrow> bytes \<Rightarrow> cps_obj \<Rightarrow> bool \<Rightarrow>
     (bool \<times> bytes \<times> cps_dict) option" where
  "dbkey_from_instance_key E T h D lst obj esc = do {
     (ok, lst, _, D) \<leftarrow> append_attrs E T h D lst obj esc False;
     Some (ok, lst, D)
   }"


section \<open>What the keys look like\<close>

text \<open>The values of the key attributes that are present, and the key of an instance.\<close>

definition key_vals :: "std_tlv_api \<Rightarrow> cps_obj \<Rightarrow> u64 list \<Rightarrow> bytes list" where
  "key_vals T obj is =
     List.map_filter (\<lambda>i. map_option (attr_data T (obj_buf obj)) (cps_api_get_key_data T obj i)) is"

definition value_bytes :: "bytes list \<Rightarrow> bytes" where
  "value_bytes vs = concat (map (\<lambda>v. [35, 45, 0] @ v) vs)"

definition instance_bytes :: "cps_api_key_t \<Rightarrow> bytes list \<Rightarrow> bytes" where
  "instance_bytes key vs = concat (map u32_bytes (key_elems key)) @ value_bytes vs"

lemma escape_bytes_append: "escape_bytes (xs @ ys) = escape_bytes xs @ escape_bytes ys"
  by (induction xs) auto

lemma key_escape_loop_bytes:
  assumes "\<forall>n. alloc_ok E n" and "length lst = off + length cs"
  shows "key_escape_loop E lst off (length lst) cs = (True, take off lst @ escape_bytes cs)"
  using assms(2)
proof (induction cs arbitrary: lst off)
  case (Cons c cs)
  show ?case
  proof (cases "wildcard_char c")
    case True
    let ?l = "(vector_resize lst (length lst + 1))[off := 92, off + 1 := c]"
    have l: "length ?l = off + 2 + length cs" using Cons.prems by (simp add: vector_resize_def)
    have "take (off + 2) ?l = take off lst @ [92, c]"
      using Cons.prems by (intro nth_equalityI) (auto simp: vector_resize_def nth_append nth_list_update nth_Cons'
          split: if_splits)
    then show ?thesis using Cons.IH [OF l] True assms(1) l Cons.prems by simp
  next
    case False
    have l: "length (lst[off := c]) = off + 1 + length cs" using Cons.prems by simp
    have "take (off + 1) (lst[off := c]) = take off lst @ [c]"
      using Cons.prems by (simp add: take_Suc_conv_app_nth)
    then show ?thesis using Cons.IH [OF l] False by simp
  qed
qed simp

lemma db_key_copy_bytes:
  assumes "\<forall>n. alloc_ok E n" and "len \<le> length dat"
  shows "db_key_copy_with_escape E lst dat len = Some (True, lst @ escape_bytes (take len dat))"
    and "cps_api_vector_util_append E lst dat len = Some (True, lst @ take len dat)"
proof -
  let ?l = "vector_resize lst (len + length lst)"
  have l: "length ?l = length lst + length (take len dat)" and t: "take (length lst) ?l = lst"
    using assms(2) by (simp_all add: vector_resize_def)
  have "len + length lst = length ?l" by (simp add: vector_resize_def)
  then show "db_key_copy_with_escape E lst dat len = Some (True, lst @ escape_bytes (take len dat))"
    using key_escape_loop_bytes [OF assms(1) l] t assms by (simp add: db_key_copy_with_escape_def Let_def)
  show "cps_api_vector_util_append E lst dat len = Some (True, lst @ take len dat)"
    using assms by (simp add: cps_api_vector_util_append_def)
qed

lemma append_values_bytes:
  assumes "\<forall>n. alloc_ok E n"
  shows "append_values E cps_api_vector_util_append lst vs = Some (True, lst @ value_bytes vs)"
    and "append_values E db_key_copy_with_escape lst vs = Some (True, lst @ escape_bytes (value_bytes vs))"
proof -
  note c = db_key_copy_bytes [OF assms]
  show "append_values E cps_api_vector_util_append lst vs = Some (True, lst @ value_bytes vs)"
    by (induction vs arbitrary: lst) (simp_all add: value_bytes_def c)
  have e: "escape_bytes [35, 45, 0] = [35, 45, 0]" by (simp add: wildcard_char_def)
  show "append_values E db_key_copy_with_escape lst vs = Some (True, lst @ escape_bytes (value_bytes vs))"
    using e by (induction vs arbitrary: lst) (simp_all add: value_bytes_def c escape_bytes_append wildcard_char_def)
qed

lemma instance_key_loop_vals:
  assumes "length vals + length is \<le> len"
  shows "instance_key_loop T obj len vals b is =
     Some (vals @ key_vals T obj is, b \<or> [42] \<in> set (key_vals T obj is))"
  using assms
proof (induction "is" arbitrary: vals b)
  case (Cons i "is")
  then show ?case
    by (cases "cps_api_get_key_data T obj i") (auto simp: key_vals_def map_filter_simps Let_def)
qed (simp add: key_vals_def map_filter_simps)

lemma key_elem_bytes_take:
  assumes "key_ok k"
  shows "take (4 * length (key_elems k)) (key_elem_bytes k) = concat (map u32_bytes (key_elems k))"
    and "4 * length (key_elems k) \<le> length (key_elem_bytes k)"
proof -
  have k: "key_elems k = take (length (key_elems k)) (cps_api_key_elem_start k)"
    "length (key_elems k) \<le> length (cps_api_key_elem_start k)"
    using assms by (auto simp: key_elems_def cps_api_key_elem_start_def key_ok_def key_layout numeral_2_eq_2)
  show "take (4 * length (key_elems k)) (key_elem_bytes k) = concat (map u32_bytes (key_elems k))"
    unfolding key_elem_bytes_def
    using take_concat_map [of u32_bytes 4 "length (key_elems k)" "cps_api_key_elem_start k"] k(1) by simp
  have "length (key_elem_bytes k) = 4 * length (cps_api_key_elem_start k)"
    unfolding key_elem_bytes_def by (rule concat_const_length) simp
  then show "4 * length (key_elems k) \<le> length (key_elem_bytes k)" using k(2) by simp
qed


lemma append_attrs_bytes:
  assumes "\<forall>n. alloc_ok E n" and "key_ok (obj_key obj)"
    and "cps_api_filter_has_wildcard_attrs T obj = Some wa"
    and "cps_api_key_attrs h D (obj_key obj) 1 = Some (is, D')" and "length is \<le> length (key_elems (obj_key obj))"
  defines "vs \<equiv> key_vals T obj is"
  defines "ww \<equiv> [42] \<in> set (key_vals T obj is) \<or> length (key_vals T obj is) \<noteq> length is"
  defines "q \<equiv> instance_bytes (obj_key obj) (key_vals T obj is)"
  shows "append_attrs E T h D [] obj bw False = Some (True,
       if \<not> bw then q
       else if wa then escape_bytes (concat (map u32_bytes (key_elems (obj_key obj)))) @ value_bytes vs @ [42]
       else escape_bytes q @ [42], ww, D')"
    and "append_attrs E T h D [] obj bw True = append_attrs E T h D [] obj ww False"
proof -
  note c = db_key_copy_bytes [OF assms(1)] and v = append_values_bytes [OF assms(1)]
  note k = key_elem_bytes_take [OF assms(2)]
  have l: "cps_api_key_get_len (obj_key obj) = Some (length (key_elems (obj_key obj)))"
    "cps_api_key_get_len_in_bytes (obj_key obj) = Some (4 * length (key_elems (obj_key obj)))"
    using assms(2) by simp_all
  have g: "get_instance_key_attrs T h D obj (length (key_elems (obj_key obj))) =
      Some (vs, [42] \<in> set vs, length vs = length is, D')"
    using assms(4) instance_key_loop_vals [of "[]" "is"] assms(5) by (simp add: get_instance_key_attrs_def vs_def)
  show "append_attrs E T h D [] obj bw False = Some (True,
       if \<not> bw then q
       else if wa then escape_bytes (concat (map u32_bytes (key_elems (obj_key obj)))) @ value_bytes vs @ [42]
       else escape_bytes q @ [42], ww, D')"
    using l g assms(3) c [OF k(2)] v k(1) c(2) [of 1 "[42]"]
    by (auto simp: append_attrs_def q_def instance_bytes_def escape_bytes_append ww_def vs_def Let_def)
  show "append_attrs E T h D [] obj bw True = append_attrs E T h D [] obj ww False"
    using l g assms(3) by (simp add: append_attrs_def ww_def vs_def)
qed

section \<open>Patterns and instances\<close>

text \<open>What the library relies on of the patterns of the database: plain and escaped characters stand
  for themselves and a final asterisk for any rest.\<close>

locale glob_match =
  fixes g :: "bytes \<Rightarrow> bytes \<Rightarrow> bool"
  assumes end_of_pattern: "g [] s \<longleftrightarrow> s = []"
    and final_star: "g [42] s"
    and escaped: "g (92 # c # p) s \<longleftrightarrow> (\<exists>t. s = c # t \<and> g p t)"
    and plain: "\<not> wildcard_char c \<Longrightarrow> g (c # p) s \<longleftrightarrow> (\<exists>t. s = c # t \<and> g p t)"
begin

lemma prefix_pattern: "g (escape_bytes q @ [42]) s \<longleftrightarrow> (\<exists>t. s = q @ t)"
proof (induction q arbitrary: s)
  case (Cons c q)
  then show ?case by (cases "wildcard_char c") (auto simp: escaped plain)
qed (simp add: final_star)

end

text \<open>The patterns with asterisks and question marks, without character classes.\<close>

function glob_simple :: "bytes \<Rightarrow> bytes \<Rightarrow> bool" where
  "glob_simple [] s = (s = [])"
| "glob_simple (c # p) s =
     (if c = 42 then list_ex (\<lambda>k. glob_simple p (drop k s)) [0..<length s + 1]
      else if c = 63 then (case s of [] \<Rightarrow> False | x # t \<Rightarrow> glob_simple p t)
      else if c = 92 then
        (case p of [] \<Rightarrow> s = [92] | d # p' \<Rightarrow> (case s of [] \<Rightarrow> False | x # t \<Rightarrow> x = d \<and> glob_simple p' t))
      else (case s of [] \<Rightarrow> False | x # t \<Rightarrow> x = c \<and> glob_simple p t))"
  by pat_completeness auto
termination by (relation "measure (\<lambda>(p, _). length p)") auto

interpretation glob_simple: glob_match glob_simple
proof unfold_locales
  fix s show "glob_simple [42] s" by (simp add: list_ex_iff)
next
  fix c :: u8 and p s assume "\<not> wildcard_char c"
  then show "glob_simple (c # p) s \<longleftrightarrow> (\<exists>t. s = c # t \<and> glob_simple p t)"
    by (cases s) (auto simp: wildcard_char_def)
qed (auto split: list.splits)

text \<open>
  \<^bold>\<open>C22.\<close> A filter that lacks some key attribute of its class turns into a pattern. The pattern finds
  every stored object of the class whose key attributes start with the ones the filter has, and it
  finds nothing but keys that begin with the class key and those values, whatever bytes they contain.
\<close>

theorem dbkey_pattern_finds_instances:
  assumes "glob_match g" and "\<forall>n. alloc_ok E n" and "key_ok (obj_key f)" and "key_ok (obj_key p)"
    and "key_elems (obj_key p) = key_elems (obj_key f)"
    and "cps_api_key_attrs h D (obj_key f) 1 = Some (is, D1)"
    and "cps_api_key_attrs h D (obj_key p) 1 = Some (is, D2)"
    and "length is \<le> length (key_elems (obj_key f))"
    and "cps_api_filter_has_wildcard_attrs T f = Some False"
    and "cps_api_filter_has_wildcard_attrs T p = Some wp"
    and "length (key_vals T f is) < length is" and "key_vals T p is = key_vals T f is @ us"
  shows "\<exists>pat k. dbkey_instance_or_wildcard E T h D [] f = Some (True, pat, True, D1) \<and>
     dbkey_from_instance_key E T h D [] p False = Some (True, k, D2) \<and> g pat k \<and>
     (\<forall>s. g pat s \<longleftrightarrow> (\<exists>t. s = instance_bytes (obj_key f) (key_vals T f is) @ t))"
proof -
  let ?q = "instance_bytes (obj_key f) (key_vals T f is)"
  have "dbkey_instance_or_wildcard E T h D [] f = Some (True, escape_bytes ?q @ [42], True, D1)"
    using append_attrs_bytes(1) [OF assms(2,3,9,6,8), of True] append_attrs_bytes(2) [OF assms(2,3,9,6,8), of False]
      assms(11) by (simp add: dbkey_instance_or_wildcard_def)
  moreover have "dbkey_from_instance_key E T h D [] p False =
      Some (True, instance_bytes (obj_key p) (key_vals T p is), D2)"
    using append_attrs_bytes(1) [OF assms(2,4,10,7), of False] assms(5,8) by (simp add: dbkey_from_instance_key_def)
  moreover have "instance_bytes (obj_key p) (key_vals T p is) = ?q @ value_bytes us"
    using assms(5,12) by (simp add: instance_bytes_def value_bytes_def)
  ultimately show ?thesis using glob_match.prefix_pattern [OF assms(1), of ?q] by auto
qed


text \<open>Key attributes outside a key container are found as plain attributes.\<close>

context std_tlv
begin

lemma key_data_plain:
  assumes "obj_wf T p xs" and "CPS_API_OBJ_KEY_ATTRS \<notin> fst ` set xs"
  shows "map_option (attr_data T (obj_buf p)) (cps_api_get_key_data T p i) = map_of xs i"
proof -
  note r = region_obj [OF assms(1)] and u = obj_wf_used(1) [OF assms(1)]
  have e: "cps_api_object_e_get T p [t] = cps_api_object_it_find T (obj_buf p) (at 0 (attrs_size T xs)) t" for t
    by (simp add: cps_api_object_e_get_def efind_one cps_api_object_it_find_def u)
  have "map_of xs CPS_API_OBJ_KEY_ATTRS = None" using assms(2) by (simp add: map_of_eq_None_iff)
  then have "fst (std_tlv_find_next T (obj_buf p) (Some 0) (attrs_size T xs) CPS_API_OBJ_KEY_ATTRS) = None"
    using region_find(1) [OF r] by (simp add: cps_api_object_it_find_def)
  then have "cps_api_object_e_get T p [CPS_API_OBJ_KEY_ATTRS, i] = None"
    by (simp add: cps_api_object_e_get_def efind_more u)
  then show ?thesis
    using region_find [OF r, of i] e by (cases "map_of xs i") (auto simp: cps_api_get_key_data_def)
qed

lemma key_vals_plain:
  assumes "obj_wf T p xs" and "CPS_API_OBJ_KEY_ATTRS \<notin> fst ` set xs"
  shows "key_vals T p is = List.map_filter (map_of xs) is"
  unfolding key_vals_def using key_data_plain [OF assms] by simp

lemma has_wildcard_absent:
  assumes "obj_wf T p xs" and "CPS_OBJECT_GROUP_WILDCARD_SEARCH \<notin> fst ` set xs"
  shows "cps_api_filter_has_wildcard_attrs T p = Some False"
  using get_data_uint_obj(1) [OF assms(1)] assms(2)
  by (simp add: cps_api_filter_has_wildcard_attrs_def u32_flag_def map_of_eq_None_iff)

end

text \<open>A class with one key attribute, a filter without it and a stored object whose value is an asterisk.\<close>

definition demo_key :: cps_api_key_t where
  "demo_key = [3, 0, 1, 5, 7] @ replicate 59 0"

definition demo_instance :: "attr list \<Rightarrow> cps_obj" where
  "demo_instance xs = (tlv16_obj xs)\<lparr>obj_key := demo_key\<rparr>"

lemma demo_key_facts: "key_ok demo_key" "key_elems demo_key = [1, 5, 7]"
  by (simp_all add: demo_key_def key_ok_def key_elems_def)

lemma demo_key_attrs: "\<exists>D'. cps_api_key_attrs id demo_dict demo_key 1 = Some ([7], D')"
proof -
  obtain n where n: "dict_path id demo_dict [5, 7] = Some n" "nd_key_ids n = None"
    "filter (leaf_id demo_dict) (nd_ids n) = [7]" using demo_dict_facts(2) by blast
  have "\<forall>i n. cps_dict_find_by_id demo_dict i = Some n \<longrightarrow> nd_id n = i"
    using demo_dict_facts(1) by (simp add: dict_wf_def)
  then have "key_attrs_loop demo_dict [] (nd_ids n) = [7]"
    using key_attrs_loop_leaves [of demo_dict "[]"] n(3) by (simp add: key_layout)
  then show ?thesis
    using find_by_key_path [OF demo_dict_facts(1) demo_key_facts(1), of 1] n demo_key_facts(2)
    by (simp add: cps_api_key_attrs_def Let_def)
qed

lemma demo_instance_wf:
  assumes "\<forall>x \<in> set xs. length (snd x) < size_lim" and "length (tlv16_bytes xs) + 64 < obj_cap"
  shows "obj_wf tlv16 (demo_instance xs) xs" "obj_key (demo_instance xs) = demo_key"
  using tlv16_obj_wf [OF assms] by (simp_all add: obj_wf_def demo_instance_def demo_key_def)

theorem dbkey_pattern_finds_instances_witness:
  "\<exists>D1 pat k. dbkey_instance_or_wildcard libc_ok tlv16 id demo_dict [] (demo_instance []) =
       Some (True, pat, True, D1) \<and>
     dbkey_from_instance_key libc_ok tlv16 id demo_dict [] (demo_instance [(7, [42])]) False =
       Some (True, k, D1) \<and> glob_simple pat k"
proof -
  obtain D' where D': "cps_api_key_attrs id demo_dict demo_key 1 = Some ([7], D')" using demo_key_attrs by blast
  let ?f = "demo_instance []" and ?p = "demo_instance [(7, [42])]"
  have wf: "obj_wf tlv16 ?f []" "obj_wf tlv16 ?p [(7, [42])]"
    by (rule demo_instance_wf(1); simp add: size_lim_def obj_cap_def)+
  have k: "obj_key ?f = demo_key" "obj_key ?p = demo_key" by (simp_all add: demo_instance_def)
  have w: "cps_api_filter_has_wildcard_attrs tlv16 ?f = Some False"
    "cps_api_filter_has_wildcard_attrs tlv16 ?p = Some False"
    using tlv16.has_wildcard_absent [OF wf(1)] tlv16.has_wildcard_absent [OF wf(2)]
    by (simp_all add: CPS_OBJECT_GROUP_WILDCARD_SEARCH_def)
  have v: "key_vals tlv16 ?f [7] = []" "key_vals tlv16 ?p [7] = [[42]]"
    using tlv16.key_vals_plain [OF wf(1), of "[7]"] tlv16.key_vals_plain [OF wf(2), of "[7]"]
    by (simp_all add: CPS_API_OBJ_KEY_ATTRS_def map_filter_simps)
  show ?thesis
    using dbkey_pattern_finds_instances [OF glob_simple.glob_match_axioms, of libc_ok ?f ?p id demo_dict "[7]" D' D'
        tlv16 False "[[42]]"] k demo_key_facts D' w v by auto
qed


lemma value_bytes_inj:
  "map length vs = map length us \<Longrightarrow> value_bytes vs = value_bytes us \<longleftrightarrow> vs = us"
proof (induction vs arbitrary: us)
  case (Cons v vs)
  then show ?case by (cases us) (auto simp: value_bytes_def)
qed (simp add: value_bytes_def)

text \<open>
  \<^bold>\<open>C35.\<close> An object with all its key attributes is stored under one key, the same that a lookup with
  these attributes uses, and two objects of a class whose key attributes have the same sizes share a
  key only if the attributes are equal.
\<close>

theorem dbkey_instance_unique:
  assumes "\<forall>n. alloc_ok E n" and "key_ok (obj_key p)" and "key_ok (obj_key q)"
    and "cps_api_key_attrs h D (obj_key p) 1 = Some (is, D1)"
    and "cps_api_key_attrs h D (obj_key q) 1 = Some (is, D2)"
    and "length is \<le> length (key_elems (obj_key p))"
    and "length (key_elems (obj_key q)) = length (key_elems (obj_key p))"
    and "cps_api_filter_has_wildcard_attrs T p = Some wp" and "cps_api_filter_has_wildcard_attrs T q = Some wq"
    and "length (key_vals T p is) = length is" and "[42] \<notin> set (key_vals T p is)"
    and "map length (key_vals T q is) = map length (key_vals T p is)"
  shows "\<exists>k k'. dbkey_from_instance_key E T h D [] p False = Some (True, k, D1) \<and>
     dbkey_instance_or_wildcard E T h D [] p = Some (True, k, False, D1) \<and>
     dbkey_from_instance_key E T h D [] q False = Some (True, k', D2) \<and>
     (k = k' \<longleftrightarrow> key_elems (obj_key p) = key_elems (obj_key q) \<and> key_vals T p is = key_vals T q is)"
proof -
  note p = append_attrs_bytes [OF assms(1,2,8,4,6)]
  have "length is \<le> length (key_elems (obj_key q))" using assms(6,7) by simp
  note q = append_attrs_bytes [OF assms(1,3,9,5) this]
  have c: "concat (map u32_bytes (key_elems (obj_key p))) = concat (map u32_bytes (key_elems (obj_key q))) \<longleftrightarrow>
      key_elems (obj_key p) = key_elems (obj_key q)"
    using concat_map_inj [of u32_bytes 4, OF _ _ assms(7) [symmetric]] u32_bytes_inj by simp
  have l: "length (concat (map u32_bytes (key_elems (obj_key p)))) =
      length (concat (map u32_bytes (key_elems (obj_key q))))"
    using concat_const_length [of u32_bytes 4] assms(7) by simp
  have "instance_bytes (obj_key p) (key_vals T p is) = instance_bytes (obj_key q) (key_vals T q is) \<longleftrightarrow>
      key_elems (obj_key p) = key_elems (obj_key q) \<and> key_vals T p is = key_vals T q is"
    using c l value_bytes_inj [OF assms(12) [symmetric]] by (simp add: instance_bytes_def)
  moreover have "dbkey_from_instance_key E T h D [] p False = Some (True, instance_bytes (obj_key p) (key_vals T p is), D1)"
    "dbkey_from_instance_key E T h D [] q False = Some (True, instance_bytes (obj_key q) (key_vals T q is), D2)"
    using p(1) [of False] q(1) [of False] by (simp_all add: dbkey_from_instance_key_def)
  moreover have "dbkey_instance_or_wildcard E T h D [] p =
      Some (True, instance_bytes (obj_key p) (key_vals T p is), False, D1)"
    using p(1) [of False] p(2) [of False] assms(10,11) by (simp add: dbkey_instance_or_wildcard_def)
  ultimately show ?thesis by blast
qed

theorem dbkey_instance_unique_witness:
  "\<exists>D1 k k'. dbkey_from_instance_key libc_ok tlv16 id demo_dict [] (demo_instance [(7, [1])]) False = Some (True, k, D1) \<and>
     dbkey_instance_or_wildcard libc_ok tlv16 id demo_dict [] (demo_instance [(7, [1])]) = Some (True, k, False, D1) \<and>
     dbkey_from_instance_key libc_ok tlv16 id demo_dict [] (demo_instance [(7, [2])]) False = Some (True, k', D1) \<and>
     k \<noteq> k'"
proof -
  obtain D' where D': "cps_api_key_attrs id demo_dict demo_key 1 = Some ([7], D')" using demo_key_attrs by blast
  have wf: "obj_wf tlv16 (demo_instance [(7, [x])]) [(7, [x])]" for x
    by (rule demo_instance_wf(1)) (simp_all add: size_lim_def obj_cap_def)
  have k: "obj_key (demo_instance xs) = demo_key" for xs by (simp add: demo_instance_def)
  have w: "cps_api_filter_has_wildcard_attrs tlv16 (demo_instance [(7, [x])]) = Some False" for x
    using tlv16.has_wildcard_absent [OF wf] by (simp add: CPS_OBJECT_GROUP_WILDCARD_SEARCH_def)
  have v: "key_vals tlv16 (demo_instance [(7, [x])]) [7] = [[x]]" for x
    using tlv16.key_vals_plain [OF wf, of x "[7]"] by (simp add: CPS_API_OBJ_KEY_ATTRS_def map_filter_simps)
  show ?thesis
    using dbkey_instance_unique [of libc_ok "demo_instance [(7, [1])]" "demo_instance [(7, [2])]" id demo_dict "[7]"
        D' D' tlv16 False False] k demo_key_facts D' w v by auto
qed

section \<open>Ranges\<close>

text \<open>The ranges handed out from \<open>ix\<close> on.\<close>

lemma range_split_loop_covers:
  assumes "0 < n" and "tot + n < size_lim" and "ix \<le> tot"
  shows "\<exists>rs. range_split_loop tot n (\<lambda>a b l. Some (True, l @ [(a, b)])) ix l = Some (True, l @ rs) \<and>
     concat (map (\<lambda>(a, b). [a..<b]) rs) = [ix..<tot] \<and> (\<forall>(a, b) \<in> set rs. a < b \<and> b - a \<le> n)"
  using assms(3)
proof (induction "tot - ix" arbitrary: ix l rule: less_induct)
  case less
  show ?case
  proof (cases "ix < tot")
    case True
    let ?j = "min (ix + n) tot"
    have j: "sz_add ix n = ix + n" using assms(2) True by (simp add: sz_add_def)
    have "tot - ?j < tot - ix" "?j \<le> tot" using True assms(1) by auto
    from less.hyps [OF this, of "l @ [(ix, ?j)]"] obtain rs where
      rs: "range_split_loop tot n (\<lambda>a b l. Some (True, l @ [(a, b)])) ?j (l @ [(ix, ?j)]) =
         Some (True, (l @ [(ix, ?j)]) @ rs)"
      "concat (map (\<lambda>(a, b). [a..<b]) rs) = [?j..<tot]" "\<forall>(a, b) \<in> set rs. a < b \<and> b - a \<le> n" by blast
    have "range_split_loop tot n (\<lambda>a b l. Some (True, l @ [(a, b)])) ix l = Some (True, l @ (ix, ?j) # rs)"
      using True rs(1) by (subst range_split_loop.simps) (simp add: j)
    moreover have "concat (map (\<lambda>(a, b). [a..<b]) ((ix, ?j) # rs)) = [ix..<tot]"
      using rs(2) True upt_add_eq_append [of ix ?j "tot - ?j"] by auto
    moreover have "\<forall>(a, b) \<in> set ((ix, ?j) # rs). a < b \<and> b - a \<le> n" using rs(3) True assms(1) by auto
    ultimately show ?thesis by blast
  next
    case False
    then show ?thesis using less.prems
      by (intro exI [of _ "[]"]) (simp add: range_split_loop.simps [of tot])
  qed
qed

text \<open>
  \<^bold>\<open>C36.\<close> Splitting a number of items into ranges of a positive step ends and hands out every item
  exactly once, in order, in non-empty ranges of at most the step's size.
\<close>

theorem range_split_covers:
  assumes "0 < n" and "tot + n < size_lim"
  shows "\<exists>rs. cps_api_range_split tot n (\<lambda>a b l. Some (True, l @ [(a, b)])) [] = Some (True, rs) \<and>
     concat (map (\<lambda>(a, b). [a..<b]) rs) = [0..<tot] \<and> (\<forall>(a, b) \<in> set rs. a < b \<and> b - a \<le> n)"
  using range_split_loop_covers [OF assms, of 0 "[]"] by (simp add: cps_api_range_split_def)

theorem range_split_covers_witness:
  "\<exists>rs. cps_api_range_split 1100 500 (\<lambda>a b l. Some (True, l @ [(a, b)])) [] = Some (True, rs) \<and>
     concat (map (\<lambda>(a, b). [a..<b]) rs) = [0..<1100] \<and> (\<forall>(a, b) \<in> set rs. a < b \<and> b - a \<le> 500)"
  by (rule range_split_covers) (simp_all add: size_lim_def)

end
