(* ===== verification/Cps_Db_Connection.thy ===== *)
theory Cps_Db_Connection
  imports Cps_Db_Key Cps_Channel
begin

text \<open>
  A connection to the database (\<open>src/db/cps_api_db_connection.cpp\<close>, \<open>src/db/cps_api_db_response.cpp\<close>) and
  the pool of connections (\<open>src/db/cps_api_db_connection_tools.cpp\<close>): requests are built from strings
  and objects, queued, flushed, and their replies read, with retries and reconnection; events that
  arrive between replies are set aside.

  The redis client library, \<open>poll\<close> and the clock are parameters: a record of functions on a state of any
  type. A context of the library is a number. The flags are the values the configuration sets.
\<close>

section \<open>The redis client library\<close>

datatype redisReply =
    REDIS_REPLY_STRING bytes
  | REDIS_REPLY_ARRAY "redisReply list"
  | REDIS_REPLY_INTEGER int
  | REDIS_REPLY_NIL
  | REDIS_REPLY_STATUS bytes
  | REDIS_REPLY_ERROR bytes

text \<open>
  \<open>rd_connect\<close> gives \<open>None\<close> for a null context, or the context and whether it is connected;
  \<open>rd_write\<close> gives \<open>None\<close> for an error, or whether all output is written; the two functions that take
  a reply give \<open>None\<close> for an error and \<open>Some None\<close> when no complete reply was read. \<open>rd_poll\<close>
  gets a descriptor, whether to wait for output, and a timeout, and answers with the result of \<open>poll\<close>
  and whether the event awaited is set.
\<close>

record 'x redis_api =
  rd_connect :: "bytes \<Rightarrow> int \<Rightarrow> int \<Rightarrow> 'x \<Rightarrow> (nat \<times> bool) option \<times> 'x"
  rd_free :: "nat \<Rightarrow> 'x \<Rightarrow> 'x"
  rd_fd :: "nat \<Rightarrow> 'x \<Rightarrow> int"
  rd_append :: "nat \<Rightarrow> bytes list \<Rightarrow> 'x \<Rightarrow> bool \<times> 'x"
  rd_write :: "nat \<Rightarrow> 'x \<Rightarrow> bool option \<times> 'x"
  rd_get_reply :: "nat \<Rightarrow> 'x \<Rightarrow> redisReply option option \<times> 'x"
  rd_reader_reply :: "nat \<Rightarrow> 'x \<Rightarrow> redisReply option option \<times> 'x"
  rd_read :: "nat \<Rightarrow> 'x \<Rightarrow> bool \<times> 'x"
  rd_poll :: "int \<Rightarrow> bool \<Rightarrow> int \<Rightarrow> 'x \<Rightarrow> int \<times> bool \<times> 'x"
  rd_uptime :: "'x \<Rightarrow> u64 \<times> 'x"
  rd_expired :: "u64 \<Rightarrow> u64 \<Rightarrow> 'x \<Rightarrow> bool \<times> 'x"
  rd_usleep :: "nat \<Rightarrow> 'x \<Rightarrow> 'x"

section \<open>State\<close>

record db_connection =
  cn_addr :: bytes
  cn_ctx :: "nat option"
  cn_fd :: "int option"
  cn_pending_events :: "redisReply list"
  cn_last_used :: u64
  cn_event_connection :: bool

text \<open>A new connection; the poll structures are not initialised.\<close>

definition new_connection :: db_connection where
  "new_connection = \<lparr>cn_addr = [], cn_ctx = None, cn_fd = None, cn_pending_events = [],
     cn_last_used = 0, cn_event_connection = False\<rparr>"

record db_flags =
  fl_operation_retry :: int
  fl_timeout_local :: int
  fl_timeout_remote :: int
  fl_connection_retry_local :: int
  fl_connection_retry_remote :: int
  fl_delay_between_retries :: int
  fl_conn_ping_timeout :: int
  fl_cache_entry_timeout :: int
  fl_cache_max_connections :: int
  fl_in_the_pipe :: nat
  fl_ignore_communication_errors :: nat
  fl_communication_error_retry :: nat
  fl_communication_error_retry_timeout :: nat

record db_env =
  de_libc :: libc
  de_tlv :: std_tlv_api
  de_hash :: "u64 \<Rightarrow> u64"
  de_flags :: db_flags

record 'x db_state =
  ds_dict :: cps_dict
  ds_pool :: "bytes \<rightharpoonup> db_connection list"
  ds_net :: 'x

text \<open>A signed flag read as \<open>size_t\<close>.\<close>

definition flag_size :: "int \<Rightarrow> nat" where
  "flag_size i = nat (i mod 2 ^ 64)"

definition cps_api_ret_code_COMMUNICATION_ERROR :: cps_api_return_code_t where
  "cps_api_ret_code_COMMUNICATION_ERROR = 6"
definition cps_api_ret_code_NO_EXIST :: cps_api_return_code_t where
  "cps_api_ret_code_NO_EXIST = 7"
definition cps_api_ret_code_CORRUPT :: cps_api_return_code_t where
  "cps_api_ret_code_CORRUPT = 8"
definition cps_api_ret_code_PARAM_INVALID :: cps_api_return_code_t where
  "cps_api_ret_code_PARAM_INVALID = 9"
definition cps_api_ret_code_RESPONSE_TYPE_INVALID :: cps_api_return_code_t where
  "cps_api_ret_code_RESPONSE_TYPE_INVALID = 10"

lemmas db_ret_codes = cps_api_ret_code_COMMUNICATION_ERROR_def cps_api_ret_code_NO_EXIST_def
  cps_api_ret_code_CORRUPT_def cps_api_ret_code_PARAM_INVALID_def
  cps_api_ret_code_RESPONSE_TYPE_INVALID_def

section \<open>Strings\<close>

definition c_str :: "bytes \<Rightarrow> bytes" where
  "c_str s = takeWhile (\<lambda>c. c \<noteq> 0) s"

definition find_all :: "bytes \<Rightarrow> bytes \<Rightarrow> nat list" where
  "find_all pat s = [i \<leftarrow> [0..<length s]. take (length pat) (drop i s) = pat]"

definition rfind :: "bytes \<Rightarrow> bytes \<Rightarrow> nat option" where
  "rfind pat s = (case find_all pat s of [] \<Rightarrow> None | i # is \<Rightarrow> Some (last (i # is)))"

definition strstr :: "bytes \<Rightarrow> bytes \<Rightarrow> bool" where
  "strstr s pat \<longleftrightarrow> find_all pat (c_str s) \<noteq> []"

text \<open>\<open>atoi\<close>: white space, a sign, digits; a value outside \<open>int\<close> is undefined.\<close>

fun atoi_digits :: "int \<Rightarrow> bytes \<Rightarrow> int" where
  "atoi_digits acc [] = acc"
| "atoi_digits acc (c # cs) =
     (if 48 \<le> c \<and> c \<le> 57 then atoi_digits (acc * 10 + (uint c - 48)) cs else acc)"

fun atoi :: "bytes \<Rightarrow> int option" where
  "atoi [] = Some 0"
| "atoi (c # cs) =
     (if c = 32 \<or> (9 \<le> c \<and> c \<le> 13) then atoi cs
      else let v = (if c = 45 then - atoi_digits 0 cs
                    else if c = 43 then atoi_digits 0 cs
                    else atoi_digits 0 (c # cs)) in
           if - (2 ^ 31) \<le> v \<and> v < 2 ^ 31 then Some v else None)"

section \<open>Replies\<close>

definition response_elements :: "redisReply \<Rightarrow> nat" where
  "response_elements r = (case r of REDIS_REPLY_ARRAY l \<Rightarrow> length l | _ \<Rightarrow> 0)"

definition response_element_at :: "redisReply \<Rightarrow> nat \<Rightarrow> redisReply option" where
  "response_element_at r ix =
     (case r of REDIS_REPLY_ARRAY l \<Rightarrow> if ix < length l then Some (l ! ix) else None | _ \<Rightarrow> None)"

definition response_has_elements :: "redisReply \<Rightarrow> bool" where
  "response_has_elements r \<longleftrightarrow> (case r of REDIS_REPLY_ARRAY _ \<Rightarrow> True | _ \<Rightarrow> False)"

definition response_is_str :: "redisReply \<Rightarrow> bool" where
  "response_is_str r \<longleftrightarrow>
     (case r of REDIS_REPLY_STRING _ \<Rightarrow> True | REDIS_REPLY_STATUS _ \<Rightarrow> True | _ \<Rightarrow> False)"

definition response_is_status :: "redisReply \<Rightarrow> bool" where
  "response_is_status r \<longleftrightarrow> (case r of REDIS_REPLY_STATUS _ \<Rightarrow> True | _ \<Rightarrow> False)"

definition response_is_nill :: "redisReply \<Rightarrow> bool" where
  "response_is_nill r \<longleftrightarrow> r = REDIS_REPLY_NIL"

definition response_is_int :: "redisReply \<Rightarrow> bool" where
  "response_is_int r \<longleftrightarrow> (case r of REDIS_REPLY_INTEGER _ \<Rightarrow> True | _ \<Rightarrow> False)"

definition response_is_ok :: "redisReply \<Rightarrow> bool" where
  "response_is_ok r \<longleftrightarrow> (case r of REDIS_REPLY_ERROR _ \<Rightarrow> False | _ \<Rightarrow> True)"

text \<open>The 64-bit integer of the reply is returned as an \<open>int\<close>.\<close>

definition response_get_int :: "redisReply \<Rightarrow> int" where
  "response_get_int r = (case r of REDIS_REPLY_INTEGER i \<Rightarrow> to_int32 (nat (i mod 2 ^ 32)) | _ \<Rightarrow> 0)"

text \<open>The string of a reply, \<open>None\<close> for a null pointer.\<close>

definition response_get_str :: "redisReply \<Rightarrow> bytes option" where
  "response_get_str r =
     (case r of REDIS_REPLY_STRING s \<Rightarrow> Some s | REDIS_REPLY_STATUS s \<Rightarrow> Some s
      | REDIS_REPLY_ERROR s \<Rightarrow> Some s | _ \<Rightarrow> None)"

text \<open>A set of replies: ten slots, of which the first are used.\<close>

definition response_set_clear :: "redisReply list \<Rightarrow> redisReply list" where
  "response_set_clear l = []"

definition response_set_add :: "redisReply list \<Rightarrow> redisReply \<Rightarrow> bool \<times> redisReply list" where
  "response_set_add l r = (if length l < 10 then (True, l @ [r]) else (False, l))"

definition response_set_get :: "redisReply list \<Rightarrow> nat \<Rightarrow> redisReply option" where
  "response_set_get l ix = (if ix < length l then Some (l ! ix) else None)"

section \<open>Requests\<close>

datatype obj_fields_t = obj_field_STRING | obj_field_OBJ_CLASS | obj_field_OBJ_INSTANCE
  | obj_field_OBJ_KEY_AND_DATA | obj_field_OBJ_KEY_AND_ALL_FIELDS | obj_field_OBJ_DATA
  | obj_field_CLASS | obj_field_OBJ_EVENT_DATA

text \<open>The string with its length is a list of bytes.\<close>

record db_operation_atom_t =
  at_string :: bytes
  at_object :: "cps_obj option"
  at_type :: obj_fields_t

definition from_string :: "bytes \<Rightarrow> db_operation_atom_t" where
  "from_string str = \<lparr>at_string = str, at_object = None, at_type = obj_field_STRING\<rparr>"

definition for_event :: "cps_obj \<Rightarrow> db_operation_atom_t" where
  "for_event obj = \<lparr>at_string = [], at_object = Some obj, at_type = obj_field_OBJ_EVENT_DATA\<rparr>"

definition from_object :: "cps_obj \<Rightarrow> bool \<Rightarrow> bool \<Rightarrow> db_operation_atom_t" where
  "from_object obj inst dat = \<lparr>at_string = [], at_object = Some obj,
     at_type = (if \<not> inst then obj_field_OBJ_CLASS
                else if inst \<and> dat then obj_field_OBJ_KEY_AND_DATA
                else obj_field_OBJ_INSTANCE)\<rparr>"

definition MAX_EXP_CMD :: nat where "MAX_EXP_CMD = 10"

text \<open>The entries filled so far stand for the two arrays and the count of the walker.\<close>

definition enough :: "bytes list \<Rightarrow> nat \<Rightarrow> bool" where
  "enough cmds cnt \<longleftrightarrow> length cmds + cnt < MAX_EXP_CMD"

definition handle_str :: "db_operation_atom_t \<Rightarrow> bytes list \<Rightarrow> bool \<times> bytes list" where
  "handle_str cur cmds =
     (if \<not> enough cmds 1 then (False, cmds) else (True, cmds @ [at_string cur]))"

definition handle_class_key ::
  "db_env \<Rightarrow> db_operation_atom_t \<Rightarrow> bytes list \<Rightarrow> (bool \<times> bytes list) option" where
  "handle_class_key K cur cmds =
     (if \<not> enough cmds 1 then Some (False, cmds)
      else do {
        obj \<leftarrow> at_object cur;
        (ok, key) \<leftarrow> dbkey_from_class_key (de_libc K) [] (obj_key obj);
        Some (if \<not> ok then (False, cmds) else (True, cmds @ [key]))
      })"

definition handle_instance_key ::
  "db_env \<Rightarrow> db_operation_atom_t \<Rightarrow> bytes list \<Rightarrow> cps_dict \<Rightarrow> (bool \<times> bytes list \<times> cps_dict) option" where
  "handle_instance_key K cur cmds D =
     (if \<not> enough cmds 1 then Some (False, cmds, D)
      else do {
        obj \<leftarrow> at_object cur;
        (ok, key, D) \<leftarrow> dbkey_from_instance_key (de_libc K) (de_tlv K) (de_hash K) D [] obj False;
        Some (if \<not> ok then (False, cmds, D) else (True, cmds @ [key], D))
      })"

definition handle_object_data ::
  "db_operation_atom_t \<Rightarrow> bytes list \<Rightarrow> (bool \<times> bytes list) option" where
  "handle_object_data cur cmds =
     (if \<not> enough cmds 1 then Some (False, cmds)
      else do {
        obj \<leftarrow> at_object cur;
        let dl = cps_api_object_to_array_len obj;
        if length (cps_api_object_array obj) < dl then None
        else Some (True, cmds @ [take dl (cps_api_object_array obj)])
      })"

text \<open>The literal \<open>object\<close>.\<close>

definition object_field :: bytes where
  "object_field = [111, 98, 106, 101, 99, 116]"

definition handle_object ::
  "db_env \<Rightarrow> db_operation_atom_t \<Rightarrow> bytes list \<Rightarrow> cps_dict \<Rightarrow> (bool \<times> bytes list \<times> cps_dict) option" where
  "handle_object K cur cmds D = do {
     (ok, cmds, D) \<leftarrow> handle_instance_key K cur cmds D;
     if \<not> ok then Some (False, cmds, D)
     else if \<not> enough cmds 1 then Some (False, cmds, D)
     else do {
       (ok, cmds) \<leftarrow> handle_object_data cur (cmds @ [object_field]);
       Some (ok, cmds, D)
     }
   }"

definition handle_event_fields ::
  "db_env \<Rightarrow> db_operation_atom_t \<Rightarrow> bytes list \<Rightarrow> cps_dict \<Rightarrow> (bool \<times> bytes list \<times> cps_dict) option" where
  "handle_event_fields K cur cmds D = do {
     (ok, cmds, D) \<leftarrow> handle_instance_key K cur cmds D;
     if \<not> ok then Some (False, cmds, D)
     else do {
       (ok, cmds) \<leftarrow> handle_object_data cur cmds;
       Some (ok, cmds, D)
     }
   }"

text \<open>The table of handlers; \<open>at\<close> throws for the two kinds it lacks, and nothing catches it.\<close>

definition request_walker_handle ::
  "db_env \<Rightarrow> db_operation_atom_t \<Rightarrow> bytes list \<Rightarrow> cps_dict \<Rightarrow> (bool \<times> bytes list \<times> cps_dict) option" where
  "request_walker_handle K cur cmds D =
     (case at_type cur of
        obj_field_STRING \<Rightarrow> (let (ok, cmds) = handle_str cur cmds in Some (ok, cmds, D))
      | obj_field_OBJ_CLASS \<Rightarrow> do { (ok, cmds) \<leftarrow> handle_class_key K cur cmds; Some (ok, cmds, D) }
      | obj_field_OBJ_INSTANCE \<Rightarrow> handle_instance_key K cur cmds D
      | obj_field_OBJ_KEY_AND_DATA \<Rightarrow> handle_object K cur cmds D
      | obj_field_OBJ_DATA \<Rightarrow> do { (ok, cmds) \<leftarrow> handle_object_data cur cmds; Some (ok, cmds, D) }
      | obj_field_OBJ_EVENT_DATA \<Rightarrow> handle_event_fields K cur cmds D
      | _ \<Rightarrow> None)"

fun request_walker_set ::
  "db_env \<Rightarrow> db_operation_atom_t list \<Rightarrow> bytes list \<Rightarrow> cps_dict \<Rightarrow> (bool \<times> bytes list \<times> cps_dict) option" where
  "request_walker_set K [] cmds D = Some (True, cmds, D)"
| "request_walker_set K (cur # rest) cmds D = do {
     (ok, cmds, D) \<leftarrow> request_walker_handle K cur cmds D;
     if \<not> ok then Some (False, [], D) else request_walker_set K rest cmds D
   }"

text \<open>The constructor of the walker: the command and its arguments, none when a part was refused.\<close>

definition request_walker ::
  "db_env \<Rightarrow> db_operation_atom_t list \<Rightarrow> cps_dict \<Rightarrow> (bytes list \<times> cps_dict) option" where
  "request_walker K lst D = do {
     (_, cmds, D) \<leftarrow> request_walker_set K lst [] D;
     Some (cmds, D)
   }"

section \<open>Connecting\<close>

text \<open>\<open>DEFAULT_REDIS_ADDR\<close> is \<open>127.0.0.1:6379\<close>.\<close>

definition DEFAULT_REDIS_ADDR :: bytes where
  "DEFAULT_REDIS_ADDR = [49, 50, 55, 46, 48, 46, 48, 46, 49, 58, 54, 51, 55, 57]"

definition cps_api_db_is_local_node :: "bytes \<Rightarrow> bool" where
  "cps_api_db_is_local_node node \<longleftrightarrow> c_str node = DEFAULT_REDIS_ADDR"

definition connection_disconnect ::
  "'x redis_api \<Rightarrow> db_connection \<Rightarrow> 'x \<Rightarrow> db_connection \<times> 'x" where
  "connection_disconnect A conn x =
     (conn\<lparr>cn_ctx := None, cn_event_connection := False, cn_pending_events := []\<rparr>,
      case cn_ctx conn of None \<Rightarrow> x | Some c \<Rightarrow> rd_free A c x)"

text \<open>The address and the port of \<open>connect\<close>; the second argument of \<open>substr\<close> is a length.\<close>

definition parse_addr :: "bytes \<Rightarrow> (bytes \<times> int option) option" where
  "parse_addr s =
     (case rfind [58] s of
        None \<Rightarrow> None
      | Some port_pos \<Rightarrow>
          (let port = atoi (drop (port_pos + 1) s) in
           if s ! 0 = 91 then
             (case rfind [93, 58] s of
                None \<Rightarrow> None
              | Some end_ip \<Rightarrow> Some (take end_ip (drop 1 s), port))
           else Some (take port_pos s, port)))"

text \<open>Division of C++ truncates.\<close>

definition c_div :: "int \<Rightarrow> int \<Rightarrow> int" where
  "c_div a b = sgn a * sgn b * (\<bar>a\<bar> div \<bar>b\<bar>)"

text \<open>\<open>connect\<close> up to the check of the context.\<close>

definition connect_open ::
  "db_env \<Rightarrow> 'x redis_api \<Rightarrow> bytes \<Rightarrow> db_connection \<Rightarrow> 'x \<Rightarrow> (bool \<times> db_connection \<times> 'x) option" where
  "connect_open K A addr conn x = do {
     let conn = conn\<lparr>cn_last_used := 0\<rparr>;
     (case parse_addr addr of
        None \<Rightarrow> Some (False, conn, x)
      | Some (ip, port) \<Rightarrow> do {
          port \<leftarrow> port;
          let conn = conn\<lparr>cn_addr := addr\<rparr>;
          (case rd_connect A (c_str ip) port (c_div (fl_timeout_remote (de_flags K)) 1000) x of
             (None, x) \<Rightarrow> Some (False, conn\<lparr>cn_ctx := None\<rparr>, x)
           | (Some (c, connected), x) \<Rightarrow>
               Some (if connected then (True, conn\<lparr>cn_ctx := Some c\<rparr>, x)
                     else (False, conn\<lparr>cn_ctx := None\<rparr>, rd_free A c x)))
        })
   }"

text \<open>The rest of \<open>connect\<close>: the poll structures get the descriptor.\<close>

definition connect_poll ::
  "'x redis_api \<Rightarrow> db_connection \<Rightarrow> 'x \<Rightarrow> bool \<times> db_connection" where
  "connect_poll A conn x =
     (case cn_ctx conn of
        None \<Rightarrow> (False, conn)
      | Some c \<Rightarrow> (True, if 0 \<le> rd_fd A c x then conn\<lparr>cn_fd := Some (rd_fd A c x)\<rparr> else conn))"

text \<open>\<open>connect\<close> without a database to select, as all calls but those of applications use it.\<close>

definition connect_addr ::
  "db_env \<Rightarrow> 'x redis_api \<Rightarrow> bytes \<Rightarrow> db_connection \<Rightarrow> 'x \<Rightarrow> (bool \<times> db_connection \<times> 'x) option" where
  "connect_addr K A addr conn x = do {
     (ok, conn, x) \<leftarrow> connect_open K A addr conn x;
     if \<not> ok then Some (False, conn, x)
     else do {
       let (ok, conn) = connect_poll A conn x;
       Some (ok, conn, x)
     }
   }"

definition connection_reconnect ::
  "db_env \<Rightarrow> 'x redis_api \<Rightarrow> db_connection \<Rightarrow> 'x \<Rightarrow> (bool \<times> db_connection \<times> 'x) option" where
  "connection_reconnect K A conn x =
     (if cn_addr conn = [] then Some (False, conn, x)
      else do {
        let (conn, x) = connection_disconnect A conn x;
        connect_addr K A (cn_addr conn) conn x
      })"

definition connection_get_fd :: "'x redis_api \<Rightarrow> db_connection \<Rightarrow> 'x \<Rightarrow> int" where
  "connection_get_fd A conn x = (case cn_ctx conn of None \<Rightarrow> -1 | Some c \<Rightarrow> rd_fd A c x)"

definition connection_clone ::
  "db_env \<Rightarrow> 'x redis_api \<Rightarrow> db_connection \<Rightarrow> db_connection \<Rightarrow> 'x \<Rightarrow> (bool \<times> db_connection \<times> 'x) option" where
  "connection_clone K A self conn x = do {
     let (conn, x) = connection_disconnect A conn x;
     connect_addr K A (cn_addr self) conn x
   }"

section \<open>Waiting\<close>

text \<open>
  \<open>writable\<close> and \<open>readable\<close> with the return code they set; polling a structure that was never
  initialised is undefined.
\<close>

definition connection_wait ::
  "'x redis_api \<Rightarrow> bool \<Rightarrow> db_connection \<Rightarrow> nat \<Rightarrow> 'x \<Rightarrow> (bool \<times> cps_api_return_code_t \<times> 'x) option" where
  "connection_wait A out conn timeoutms x = do {
     fd \<leftarrow> cn_fd conn;
     let (prc, revent, x) = rd_poll A fd out (to_int32 timeoutms) x;
     let ready = (prc = 1 \<and> revent);
     let rc = (if prc = -1 then cps_api_ret_code_COMMUNICATION_ERROR
               else if prc = 0 then cps_api_ret_code_TIMEOUT else cps_api_ret_code_ERR);
     Some (ready, if ready then cps_api_ret_code_OK else rc, x)
   }"

definition connection_writable ::
  "'x redis_api \<Rightarrow> db_connection \<Rightarrow> nat \<Rightarrow> 'x \<Rightarrow> (bool \<times> cps_api_return_code_t \<times> 'x) option" where
  "connection_writable A conn timeoutms x = connection_wait A True conn timeoutms x"

definition connection_readable ::
  "'x redis_api \<Rightarrow> db_connection \<Rightarrow> nat \<Rightarrow> 'x \<Rightarrow> (bool \<times> cps_api_return_code_t \<times> 'x) option" where
  "connection_readable A conn timeoutms x = connection_wait A False conn timeoutms x"

definition update_used :: "'x redis_api \<Rightarrow> db_connection \<Rightarrow> 'x \<Rightarrow> db_connection \<times> 'x" where
  "update_used A conn x = (let (now, x) = rd_uptime A x in (conn\<lparr>cn_last_used := now\<rparr>, x))"

definition used_within :: "'x redis_api \<Rightarrow> db_connection \<Rightarrow> u64 \<Rightarrow> 'x \<Rightarrow> bool \<times> 'x" where
  "used_within A conn relative x = rd_expired A (cn_last_used conn) relative x"

definition connection_valid ::
  "'x redis_api \<Rightarrow> db_connection \<Rightarrow> 'x \<Rightarrow> (bool \<times> db_connection \<times> 'x) option" where
  "connection_valid A conn x =
     (if cn_ctx conn = None then Some (False, conn, x)
      else do {
        (ok, _, x) \<leftarrow> connection_writable A conn 0 x;
        if ok then do { let (conn, x) = update_used A conn x; Some (True, conn, x) }
        else Some (False, conn, x)
      })"

section \<open>Sending requests\<close>

definition SELECT_MS_WAIT :: nat where "SELECT_MS_WAIT = 2000"

text \<open>One round of the loop of \<open>flush\<close>: whether to go on, else the result.\<close>

definition flush_timeout :: "db_env \<Rightarrow> db_connection \<Rightarrow> nat \<Rightarrow> nat" where
  "flush_timeout K conn timeoutms =
     (if timeoutms = SELECT_MS_WAIT then
        flag_size (if cps_api_db_is_local_node (cn_addr conn) then fl_timeout_local (de_flags K)
                   else fl_timeout_remote (de_flags K))
      else timeoutms)"

definition flush_step ::
  "db_env \<Rightarrow> 'x redis_api \<Rightarrow> nat \<Rightarrow> db_connection \<Rightarrow> 'x \<Rightarrow>
     (bool option \<times> cps_api_return_code_t \<times> db_connection \<times> 'x) option" where
  "flush_step K A timeoutms conn x = do {
     (ok, rc, x) \<leftarrow> connection_writable A conn timeoutms x;
     if \<not> ok then do {
       (_, conn, x) \<leftarrow> connection_reconnect K A conn x;
       Some (Some False, rc, conn, x)
     }
     else (case cn_ctx conn of
        None \<Rightarrow> Some (Some False, rc, conn, x)
      | Some c \<Rightarrow>
          (case rd_write A c x of
             (None, x) \<Rightarrow> do {
               (_, conn, x) \<leftarrow> connection_reconnect K A conn x;
               Some (Some False, rc, conn, x)
             }
           | (Some is_done, x) \<Rightarrow> do {
               let (conn, x) = update_used A conn x;
               Some (if is_done then Some True else None, cps_api_ret_code_OK, conn, x)
             }))
   }"

partial_function (option) flush_loop ::
  "db_env \<Rightarrow> 'x redis_api \<Rightarrow> nat \<Rightarrow> db_connection \<Rightarrow> 'x \<Rightarrow>
     (bool \<times> cps_api_return_code_t \<times> db_connection \<times> 'x) option" where
  "flush_loop K A timeoutms conn x = do {
     (res, rc, conn, x) \<leftarrow> flush_step K A (flush_timeout K conn timeoutms) conn x;
     (case res of
        None \<Rightarrow> flush_loop K A (flush_timeout K conn timeoutms) conn x
      | Some ok \<Rightarrow> Some (ok, rc, conn, x))
   }"

text \<open>The timer object of \<open>flush\<close> reads the clock at both ends.\<close>

definition connection_flush ::
  "db_env \<Rightarrow> 'x redis_api \<Rightarrow> nat \<Rightarrow> db_connection \<Rightarrow> 'x \<Rightarrow>
     (bool \<times> cps_api_return_code_t \<times> db_connection \<times> 'x) option" where
  "connection_flush K A timeoutms conn x = do {
     let (_, x) = rd_uptime A x;
     (ok, rc, conn, x) \<leftarrow> flush_loop K A timeoutms conn x;
     let (_, x) = rd_uptime A x;
     Some (ok, rc, conn, x)
   }"

text \<open>The loop of \<open>operation\<close>, with the number of retries left.\<close>

fun append_loop ::
  "db_env \<Rightarrow> 'x redis_api \<Rightarrow> bytes list \<Rightarrow> nat \<Rightarrow> db_connection \<Rightarrow> 'x \<Rightarrow>
     (bool \<times> db_connection \<times> 'x) option" where
  "append_loop K A cmds retry conn x = do {
     c \<leftarrow> cn_ctx conn;
     let (ok, x) = rd_append A c cmds x;
     if ok then Some (True, conn, x)
     else do {
       (ok, conn, x) \<leftarrow> connection_reconnect K A conn x;
       if \<not> ok then Some (False, conn, x)
       else (case retry of 0 \<Rightarrow> Some (False, conn, x) | Suc n \<Rightarrow> append_loop K A cmds n conn x)
     }
   }"

declare append_loop.simps [simp del]

text \<open>A caller that passes no return code ignores it.\<close>

definition connection_operation ::
  "db_env \<Rightarrow> 'x redis_api \<Rightarrow> db_operation_atom_t list \<Rightarrow> bool \<Rightarrow> nat \<Rightarrow> db_connection \<Rightarrow> 'x db_state \<Rightarrow>
     (bool \<times> cps_api_return_code_t \<times> db_connection \<times> 'x db_state) option" where
  "connection_operation K A lst force_push timeoutms conn s = do {
     (cmds, D) \<leftarrow> request_walker K lst (ds_dict s);
     let s = s\<lparr>ds_dict := D\<rparr>;
     if cmds = [] then Some (False, cps_api_ret_code_COMMUNICATION_ERROR, conn, s)
     else if cn_ctx conn = None then Some (False, cps_api_ret_code_COMMUNICATION_ERROR, conn, s)
     else do {
       (success, conn, x) \<leftarrow>
         append_loop K A cmds (nat (fl_operation_retry (de_flags K))) conn (ds_net s);
       if \<not> success then
         Some (False, cps_api_ret_code_COMMUNICATION_ERROR, conn, s\<lparr>ds_net := x\<rparr>)
       else if \<not> force_push then Some (True, cps_api_ret_code_OK, conn, s\<lparr>ds_net := x\<rparr>)
       else do {
         (ok, rc, conn, x) \<leftarrow> connection_flush K A timeoutms conn x;
         Some (ok, rc, conn, s\<lparr>ds_net := x\<rparr>)
       }
     }
   }"

section \<open>Reading replies and events\<close>

text \<open>The literal \<open>message\<close>.\<close>

definition message_literal :: bytes where
  "message_literal = [109, 101, 115, 115, 97, 103, 101]"

definition is_event_message :: "redisReply \<Rightarrow> bool" where
  "is_event_message r \<longleftrightarrow>
     response_elements r \<ge> 3 \<and>
     (case response_element_at r 0 of
        None \<Rightarrow> False
      | Some hdr \<Rightarrow> response_is_str hdr \<and>
          (case response_get_str hdr of None \<Rightarrow> False | Some str \<Rightarrow> strstr str message_literal))"

text \<open>
  One round of the loop of \<open>response\<close>: a reply for the caller, an event for the list, an error, or
  nothing yet. \<open>response_wait\<close> is the branch without a complete reply.
\<close>

definition response_wait ::
  "db_env \<Rightarrow> 'x redis_api \<Rightarrow> nat \<Rightarrow> bool \<Rightarrow> db_connection \<Rightarrow> 'x \<Rightarrow>
     (bool \<times> nat \<times> db_connection \<times> 'x) option" where
  "response_wait K A timeoutms force_timeout_check conn x = do {
     let check = (force_timeout_check \<or> \<not> cps_api_db_is_local_node (cn_addr conn));
     let timeoutms = (if check \<and> timeoutms = SELECT_MS_WAIT then flag_size (fl_timeout_remote (de_flags K))
                      else timeoutms);
     (ok, x) \<leftarrow> (if check then do { (ok, _, x) \<leftarrow> connection_readable A conn timeoutms x; Some (ok, x) }
                else Some (True, x));
     if \<not> ok then Some (False, timeoutms, conn, x)
     else do {
       c \<leftarrow> cn_ctx conn;
       let (ok, x) = rd_read A c x;
       if \<not> ok then Some (False, timeoutms, conn, x)
       else do {
         let (conn, x) = update_used A conn x;
         Some (True, timeoutms, conn, x)
       }
     }
   }"

partial_function (option) response_loop ::
  "db_env \<Rightarrow> 'x redis_api \<Rightarrow> nat \<Rightarrow> bool \<Rightarrow> redisReply list \<Rightarrow> db_connection \<Rightarrow> 'x \<Rightarrow>
     (bool \<times> redisReply list \<times> db_connection \<times> 'x) option" where
  "response_loop K A timeoutms force_timeout_check dat conn x = do {
     c \<leftarrow> cn_ctx conn;
     (case rd_get_reply A c x of
        (None, x) \<Rightarrow> Some (False, dat, conn, x)
      | (Some None, x) \<Rightarrow> do {
          (ok, timeoutms, conn, x) \<leftarrow> response_wait K A timeoutms force_timeout_check conn x;
          if \<not> ok then Some (False, dat, conn, x)
          else response_loop K A timeoutms force_timeout_check dat conn x
        }
      | (Some (Some reply), x) \<Rightarrow>
          if cn_event_connection conn \<and> is_event_message reply then
            response_loop K A timeoutms force_timeout_check dat
              (conn\<lparr>cn_pending_events := cn_pending_events conn @ [reply]\<rparr>) x
          else Some (True, snd (response_set_add dat reply), conn, x))
   }"

definition connection_response ::
  "db_env \<Rightarrow> 'x redis_api \<Rightarrow> redisReply list \<Rightarrow> nat \<Rightarrow> bool \<Rightarrow> db_connection \<Rightarrow> 'x \<Rightarrow>
     (bool \<times> cps_api_return_code_t \<times> redisReply list \<times> db_connection \<times> 'x) option" where
  "connection_response K A dat timeoutms force_timeout_check conn x =
     (if cn_ctx conn = None then Some (False, cps_api_ret_code_COMMUNICATION_ERROR, dat, conn, x)
      else do {
        (ok, _, conn, x) \<leftarrow> connection_flush K A timeoutms conn x;
        let dat = response_set_clear dat;
        (ok, dat, conn, x) \<leftarrow> (if ok then response_loop K A timeoutms force_timeout_check dat conn x
                              else Some (False, dat, conn, x));
        if ok then Some (True, cps_api_ret_code_OK, dat, conn, x)
        else do {
          (_, conn, x) \<leftarrow> connection_reconnect K A conn x;
          Some (False, cps_api_ret_code_OK, dat, conn, x)
        }
      })"

definition connection_command ::
  "db_env \<Rightarrow> 'x redis_api \<Rightarrow> db_operation_atom_t list \<Rightarrow> nat \<Rightarrow> db_connection \<Rightarrow> 'x db_state \<Rightarrow>
     (bool \<times> cps_api_return_code_t \<times> redisReply list \<times> db_connection \<times> 'x db_state) option" where
  "connection_command K A lst timeoutms conn s = do {
     (ok, rc, conn, s) \<leftarrow> connection_operation K A lst True timeoutms conn s;
     if \<not> ok then Some (False, rc, [], conn, s)
     else do {
       (ok, rc, dat, conn, x) \<leftarrow> connection_response K A [] timeoutms False conn (ds_net s);
       Some (ok, rc, dat, conn, s\<lparr>ds_net := x\<rparr>)
     }
   }"

text \<open>The loop of \<open>has_event\<close> over the replies already read; the result is the error flag.\<close>

partial_function (option) has_event_loop ::
  "'x redis_api \<Rightarrow> nat \<Rightarrow> db_connection \<Rightarrow> 'x \<Rightarrow> (bool \<times> db_connection \<times> 'x) option" where
  "has_event_loop A c conn x =
     (case rd_reader_reply A c x of
        (None, x) \<Rightarrow> Some (True, conn, x)
      | (Some None, x) \<Rightarrow> Some (False, conn, x)
      | (Some (Some rep), x) \<Rightarrow>
          has_event_loop A c
            (if is_event_message rep then conn\<lparr>cn_pending_events := cn_pending_events conn @ [rep]\<rparr>
             else conn) x)"

definition has_event ::
  "'x redis_api \<Rightarrow> bool \<Rightarrow> db_connection \<Rightarrow> 'x \<Rightarrow>
     (bool \<times> bool \<times> cps_api_return_code_t \<times> db_connection \<times> 'x) option" where
  "has_event A err conn x =
     (case cn_ctx conn of
        None \<Rightarrow> Some (False, err, cps_api_ret_code_COMMUNICATION_ERROR, conn, x)
      | Some c \<Rightarrow> do {
          (err, conn, x) \<leftarrow> has_event_loop A c conn x;
          Some (cn_pending_events conn \<noteq> [], err,
            if err then cps_api_ret_code_COMMUNICATION_ERROR else cps_api_ret_code_OK, conn, x)
        })"

text \<open>The end of \<open>get_event\<close>: the oldest pending event, if there is one.\<close>

definition take_event ::
  "redisReply list \<Rightarrow> db_connection \<Rightarrow> (redisReply list \<times> db_connection) option" where
  "take_event dat conn =
     (case cn_pending_events conn of
        [] \<Rightarrow> None
      | e # es \<Rightarrow> Some (snd (response_set_add dat e), conn\<lparr>cn_pending_events := es\<rparr>))"

text \<open>
  \<open>get_event\<close>: the flag, the error flag, the return code and the replies. When the wait for input
  fails or no event is complete, the return code is \<open>OK\<close> unless an error was seen.
\<close>

definition get_event ::
  "db_env \<Rightarrow> 'x redis_api \<Rightarrow> redisReply list \<Rightarrow> bool \<Rightarrow> db_connection \<Rightarrow> 'x \<Rightarrow>
     (bool \<times> bool \<times> cps_api_return_code_t \<times> redisReply list \<times> db_connection \<times> 'x) option" where
  "get_event K A dat err conn x =
     (case cn_ctx conn of
        None \<Rightarrow> Some (False, err, cps_api_ret_code_COMMUNICATION_ERROR, dat, conn, x)
      | Some c \<Rightarrow> (let dat = response_set_clear dat in
          case take_event dat conn of
            Some (dat, conn) \<Rightarrow> Some (True, False, cps_api_ret_code_OK, dat, conn, x)
          | None \<Rightarrow> do {
              let timeoutms = flag_size (if cps_api_db_is_local_node (cn_addr conn)
                    then fl_timeout_local (de_flags K) else fl_timeout_remote (de_flags K));
              (ok, rc, x) \<leftarrow> connection_readable A conn timeoutms x;
              if \<not> ok then Some (False, False, cps_api_ret_code_OK, dat, conn, x)
              else do {
                let (ok, x) = rd_read A c x;
                if \<not> ok then Some (False, True, rc, dat, conn, x)
                else do {
                  let (conn, x) = update_used A conn x;
                  (more, err, rc, conn, x) \<leftarrow> has_event A False conn x;
                  (case take_event dat conn of
                     Some (dat, conn) \<Rightarrow> Some (True, err, cps_api_ret_code_OK, dat, conn, x)
                   | None \<Rightarrow> Some (False, err, if err then rc else cps_api_ret_code_OK, dat, conn, x))
                }
              }
            }))"

section \<open>Tests of a connection\<close>

definition tolower :: "u8 \<Rightarrow> u8" where
  "tolower c = (if 65 \<le> c \<and> c \<le> 90 then c + 32 else c)"

definition strcasecmp_eq :: "bytes \<Rightarrow> bytes \<Rightarrow> bool" where
  "strcasecmp_eq a b \<longleftrightarrow> map tolower (c_str a) = map tolower (c_str b)"

text \<open>The literals \<open>PING\<close>, \<open>PONG\<close>, \<open>SELECT\<close> and \<open>OK\<close>.\<close>

definition ping_literal :: bytes where "ping_literal = [80, 73, 78, 71]"
definition pong_literal :: bytes where "pong_literal = [80, 79, 78, 71]"
definition select_literal :: bytes where "select_literal = [83, 69, 76, 69, 67, 84]"
definition ok_literal :: bytes where "ok_literal = [79, 75]"

definition ping ::
  "db_env \<Rightarrow> 'x redis_api \<Rightarrow> nat \<Rightarrow> db_connection \<Rightarrow> 'x db_state \<Rightarrow>
     (bool \<times> db_connection \<times> 'x db_state) option" where
  "ping K A timeoutms conn s = do {
     (ok, _, resp, conn, s) \<leftarrow> connection_command K A [from_string ping_literal] timeoutms conn s;
     if \<not> ok then Some (False, conn, s)
     else do {
       r \<leftarrow> response_set_get resp 0;
       ret \<leftarrow> (if response_has_elements r then do {
                 e \<leftarrow> response_element_at r 0;
                 Some (response_get_str e)
               }
               else Some (if response_is_ok r then response_get_str r else None));
       Some (case ret of None \<Rightarrow> False | Some str \<Rightarrow> strcasecmp_eq str pong_literal, conn, s)
     }
   }"

text \<open>Whether a reply is the status \<open>OK\<close>.\<close>

definition is_status_ok :: "redisReply \<Rightarrow> bool" where
  "is_status_ok r \<longleftrightarrow> response_is_status r \<and>
     (case response_get_str r of None \<Rightarrow> False | Some str \<Rightarrow> c_str str = ok_literal)"

definition select_db ::
  "db_env \<Rightarrow> 'x redis_api \<Rightarrow> bytes \<Rightarrow> db_connection \<Rightarrow> 'x db_state \<Rightarrow>
     (bool \<times> db_connection \<times> 'x db_state) option" where
  "select_db K A db_id conn s = do {
     (ok, _, resp, conn, s) \<leftarrow>
       connection_command K A [from_string select_literal, from_string (c_str db_id)] SELECT_MS_WAIT conn s;
     if \<not> ok then Some (False, conn, s)
     else do {
       r \<leftarrow> response_set_get resp 0;
       Some (is_status_ok r, conn, s)
     }
   }"

definition connection_connect ::
  "db_env \<Rightarrow> 'x redis_api \<Rightarrow> bytes \<Rightarrow> bytes \<Rightarrow> db_connection \<Rightarrow> 'x db_state \<Rightarrow>
     (bool \<times> db_connection \<times> 'x db_state) option" where
  "connection_connect K A addr db_instance conn s = do {
     (ok, conn, x) \<leftarrow> connect_open K A addr conn (ds_net s);
     let s = s\<lparr>ds_net := x\<rparr>;
     if \<not> ok then Some (False, conn, s)
     else do {
       (conn, s) \<leftarrow> (if db_instance \<noteq> [] then do {
                       (_, conn, s) \<leftarrow> select_db K A db_instance conn s;
                       Some (conn, s)
                     }
                     else Some (conn, s));
       let (ok, conn) = connect_poll A conn (ds_net s);
       Some (ok, conn, s)
     }
   }"

definition cps_api_db_validate_connection ::
  "db_env \<Rightarrow> 'x redis_api \<Rightarrow> db_connection \<Rightarrow> 'x db_state \<Rightarrow> (bool \<times> db_connection \<times> 'x db_state) option" where
  "cps_api_db_validate_connection K A conn s =
     (if cps_api_db_is_local_node (cn_addr conn) then do {
        (ok, conn, x) \<leftarrow> connection_valid A conn (ds_net s);
        Some (ok, conn, s\<lparr>ds_net := x\<rparr>)
      }
      else ping K A (flag_size (fl_conn_ping_timeout (de_flags K))) conn s)"

section \<open>The pool of connections\<close>

text \<open>Deleting a connection disconnects it.\<close>

definition connection_delete :: "'x redis_api \<Rightarrow> db_connection \<Rightarrow> 'x db_state \<Rightarrow> 'x db_state" where
  "connection_delete A conn s = s\<lparr>ds_net := snd (connection_disconnect A conn (ds_net s))\<rparr>"

fun create_validated_loop ::
  "db_env \<Rightarrow> 'x redis_api \<Rightarrow> bytes \<Rightarrow> nat \<Rightarrow> 'x db_state \<Rightarrow> (db_connection option \<times> 'x db_state) option" where
  "create_validated_loop K A node 0 s = Some (None, s)"
| "create_validated_loop K A node (Suc n) s = do {
     (ok, c, s) \<leftarrow> connection_connect K A node [] new_connection s;
     (ok, c, s) \<leftarrow> (if ok then cps_api_db_validate_connection K A c s else Some (False, c, s));
     if ok then Some (Some c, s)
     else do {
       let s = (if 0 < n then s\<lparr>ds_net := rd_usleep A (flag_size (fl_delay_between_retries (de_flags K)))
                                             (ds_net s)\<rparr> else s);
       create_validated_loop K A node n (connection_delete A c s)
     }
   }"

definition cps_api_db_create_validated_connection ::
  "db_env \<Rightarrow> 'x redis_api \<Rightarrow> bytes \<Rightarrow> 'x db_state \<Rightarrow> (db_connection option \<times> 'x db_state) option" where
  "cps_api_db_create_validated_connection K A node s =
     create_validated_loop K A node
       (flag_size (if cps_api_db_is_local_node node then fl_connection_retry_local (de_flags K)
                   else fl_connection_retry_remote (de_flags K))) s"

text \<open>
  \<open>connection_cache::get\<close> takes connections from the back of the vector until one is alive; the
  vector is given in reverse, and the result is the connection and the vector left, again in reverse.
\<close>

fun pool_get_loop ::
  "db_env \<Rightarrow> 'x redis_api \<Rightarrow> bool \<Rightarrow> db_connection list \<Rightarrow> 'x db_state \<Rightarrow>
     (db_connection option \<times> db_connection list \<times> 'x db_state) option" where
  "pool_get_loop K A check_alive [] s = Some (None, [], s)"
| "pool_get_loop K A check_alive (conn # rest) s = do {
     let (old, x) = (if check_alive
           then used_within A conn (word_of_int (fl_cache_entry_timeout (de_flags K))) (ds_net s)
           else (False, ds_net s));
     let s = s\<lparr>ds_net := x\<rparr>;
     (ok, conn, s) \<leftarrow> (if old then cps_api_db_validate_connection K A conn s else Some (True, conn, s));
     if ok then Some (Some conn, rest, s)
     else pool_get_loop K A check_alive rest (connection_delete A conn s)
   }"

definition connection_cache_get ::
  "db_env \<Rightarrow> 'x redis_api \<Rightarrow> bytes \<Rightarrow> bool \<Rightarrow> 'x db_state \<Rightarrow> (db_connection option \<times> 'x db_state) option" where
  "connection_cache_get K A name check_alive s =
     (case ds_pool s name of
        None \<Rightarrow> cps_api_db_create_validated_connection K A (c_str name) s
      | Some conns \<Rightarrow> do {
          (found, rest, s) \<leftarrow> pool_get_loop K A check_alive (rev conns) s;
          let s = s\<lparr>ds_pool := (ds_pool s)(name \<mapsto> rev rest)\<rparr>;
          (case found of
             Some conn \<Rightarrow> Some (Some conn, s)
           | None \<Rightarrow> cps_api_db_create_validated_connection K A (c_str name) s)
        })"

definition connection_cache_put ::
  "db_env \<Rightarrow> 'x redis_api \<Rightarrow> bytes \<Rightarrow> db_connection \<Rightarrow> 'x db_state \<Rightarrow> 'x db_state option" where
  "connection_cache_put K A name conn s = do {
     (ok, conn, x) \<leftarrow> connection_valid A conn (ds_net s);
     let s = s\<lparr>ds_net := x\<rparr>;
     if \<not> ok then Some (connection_delete A conn s)
     else do {
       let conns = (case ds_pool s name of None \<Rightarrow> [] | Some l \<Rightarrow> l);
       if length conns < flag_size (fl_cache_max_connections (de_flags K))
       then Some (s\<lparr>ds_pool := (ds_pool s)(name \<mapsto> conns @ [conn])\<rparr>)
       else Some (connection_delete A conn (s\<lparr>ds_pool := (ds_pool s)(name \<mapsto> conns)\<rparr>))
     }
   }"

text \<open>Erasing an entry of the pool deletes its connections, in the order of the vector.\<close>

definition connection_cache_remove :: "'x redis_api \<Rightarrow> bytes \<Rightarrow> 'x db_state \<Rightarrow> 'x db_state" where
  "connection_cache_remove A name s =
     (case ds_pool s name of
        None \<Rightarrow> s
      | Some l \<Rightarrow> foldl (\<lambda>s c. connection_delete A c s) (s\<lparr>ds_pool := (ds_pool s)(name := None)\<rparr>) l)"

text \<open>The guard \<open>connection_request\<close>: taken at construction, given back by the destructor.\<close>

definition connection_request ::
  "db_env \<Rightarrow> 'x redis_api \<Rightarrow> bytes \<Rightarrow> 'x db_state \<Rightarrow> (db_connection option \<times> 'x db_state) option" where
  "connection_request K A addr s = connection_cache_get K A (c_str addr) True s"

definition connection_release ::
  "db_env \<Rightarrow> 'x redis_api \<Rightarrow> bytes \<Rightarrow> db_connection option \<Rightarrow> 'x db_state \<Rightarrow> 'x db_state option" where
  "connection_release K A addr conn s =
     (case conn of None \<Rightarrow> Some s | Some c \<Rightarrow> connection_cache_put K A (c_str addr) c s)"

end
