(* ===== verification/Cps_Redis.thy ===== *)
theory Cps_Redis
  imports Cps_Db_Connection
begin

text \<open>
  The database operations on one connection (\<open>src/db/cps_redis.cpp\<close> and the wrappers of
  \<open>inc/opx/private/db/cps_api_db.h\<close>): storing, reading and deleting objects, fields, counters and the
  walk over keys; and their pipelined forms for lists of objects
  (\<open>src/db/cps_api_db_pipeline.cpp\<close>).

  An operation takes a connection and the state and gives both back. Where a return code is optional
  in the code, the model always computes it and callers without one ignore it.
\<close>

section \<open>Commands\<close>

text \<open>The names of the commands.\<close>

definition hset_literal :: bytes where "hset_literal = [72, 83, 69, 84]"
definition hget_literal :: bytes where "hget_literal = [72, 71, 69, 84]"
definition hdel_literal :: bytes where "hdel_literal = [72, 68, 69, 76]"
definition del_literal :: bytes where "del_literal = [68, 69, 76]"
definition set_literal :: bytes where "set_literal = [83, 69, 84]"
definition incr_literal :: bytes where "incr_literal = [73, 78, 67, 82]"
definition decr_literal :: bytes where "decr_literal = [68, 69, 67, 82]"
definition slaveof_literal :: bytes where "slaveof_literal = [83, 76, 65, 86, 69, 79, 70]"
definition no_literal :: bytes where "no_literal = [78, 79]"
definition one_literal :: bytes where "one_literal = [79, 78, 69]"
definition scan_literal :: bytes where "scan_literal = [83, 67, 65, 78]"
definition match_literal :: bytes where "match_literal = [77, 65, 84, 67, 72]"
definition count_literal :: bytes where "count_literal = [67, 79, 85, 78, 84]"
definition CPS_DB_MAX_ITEMS_PER_SCAN :: bytes where "CPS_DB_MAX_ITEMS_PER_SCAN = [49, 48, 48, 48]"

definition delete_key ::
  "db_env \<Rightarrow> 'x redis_api \<Rightarrow> bytes \<Rightarrow> db_connection \<Rightarrow> 'x db_state \<Rightarrow>
     (bool \<times> cps_api_return_code_t \<times> db_connection \<times> 'x db_state) option" where
  "delete_key K A key conn s = do {
     (ok, rc, _, conn, s) \<leftarrow>
       connection_command K A [from_string del_literal, from_string key] SELECT_MS_WAIT conn s;
     Some (ok, rc, conn, s)
   }"

text \<open>
  \<open>cps_string::split\<close> collects the parts that \<open>std_parse_string\<close> of the std library finds; the latter is an
  argument.
\<close>

definition string_split :: "(bytes \<Rightarrow> bytes \<Rightarrow> bytes list) \<Rightarrow> bytes \<Rightarrow> bytes \<Rightarrow> bytes list" where
  "string_split parse str reg = map c_str (parse (c_str str) (c_str reg))"

definition slave_command ::
  "db_env \<Rightarrow> 'x redis_api \<Rightarrow> bytes \<Rightarrow> bytes \<Rightarrow> db_connection \<Rightarrow> 'x db_state \<Rightarrow>
     (bool \<times> db_connection \<times> 'x db_state) option" where
  "slave_command K A a b conn s = do {
     (ok, _, resp, conn, s) \<leftarrow>
       connection_command K A [from_string slaveof_literal, from_string a, from_string b]
         SELECT_MS_WAIT conn s;
     if \<not> ok then Some (False, conn, s)
     else do {
       r \<leftarrow> response_set_get resp 0;
       Some (is_status_ok r, conn, s)
     }
   }"

definition make_slave ::
  "db_env \<Rightarrow> 'x redis_api \<Rightarrow> (bytes \<Rightarrow> bytes \<Rightarrow> bytes list) \<Rightarrow> bytes \<Rightarrow> db_connection \<Rightarrow> 'x db_state \<Rightarrow>
     (bool \<times> db_connection \<times> 'x db_state) option" where
  "make_slave K A parse ip conn s =
     (case string_split parse ip [58] of
        [a, b] \<Rightarrow> slave_command K A a b conn s
      | _ \<Rightarrow> Some (False, conn, s))"

definition remove_slave ::
  "db_env \<Rightarrow> 'x redis_api \<Rightarrow> db_connection \<Rightarrow> 'x db_state \<Rightarrow> (bool \<times> db_connection \<times> 'x db_state) option" where
  "remove_slave K A conn s = slave_command K A no_literal one_literal conn s"

definition atomic_count_set ::
  "db_env \<Rightarrow> 'x redis_api \<Rightarrow> bytes \<Rightarrow> u64 \<Rightarrow> db_connection \<Rightarrow> 'x db_state \<Rightarrow>
     (bool \<times> db_connection \<times> 'x db_state) option" where
  "atomic_count_set K A key dat conn s = do {
     (ok, _, _, conn, s) \<leftarrow>
       connection_command K A [from_string set_literal, from_string key, from_string (le_bytes 8 (unat dat))]
         SELECT_MS_WAIT conn s;
     Some (ok, conn, s)
   }"

text \<open>The result is the new value of the counter, \<open>None\<close> for \<open>false\<close>.\<close>

definition atomic_count_change ::
  "db_env \<Rightarrow> 'x redis_api \<Rightarrow> bool \<Rightarrow> bytes \<Rightarrow> db_connection \<Rightarrow> 'x db_state \<Rightarrow>
     (int option \<times> db_connection \<times> 'x db_state) option" where
  "atomic_count_change K A inc key conn s = do {
     (ok, _, resp, conn, s) \<leftarrow>
       connection_command K A [from_string (if inc then incr_literal else decr_literal), from_string key]
         SELECT_MS_WAIT conn s;
     if \<not> ok then Some (None, conn, s)
     else do {
       r \<leftarrow> response_set_get resp 0;
       Some (if response_is_int r then Some (response_get_int r) else None, conn, s)
     }
   }"

definition get_sequence ::
  "db_env \<Rightarrow> 'x redis_api \<Rightarrow> bytes \<Rightarrow> db_connection \<Rightarrow> 'x db_state \<Rightarrow>
     (int option \<times> db_connection \<times> 'x db_state) option" where
  "get_sequence K A key conn s = atomic_count_change K A True key conn s"

section \<open>Requests and responses\<close>

text \<open>A request is queued; only \<open>force_push\<close> flushes it.\<close>

definition queue_request ::
  "db_env \<Rightarrow> 'x redis_api \<Rightarrow> db_operation_atom_t list \<Rightarrow> bool \<Rightarrow> db_connection \<Rightarrow> 'x db_state \<Rightarrow>
     (bool \<times> db_connection \<times> 'x db_state) option" where
  "queue_request K A lst force_push conn s = do {
     (ok, _, conn, s) \<leftarrow> connection_operation K A lst force_push SELECT_MS_WAIT conn s;
     Some (ok, conn, s)
   }"

definition read_response ::
  "db_env \<Rightarrow> 'x redis_api \<Rightarrow> db_connection \<Rightarrow> 'x db_state \<Rightarrow>
     (bool \<times> cps_api_return_code_t \<times> redisReply list \<times> db_connection \<times> 'x db_state) option" where
  "read_response K A conn s = do {
     (ok, rc, resp, conn, x) \<leftarrow> connection_response K A [] SELECT_MS_WAIT False conn (ds_net s);
     Some (ok, rc, resp, conn, s\<lparr>ds_net := x\<rparr>)
   }"

definition dbkey_field_set_request ::
  "db_env \<Rightarrow> 'x redis_api \<Rightarrow> bytes \<Rightarrow> bytes \<Rightarrow> bytes \<Rightarrow> db_connection \<Rightarrow> 'x db_state \<Rightarrow>
     (bool \<times> db_connection \<times> 'x db_state) option" where
  "dbkey_field_set_request K A key field dat conn s =
     queue_request K A [from_string hset_literal, from_string key, from_string field, from_string dat]
       False conn s"

definition dbkey_field_get_request ::
  "db_env \<Rightarrow> 'x redis_api \<Rightarrow> bytes \<Rightarrow> bytes \<Rightarrow> db_connection \<Rightarrow> 'x db_state \<Rightarrow>
     (bool \<times> db_connection \<times> 'x db_state) option" where
  "dbkey_field_get_request K A key field conn s =
     queue_request K A [from_string hget_literal, from_string key, from_string field] False conn s"

definition dbkey_field_delete_request ::
  "db_env \<Rightarrow> 'x redis_api \<Rightarrow> bytes \<Rightarrow> bytes \<Rightarrow> db_connection \<Rightarrow> 'x db_state \<Rightarrow>
     (bool \<times> db_connection \<times> 'x db_state) option" where
  "dbkey_field_delete_request K A key field conn s =
     queue_request K A [from_string hdel_literal, from_string key, from_string field] False conn s"

definition set_object_request ::
  "db_env \<Rightarrow> 'x redis_api \<Rightarrow> cps_obj \<Rightarrow> db_connection \<Rightarrow> 'x db_state \<Rightarrow>
     (bool \<times> db_connection \<times> 'x db_state) option" where
  "set_object_request K A obj conn s =
     queue_request K A [from_string hset_literal, from_object obj True True] False conn s"

definition set_object_response ::
  "db_env \<Rightarrow> 'x redis_api \<Rightarrow> db_connection \<Rightarrow> 'x db_state \<Rightarrow> (bool \<times> db_connection \<times> 'x db_state) option" where
  "set_object_response K A conn s = do {
     (ok, _, resp, conn, s) \<leftarrow> read_response K A conn s;
     if \<not> ok then Some (False, conn, s)
     else do {
       r \<leftarrow> response_set_get resp 0;
       Some (response_is_int r \<and> (response_get_int r = 0 \<or> response_get_int r = 1), conn, s)
     }
   }"

definition dbkey_field_set_response ::
  "db_env \<Rightarrow> 'x redis_api \<Rightarrow> db_connection \<Rightarrow> 'x db_state \<Rightarrow> (bool \<times> db_connection \<times> 'x db_state) option" where
  "dbkey_field_set_response K A conn s = set_object_response K A conn s"

definition dbkey_field_delete_response ::
  "db_env \<Rightarrow> 'x redis_api \<Rightarrow> db_connection \<Rightarrow> 'x db_state \<Rightarrow> (bool \<times> db_connection \<times> 'x db_state) option" where
  "dbkey_field_delete_response K A conn s = set_object_response K A conn s"

definition dbkey_field_get_response_string ::
  "db_env \<Rightarrow> 'x redis_api \<Rightarrow> db_connection \<Rightarrow> 'x db_state \<Rightarrow> (bytes \<times> db_connection \<times> 'x db_state) option" where
  "dbkey_field_get_response_string K A conn s = do {
     (ok, _, resp, conn, s) \<leftarrow> read_response K A conn s;
     if \<not> ok then Some ([], conn, s)
     else do {
       r \<leftarrow> response_set_get resp 0;
       if response_is_str r then do {
         str \<leftarrow> response_get_str r;
         Some (c_str str, conn, s)
       }
       else Some ([], conn, s)
     }
   }"

text \<open>
  The call to \<open>operation\<close> passes the pointer to the return code as \<open>force_push\<close>; \<open>has_rc\<close> says whether
  the caller gave one.
\<close>

definition get_object_request ::
  "db_env \<Rightarrow> 'x redis_api \<Rightarrow> bytes \<Rightarrow> bool \<Rightarrow> db_connection \<Rightarrow> 'x db_state \<Rightarrow>
     (bool \<times> db_connection \<times> 'x db_state) option" where
  "get_object_request K A key has_rc conn s =
     queue_request K A [from_string hget_literal, from_string key, from_string object_field] has_rc conn s"

text \<open>The return code, the object and whether it was read.\<close>

definition get_object_response ::
  "db_env \<Rightarrow> 'x redis_api \<Rightarrow> cps_obj \<Rightarrow> db_connection \<Rightarrow> 'x db_state \<Rightarrow>
     (bool \<times> cps_api_return_code_t \<times> cps_obj \<times> db_connection \<times> 'x db_state) option" where
  "get_object_response K A obj conn s = do {
     (ok, rc, resp, conn, s) \<leftarrow> read_response K A conn s;
     if \<not> ok then Some (False, rc, obj, conn, s)
     else do {
       r \<leftarrow> response_set_get resp 0;
       if response_is_nill r then Some (False, cps_api_ret_code_NO_EXIST, obj, conn, s)
       else if response_is_str r then do {
         str \<leftarrow> response_get_str r;
         (ok, obj) \<leftarrow> cps_api_array_to_object (de_libc K) str (length str) obj;
         Some (ok, if ok then cps_api_ret_code_OK else cps_api_ret_code_CORRUPT, obj, conn, s)
       }
       else Some (False, cps_api_ret_code_RESPONSE_TYPE_INVALID, obj, conn, s)
     }
   }"

definition get_object_by_key ::
  "db_env \<Rightarrow> 'x redis_api \<Rightarrow> bytes \<Rightarrow> cps_obj \<Rightarrow> bool \<Rightarrow> db_connection \<Rightarrow> 'x db_state \<Rightarrow>
     (bool \<times> cps_api_return_code_t \<times> cps_obj \<times> db_connection \<times> 'x db_state) option" where
  "get_object_by_key K A key obj has_rc conn s = do {
     (ok, conn, s) \<leftarrow> get_object_request K A key has_rc conn s;
     if ok then get_object_response K A obj conn s
     else Some (False, cps_api_ret_code_COMMUNICATION_ERROR, obj, conn, s)
   }"

definition get_object ::
  "db_env \<Rightarrow> 'x redis_api \<Rightarrow> cps_obj \<Rightarrow> db_connection \<Rightarrow> 'x db_state \<Rightarrow>
     (bool \<times> cps_obj \<times> db_connection \<times> 'x db_state) option" where
  "get_object K A obj conn s = do {
     (ok, key, D) \<leftarrow>
       dbkey_from_instance_key (de_libc K) (de_tlv K) (de_hash K) (ds_dict s) [] obj False;
     let s = s\<lparr>ds_dict := D\<rparr>;
     if \<not> ok then Some (False, obj, conn, s)
     else do {
       (ok, _, obj, conn, s) \<leftarrow> get_object_by_key K A key obj False conn s;
       Some (ok, obj, conn, s)
     }
   }"

definition store_object ::
  "db_env \<Rightarrow> 'x redis_api \<Rightarrow> cps_obj \<Rightarrow> db_connection \<Rightarrow> 'x db_state \<Rightarrow>
     (bool \<times> db_connection \<times> 'x db_state) option" where
  "store_object K A obj conn s = do {
     (ok, conn, s) \<leftarrow> set_object_request K A obj conn s;
     if ok then set_object_response K A conn s else Some (False, conn, s)
   }"

section \<open>Walking over keys\<close>

text \<open>
  The callback of \<open>walk_keys\<close> works on data of its own and on the state; a reply without the
  strings the code reads is outside the model.
\<close>

fun walk_values ::
  "(bytes \<Rightarrow> 'c \<Rightarrow> 'x db_state \<Rightarrow> ('c \<times> 'x db_state) option) \<Rightarrow> redisReply list \<Rightarrow> 'c \<Rightarrow> 'x db_state \<Rightarrow>
     ('c \<times> 'x db_state) option" where
  "walk_values visit [] c s = Some (c, s)"
| "walk_values visit (r # rs) c s = do {
     key \<leftarrow> response_get_str r;
     (c, s) \<leftarrow> visit key c s;
     walk_values visit rs c s
   }"

definition walk_request :: "bytes \<Rightarrow> bytes \<Rightarrow> db_operation_atom_t list" where
  "walk_request start filt = [from_string scan_literal, from_string (c_str start),
     from_string match_literal, from_string filt, from_string count_literal,
     from_string CPS_DB_MAX_ITEMS_PER_SCAN]"

partial_function (option) walk_loop ::
  "db_env \<Rightarrow> 'x redis_api \<Rightarrow> bytes \<Rightarrow> (bytes \<Rightarrow> 'c \<Rightarrow> 'x db_state \<Rightarrow> ('c \<times> 'x db_state) option) \<Rightarrow>
     bytes \<Rightarrow> db_connection \<Rightarrow> 'c \<Rightarrow> 'x db_state \<Rightarrow> (bool \<times> db_connection \<times> 'c \<times> 'x db_state) option" where
  "walk_loop K A filt visit start conn c s = do {
     (ok, _, resp, conn, s) \<leftarrow> connection_command K A (walk_request start filt) SELECT_MS_WAIT conn s;
     if \<not> ok then Some (False, conn, c, s)
     else do {
       it \<leftarrow> response_set_get resp 0;
       if response_elements it \<noteq> 2 then Some (False, conn, c, s)
       else do {
         cursor \<leftarrow> response_element_at it 0;
         values \<leftarrow> response_element_at it 1;
         str \<leftarrow> response_get_str cursor;
         (c, s) \<leftarrow> walk_values visit
           (case values of REDIS_REPLY_ARRAY l \<Rightarrow> l | _ \<Rightarrow> []) c s;
         if c_str str = [48] then Some (True, conn, c, s)
         else walk_loop K A filt visit (c_str str) conn c s
       }
     }
   }"

definition walk_keys ::
  "db_env \<Rightarrow> 'x redis_api \<Rightarrow> bytes \<Rightarrow> (bytes \<Rightarrow> 'c \<Rightarrow> 'x db_state \<Rightarrow> ('c \<times> 'x db_state) option) \<Rightarrow>
     db_connection \<Rightarrow> 'c \<Rightarrow> 'x db_state \<Rightarrow> (bool \<times> db_connection \<times> 'c \<times> 'x db_state) option" where
  "walk_keys K A filt visit conn c s = walk_loop K A filt visit [48] conn c s"

text \<open>
  \<open>delete_object\<close> of an object or of all objects a pattern matches; the walk uses a second
  connection of the pool.
\<close>

definition delete_object ::
  "db_env \<Rightarrow> 'x redis_api \<Rightarrow> cps_obj \<Rightarrow> db_connection \<Rightarrow> 'x db_state \<Rightarrow>
     (bool \<times> cps_api_return_code_t \<times> db_connection \<times> 'x db_state) option" where
  "delete_object K A obj conn s = do {
     (ok, key, is_wildcard, D) \<leftarrow>
       dbkey_instance_or_wildcard (de_libc K) (de_tlv K) (de_hash K) (ds_dict s) [] obj;
     let s = s\<lparr>ds_dict := D\<rparr>;
     if \<not> ok then Some (False, cps_api_ret_code_ERR, conn, s)
     else if \<not> is_wildcard then do {
       (_, rc, conn, s) \<leftarrow> delete_key K A key conn s;
       Some (True, rc, conn, s)
     }
     else do {
       let addr = cn_addr conn;
       (r, s) \<leftarrow> connection_request K A addr s;
       (case r of
          None \<Rightarrow> Some (False, cps_api_ret_code_COMMUNICATION_ERROR, conn, s)
        | Some walker \<Rightarrow> do {
            (_, walker, (conn, rc), s) \<leftarrow> walk_keys K A key
              (\<lambda>k (conn, rc) s. do {
                 (_, rc, conn, s) \<leftarrow> delete_key K A k conn s;
                 Some ((conn, rc), s)
               }) walker (conn, cps_api_ret_code_OK) s;
            s \<leftarrow> connection_release K A addr (Some walker) s;
            Some (True, rc, conn, s)
          })
     }
   }"

end
