(* ===== verification/Cps_Db_Pipeline.thy ===== *)
theory Cps_Db_Pipeline
  imports Cps_Redis
begin

text \<open>
  The pipelined operations on lists of objects (\<open>src/db/cps_api_db_pipeline.cpp\<close>): the requests of a
  range of the list are queued before their responses are read.

  The state is a world: the heap of objects and, as the surroundings, the state of the database layer.
  A range \<open>[start, mx)\<close> of a list is a section of it.
\<close>

type_synonym 'x db_world = "'x db_state cps_world"

definition list_section :: "nat \<Rightarrow> nat \<Rightarrow> 'a list \<Rightarrow> 'a list" where
  "list_section start mx l = take (mx - start) (drop start l)"

section \<open>Loops over a range\<close>

text \<open>The loop that queues one request for each object.\<close>

fun request_each ::
  "db_env \<Rightarrow> 'x redis_api \<Rightarrow> (cps_obj \<Rightarrow> db_operation_atom_t list) \<Rightarrow> obj_list \<Rightarrow> db_connection \<Rightarrow> 'x db_world \<Rightarrow>
     (bool \<times> db_connection \<times> 'x db_world) option" where
  "request_each K A mk [] conn w = Some (True, conn, w)"
| "request_each K A mk (p # ps) conn w = do {
     obj \<leftarrow> obj_at w p;
     (ok, conn, s) \<leftarrow> queue_request K A (mk obj) False conn (w_ext w);
     let w = w\<lparr>w_ext := s\<rparr>;
     if ok then request_each K A mk ps conn w else Some (False, conn, w)
   }"

definition store_atoms :: "cps_obj \<Rightarrow> db_operation_atom_t list" where
  "store_atoms obj = [from_string hset_literal, from_object obj True True]"

definition delete_atoms :: "cps_obj \<Rightarrow> db_operation_atom_t list" where
  "delete_atoms obj = [from_string del_literal, from_object obj True False]"

fun store_responses ::
  "db_env \<Rightarrow> 'x redis_api \<Rightarrow> nat \<Rightarrow> db_connection \<Rightarrow> 'x db_world \<Rightarrow>
     (bool \<times> db_connection \<times> 'x db_world) option" where
  "store_responses K A 0 conn w = Some (True, conn, w)"
| "store_responses K A (Suc n) conn w = do {
     (ok, _, _, conn, s) \<leftarrow> read_response K A conn (w_ext w);
     let w = w\<lparr>w_ext := s\<rparr>;
     if ok then store_responses K A n conn w else Some (False, conn, w)
   }"

fun delete_responses ::
  "db_env \<Rightarrow> 'x redis_api \<Rightarrow> nat \<Rightarrow> db_connection \<Rightarrow> 'x db_world \<Rightarrow> (db_connection \<times> 'x db_world) option" where
  "delete_responses K A 0 conn w = Some (conn, w)"
| "delete_responses K A (Suc n) conn w = do {
     (_, _, _, conn, s) \<leftarrow> read_response K A conn (w_ext w);
     delete_responses K A n conn (w\<lparr>w_ext := s\<rparr>)
   }"

fun send_get_requests ::
  "db_env \<Rightarrow> 'x redis_api \<Rightarrow> obj_list \<Rightarrow> db_connection \<Rightarrow> 'x db_world \<Rightarrow>
     (bool \<times> db_connection \<times> 'x db_world) option" where
  "send_get_requests K A [] conn w = Some (True, conn, w)"
| "send_get_requests K A (p # ps) conn w = do {
     obj \<leftarrow> obj_at w p;
     (ok, key, D) \<leftarrow>
       dbkey_from_instance_key (de_libc K) (de_tlv K) (de_hash K) (ds_dict (w_ext w)) [] obj False;
     let w = w\<lparr>w_ext := (w_ext w)\<lparr>ds_dict := D\<rparr>\<rparr>;
     if \<not> ok then Some (False, conn, w)
     else do {
       (ok, conn, s) \<leftarrow> get_object_request K A key False conn (w_ext w);
       let w = w\<lparr>w_ext := s\<rparr>;
       if ok then send_get_requests K A ps conn w else Some (False, conn, w)
     }
   }"

text \<open>\<open>bulk_send_req\<close> makes an object it does not use.\<close>

definition bulk_send_req ::
  "db_env \<Rightarrow> 'x redis_api \<Rightarrow> obj_list \<Rightarrow> db_connection \<Rightarrow> 'x db_world \<Rightarrow>
     (bool \<times> db_connection \<times> 'x db_world) option" where
  "bulk_send_req K A ps conn w = do {
     (og, h) \<leftarrow> cps_api_object_create (de_libc K) (w_heap w);
     (ok, conn, w) \<leftarrow> send_get_requests K A ps conn (w\<lparr>w_heap := h\<rparr>);
     h \<leftarrow> cps_api_object_delete (w_heap w) (Some og);
     Some (ok, conn, w\<lparr>w_heap := h\<rparr>)
   }"

fun send_key_requests ::
  "db_env \<Rightarrow> 'x redis_api \<Rightarrow> bytes list \<Rightarrow> db_connection \<Rightarrow> 'x db_world \<Rightarrow>
     (bool \<times> db_connection \<times> 'x db_world) option" where
  "send_key_requests K A [] conn w = Some (True, conn, w)"
| "send_key_requests K A (key # keys) conn w = do {
     (ok, conn, s) \<leftarrow> get_object_request K A key False conn (w_ext w);
     let w = w\<lparr>w_ext := s\<rparr>;
     if ok then send_key_requests K A keys conn w else Some (False, conn, w)
   }"

definition bulk_get_req_from_array ::
  "db_env \<Rightarrow> 'x redis_api \<Rightarrow> bytes list \<Rightarrow> db_connection \<Rightarrow> 'x db_world \<Rightarrow>
     (bool \<times> db_connection \<times> 'x db_world) option" where
  "bulk_get_req_from_array K A keys conn w = do {
     (og, h) \<leftarrow> cps_api_object_create (de_libc K) (w_heap w);
     (ok, conn, w) \<leftarrow> send_key_requests K A keys conn (w\<lparr>w_heap := h\<rparr>);
     h \<leftarrow> cps_api_object_delete (w_heap w) (Some og);
     Some (ok, conn, w\<lparr>w_heap := h\<rparr>)
   }"

text \<open>\<open>get_object_response\<close> into an object of the heap.\<close>

definition read_object ::
  "db_env \<Rightarrow> 'x redis_api \<Rightarrow> nat \<Rightarrow> db_connection \<Rightarrow> 'x db_world \<Rightarrow>
     (bool \<times> cps_api_return_code_t \<times> db_connection \<times> 'x db_world) option" where
  "read_object K A a conn w = do {
     obj \<leftarrow> hp_objs (w_heap w) a;
     (ok, rc, obj, conn, s) \<leftarrow> get_object_response K A obj conn (w_ext w);
     Some (ok, rc, conn, (obj_put w a obj)\<lparr>w_ext := s\<rparr>)
   }"

section \<open>Storing and deleting lists\<close>

definition store_range ::
  "db_env \<Rightarrow> 'x redis_api \<Rightarrow> obj_list \<Rightarrow> nat \<Rightarrow> nat \<Rightarrow> db_connection \<times> 'x db_world \<Rightarrow>
     (bool \<times> db_connection \<times> 'x db_world) option" where
  "store_range K A objs start mx st = do {
     let (conn, w) = st;
     (ok, conn, w) \<leftarrow> request_each K A store_atoms (list_section start mx objs) conn w;
     if \<not> ok then Some (False, conn, w)
     else store_responses K A (mx - start) conn w
   }"

definition store_objects ::
  "db_env \<Rightarrow> 'x redis_api \<Rightarrow> obj_list \<Rightarrow> db_connection \<Rightarrow> 'x db_world \<Rightarrow>
     (bool \<times> db_connection \<times> 'x db_world) option" where
  "store_objects K A objs conn w = do {
     (og, h) \<leftarrow> cps_api_object_create (de_libc K) (w_heap w);
     (ok, conn, s) \<leftarrow> cps_api_db_validate_connection K A conn (w_ext w);
     let w = w\<lparr>w_heap := h, w_ext := s\<rparr>;
     (ok, conn, w) \<leftarrow>
       (if \<not> ok then Some (False, conn, w)
        else cps_api_range_split (cps_api_object_list_size objs) (fl_in_the_pipe (de_flags K))
               (store_range K A objs) (conn, w));
     h \<leftarrow> cps_api_object_delete (w_heap w) (Some og);
     Some (ok, conn, w\<lparr>w_heap := h\<rparr>)
   }"

definition delete_range ::
  "db_env \<Rightarrow> 'x redis_api \<Rightarrow> obj_list \<Rightarrow> nat \<Rightarrow> nat \<Rightarrow> db_connection \<times> 'x db_world \<Rightarrow>
     (bool \<times> db_connection \<times> 'x db_world) option" where
  "delete_range K A objs start mx st = do {
     let (conn, w) = st;
     (ok, conn, w) \<leftarrow> request_each K A delete_atoms (list_section start mx objs) conn w;
     if \<not> ok then Some (False, conn, w)
     else do {
       (conn, w) \<leftarrow> delete_responses K A (mx - start) conn w;
       Some (True, conn, w)
     }
   }"

definition delete_object_list ::
  "db_env \<Rightarrow> 'x redis_api \<Rightarrow> obj_list \<Rightarrow> db_connection \<Rightarrow> 'x db_world \<Rightarrow>
     (bool \<times> db_connection \<times> 'x db_world) option" where
  "delete_object_list K A objs conn w = do {
     (ok, conn, s) \<leftarrow> cps_api_db_validate_connection K A conn (w_ext w);
     let w = w\<lparr>w_ext := s\<rparr>;
     if \<not> ok then Some (False, conn, w)
     else cps_api_range_split (cps_api_object_list_size objs) (fl_in_the_pipe (de_flags K))
            (delete_range K A objs) (conn, w)
   }"

section \<open>Merging with what is stored\<close>

fun merge_responses ::
  "db_env \<Rightarrow> 'x redis_api \<Rightarrow> nat \<Rightarrow> obj_list \<Rightarrow> cps_api_return_code_t \<Rightarrow> db_connection \<Rightarrow> 'x db_world \<Rightarrow>
     (bool \<times> cps_api_return_code_t \<times> db_connection \<times> 'x db_world) option" where
  "merge_responses K A og [] rc conn w = Some (True, rc, conn, w)"
| "merge_responses K A og (p # ps) rc conn w = do {
     a \<leftarrow> p;
     (ok, rc, conn, w) \<leftarrow> read_object K A og conn w;
     if \<not> ok then Some (False, rc, conn, w)
     else do {
       stored \<leftarrow> hp_objs (w_heap w) og;
       orig \<leftarrow> hp_objs (w_heap w) a;
       (ok, stored) \<leftarrow> cps_api_object_attr_merge (de_tlv K) (de_libc K) stored orig True;
       let w = obj_put w og stored;
       if \<not> ok then Some (False, rc, conn, w)
       else do {
         (ok, h) \<leftarrow> heap_clone (de_libc K) (w_heap w) a og;
         let w = w\<lparr>w_heap := h\<rparr>;
         if ok then merge_responses K A og ps rc conn w else Some (False, rc, conn, w)
       }
     }
   }"

definition merge_range ::
  "db_env \<Rightarrow> 'x redis_api \<Rightarrow> obj_list \<Rightarrow> nat \<Rightarrow> nat \<Rightarrow> cps_api_return_code_t \<times> db_connection \<times> 'x db_world \<Rightarrow>
     (bool \<times> cps_api_return_code_t \<times> db_connection \<times> 'x db_world) option" where
  "merge_range K A objs start mx st = do {
     let (rc, conn, w) = st;
     (og, h) \<leftarrow> cps_api_object_create (de_libc K) (w_heap w);
     (ok, conn, w) \<leftarrow> bulk_send_req K A (list_section start mx objs) conn (w\<lparr>w_heap := h\<rparr>);
     (ok, rc, conn, w) \<leftarrow>
       (if \<not> ok then Some (False, rc, conn, w)
        else merge_responses K A og (list_section start mx objs) rc conn w);
     h \<leftarrow> cps_api_object_delete (w_heap w) (Some og);
     Some (ok, rc, conn, w\<lparr>w_heap := h\<rparr>)
   }"

definition merge_objects ::
  "db_env \<Rightarrow> 'x redis_api \<Rightarrow> obj_list \<Rightarrow> db_connection \<Rightarrow> 'x db_world \<Rightarrow>
     (bool \<times> cps_api_return_code_t \<times> db_connection \<times> 'x db_world) option" where
  "merge_objects K A objs conn w = do {
     (og, h) \<leftarrow> cps_api_object_create (de_libc K) (w_heap w);
     (ok, conn, s) \<leftarrow> cps_api_db_validate_connection K A conn (w_ext w);
     let w = w\<lparr>w_heap := h, w_ext := s\<rparr>;
     let rc = cps_api_ret_code_COMMUNICATION_ERROR;
     (ok, rc, conn, w) \<leftarrow>
       (if \<not> ok then Some (False, rc, conn, w)
        else cps_api_range_split (cps_api_object_list_size objs) (fl_in_the_pipe (de_flags K))
               (merge_range K A objs) (rc, conn, w));
     h \<leftarrow> cps_api_object_delete (w_heap w) (Some og);
     Some (ok, rc, conn, w\<lparr>w_heap := h\<rparr>)
   }"

section \<open>Reading lists\<close>

text \<open>The loop of \<open>get_objects_bulk\<close>: an object that cannot be read is left out.\<close>

fun bulk_responses ::
  "db_env \<Rightarrow> 'x redis_api \<Rightarrow> nat \<Rightarrow> obj_list \<Rightarrow> db_connection \<Rightarrow> 'x db_world \<Rightarrow>
     (obj_list \<times> db_connection \<times> 'x db_world) option" where
  "bulk_responses K A 0 objs conn w = Some (objs, conn, w)"
| "bulk_responses K A (Suc n) objs conn w = do {
     (og, h) \<leftarrow> cps_api_object_create (de_libc K) (w_heap w);
     (ok, _, conn, w) \<leftarrow> read_object K A og conn (w\<lparr>w_heap := h\<rparr>);
     let (kept, objs) = (if ok then cps_api_object_list_append (de_libc K) objs (Some og) else (False, objs));
     h \<leftarrow> cps_api_object_delete (w_heap w) (if kept then None else Some og);
     bulk_responses K A n objs conn (w\<lparr>w_heap := h\<rparr>)
   }"

definition bulk_range ::
  "db_env \<Rightarrow> 'x redis_api \<Rightarrow> bytes list \<Rightarrow> nat \<Rightarrow> nat \<Rightarrow> obj_list \<times> db_connection \<times> 'x db_world \<Rightarrow>
     (bool \<times> obj_list \<times> db_connection \<times> 'x db_world) option" where
  "bulk_range K A keys start mx st = do {
     let (objs, conn, w) = st;
     (ok, conn, w) \<leftarrow> bulk_get_req_from_array K A (list_section start mx keys) conn w;
     if \<not> ok then Some (False, objs, conn, w)
     else do {
       (objs, conn, w) \<leftarrow> bulk_responses K A (mx - start) objs conn w;
       Some (True, objs, conn, w)
     }
   }"

definition get_objects_bulk ::
  "db_env \<Rightarrow> 'x redis_api \<Rightarrow> bytes list \<Rightarrow> obj_list \<Rightarrow> db_connection \<Rightarrow> 'x db_world \<Rightarrow>
     (bool \<times> obj_list \<times> db_connection \<times> 'x db_world) option" where
  "get_objects_bulk K A keys objs conn w = do {
     (og, h) \<leftarrow> cps_api_object_create (de_libc K) (w_heap w);
     (ok, conn, s) \<leftarrow> cps_api_db_validate_connection K A conn (w_ext w);
     let w = w\<lparr>w_heap := h, w_ext := s\<rparr>;
     (ok, objs, conn, w) \<leftarrow>
       (if \<not> ok then Some (False, objs, conn, w)
        else cps_api_range_split (length keys) (fl_in_the_pipe (de_flags K))
               (bulk_range K A keys) (objs, conn, w));
     h \<leftarrow> cps_api_object_delete (w_heap w) (Some og);
     Some (ok, objs, conn, w\<lparr>w_heap := h\<rparr>)
   }"

text \<open>
  The loop of \<open>get_object_list\<close>: every object of the range gives one of the new list, also one that
  is not stored. \<open>og\<close> is the object read into next.
\<close>

fun list_responses ::
  "db_env \<Rightarrow> 'x redis_api \<Rightarrow> nat \<Rightarrow> nat \<Rightarrow> obj_list \<Rightarrow> cps_api_return_code_t \<Rightarrow> db_connection \<Rightarrow> 'x db_world \<Rightarrow>
     (bool \<times> nat \<times> obj_list \<times> cps_api_return_code_t \<times> db_connection \<times> 'x db_world) option" where
  "list_responses K A 0 og lg rc conn w = Some (True, og, lg, rc, conn, w)"
| "list_responses K A (Suc n) og lg rc conn w = do {
     (ok, rc, conn, w) \<leftarrow> read_object K A og conn w;
     if \<not> ok \<and> rc = cps_api_ret_code_COMMUNICATION_ERROR then Some (False, og, lg, rc, conn, w)
     else (case cps_api_object_list_append (de_libc K) lg (Some og) of
        (False, lg) \<Rightarrow> list_responses K A n og lg rc conn w
      | (True, lg) \<Rightarrow> do {
          (og, h) \<leftarrow> cps_api_object_create (de_libc K) (w_heap w);
          list_responses K A n og lg rc conn (w\<lparr>w_heap := h\<rparr>)
        })
   }"

definition list_range ::
  "db_env \<Rightarrow> 'x redis_api \<Rightarrow> obj_list \<Rightarrow> nat \<Rightarrow> nat \<Rightarrow>
     obj_list \<times> cps_api_return_code_t \<times> db_connection \<times> 'x db_world \<Rightarrow>
     (bool \<times> obj_list \<times> cps_api_return_code_t \<times> db_connection \<times> 'x db_world) option" where
  "list_range K A objs start mx st = do {
     let (lg, rc, conn, w) = st;
     (ok, conn, w) \<leftarrow> bulk_send_req K A (list_section start mx objs) conn w;
     if \<not> ok then Some (False, lg, rc, conn, w)
     else do {
       (og, h) \<leftarrow> cps_api_object_create (de_libc K) (w_heap w);
       (ok, og, lg, rc, conn, w) \<leftarrow> list_responses K A (mx - start) og lg rc conn (w\<lparr>w_heap := h\<rparr>);
       h \<leftarrow> cps_api_object_delete (w_heap w) (Some og);
       Some (ok, lg, if ok then cps_api_ret_code_OK else rc, conn, w\<lparr>w_heap := h\<rparr>)
     }
   }"

definition get_object_list ::
  "db_env \<Rightarrow> 'x redis_api \<Rightarrow> obj_list \<Rightarrow> db_connection \<Rightarrow> 'x db_world \<Rightarrow>
     (bool \<times> cps_api_return_code_t \<times> obj_list \<times> db_connection \<times> 'x db_world) option" where
  "get_object_list K A objs conn w = do {
     (og, h) \<leftarrow> cps_api_object_create (de_libc K) (w_heap w);
     (ok, conn, s) \<leftarrow> cps_api_db_validate_connection K A conn (w_ext w);
     let w = w\<lparr>w_heap := h, w_ext := s\<rparr>;
     let rc = cps_api_ret_code_COMMUNICATION_ERROR;
     (ok, lg, rc, conn, w) \<leftarrow>
       (if \<not> ok then Some (False, cps_api_object_list_create, rc, conn, w)
        else cps_api_range_split (cps_api_object_list_size objs) (fl_in_the_pipe (de_flags K))
               (list_range K A objs) (cps_api_object_list_create, rc, conn, w));
     (ok, objs, h) \<leftarrow>
       (if \<not> ok then Some (False, objs, w_heap w)
        else do {
          (objs, h) \<leftarrow> cps_api_object_list_clear (w_heap w) objs True;
          cps_api_object_list_merge (de_libc K) h objs lg
        });
     h \<leftarrow> cps_api_object_delete h (Some og);
     h \<leftarrow> cps_api_object_list_destroy h lg True;
     Some (ok, rc, objs, conn, w\<lparr>w_heap := h\<rparr>)
   }"

section \<open>Reading all objects a pattern matches\<close>

text \<open>What the callback of \<open>get_objects\<close> works on besides the state of the database layer.\<close>

record get_walk =
  gw_query :: db_connection
  gw_ok :: bool
  gw_count :: nat
  gw_og :: nat
  gw_objs :: obj_list
  gw_rc :: cps_api_return_code_t
  gw_heap :: obj_heap

fun drain_queue ::
  "db_env \<Rightarrow> 'x redis_api \<Rightarrow> nat \<Rightarrow> get_walk \<Rightarrow> 'x db_state \<Rightarrow> (get_walk \<times> 'x db_state) option" where
  "drain_queue K A 0 g s = Some (g, s)"
| "drain_queue K A (Suc n) g s = do {
     (ok, rc, query, w) \<leftarrow> read_object K A (gw_og g) (gw_query g) \<lparr>w_heap = gw_heap g, w_ext = s\<rparr>;
     let g = g\<lparr>gw_rc := rc, gw_query := query, gw_heap := w_heap w\<rparr>;
     let s = w_ext w;
     if ok then
       (case cps_api_object_list_append (de_libc K) (gw_objs g) (Some (gw_og g)) of
          (False, l) \<Rightarrow> drain_queue K A n g s
        | (True, l) \<Rightarrow> do {
            (og, h) \<leftarrow> cps_api_object_create (de_libc K) (gw_heap g);
            drain_queue K A n (g\<lparr>gw_og := og, gw_objs := l, gw_heap := h\<rparr>) s
          })
     else do {
       let g = g\<lparr>gw_ok := gw_ok g \<and> rc = cps_api_ret_code_NO_EXIST\<rparr>;
       if rc = cps_api_ret_code_COMMUNICATION_ERROR then Some (g, s) else drain_queue K A n g s
     }
   }"

definition drain_all ::
  "db_env \<Rightarrow> 'x redis_api \<Rightarrow> get_walk \<Rightarrow> 'x db_state \<Rightarrow> (get_walk \<times> 'x db_state) option" where
  "drain_all K A g s = do {
     (g, s) \<leftarrow> drain_queue K A (gw_count g) g s;
     Some (g\<lparr>gw_count := 0\<rparr>, s)
   }"

text \<open>
  The callback. The code passes its return code to \<open>get_object_request\<close>, so that every request is
  flushed at once; the return code itself is not set by it.
\<close>

definition get_visit ::
  "db_env \<Rightarrow> 'x redis_api \<Rightarrow> bytes \<Rightarrow> get_walk \<Rightarrow> 'x db_state \<Rightarrow> (get_walk \<times> 'x db_state) option" where
  "get_visit K A key g s =
     (if \<not> gw_ok g then Some (g, s)
      else do {
        (ok, query, s) \<leftarrow> get_object_request K A key True (gw_query g) s;
        let g = g\<lparr>gw_query := query\<rparr>;
        if \<not> ok then Some (g\<lparr>gw_ok := False\<rparr>, s)
        else do {
          let g = g\<lparr>gw_count := gw_count g + 1\<rparr>;
          if gw_count g < fl_in_the_pipe (de_flags K) then Some (g, s) else drain_all K A g s
        }
      })"

definition get_objects_by_key ::
  "db_env \<Rightarrow> 'x redis_api \<Rightarrow> bytes \<Rightarrow> obj_list \<Rightarrow> db_connection \<Rightarrow> 'x db_world \<Rightarrow>
     (bool \<times> cps_api_return_code_t \<times> obj_list \<times> db_connection \<times> 'x db_world) option" where
  "get_objects_by_key K A key objs conn w = do {
     let addr = cn_addr conn;
     (q, s) \<leftarrow> connection_request K A addr (w_ext w);
     (case q of
        None \<Rightarrow> Some (False, cps_api_ret_code_COMMUNICATION_ERROR, objs, conn, w\<lparr>w_ext := s\<rparr>)
      | Some query \<Rightarrow> do {
          (ok, query, s) \<leftarrow> cps_api_db_validate_connection K A query s;
          if \<not> ok then do {
            s \<leftarrow> connection_release K A addr (Some query) s;
            Some (False, cps_api_ret_code_COMMUNICATION_ERROR, objs, conn, w\<lparr>w_ext := s\<rparr>)
          }
          else do {
            (og, h) \<leftarrow> cps_api_object_create (de_libc K) (w_heap w);
            let g = \<lparr>gw_query = query, gw_ok = True, gw_count = 0, gw_og = og, gw_objs = objs,
                     gw_rc = cps_api_ret_code_COMMUNICATION_ERROR, gw_heap = h\<rparr>;
            (walked, conn, g, s) \<leftarrow> walk_keys K A key (get_visit K A) conn g s;
            let ok = (walked \<and> gw_ok g);
            (g, s) \<leftarrow> (if ok then drain_all K A g s else Some (g, s));
            h \<leftarrow> cps_api_object_delete (gw_heap g) (Some (gw_og g));
            s \<leftarrow> connection_release K A addr (Some (gw_query g)) s;
            Some (ok, gw_rc g, gw_objs g, conn, w\<lparr>w_heap := h, w_ext := s\<rparr>)
          }
        })
   }"

text \<open>
  \<open>get_objects\<close> of an object; \<open>has_rc\<close> says whether the caller gave a return code and \<open>rc\<close> is its value before
  the call.
\<close>

definition get_objects ::
  "db_env \<Rightarrow> 'x redis_api \<Rightarrow> nat \<Rightarrow> obj_list \<Rightarrow> bool \<Rightarrow> cps_api_return_code_t \<Rightarrow> db_connection \<Rightarrow>
     'x db_world \<Rightarrow> (bool \<times> cps_api_return_code_t \<times> obj_list \<times> db_connection \<times> 'x db_world) option" where
  "get_objects K A a objs has_rc rc conn w = do {
     obj \<leftarrow> hp_objs (w_heap w) a;
     wild \<leftarrow> cps_api_filter_has_wildcard_attrs (de_tlv K) obj;
     (ok, key, wildcard, rc, D) \<leftarrow>
       (if wild then do {
          (ok, key, D) \<leftarrow>
            dbkey_from_instance_key (de_libc K) (de_tlv K) (de_hash K) (ds_dict (w_ext w)) [] obj True;
          Some (ok, key, True, rc, D)
        }
        else do {
          (ok, key, wildcard, D) \<leftarrow>
            dbkey_instance_or_wildcard (de_libc K) (de_tlv K) (de_hash K) (ds_dict (w_ext w)) [] obj;
          Some (ok, key, wildcard, if ok then rc else cps_api_ret_code_PARAM_INVALID, D)
        });
     let w = w\<lparr>w_ext := (w_ext w)\<lparr>ds_dict := D\<rparr>\<rparr>;
     if \<not> ok then Some (False, rc, objs, conn, w)
     else if wildcard then get_objects_by_key K A key objs conn w
     else do {
       (og, h) \<leftarrow> cps_api_object_create (de_libc K) (w_heap w);
       (ok, conn, s) \<leftarrow> get_object_request K A key has_rc conn (w_ext w);
       let w = w\<lparr>w_heap := h, w_ext := s\<rparr>;
       (ok, rc, conn, w) \<leftarrow>
         (if ok then read_object K A og conn w
          else Some (False, cps_api_ret_code_COMMUNICATION_ERROR, conn, w));
       let (kept, objs) = (if ok then cps_api_object_list_append (de_libc K) objs (Some og)
                           else (False, objs));
       h \<leftarrow> cps_api_object_delete (w_heap w) (if kept then None else Some og);
       Some (kept, rc, objs, conn, w\<lparr>w_heap := h\<rparr>)
     }
   }"

section \<open>Setting a field of all objects a pattern matches\<close>

fun set_responses ::
  "db_env \<Rightarrow> 'x redis_api \<Rightarrow> nat \<Rightarrow> db_connection \<Rightarrow> 'x db_state \<Rightarrow> (db_connection \<times> 'x db_state) option" where
  "set_responses K A 0 conn s = Some (conn, s)"
| "set_responses K A (Suc n) conn s = do {
     (_, conn, s) \<leftarrow> dbkey_field_set_response K A conn s;
     set_responses K A n conn s
   }"

definition field_visit ::
  "db_env \<Rightarrow> 'x redis_api \<Rightarrow> bytes \<Rightarrow> bytes \<Rightarrow> bytes \<Rightarrow> db_connection \<times> bool \<times> nat \<Rightarrow> 'x db_state \<Rightarrow>
     ((db_connection \<times> bool \<times> nat) \<times> 'x db_state) option" where
  "field_visit K A field dat key c s = do {
     let (query, ret, count) = c;
     if \<not> ret then Some (c, s)
     else do {
       (ok, query, s) \<leftarrow> dbkey_field_set_request K A key field dat query s;
       let count = (if ok then count + 1 else count);
       if count < fl_in_the_pipe (de_flags K) then Some ((query, ok, count), s)
       else do {
         (query, s) \<leftarrow> set_responses K A count query s;
         Some ((query, ok, 0), s)
       }
     }
   }"

definition for_each_store_field ::
  "db_env \<Rightarrow> 'x redis_api \<Rightarrow> bytes \<Rightarrow> bytes \<Rightarrow> bytes \<Rightarrow> db_connection \<Rightarrow> 'x db_state \<Rightarrow>
     (bool \<times> db_connection \<times> 'x db_state) option" where
  "for_each_store_field K A key field dat conn s = do {
     let addr = cn_addr conn;
     (q, s) \<leftarrow> connection_request K A addr s;
     (case q of
        None \<Rightarrow> Some (False, conn, s)
      | Some query \<Rightarrow> do {
          (ok, query, s) \<leftarrow> cps_api_db_validate_connection K A query s;
          (ok, query, conn, s) \<leftarrow>
            (if \<not> ok then Some (False, query, conn, s)
             else do {
               (walked, conn, (query, ret, count), s) \<leftarrow>
                 walk_keys K A key (field_visit K A field dat) conn (query, True, 0) s;
               if \<not> (walked \<and> ret) then Some (False, query, conn, s)
               else do {
                 (query, s) \<leftarrow> set_responses K A count query s;
                 Some (True, query, conn, s)
               }
             });
          s \<leftarrow> connection_release K A addr (Some query) s;
          Some (ok, conn, s)
        })
   }"

end
