(* ===== verification/Cps_Db_Events.thy ===== *)
theory Cps_Db_Events
  imports Cps_Db_Pipeline
begin

text \<open>
  Publication of events through the database (\<open>src/db/cps_api_db_events.cpp\<close>): publishers put a copy
  of the object on a queue, and a thread takes the queue, sends the events to the servers and puts back
  what it could not send. The queue is shared under a mutex that the thread gives up while it sends.

  The shared data is a record; the pool of event connections is separate from the pool for
  commands. The failure injection for tests is switched off, as by default.
\<close>

section \<open>Subscription\<close>

text \<open>The literals \<open>PSUBSCRIBE\<close>, \<open>psubscribe\<close> and \<open>PUBLISH\<close>.\<close>

definition psubscribe_literal :: bytes where
  "psubscribe_literal = [80, 83, 85, 66, 83, 67, 82, 73, 66, 69]"
definition psubscribe_answer :: bytes where
  "psubscribe_answer = [112, 115, 117, 98, 115, 99, 114, 105, 98, 101]"
definition publish_literal :: bytes where
  "publish_literal = [80, 85, 66, 76, 73, 83, 72]"

definition used_for_events :: "db_connection \<Rightarrow> db_connection" where
  "used_for_events conn = conn\<lparr>cn_event_connection := True\<rparr>"

text \<open>The answer to a subscription: three elements, the name of the command first and a positive count last.\<close>

definition subscribe_answer_ok :: "redisReply \<Rightarrow> bool option" where
  "subscribe_answer_ok r =
     (if response_elements r = 3 then do {
        msg \<leftarrow> response_element_at r 0;
        status \<leftarrow> response_element_at r 2;
        if response_is_str msg then do {
          str \<leftarrow> response_get_str msg;
          Some (strcasecmp_eq str psubscribe_answer \<and> response_is_int status \<and> response_get_int status > 0)
        }
        else Some False
      }
      else Some False)"

definition subscribe_key ::
  "db_env \<Rightarrow> 'x redis_api \<Rightarrow> bytes \<Rightarrow> db_connection \<Rightarrow> 'x db_state \<Rightarrow>
     (bool \<times> bytes \<times> db_connection \<times> 'x db_state) option" where
  "subscribe_key K A key conn s =
     (if key = [] then None
      else do {
        (_, key) \<leftarrow> (if last key \<noteq> 42 then cps_api_vector_util_append (de_libc K) key [42] 1
                     else Some (True, key));
        (ok, _, resp, conn, s) \<leftarrow>
          connection_command K A [from_string psubscribe_literal, from_string key] SELECT_MS_WAIT
            (used_for_events conn) s;
        if \<not> ok then Some (False, key, conn, s)
        else do {
          r \<leftarrow> response_set_get resp 0;
          ok \<leftarrow> subscribe_answer_ok r;
          Some (ok, key, conn, s)
        }
      })"

definition subscribe ::
  "db_env \<Rightarrow> 'x redis_api \<Rightarrow> cps_obj \<Rightarrow> db_connection \<Rightarrow> 'x db_state \<Rightarrow>
     (bool \<times> db_connection \<times> 'x db_state) option" where
  "subscribe K A obj conn s = do {
     (ok, key, D) \<leftarrow>
       dbkey_from_instance_key (de_libc K) (de_tlv K) (de_hash K) (ds_dict s) [] obj True;
     let s = s\<lparr>ds_dict := D\<rparr>;
     if \<not> ok then Some (False, conn, s)
     else do {
       (ok, _, conn, s) \<leftarrow> subscribe_key K A key conn s;
       Some (ok, conn, s)
     }
   }"

section \<open>Shared data\<close>

type_synonym ev_elem = "bytes \<times> obj_ptr"

record ev_flags =
  ef_max_inflight :: nat
  ef_redline :: nat
  ef_flush_timeout :: nat
  ef_pid :: u64

record 'x ev_state =
  es_events :: "ev_elem list"
  es_published :: nat
  es_pushed :: nat
  es_pool :: "bytes \<rightharpoonup> db_connection list"
  es_world :: "'x db_world"

text \<open>The pool of event connections: the same operations on another pool, without a test of the connection.\<close>

definition events_cache_get ::
  "db_env \<Rightarrow> 'x redis_api \<Rightarrow> bytes \<Rightarrow> 'x ev_state \<Rightarrow> (db_connection option \<times> 'x ev_state) option" where
  "events_cache_get K A name e = do {
     let w = es_world e;
     (r, s) \<leftarrow> connection_cache_get K A name False ((w_ext w)\<lparr>ds_pool := es_pool e\<rparr>);
     Some (r, e\<lparr>es_pool := ds_pool s, es_world := w\<lparr>w_ext := s\<lparr>ds_pool := ds_pool (w_ext w)\<rparr>\<rparr>\<rparr>)
   }"

definition events_cache_put ::
  "db_env \<Rightarrow> 'x redis_api \<Rightarrow> bytes \<Rightarrow> db_connection \<Rightarrow> 'x ev_state \<Rightarrow> 'x ev_state option" where
  "events_cache_put K A name conn e = do {
     let w = es_world e;
     s \<leftarrow> connection_cache_put K A name conn ((w_ext w)\<lparr>ds_pool := es_pool e\<rparr>);
     Some (e\<lparr>es_pool := ds_pool s, es_world := w\<lparr>w_ext := s\<lparr>ds_pool := ds_pool (w_ext w)\<rparr>\<rparr>\<rparr>)
   }"

section \<open>Sending events\<close>

definition send_event ::
  "db_env \<Rightarrow> 'x redis_api \<Rightarrow> cps_obj \<Rightarrow> db_connection \<Rightarrow> 'x db_state \<Rightarrow>
     (bool \<times> db_connection \<times> 'x db_state) option" where
  "send_event K A obj conn s =
     queue_request K A [from_string publish_literal, for_event obj] False conn s"

fun drain_connection ::
  "db_env \<Rightarrow> 'x redis_api \<Rightarrow> ev_flags \<Rightarrow> nat \<Rightarrow> db_connection \<Rightarrow> 'x \<Rightarrow> (bool \<times> db_connection \<times> 'x) option" where
  "drain_connection K A F 0 conn x = Some (True, conn, x)"
| "drain_connection K A F (Suc n) conn x = do {
     (ok, _, _, conn, x) \<leftarrow> connection_response K A [] (ef_flush_timeout F) True conn x;
     if \<not> ok then do {
       (_, conn, x) \<leftarrow> connection_reconnect K A conn x;
       Some (False, conn, x)
     }
     else drain_connection K A F n conn x
   }"

text \<open>What \<open>_process_list\<close> keeps between entries: the address and connection in use and the number sent on it.\<close>

record push_conn =
  pc_addr :: bytes
  pc_conn :: "db_connection option"
  pc_sent :: nat

text \<open>The end of the work on a connection: flush, wait for the answers, and give it back to the pool.\<close>

definition finish_connection ::
  "db_env \<Rightarrow> 'x redis_api \<Rightarrow> ev_flags \<Rightarrow> bytes \<Rightarrow> nat \<Rightarrow> db_connection \<Rightarrow> 'x ev_state \<Rightarrow> 'x ev_state option" where
  "finish_connection K A F addr wait_for conn e = do {
     let w = es_world e;
     (ok, _, conn, x) \<leftarrow> connection_flush K A (ef_flush_timeout F) conn (ds_net (w_ext w));
     (_, conn, x) \<leftarrow> (if ok then drain_connection K A F wait_for conn x else Some (False, conn, x));
     events_cache_put K A addr conn (e\<lparr>es_world := w\<lparr>w_ext := (w_ext w)\<lparr>ds_net := x\<rparr>\<rparr>\<rparr>)
   }"

text \<open>
  \<open>_change_connection\<close>. With an empty new address the connection pointer stays where it was, but
  the connection belongs to the pool then and is not used again.
\<close>

definition change_connection ::
  "db_env \<Rightarrow> 'x redis_api \<Rightarrow> ev_flags \<Rightarrow> bytes \<Rightarrow> push_conn \<Rightarrow> 'x ev_state \<Rightarrow>
     (bool \<times> push_conn \<times> 'x ev_state) option" where
  "change_connection K A F new_addr pc e = do {
     e \<leftarrow> (case pc_conn pc of
            None \<Rightarrow> Some e
          | Some conn \<Rightarrow> finish_connection K A F (pc_addr pc) (pc_sent pc) conn e);
     let pc = pc\<lparr>pc_addr := []\<rparr>;
     if new_addr = [] then Some (True, pc\<lparr>pc_conn := None\<rparr>, e)
     else do {
       (conn, e) \<leftarrow> events_cache_get K A new_addr e;
       Some (conn \<noteq> None, pc\<lparr>pc_conn := conn, pc_addr := if conn = None then [] else new_addr\<rparr>, e)
     }
   }"

definition ev_delete :: "nat \<Rightarrow> 'x ev_state \<Rightarrow> 'x ev_state option" where
  "ev_delete a e = do {
     h \<leftarrow> cps_api_object_delete (w_heap (es_world e)) (Some a);
     Some (e\<lparr>es_world := (es_world e)\<lparr>w_heap := h\<rparr>\<rparr>)
   }"

text \<open>The object gets the process and a sequence number, and is queued on the connection.\<close>

definition push_event ::
  "db_env \<Rightarrow> 'x redis_api \<Rightarrow> ev_flags \<Rightarrow> nat \<Rightarrow> db_connection \<Rightarrow> 'x ev_state \<Rightarrow>
     (bool \<times> db_connection \<times> 'x ev_state) option" where
  "push_event K A F a conn e = do {
     let w = es_world e;
     p \<leftarrow> hp_objs (w_heap w) a;
     (_, p) \<leftarrow> cps_api_object_attr_add_u64 (de_tlv K) (de_libc K) p CPS_OBJECT_GROUP_THREAD_ID (ef_pid F);
     (_, p) \<leftarrow> cps_api_object_attr_add_u64 (de_tlv K) (de_libc K) p CPS_OBJECT_GROUP_SEQUENCE (of_nat (es_pushed e));
     let w = obj_put w a p;
     (ok, conn, s) \<leftarrow> send_event K A p conn (w_ext w);
     Some (ok, conn, e\<lparr>es_world := w\<lparr>w_ext := s\<rparr>\<rparr>)
   }"

text \<open>
  One entry of the loop of \<open>_process_list\<close>: whether the loop goes on, and the pointer left in the
  entry.
\<close>

definition process_one ::
  "db_env \<Rightarrow> 'x redis_api \<Rightarrow> ev_flags \<Rightarrow> ev_elem \<Rightarrow> push_conn \<Rightarrow> 'x ev_state \<Rightarrow>
     (bool \<times> obj_ptr \<times> push_conn \<times> 'x ev_state) option" where
  "process_one K A F it pc e =
     (case snd it of
        None \<Rightarrow> Some (True, None, pc, e)
      | Some a \<Rightarrow> do {
          let addr = (if fst it = [] then DEFAULT_REDIS_ADDR else fst it);
          (ok, pc, e) \<leftarrow> (if pc_addr pc \<noteq> addr then do {
              (ok, pc, e) \<leftarrow> change_connection K A F addr pc e;
              Some (ok, if ok then pc\<lparr>pc_sent := 0\<rparr> else pc, e)
            }
            else Some (True, pc, e));
          if \<not> ok then do {
            e \<leftarrow> ev_delete a e;
            Some (False, None, pc, e)
          }
          else (case pc_conn pc of
             None \<Rightarrow> Some (False, Some a, pc, e)
           | Some conn \<Rightarrow> do {
               (ok, conn, e) \<leftarrow> push_event K A F a conn e;
               let pc = pc\<lparr>pc_conn := Some conn\<rparr>;
               if \<not> ok then Some (False, Some a, pc, e)
               else do {
                 e \<leftarrow> ev_delete a (e\<lparr>es_pushed := sz_add (es_pushed e) 1\<rparr>);
                 Some (True, None, pc\<lparr>pc_sent := sz_add (pc_sent pc) 1\<rparr>, e)
               }
             })
        })"

fun process_loop ::
  "db_env \<Rightarrow> 'x redis_api \<Rightarrow> ev_flags \<Rightarrow> ev_elem list \<Rightarrow> push_conn \<Rightarrow> 'x ev_state \<Rightarrow>
     (bool \<times> ev_elem list \<times> push_conn \<times> 'x ev_state) option" where
  "process_loop K A F [] pc e = Some (True, [], pc, e)"
| "process_loop K A F (it # its) pc e = do {
     (go, p, pc, e) \<leftarrow> process_one K A F it pc e;
     if go then do {
       (ok, its, pc, e) \<leftarrow> process_loop K A F its pc e;
       Some (ok, (fst it, p) # its, pc, e)
     }
     else Some (False, (fst it, p) # its, pc, e)
   }"

definition no_connection :: push_conn where
  "no_connection = \<lparr>pc_addr = [], pc_conn = None, pc_sent = 0\<rparr>"

text \<open>After the loop the connection in use is finished.\<close>

definition process_end ::
  "db_env \<Rightarrow> 'x redis_api \<Rightarrow> ev_flags \<Rightarrow> push_conn \<Rightarrow> 'x ev_state \<Rightarrow> 'x ev_state option" where
  "process_end K A F pc e =
     (if pc_conn pc = None then Some e
      else do {
        (_, _, e) \<leftarrow> change_connection K A F [] pc e;
        Some e
      })"

definition process_list ::
  "db_env \<Rightarrow> 'x redis_api \<Rightarrow> ev_flags \<Rightarrow> ev_elem list \<Rightarrow> 'x ev_state \<Rightarrow>
     (bool \<times> ev_elem list \<times> 'x ev_state) option" where
  "process_list K A F current e = do {
     (ok, current, pc, e) \<leftarrow> process_loop K A F current no_connection e;
     e \<leftarrow> process_end K A F pc e;
     Some (ok, current, e)
   }"

section \<open>The thread\<close>

text \<open>\<open>_remove_x_events\<close> deletes the objects of the entries \<open>ix\<close> to \<open>mx\<close> and erases the entries.\<close>

definition remove_x_events ::
  "nat \<Rightarrow> nat \<Rightarrow> ev_elem list \<Rightarrow> obj_heap \<Rightarrow> (ev_elem list \<times> obj_heap) option" where
  "remove_x_events ix mx events h = do {
     let mx = min mx (length events);
     if mx < ix then None
     else do {
       h \<leftarrow> delete_all h (map snd (take (mx - ix) (drop ix events)));
       Some (take ix events @ drop mx events, h)
     }
   }"

definition limit_events :: "ev_elem list \<Rightarrow> nat \<Rightarrow> obj_heap \<Rightarrow> (ev_elem list \<times> obj_heap) option" where
  "limit_events lst limit h =
     (if length lst > limit then remove_x_events (length lst - limit) (length lst) lst h else Some (lst, h))"

text \<open>The decision of the thread after a wait: its error count and its wait time.\<close>

datatype thread_wake = Wake_abort | Wake_again nat nat | Wake_process nat

definition MAX_ERROR_RETRY :: nat where "MAX_ERROR_RETRY = 5"
definition MAX_PENDING :: nat where "MAX_PENDING = 50"
definition MAX_WAIT :: nat where "MAX_WAIT = 1000"

definition thread_wakeup :: "bool \<Rightarrow> bool \<Rightarrow> nat \<Rightarrow> nat \<Rightarrow> nat \<Rightarrow> thread_wake" where
  "thread_wakeup wait_ok timedout queue_len failed_counter current_timeout =
     (if \<not> wait_ok then
        (if failed_counter + 1 > MAX_ERROR_RETRY then Wake_abort
         else Wake_again (failed_counter + 1) current_timeout)
      else
        (let current_timeout = (if timedout then current_timeout else 1) in
         if \<not> timedout \<and> \<not> queue_len > MAX_PENDING then Wake_again 0 current_timeout
         else if queue_len = 0 then Wake_again 0 (min (current_timeout * 2) MAX_WAIT)
         else Wake_process current_timeout))"

text \<open>The thread takes the whole queue, and puts back what is left when sending stopped.\<close>

definition thread_take :: "'x ev_state \<Rightarrow> ev_elem list \<times> 'x ev_state" where
  "thread_take e = (es_events e, e\<lparr>es_events := []\<rparr>)"

definition thread_put_back ::
  "ev_flags \<Rightarrow> ev_elem list \<Rightarrow> 'x ev_state \<Rightarrow> 'x ev_state option" where
  "thread_put_back F current e = do {
     (current, events, h) \<leftarrow>
       (if length (es_events e) > ef_redline F then do {
          (current, h) \<leftarrow> limit_events current (ef_max_inflight F) (w_heap (es_world e));
          (events, h) \<leftarrow> limit_events (es_events e) (sz_sub (ef_max_inflight F) (length current)) h;
          Some (current, events, h)
        }
        else Some (current, es_events e, w_heap (es_world e)));
     Some (e\<lparr>es_events := current @ events, es_world := (es_world e)\<lparr>w_heap := h\<rparr>\<rparr>)
   }"

section \<open>Publishing\<close>

text \<open>Whether the vector of events can grow to a number of entries.\<close>

definition events_ok :: "libc \<Rightarrow> nat \<Rightarrow> bool" where
  "events_ok E n = alloc_ok E (40 * n)"

text \<open>
  \<open>publish\<close>: the copy is made first; a queue over its limit refuses the event after a short sleep; when
  the vector cannot grow, the reference for the entry is already taken.
\<close>

definition publish ::
  "db_env \<Rightarrow> ev_flags \<Rightarrow> db_connection \<Rightarrow> nat \<Rightarrow> 'x ev_state \<Rightarrow> (bool \<times> 'x ev_state) option" where
  "publish K F conn obj e = do {
     (og, h) \<leftarrow> cps_api_object_create (de_libc K) (w_heap (es_world e));
     (_, h) \<leftarrow> heap_clone (de_libc K) h og obj;
     (ok, events, h) \<leftarrow>
       (if length (es_events e) > ef_max_inflight F then Some (False, es_events e, h)
        else do {
          (r, h) \<leftarrow> cps_api_object_reference h (Some og) False;
          Some (if events_ok (de_libc K) (length (es_events e) + 1)
                then (True, es_events e @ [(cn_addr conn, r)], h)
                else (False, es_events e, h))
        });
     h \<leftarrow> cps_api_object_delete h (Some og);
     Some (ok, e\<lparr>es_events := events, es_published := (if ok then sz_add (es_published e) 1 else es_published e),
       es_world := (es_world e)\<lparr>w_heap := h\<rparr>\<rparr>)
   }"

text \<open>At exit the queue is processed where it is.\<close>

definition events_flush :: "db_env \<Rightarrow> 'x redis_api \<Rightarrow> ev_flags \<Rightarrow> 'x ev_state \<Rightarrow> 'x ev_state option" where
  "events_flush K A F e = do {
     (_, events, e) \<leftarrow> process_list K A F (es_events e) e;
     Some (e\<lparr>es_events := events\<rparr>)
   }"

end
