(* ===== verification/Cps_Operation_Tools.thy ===== *)
theory Cps_Operation_Tools
  imports Cps_Operation
begin

text \<open>
  Requests of one object with retries (\<open>src/non-core/cps_api_operation_tools.cpp\<close>). The sleep between two
  attempts is a function on the world; with a retry count of zero the loops have no bound.
\<close>

definition BASIC_WAIT_TIME :: nat where "BASIC_WAIT_TIME = 200"

definition wait_micro :: "nat \<Rightarrow> nat" where
  "wait_micro ms = ((if ms = 0 then BASIC_WAIT_TIME else ms) * 1000) mod size_lim"

text \<open>
  The loop of both functions: \<open>retry_count\<close> is \<open>None\<close> when the number of attempts is not limited. An attempt
  gives the return code, its data and the world.
\<close>

partial_function (option) retry_loop ::
  "('c \<Rightarrow> 'w \<Rightarrow> (cps_api_return_code_t \<times> 'c \<times> 'w) option) \<Rightarrow> ('w \<Rightarrow> 'w) \<Rightarrow> nat option \<Rightarrow>
     cps_api_return_code_t \<Rightarrow> 'c \<Rightarrow> 'w \<Rightarrow> (cps_api_return_code_t \<times> 'c \<times> 'w) option" where
  "retry_loop attempt sleep retry_count rc c w =
     (if retry_count = Some 0 then Some (rc, c, w)
      else do {
        (rc, c, w) \<leftarrow> attempt c w;
        if rc = cps_api_ret_code_OK then Some (rc, c, w)
        else retry_loop attempt sleep (map_option (\<lambda>n. n - 1) retry_count) rc c (sleep w)
      })"

definition retry_limit :: "nat \<Rightarrow> nat option" where
  "retry_limit n = (if n = 0 then None else Some n)"

text \<open>The object stays with the caller: it leaves the list before the transaction is closed.\<close>

definition cps_api_commit_one ::
  "cps_env \<Rightarrow> 'x req_backend \<Rightarrow> (nat \<Rightarrow> 'x cps_world \<Rightarrow> 'x cps_world) \<Rightarrow> u32 \<Rightarrow> nat \<Rightarrow> nat \<Rightarrow> nat \<Rightarrow>
     'x cps_world \<Rightarrow> (cps_api_return_code_t \<times> 'x cps_world) option" where
  "cps_api_commit_one N B usleep type obj retry_count ms_delay_between w = do {
     let tr = snd cps_api_transaction_init;
     p \<leftarrow> hp_objs (w_heap w) obj;
     k \<leftarrow> cps_api_key_set_attr (obj_key p) type;
     let w = obj_put w obj (p\<lparr>obj_key := k\<rparr>);
     (case cps_api_object_list_append (en_libc N) (tr_change_list tr) (Some obj) of
        (False, _) \<Rightarrow> do {
          (_, h) \<leftarrow> cps_api_transaction_close tr (w_heap w);
          Some (cps_api_ret_code_ERR, w\<lparr>w_heap := h\<rparr>)
        }
      | (True, l) \<Rightarrow> do {
          (rc, tr, w) \<leftarrow> retry_loop (cps_api_commit N B) (usleep (wait_micro ms_delay_between))
            (retry_limit retry_count) cps_api_ret_code_ERR (tr\<lparr>tr_change_list := l\<rparr>) w;
          let tr = tr\<lparr>tr_change_list := cps_api_object_list_remove (tr_change_list tr) 0\<rparr>;
          (_, h) \<leftarrow> cps_api_transaction_close tr (w_heap w);
          Some (rc, w\<lparr>w_heap := h\<rparr>)
        })
   }"

text \<open>The results go to the caller's list; the request's own list stays empty.\<close>

definition cps_api_get_objs ::
  "cps_env \<Rightarrow> 'x req_backend \<Rightarrow> (nat \<Rightarrow> 'x cps_world \<Rightarrow> 'x cps_world) \<Rightarrow> nat \<Rightarrow> obj_list \<Rightarrow> nat \<Rightarrow> nat \<Rightarrow>
     'x cps_world \<Rightarrow> (cps_api_return_code_t \<times> obj_list \<times> 'x cps_world) option" where
  "cps_api_get_objs N B usleep filt obj_list retry_count ms_delay_between w = do {
     let get_req = snd cps_api_get_request_init;
     filters \<leftarrow> gp_filters get_req;
     (obj, filters, h) \<leftarrow> cps_api_object_list_create_obj_and_append (en_libc N) (w_heap w) filters;
     let get_req = get_req\<lparr>gp_filters := Some filters\<rparr>;
     (ok, h) \<leftarrow> (case obj of None \<Rightarrow> Some (False, h) | Some a \<Rightarrow> heap_clone (en_libc N) h a filt);
     let w = w\<lparr>w_heap := h\<rparr>;
     if \<not> ok then do {
       (_, h) \<leftarrow> cps_api_get_request_close get_req (w_heap w);
       Some (cps_api_ret_code_ERR, obj_list, w\<lparr>w_heap := h\<rparr>)
     }
     else do {
       let tmp_lst = gp_list get_req;
       (rc, get_req, w) \<leftarrow> retry_loop (cps_api_get N B) (usleep (wait_micro ms_delay_between))
         (retry_limit retry_count) cps_api_ret_code_OK (get_req\<lparr>gp_list := obj_list\<rparr>) w;
       let obj_list = gp_list get_req;
       (_, h) \<leftarrow> cps_api_get_request_close (get_req\<lparr>gp_list := tmp_lst\<rparr>) (w_heap w);
       Some (rc, obj_list, w\<lparr>w_heap := h\<rparr>)
     }
   }"

end
