(* ===== verification/Cps_Db_Node.thy ===== *)
theory Cps_Db_Node
  imports Cps_Db_Events Cps_Operation_Tools Cps_Service
begin

text \<open>
  Node groups (\<open>src/non-core/cps_api_node.cpp\<close>, \<open>src/db/cps_api_db_node_set.cpp\<close> and
  \<open>inc/opx/private/cps_api_node_private.h\<close>): a group is a name for the addresses of the databases that hold an
  object. The groups are objects of the local database and are loaded into tables; in a group with 1+1
  redundancy one node is the master and the others replicate it.

  The world of these operations has the database connections, the queue of events, the tables and the time of
  the last load next to the object heap. \<open>std_parse_string\<close> of the std library and the hash of strings of the
  C++ library are parameters.
\<close>

section \<open>Classes and attributes\<close>

text \<open>From \<open>inc/opx/dell-cps.h\<close>.\<close>

definition CPS_GROUP_TYPE_NODAL :: nat where "CPS_GROUP_TYPE_NODAL = 1"
definition CPS_GROUP_TYPE_GLOBAL :: nat where "CPS_GROUP_TYPE_GLOBAL = 2"
definition CPS_CONNECTIVITY_GROUP :: u64 where "CPS_CONNECTIVITY_GROUP = 131132"
definition CPS_CONNECTIVITY_GROUP_NAME :: u64 where "CPS_CONNECTIVITY_GROUP_NAME = 131124"
definition CPS_CONNECTIVITY_GROUP_NODE :: u64 where "CPS_CONNECTIVITY_GROUP_NODE = 131126"
definition CPS_CONNECTIVITY_GROUP_TYPE :: u64 where "CPS_CONNECTIVITY_GROUP_TYPE = 131127"
definition CPS_CONNECTIVITY_GROUP_NODE_NAME :: u64 where "CPS_CONNECTIVITY_GROUP_NODE_NAME = 131120"
definition CPS_CONNECTIVITY_GROUP_NODE_TUNNEL_IP :: u64 where "CPS_CONNECTIVITY_GROUP_NODE_TUNNEL_IP = 131122"
definition CPS_DB_INSTANCE_OBJ :: u64 where "CPS_DB_INSTANCE_OBJ = 131095"
definition CPS_DB_INSTANCE_GROUP :: u64 where "CPS_DB_INSTANCE_GROUP = 131079"
definition CPS_DB_INSTANCE_NODE_ID :: u64 where "CPS_DB_INSTANCE_NODE_ID = 131097"
definition CPS_DB_INSTANCE_PORT :: u64 where "CPS_DB_INSTANCE_PORT = 131081"
definition CPS_NODE_GROUP :: u64 where "CPS_NODE_GROUP = 131092"
definition CPS_NODE_DETAILS :: u64 where "CPS_NODE_DETAILS = 131091"
definition CPS_NODE_DETAILS_NAME :: u64 where "CPS_NODE_DETAILS_NAME = 131082"
definition CPS_NODE_DETAILS_ALIAS :: u64 where "CPS_NODE_DETAILS_ALIAS = 131083"

definition cps_api_qualifier_TARGET :: u32 where "cps_api_qualifier_TARGET = 1"

section \<open>State\<close>

record node_data =
  gn_addrs :: "bytes list"
  gn_type :: nat

record db_node_data =
  dn_addr :: bytes
  dn_name :: bytes

text \<open>The class \<open>cps_api_nodes\<close>. Only one function walks over a table, and the order does not matter to it.\<close>

record cps_api_nodes =
  no_ip_to_name :: "(bytes \<times> bytes) list"
  no_master_set :: "bytes set"
  no_groups :: "(bytes \<times> node_data) list"
  no_hash :: u64
  no_alias :: "(bytes \<times> bytes) list"
  no_db_node :: "(bytes \<times> db_node_data list) list"
  no_master :: "bytes \<rightharpoonup> bytes"

record node_env =
  ne_db :: db_env
  ne_ev :: ev_flags
  ne_parse :: "bytes \<Rightarrow> bytes \<Rightarrow> bytes list"
  ne_strhash :: "bytes \<Rightarrow> u64"

record 'x node_state =
  nw_db :: "'x db_state"
  nw_events :: "ev_elem list"
  nw_published :: nat
  nw_pushed :: nat
  nw_ev_pool :: "bytes \<rightharpoonup> db_connection list"
  nw_nodes :: cps_api_nodes
  nw_last_loaded :: u64

type_synonym 'x node_world = "'x node_state cps_world"

abbreviation nw_tlv :: "node_env \<Rightarrow> std_tlv_api" where "nw_tlv N \<equiv> de_tlv (ne_db N)"
abbreviation nw_libc :: "node_env \<Rightarrow> libc" where "nw_libc N \<equiv> de_libc (ne_db N)"

definition db_of :: "'x node_world \<Rightarrow> 'x db_state" where
  "db_of w = nw_db (w_ext w)"

definition set_db :: "'x node_world \<Rightarrow> 'x db_state \<Rightarrow> 'x node_world" where
  "set_db w s = w\<lparr>w_ext := (w_ext w)\<lparr>nw_db := s\<rparr>\<rparr>"

definition db_world :: "'x node_world \<Rightarrow> 'x db_world" where
  "db_world w = \<lparr>w_heap = w_heap w, w_ext = db_of w\<rparr>"

definition set_db_world :: "'x node_world \<Rightarrow> 'x db_world \<Rightarrow> 'x node_world" where
  "set_db_world w v = (set_db w (w_ext v))\<lparr>w_heap := w_heap v\<rparr>"

definition nodes_of :: "'x node_world \<Rightarrow> cps_api_nodes" where
  "nodes_of w = nw_nodes (w_ext w)"

definition set_nodes :: "'x node_world \<Rightarrow> cps_api_nodes \<Rightarrow> 'x node_world" where
  "set_nodes w n = w\<lparr>w_ext := (w_ext w)\<lparr>nw_nodes := n\<rparr>\<rparr>"

text \<open>
  A \<open>connection_request\<close> with the code that uses it: \<open>none\<close> is the result when there is no connection; the
  destructor gives the connection back.
\<close>

definition on_connection ::
  "node_env \<Rightarrow> 'x redis_api \<Rightarrow> bytes \<Rightarrow> 'r \<Rightarrow>
     (db_connection \<Rightarrow> 'x node_world \<Rightarrow> ('r \<times> db_connection \<times> 'x node_world) option) \<Rightarrow> 'x node_world \<Rightarrow>
     ('r \<times> 'x node_world) option" where
  "on_connection N A addr none body w = do {
     (r, s) \<leftarrow> connection_request (ne_db N) A addr (db_of w);
     let w = set_db w s;
     (case r of
        None \<Rightarrow> Some (none, w)
      | Some conn \<Rightarrow> do {
          (v, conn, w) \<leftarrow> body conn w;
          s \<leftarrow> connection_release (ne_db N) A addr (Some conn) (db_of w);
          Some (v, set_db w s)
        })
   }"

text \<open>Publishing puts the event on the queue of the world.\<close>

definition node_publish ::
  "node_env \<Rightarrow> db_connection \<Rightarrow> nat \<Rightarrow> 'x node_world \<Rightarrow> (bool \<times> 'x node_world) option" where
  "node_publish N conn obj w = do {
     let x = w_ext w;
     (ok, e) \<leftarrow> publish (ne_db N) (ne_ev N) conn obj \<lparr>es_events = nw_events x, es_published = nw_published x,
       es_pushed = nw_pushed x, es_pool = nw_ev_pool x, es_world = db_world w\<rparr>;
     let x = x\<lparr>nw_events := es_events e, nw_published := es_published e, nw_pushed := es_pushed e,
       nw_ev_pool := es_pool e\<rparr>;
     Some (ok, set_db_world (w\<lparr>w_ext := x\<rparr>) (es_world e))
   }"

text \<open>Objects of the heap: an operation on one, the end of a guard, a new object with the key of a class.\<close>

definition on_object ::
  "nat \<Rightarrow> (cps_obj \<Rightarrow> ('r \<times> cps_obj) option) \<Rightarrow> 'x cps_world \<Rightarrow> ('r \<times> 'x cps_world) option" where
  "on_object a f w = do {
     p \<leftarrow> hp_objs (w_heap w) a;
     (r, p) \<leftarrow> f p;
     Some (r, obj_put w a p)
   }"

definition guard_end :: "nat \<Rightarrow> 'x cps_world \<Rightarrow> 'x cps_world option" where
  "guard_end og w = do {
     h \<leftarrow> cps_api_object_delete (w_heap w) (Some og);
     Some (w\<lparr>w_heap := h\<rparr>)
   }"

definition class_object ::
  "node_env \<Rightarrow> u64 \<Rightarrow> u32 \<Rightarrow> 'x node_world \<Rightarrow> (bool \<times> nat \<times> 'x node_world) option" where
  "class_object N i qual w = do {
     (og, h) \<leftarrow> cps_api_object_create (nw_libc N) (w_heap w);
     (ok, w) \<leftarrow> on_object og (\<lambda>p. do {
        (ok, k) \<leftarrow> cps_api_key_from_attr_with_qual (ds_dict (db_of w)) (obj_key p) i qual;
        Some (ok, p\<lparr>obj_key := k\<rparr>)
      }) (w\<lparr>w_heap := h\<rparr>);
     Some (ok, og, w)
   }"

section \<open>Strings\<close>

text \<open>A C string at an address of a buffer; reading past the end of the buffer is undefined.\<close>

definition str_at :: "bytes \<Rightarrow> nat \<Rightarrow> bytes option" where
  "str_at m p = (if 0 \<in> set (drop p m) then Some (c_str (drop p m)) else None)"

text \<open>The bytes of a C string with its end.\<close>

definition c_bytes :: "bytes \<Rightarrow> bytes" where
  "c_bytes s = c_str s @ [0]"

text \<open>\<open>strncmp(s,t,strlen(t))==0\<close>.\<close>

definition strncmp_eq :: "bytes \<Rightarrow> bytes \<Rightarrow> bool" where
  "strncmp_eq s t \<longleftrightarrow> take (length (c_str t)) (c_str s) = c_str t"

text \<open>\<open>127.0.0.1\<close>.\<close>

definition get_local_ip :: bytes where
  "get_local_ip = [49, 50, 55, 46, 48, 46, 48, 46, 49]"

definition add_string ::
  "node_env \<Rightarrow> u64 \<Rightarrow> bytes \<Rightarrow> cps_obj \<Rightarrow> (bool \<times> cps_obj) option" where
  "add_string N i s p = cps_api_object_attr_add (nw_tlv N) (nw_libc N) p i (c_bytes s) (length (c_bytes s))"

definition set_key_string ::
  "node_env \<Rightarrow> u64 \<Rightarrow> bytes \<Rightarrow> cps_obj \<Rightarrow> (bool \<times> cps_obj) option" where
  "set_key_string N i s p = cps_api_set_key_data (nw_tlv N) (nw_libc N) p i cps_api_object_ATTR_T_BIN (c_bytes s)
     (length (c_bytes s))"

section \<open>Group and node of an object\<close>

definition cps_api_key_del_node_attrs :: "std_tlv_api \<Rightarrow> cps_obj \<Rightarrow> cps_obj option" where
  "cps_api_key_del_node_attrs T obj = do {
     obj \<leftarrow> delete_until_gone T obj CPS_OBJECT_GROUP_GROUP;
     delete_until_gone T obj CPS_OBJECT_GROUP_NODE
   }"

definition cps_api_key_set_group :: "node_env \<Rightarrow> bytes \<Rightarrow> cps_obj \<Rightarrow> (bool \<times> cps_obj) option" where
  "cps_api_key_set_group N grp obj = do {
     (_, obj) \<leftarrow> cps_api_object_attr_delete (nw_tlv N) obj CPS_OBJECT_GROUP_GROUP;
     add_string N CPS_OBJECT_GROUP_GROUP grp obj
   }"

definition cps_api_key_is_local_group :: "bytes \<Rightarrow> bool" where
  "cps_api_key_is_local_group node_name \<longleftrightarrow> c_str node_name = DEFAULT_REDIS_ADDR"

definition cps_api_key_get_group :: "std_tlv_api \<Rightarrow> cps_obj \<Rightarrow> bytes option" where
  "cps_api_key_get_group T obj =
     (case cps_api_object_get_data T obj CPS_OBJECT_GROUP_GROUP of
        None \<Rightarrow> Some DEFAULT_REDIS_ADDR
      | Some p \<Rightarrow> str_at (obj_buf obj) p)"

definition cps_api_key_set_node :: "node_env \<Rightarrow> bytes \<Rightarrow> cps_obj \<Rightarrow> (bool \<times> cps_obj) option" where
  "cps_api_key_set_node N node obj = do {
     (_, obj) \<leftarrow> cps_api_object_attr_delete (nw_tlv N) obj CPS_OBJECT_GROUP_NODE;
     add_string N CPS_OBJECT_GROUP_NODE node obj
   }"

definition cps_api_key_get_node :: "std_tlv_api \<Rightarrow> cps_obj \<Rightarrow> bytes option option" where
  "cps_api_key_get_node T obj =
     (case cps_api_object_get_data T obj CPS_OBJECT_GROUP_NODE of
        None \<Rightarrow> Some None
      | Some p \<Rightarrow> map_option Some (str_at (obj_buf obj) p))"

section \<open>Tables\<close>

definition group_addresses :: "cps_api_nodes \<Rightarrow> bytes \<Rightarrow> bytes list option" where
  "group_addresses n grp = map_option gn_addrs (umap_find (no_groups n) grp)"

fun gen_hash :: "(bytes \<Rightarrow> u64) \<Rightarrow> (bytes \<times> node_data) list \<Rightarrow> u64 \<Rightarrow> u64" where
  "gen_hash h [] rc = rc"
| "gen_hash h ((g, d) # src) rc = gen_hash h src (fold (\<lambda>a rc. h a + rc) (gn_addrs d) (h g + rc))"

definition nodes_ip_to_name :: "cps_api_nodes \<Rightarrow> bytes \<Rightarrow> bytes option" where
  "nodes_ip_to_name n ip = umap_find (no_ip_to_name n) (c_str ip)"

definition nodes_part_of :: "cps_api_nodes \<Rightarrow> bytes \<Rightarrow> bytes \<Rightarrow> bool" where
  "nodes_part_of n grp addr =
     (case umap_find (no_groups n) (c_str grp) of None \<Rightarrow> False | Some d \<Rightarrow> c_str addr \<in> set (gn_addrs d))"

definition nodes_addr :: "cps_api_nodes \<Rightarrow> bytes \<Rightarrow> bytes option" where
  "nodes_addr n addr = map_option c_str (umap_find (no_alias n) (c_str addr))"

definition get_group_type :: "cps_api_nodes \<Rightarrow> bytes \<Rightarrow> nat option" where
  "get_group_type n grp = map_option gn_type (umap_find (no_groups n) grp)"

definition group_exists :: "cps_api_nodes \<Rightarrow> bytes \<Rightarrow> bool" where
  "group_exists n grp \<longleftrightarrow> umap_find (no_groups n) grp \<noteq> None"

definition is_master_set :: "cps_api_nodes \<Rightarrow> bytes \<Rightarrow> bool" where
  "is_master_set n grp \<longleftrightarrow> grp \<in> no_master_set n"

definition mark_master_set :: "bytes \<Rightarrow> cps_api_nodes \<Rightarrow> cps_api_nodes" where
  "mark_master_set grp n = n\<lparr>no_master_set := insert grp (no_master_set n)\<rparr>"

definition remove_master_set :: "bytes \<Rightarrow> cps_api_nodes \<Rightarrow> cps_api_nodes" where
  "remove_master_set grp n = n\<lparr>no_master_set := no_master_set n - {grp}\<rparr>"

definition cps_api_db_get_node_from_ip :: "bytes \<Rightarrow> 'x node_world \<Rightarrow> bytes option" where
  "cps_api_db_get_node_from_ip ip w = nodes_ip_to_name (nodes_of w) ip"

section \<open>Loading\<close>

text \<open>The port of the database instance of a node, \<open>None\<close> for \<open>false\<close>.\<close>

definition get_port_info ::
  "node_env \<Rightarrow> 'x redis_api \<Rightarrow> bytes \<Rightarrow> bytes \<Rightarrow> 'x node_world \<Rightarrow> (bytes option \<times> 'x node_world) option" where
  "get_port_info N A grp name w = do {
     (ok, og, w) \<leftarrow> class_object N CPS_DB_INSTANCE_OBJ cps_api_qualifier_TARGET w;
     (r, w) \<leftarrow>
       (if \<not> ok then Some (None, w)
        else on_connection N A DEFAULT_REDIS_ADDR None (\<lambda>conn w. do {
          (_, w) \<leftarrow> on_object og (set_key_string N CPS_DB_INSTANCE_GROUP grp) w;
          (_, w) \<leftarrow> on_object og (set_key_string N CPS_DB_INSTANCE_NODE_ID name) w;
          p \<leftarrow> hp_objs (w_heap w) og;
          (ok, p, conn, s) \<leftarrow> get_object (ne_db N) A p conn (db_of w);
          let w = obj_put (set_db w s) og p;
          (case (if ok then cps_api_object_get_data (nw_tlv N) p CPS_DB_INSTANCE_PORT else None) of
             None \<Rightarrow> Some (None, conn, w)
           | Some d \<Rightarrow> do {
               port \<leftarrow> str_at (obj_buf p) d;
               Some (Some port, conn, w)
             })
        }) w);
     w \<leftarrow> guard_end og w;
     Some (r, w)
   }"

text \<open>The nodes not left out by \<open>skip\<close> become slaves of the master; the first failure ends the loop.\<close>

fun make_slaves ::
  "node_env \<Rightarrow> 'x redis_api \<Rightarrow> (db_node_data \<Rightarrow> bool) \<Rightarrow> bytes \<Rightarrow> db_node_data list \<Rightarrow> 'x node_world \<Rightarrow>
     (bool \<times> 'x node_world) option" where
  "make_slaves N A skip master [] w = Some (True, w)"
| "make_slaves N A skip master (n # ns) w =
     (if skip n then make_slaves N A skip master ns w
      else do {
        (ok, w) \<leftarrow> on_connection N A (dn_addr n) False (\<lambda>conn w. do {
          (ok, conn, s) \<leftarrow> make_slave (ne_db N) A (ne_parse N) master conn (db_of w);
          Some (ok, conn, set_db w s)
        }) w;
        if ok then make_slaves N A skip master ns w else Some (False, w)
      })"

definition update_slaves ::
  "node_env \<Rightarrow> 'x redis_api \<Rightarrow> bytes \<Rightarrow> 'x node_world \<Rightarrow> (bool \<times> 'x node_world) option" where
  "update_slaves N A grp w =
     (case no_master (nodes_of w) grp of
        None \<Rightarrow> Some (True, w)
      | Some master \<Rightarrow>
          (case umap_find (no_db_node (nodes_of w)) grp of
             None \<Rightarrow> Some (False, w)
           | Some ns \<Rightarrow>
               if strncmp_eq master get_local_ip then Some (True, w)
               else make_slaves N A (\<lambda>n. strncmp_eq (dn_addr n) master) master ns w))"

text \<open>One node of a group, with the addresses and the database nodes collected so far.\<close>

definition load_node ::
  "node_env \<Rightarrow> 'x redis_api \<Rightarrow> bytes \<Rightarrow> nat \<Rightarrow> bytes \<Rightarrow> bytes \<Rightarrow> bytes list \<Rightarrow> db_node_data list \<Rightarrow>
     'x node_world \<Rightarrow> (bool \<times> bytes list \<times> db_node_data list \<times> 'x node_world) option" where
  "load_node N A grp type ip name addrs v w = do {
     let n = nodes_of w;
     let w = set_nodes w (n\<lparr>no_ip_to_name := umap_set (no_ip_to_name n) ip name,
       no_alias := umap_set (no_alias n) name ip\<rparr>);
     (ok, v, w) \<leftarrow>
       (if type = CPS_GROUP_TYPE_GLOBAL then do {
          (port, w) \<leftarrow> get_port_info N A grp name w;
          Some (case port of
             None \<Rightarrow> (True, v, w)
           | Some port \<Rightarrow>
               (case string_split (ne_parse N) ip [58] of
                  [a, b] \<Rightarrow> (True, v @ [\<lparr>dn_addr = a @ 58 # port, dn_name = name\<rparr>], w)
                | _ \<Rightarrow> (False, v, w)))
        }
        else Some (True, v, w));
     if \<not> ok then Some (False, addrs, v, w)
     else do {
       w \<leftarrow> (if v = [] then Some w
             else do {
               let n = nodes_of w;
               (_, w) \<leftarrow> update_slaves N A grp (set_nodes w (n\<lparr>no_db_node := umap_set (no_db_node n) grp v\<rparr>));
               Some w
             });
       Some (True, addrs @ [case nodes_addr (nodes_of w) ip of None \<Rightarrow> ip | Some a \<Rightarrow> a], v, w)
     }
   }"

text \<open>
  The loop over the nodes of a group. An element without attributes, without an address or without a name is
  skipped by \<open>continue\<close>, which does not advance the iterator.
\<close>

partial_function (option) load_nodes ::
  "node_env \<Rightarrow> 'x redis_api \<Rightarrow> cps_obj \<Rightarrow> bytes \<Rightarrow> nat \<Rightarrow> cps_api_object_it_t \<Rightarrow> bytes list \<Rightarrow>
     db_node_data list \<Rightarrow> 'x node_world \<Rightarrow> (bool \<times> bytes list \<times> 'x node_world) option" where
  "load_nodes N A p grp type it addrs v w =
     (if \<not> cps_api_object_it_valid (nw_tlv N) (obj_buf p) it then Some (True, addrs, w)
      else do {
        elem \<leftarrow> cps_api_object_it_inside (nw_tlv N) (obj_buf p) it;
        if \<not> cps_api_object_it_valid (nw_tlv N) (obj_buf p) elem
        then load_nodes N A p grp type it addrs v w
        else (case cps_api_object_it_find (nw_tlv N) (obj_buf p) elem CPS_CONNECTIVITY_GROUP_NODE_TUNNEL_IP of
           None \<Rightarrow> load_nodes N A p grp type it addrs v w
         | Some i \<Rightarrow>
             (case cps_api_object_it_find (nw_tlv N) (obj_buf p) elem CPS_CONNECTIVITY_GROUP_NODE_NAME of
                None \<Rightarrow> load_nodes N A p grp type it addrs v w
              | Some n \<Rightarrow> do {
                  ip \<leftarrow> str_at (obj_buf p) (std_tlv_data (nw_tlv N) i);
                  name \<leftarrow> str_at (obj_buf p) (std_tlv_data (nw_tlv N) n);
                  (ok, addrs, v, w) \<leftarrow> load_node N A grp type ip name addrs v w;
                  if \<not> ok then Some (False, addrs, w)
                  else load_nodes N A p grp type (snd (cps_api_object_it_next (nw_tlv N) (obj_buf p) it)) addrs v w
                }))
      })"

text \<open>One object of the database, into the new table \<open>cpy\<close>; an object without a name dereferences \<open>NULL\<close>.\<close>

definition load_group ::
  "node_env \<Rightarrow> 'x redis_api \<Rightarrow> cps_obj \<Rightarrow> (bytes \<times> node_data) list \<Rightarrow> 'x node_world \<Rightarrow>
     (bool \<times> (bytes \<times> node_data) list \<times> 'x node_world) option" where
  "load_group N A p cpy w = do {
     t \<leftarrow> get_data_uint (nw_tlv N) p CPS_CONNECTIVITY_GROUP_TYPE 4;
     (case t of
        None \<Rightarrow> Some (False, cpy, w)
      | Some type \<Rightarrow> do {
          d \<leftarrow> cps_api_object_get_data (nw_tlv N) p CPS_CONNECTIVITY_GROUP_NAME;
          grp \<leftarrow> str_at (obj_buf p) d;
          a \<leftarrow> cps_api_object_attr_get (nw_tlv N) p CPS_CONNECTIVITY_GROUP_NODE;
          (case a of
             None \<Rightarrow> Some (True, umap_set cpy grp \<lparr>gn_addrs = [], gn_type = type\<rparr>, w)
           | Some attr \<Rightarrow> do {
               it \<leftarrow> cps_api_object_it_inside (nw_tlv N) (obj_buf p)
                 (cps_api_object_it_from_attr (nw_tlv N) (obj_buf p) attr);
               (ok, addrs, w) \<leftarrow> load_nodes N A p grp type it [] [] w;
               Some (ok, if ok then umap_set cpy grp \<lparr>gn_addrs = addrs, gn_type = type\<rparr> else cpy, w)
             })
        })
   }"

fun load_group_list ::
  "node_env \<Rightarrow> 'x redis_api \<Rightarrow> obj_list \<Rightarrow> (bytes \<times> node_data) list \<Rightarrow> 'x node_world \<Rightarrow>
     (bool \<times> (bytes \<times> node_data) list \<times> 'x node_world) option" where
  "load_group_list N A [] cpy w = Some (True, cpy, w)"
| "load_group_list N A (q # qs) cpy w = do {
     p \<leftarrow> obj_at w q;
     (ok, cpy, w) \<leftarrow> load_group N A p cpy w;
     if ok then load_group_list N A qs cpy w else Some (False, cpy, w)
   }"

text \<open>What follows the reading of the objects: the tables change only when the hash does.\<close>

definition load_tables ::
  "node_env \<Rightarrow> 'x redis_api \<Rightarrow> obj_list \<Rightarrow> 'x node_world \<Rightarrow> (bool \<times> 'x node_world) option" where
  "load_tables N A l w = do {
     (ok, cpy, w) \<leftarrow> load_group_list N A l [] (set_nodes w ((nodes_of w)\<lparr>no_ip_to_name := []\<rparr>));
     if \<not> ok then Some (False, w)
     else do {
       let new_hash = gen_hash (ne_strhash N) cpy 0;
       let n = nodes_of w;
       Some (if new_hash = no_hash n then (False, w)
             else (True, set_nodes w (n\<lparr>no_groups := cpy, no_hash := new_hash\<rparr>)))
     }
   }"

definition nodes_load_groups ::
  "node_env \<Rightarrow> 'x redis_api \<Rightarrow> 'x node_world \<Rightarrow> (bool \<times> 'x node_world) option" where
  "nodes_load_groups N A w = do {
     (ok, og, w) \<leftarrow> class_object N CPS_CONNECTIVITY_GROUP cps_api_qualifier_OBSERVED w;
     (r, w) \<leftarrow>
       (if \<not> ok then Some (False, w)
        else on_connection N A DEFAULT_REDIS_ADDR False (\<lambda>conn w. do {
          (ok, _, l, conn, v) \<leftarrow> get_objects (ne_db N) A og cps_api_object_list_create False cps_api_ret_code_OK
            conn (db_world w);
          let w = set_db_world w v;
          (r, w) \<leftarrow> (if ok then load_tables N A l w else Some (False, w));
          h \<leftarrow> cps_api_object_list_destroy (w_heap w) l True;
          Some (r, conn, w\<lparr>w_heap := h\<rparr>)
        }) w);
     w \<leftarrow> guard_end og w;
     Some (r, w)
   }"

text \<open>The tables are loaded at most every five seconds.\<close>

definition load_groups :: "node_env \<Rightarrow> 'x redis_api \<Rightarrow> 'x node_world \<Rightarrow> (bool \<times> 'x node_world) option" where
  "load_groups N A w = do {
     let s = db_of w;
     let (expired, x) = rd_expired A (nw_last_loaded (w_ext w)) 5000000 (ds_net s);
     let w = set_db w (s\<lparr>ds_net := x\<rparr>);
     if expired then do {
       let (now, x) = rd_uptime A (ds_net (db_of w));
       let w = set_db w ((db_of w)\<lparr>ds_net := x\<rparr>);
       nodes_load_groups N A (w\<lparr>w_ext := (w_ext w)\<lparr>nw_last_loaded := now\<rparr>\<rparr>)
     }
     else Some (False, w)
   }"

section \<open>Resolving a group\<close>

definition resolve_group :: "cps_api_nodes \<Rightarrow> bytes \<Rightarrow> bytes list \<Rightarrow> bool \<times> bytes list" where
  "resolve_group n grp lst =
     (if \<not> group_exists n grp then
        (True, case nodes_addr n grp of None \<Rightarrow> [] | Some a \<Rightarrow> [a])
      else
        (case get_group_type n grp of
           None \<Rightarrow> (False, lst)
         | Some type \<Rightarrow>
             if type = CPS_GROUP_TYPE_GLOBAL \<and> is_master_set n grp then
               (case no_master n grp of None \<Rightarrow> (False, lst) | Some m \<Rightarrow> (True, lst @ [m]))
             else
               (case group_addresses n grp of
                  Some addrs \<Rightarrow> (True, addrs)
                | None \<Rightarrow> (case nodes_addr n grp of None \<Rightarrow> (False, lst) | Some a \<Rightarrow> (True, lst @ [a])))))"

definition cps_api_db_get_node_group ::
  "node_env \<Rightarrow> 'x redis_api \<Rightarrow> bytes \<Rightarrow> bytes list \<Rightarrow> 'x node_world \<Rightarrow>
     (bool \<times> bytes list \<times> 'x node_world) option" where
  "cps_api_db_get_node_group N A grp lst w =
     (if 58 \<in> set grp then Some (True, lst @ [grp], w)
      else do {
        (_, w) \<leftarrow> load_groups N A w;
        let (ok, lst) = resolve_group (nodes_of w) grp lst;
        Some (ok, lst, w)
      })"

fun iterate_nodes ::
  "(bytes \<Rightarrow> 'c \<Rightarrow> 'x node_world \<Rightarrow> (bool \<times> 'c \<times> 'x node_world) option) \<Rightarrow> bytes list \<Rightarrow> 'c \<Rightarrow>
     'x node_world \<Rightarrow> ('c \<times> 'x node_world) option" where
  "iterate_nodes operation [] c w = Some (c, w)"
| "iterate_nodes operation (n # ns) c w = do {
     (go, c, w) \<leftarrow> operation n c w;
     if go then iterate_nodes operation ns c w else Some (c, w)
   }"

definition cps_api_node_set_iterate ::
  "node_env \<Rightarrow> 'x redis_api \<Rightarrow> bytes \<Rightarrow>
     (bytes \<Rightarrow> 'c \<Rightarrow> 'x node_world \<Rightarrow> (bool \<times> 'c \<times> 'x node_world) option) \<Rightarrow> 'c \<Rightarrow> 'x node_world \<Rightarrow>
     (bool \<times> 'c \<times> 'x node_world) option" where
  "cps_api_node_set_iterate N A group_name operation c w = do {
     (ok, lst, w) \<leftarrow> cps_api_db_get_node_group N A group_name [] w;
     if \<not> ok then Some (False, c, w)
     else do {
       (c, w) \<leftarrow> iterate_nodes operation lst c w;
       Some (True, c, w)
     }
   }"

section \<open>Masters\<close>

definition cps_api_remove_slave ::
  "node_env \<Rightarrow> 'x redis_api \<Rightarrow> bytes \<Rightarrow> 'x node_world \<Rightarrow> (bool \<times> 'x node_world) option" where
  "cps_api_remove_slave N A addr w = on_connection N A addr False (\<lambda>conn w. do {
     (ok, conn, s) \<leftarrow> remove_slave (ne_db N) A conn (db_of w);
     Some (ok, conn, set_db w s)
   }) w"

definition set_master :: "bytes \<Rightarrow> bytes \<Rightarrow> 'x node_world \<Rightarrow> 'x node_world" where
  "set_master grp addr w = (let n = nodes_of w in
     set_nodes w (mark_master_set grp (n\<lparr>no_master := (no_master n)(grp \<mapsto> addr)\<rparr>)))"

text \<open>
  The first loop of \<open>cps_api_set_master_node\<close> works only on the first node whose name starts with the name
  given.
\<close>

definition cps_api_set_master_node ::
  "node_env \<Rightarrow> 'x redis_api \<Rightarrow> bytes \<Rightarrow> bytes \<Rightarrow> 'x node_world \<Rightarrow>
     (cps_api_return_code_t \<times> 'x node_world) option" where
  "cps_api_set_master_node N A grp node_name w = do {
     (_, w) \<leftarrow> load_groups N A w;
     (case umap_find (no_db_node (nodes_of w)) grp of
        Some ns \<Rightarrow>
          if get_group_type (nodes_of w) grp \<noteq> Some CPS_GROUP_TYPE_GLOBAL then Some (cps_api_ret_code_ERR, w)
          else
            (case find (\<lambda>n. strncmp_eq (dn_name n) node_name) ns of
               None \<Rightarrow> Some (cps_api_ret_code_ERR, w)
             | Some n \<Rightarrow>
                 if no_master (nodes_of w) grp = Some (dn_addr n) then Some (cps_api_ret_code_OK, w)
                 else do {
                   (ok, w) \<leftarrow> (if no_master (nodes_of w) grp = None then Some (True, w)
                               else cps_api_remove_slave N A (dn_addr n) w);
                   if \<not> ok then Some (cps_api_ret_code_ERR, w)
                   else do {
                     let w = set_master grp (dn_addr n) w;
                     (ok, w) \<leftarrow> (if strncmp_eq (dn_addr n) get_local_ip then cps_api_remove_slave N A (dn_addr n) w
                                 else make_slaves N A (\<lambda>m. strncmp_eq (dn_name m) node_name) (dn_addr n) ns w);
                     Some (if ok then cps_api_ret_code_OK else cps_api_ret_code_ERR, w)
                   }
                 })
      | None \<Rightarrow> Some (cps_api_ret_code_ERR, w))
   }"

section \<open>Changing groups\<close>

definition request_env :: "node_env \<Rightarrow> 'x node_world \<Rightarrow> cps_env" where
  "request_env N w = \<lparr>en_tlv = nw_tlv N, en_libc = nw_libc N, en_hash = de_hash (ne_db N),
     en_dict = ds_dict (db_of w)\<rparr>"

text \<open>
  The request to the service that runs database instances. When the object does not get into the
  transaction, nobody deletes it.
\<close>

definition cps_api_clean_db_instance ::
  "node_env \<Rightarrow> 'x node_state req_backend \<Rightarrow> bytes \<Rightarrow> 'x node_world \<Rightarrow> (bool \<times> 'x node_world) option" where
  "cps_api_clean_db_instance N B grp w = do {
     let tr = snd cps_api_transaction_init;
     (_, db_obj, w) \<leftarrow> class_object N CPS_DB_INSTANCE_OBJ cps_api_qualifier_TARGET w;
     (_, w) \<leftarrow> on_object db_obj (add_string N CPS_DB_INSTANCE_GROUP grp) w;
     (rc, tr, h) \<leftarrow> cps_api_delete (nw_libc N) tr (w_heap w) db_obj;
     let w = w\<lparr>w_heap := h\<rparr>;
     (rc, tr, w) \<leftarrow> (if rc \<noteq> cps_api_ret_code_OK then Some (rc, tr, w)
                     else cps_api_commit (request_env N w) B tr w);
     (_, h) \<leftarrow> cps_api_transaction_close tr (w_heap w);
     Some (rc = cps_api_ret_code_OK, w\<lparr>w_heap := h\<rparr>)
   }"

fun del_node_instances ::
  "node_env \<Rightarrow> 'x redis_api \<Rightarrow> bytes \<Rightarrow> db_node_data list \<Rightarrow> 'x node_world \<Rightarrow> (bool \<times> 'x node_world) option" where
  "del_node_instances N A grp [] w = Some (True, w)"
| "del_node_instances N A grp (n # ns) w = do {
     (ok, w) \<leftarrow> on_connection N A DEFAULT_REDIS_ADDR False (\<lambda>conn w. do {
       (ok, og, w) \<leftarrow> class_object N CPS_DB_INSTANCE_OBJ cps_api_qualifier_TARGET w;
       (conn, w) \<leftarrow>
         (if \<not> ok then Some (conn, w)
          else do {
            (_, w) \<leftarrow> on_object og (set_key_string N CPS_DB_INSTANCE_GROUP grp) w;
            (_, w) \<leftarrow> on_object og (set_key_string N CPS_DB_INSTANCE_NODE_ID (dn_name n)) w;
            p \<leftarrow> hp_objs (w_heap w) og;
            (_, _, conn, s) \<leftarrow> delete_object (ne_db N) A p conn (db_of w);
            Some (conn, set_db w s)
          });
       w \<leftarrow> guard_end og w;
       Some (ok, conn, w)
     }) w;
     if ok then del_node_instances N A grp ns w else Some (False, w)
   }"

definition cps_api_db_del_node_group ::
  "node_env \<Rightarrow> 'x redis_api \<Rightarrow> 'x node_state req_backend \<Rightarrow> bytes \<Rightarrow> 'x node_world \<Rightarrow>
     (bool \<times> 'x node_world) option" where
  "cps_api_db_del_node_group N A B grp w =
     (case get_group_type (nodes_of w) grp of
        None \<Rightarrow> Some (False, w)
      | Some type \<Rightarrow>
          if type \<noteq> CPS_GROUP_TYPE_GLOBAL then Some (True, w)
          else
            (case umap_find (no_db_node (nodes_of w)) grp of
               None \<Rightarrow> Some (False, w)
             | Some ns \<Rightarrow> do {
                 (ok, w) \<leftarrow> del_node_instances N A grp ns w;
                 if \<not> ok then Some (False, w)
                 else do {
                   let n = nodes_of w;
                   let n = n\<lparr>no_master := (no_master n)(grp := None),
                             no_db_node := [x \<leftarrow> no_db_node n. fst x \<noteq> grp]\<rparr>;
                   cps_api_clean_db_instance N B grp (set_nodes w (remove_master_set grp n))
                 }
               }))"

definition cps_api_delete_node_group ::
  "node_env \<Rightarrow> 'x redis_api \<Rightarrow> 'x node_state req_backend \<Rightarrow> bytes \<Rightarrow> 'x node_world \<Rightarrow>
     (cps_api_return_code_t \<times> 'x node_world) option" where
  "cps_api_delete_node_group N A B grp w = do {
     (_, w) \<leftarrow> cps_api_db_del_node_group N A B grp w;
     (_, og, w) \<leftarrow> class_object N CPS_NODE_GROUP cps_api_qualifier_TARGET w;
     (_, w) \<leftarrow> on_object og (add_string N CPS_NODE_GROUP_NAME grp) w;
     (rc, w) \<leftarrow> on_connection N A DEFAULT_REDIS_ADDR False (\<lambda>conn w. do {
       p \<leftarrow> hp_objs (w_heap w) og;
       (ok, _, conn, s) \<leftarrow> delete_object (ne_db N) A p conn (db_of w);
       let w = set_db w s;
       if ok then do {
         k \<leftarrow> cps_api_object_set_type_operation (obj_key p) cps_api_oper_DELETE;
         (rc, w) \<leftarrow> node_publish N conn og (obj_put w og (p\<lparr>obj_key := k\<rparr>));
         Some (rc, conn, w)
       }
       else Some (False, conn, w)
     }) w;
     w \<leftarrow> guard_end og w;
     Some (if rc then cps_api_ret_code_OK else cps_api_ret_code_ERR, w)
   }"

record cps_api_node_ident =
  id_node_name :: bytes
  id_addr :: bytes

record cps_api_node_group_t =
  ng_id :: bytes
  ng_addrs :: "cps_api_node_ident list"
  ng_data_type :: nat

definition cps_api_find_local_node :: "cps_api_node_group_t \<Rightarrow> cps_api_node_ident option" where
  "cps_api_find_local_node g = find (\<lambda>n. strncmp_eq (id_addr n) get_local_ip) (ng_addrs g)"

text \<open>The stores of the object at the nodes of the group; failures are only logged.\<close>

definition store_at_node ::
  "node_env \<Rightarrow> 'x redis_api \<Rightarrow> nat \<Rightarrow> bytes \<Rightarrow> unit \<Rightarrow> 'x node_world \<Rightarrow> (bool \<times> unit \<times> 'x node_world) option" where
  "store_at_node N A db_node name u w = do {
     (_, w) \<leftarrow> on_connection N A name () (\<lambda>conn w. do {
       p \<leftarrow> hp_objs (w_heap w) db_node;
       (_, conn, s) \<leftarrow> store_object (ne_db N) A p conn (db_of w);
       Some ((), conn, set_db w s)
     }) w;
     Some (True, (), w)
   }"

definition add_instance_keys ::
  "node_env \<Rightarrow> bytes \<Rightarrow> bytes \<Rightarrow> bytes \<Rightarrow> nat \<Rightarrow> 'x cps_world \<Rightarrow> 'x cps_world option" where
  "add_instance_keys N grp name port a w = do {
     (_, w) \<leftarrow> on_object a (set_key_string N CPS_DB_INSTANCE_GROUP grp) w;
     (_, w) \<leftarrow> on_object a (set_key_string N CPS_DB_INSTANCE_NODE_ID name) w;
     (_, w) \<leftarrow> on_object a (add_string N CPS_DB_INSTANCE_PORT port) w;
     Some w
   }"

text \<open>
  After the service has answered, the port is read from the object of the request; without it the code makes a
  string of \<open>NULL\<close>.
\<close>

definition cps_api_create_global_instance ::
  "node_env \<Rightarrow> 'x redis_api \<Rightarrow> 'x node_state req_backend \<Rightarrow> (nat \<Rightarrow> 'x node_world \<Rightarrow> 'x node_world) \<Rightarrow>
     cps_api_node_group_t \<Rightarrow> 'x node_world \<Rightarrow> (cps_api_return_code_t \<times> 'x node_world) option" where
  "cps_api_create_global_instance N A B usleep g w =
     (case cps_api_find_local_node g of
        None \<Rightarrow> Some (cps_api_ret_code_ERR, w)
      | Some node \<Rightarrow> do {
          (_, og, w) \<leftarrow> class_object N CPS_DB_INSTANCE_OBJ cps_api_qualifier_TARGET w;
          (_, w) \<leftarrow> on_object og (add_string N CPS_DB_INSTANCE_GROUP (ng_id g)) w;
          (rc, w) \<leftarrow> cps_api_commit_one (request_env N w) B usleep cps_api_oper_CREATE og 4 200 w;
          (rc, w) \<leftarrow>
            (if rc \<noteq> cps_api_ret_code_OK then Some (cps_api_ret_code_ERR, w)
             else do {
               p \<leftarrow> hp_objs (w_heap w) og;
               d \<leftarrow> cps_api_object_get_data (nw_tlv N) p CPS_DB_INSTANCE_PORT;
               port \<leftarrow> str_at (obj_buf p) d;
               (_, db_node, w) \<leftarrow> class_object N CPS_DB_INSTANCE_OBJ cps_api_qualifier_TARGET w;
               w \<leftarrow> add_instance_keys N (ng_id g) (id_node_name node) port db_node w;
               (ok, _, w) \<leftarrow> cps_api_node_set_iterate N A (c_str (ng_id g)) (store_at_node N A db_node) () w;
               w \<leftarrow> guard_end db_node w;
               Some (if ok then cps_api_ret_code_OK else cps_api_ret_code_ERR, w)
             });
          w \<leftarrow> guard_end og w;
          Some (rc, w)
        })"

fun add_group_nodes ::
  "node_env \<Rightarrow> nat \<Rightarrow> nat \<Rightarrow> cps_api_node_ident list \<Rightarrow> 'x cps_world \<Rightarrow> 'x cps_world option" where
  "add_group_nodes N og ix [] w = Some w"
| "add_group_nodes N og ix (n # ns) w = do {
     (_, w) \<leftarrow> on_object og (\<lambda>p. cps_api_object_e_add (nw_tlv N) (nw_libc N) p
       [CPS_NODE_GROUP_NODE, of_nat ix, CPS_NODE_GROUP_NODE_IP] cps_api_object_ATTR_T_BIN
       (c_bytes (id_addr n)) (length (c_bytes (id_addr n)))) w;
     (_, w) \<leftarrow> on_object og (\<lambda>p. cps_api_object_e_add (nw_tlv N) (nw_libc N) p
       [CPS_NODE_GROUP_NODE, of_nat ix, CPS_NODE_GROUP_NODE_NAME] cps_api_object_ATTR_T_BIN
       (c_bytes (id_node_name n)) (length (c_bytes (id_node_name n)))) w;
     add_group_nodes N og (ix + 1) ns w
   }"

text \<open>The part of \<open>cps_api_set_node_group\<close> that has the connection.\<close>

definition store_node_group ::
  "node_env \<Rightarrow> 'x redis_api \<Rightarrow> 'x node_state req_backend \<Rightarrow> (nat \<Rightarrow> 'x node_world \<Rightarrow> 'x node_world) \<Rightarrow>
     cps_api_node_group_t \<Rightarrow> nat \<Rightarrow> db_connection \<Rightarrow> 'x node_world \<Rightarrow>
     (cps_api_return_code_t \<times> db_connection \<times> 'x node_world) option" where
  "store_node_group N A B usleep g og conn w = do {
     (tmp, h) \<leftarrow> cps_api_object_create (nw_libc N) (w_heap w);
     (ok, h) \<leftarrow> heap_clone (nw_libc N) h tmp og;
     let w = w\<lparr>w_heap := h\<rparr>;
     (rc, conn, w) \<leftarrow>
       (if \<not> ok then Some (cps_api_ret_code_ERR, conn, w)
        else do {
          t \<leftarrow> hp_objs (w_heap w) tmp;
          (changed, t, conn, s) \<leftarrow> get_object (ne_db N) A t conn (db_of w);
          let w = obj_put (set_db w s) tmp t;
          p \<leftarrow> hp_objs (w_heap w) og;
          (ok, conn, s) \<leftarrow> store_object (ne_db N) A p conn (db_of w);
          let w = set_db w s;
          if \<not> ok then Some (cps_api_ret_code_ERR, conn, w)
          else if ng_data_type g = CPS_GROUP_TYPE_GLOBAL then do {
            (rc, w) \<leftarrow> cps_api_create_global_instance N A B usleep g w;
            Some (rc, conn, w)
          }
          else do {
            k \<leftarrow> cps_api_object_set_type_operation (obj_key p)
              (if changed then cps_api_oper_SET else cps_api_oper_CREATE);
            (_, w) \<leftarrow> node_publish N conn og (obj_put w og (p\<lparr>obj_key := k\<rparr>));
            Some (cps_api_ret_code_OK, conn, w)
          }
        });
     w \<leftarrow> guard_end tmp w;
     Some (rc, conn, w)
   }"

definition cps_api_set_node_group ::
  "node_env \<Rightarrow> 'x redis_api \<Rightarrow> 'x node_state req_backend \<Rightarrow> (nat \<Rightarrow> 'x node_world \<Rightarrow> 'x node_world) \<Rightarrow>
     cps_api_node_group_t \<Rightarrow> 'x node_world \<Rightarrow> (cps_api_return_code_t \<times> 'x node_world) option" where
  "cps_api_set_node_group N A B usleep g w = do {
     (_, og, w) \<leftarrow> class_object N CPS_NODE_GROUP cps_api_qualifier_TARGET w;
     (_, w) \<leftarrow> on_object og (add_string N CPS_NODE_GROUP_NAME (ng_id g)) w;
     w \<leftarrow> add_group_nodes N og 0 (ng_addrs g) w;
     (_, w) \<leftarrow> on_object og (\<lambda>p. cps_api_object_attr_add (nw_tlv N) (nw_libc N) p CPS_NODE_GROUP_TYPE
       (le_bytes 4 (ng_data_type g)) 4) w;
     (rc, w) \<leftarrow> on_connection N A DEFAULT_REDIS_ADDR cps_api_ret_code_ERR (store_node_group N A B usleep g og) w;
     w \<leftarrow> guard_end og w;
     Some (rc, w)
   }"

fun set_identity_each ::
  "node_env \<Rightarrow> 'x redis_api \<Rightarrow> nat \<Rightarrow> bytes list \<Rightarrow> db_connection \<Rightarrow> 'x node_world \<Rightarrow>
     (db_connection \<times> 'x node_world) option" where
  "set_identity_each N A og [] conn w = Some (conn, w)"
| "set_identity_each N A og (a # as) conn w = do {
     (_, w) \<leftarrow> on_object og (add_string N CPS_NODE_DETAILS_NAME a) w;
     p \<leftarrow> hp_objs (w_heap w) og;
     (_, conn, s) \<leftarrow> store_object (ne_db N) A p conn (db_of w);
     (_, w) \<leftarrow> on_object og (\<lambda>p. cps_api_object_attr_delete (nw_tlv N) p CPS_NODE_DETAILS_NAME) (set_db w s);
     set_identity_each N A og as conn w
   }"

definition cps_api_set_identity ::
  "node_env \<Rightarrow> 'x redis_api \<Rightarrow> bytes \<Rightarrow> bytes list \<Rightarrow> 'x node_world \<Rightarrow>
     (cps_api_return_code_t \<times> 'x node_world) option" where
  "cps_api_set_identity N A name alias w =
     on_connection N A DEFAULT_REDIS_ADDR cps_api_ret_code_ERR (\<lambda>conn w. do {
       (_, og, w) \<leftarrow> class_object N CPS_NODE_DETAILS cps_api_qualifier_TARGET w;
       (_, w) \<leftarrow> on_object og (add_string N CPS_NODE_DETAILS_ALIAS name) w;
       (conn, w) \<leftarrow> set_identity_each N A og alias conn w;
       w \<leftarrow> guard_end og w;
       Some (cps_api_ret_code_OK, conn, w)
     }) w"

end
