(* ===== verification/Cps_Db_Direct.thy ===== *)
theory Cps_Db_Direct
  imports Cps_Db_Node
begin

text \<open>
  The database interface for applications (\<open>src/db/cps_api_db_direct.cpp\<close>): reading, and committing one object or
  a list of objects, at all nodes of the object's group, with retries after communication errors and with
  events.
\<close>

section \<open>Retries\<close>

definition handle_retry_request :: "db_flags \<Rightarrow> cps_api_return_code_t \<Rightarrow> nat \<Rightarrow> bool" where
  "handle_retry_request F rc retry_count \<longleftrightarrow>
     rc = cps_api_ret_code_COMMUNICATION_ERROR \<and> fl_ignore_communication_errors F \<noteq> 0 \<and>
     \<not> retry_count \<ge> fl_communication_error_retry F"

definition retry_sleep :: "node_env \<Rightarrow> 'x redis_api \<Rightarrow> 'x node_world \<Rightarrow> 'x node_world" where
  "retry_sleep N A w = (let s = db_of w in
     set_db w (s\<lparr>ds_net := rd_usleep A
       (fl_communication_error_retry_timeout (de_flags (ne_db N)) * 1000 mod size_lim) (ds_net s)\<rparr>))"

text \<open>The loop around every operation of the interface; \<open>c\<close> is what an attempt works on besides the world.\<close>

function retry_request ::
  "node_env \<Rightarrow> 'x redis_api \<Rightarrow>
     ('c \<Rightarrow> 'x node_world \<Rightarrow> (cps_api_return_code_t \<times> 'c \<times> 'x node_world) option) \<Rightarrow> nat \<Rightarrow> 'c \<Rightarrow> 'x node_world \<Rightarrow>
     (cps_api_return_code_t \<times> 'c \<times> 'x node_world) option" where
  "retry_request N A attempt count c w = do {
     (rc, c, w) \<leftarrow> attempt c w;
     if handle_retry_request (de_flags (ne_db N)) rc count
     then retry_request N A attempt (count + 1) c (retry_sleep N A w)
     else Some (rc, c, w)
   }"
  by pat_completeness auto
termination
  by (relation "measure (\<lambda>(N, A, attempt, count, c, w). fl_communication_error_retry (de_flags (ne_db N)) - count)")
    (auto simp: handle_retry_request_def)

declare retry_request.simps [simp del]

section \<open>Reading\<close>

definition CPS_CONNECTION_ENTRY :: u64 where "CPS_CONNECTION_ENTRY = 131094"
definition CPS_CONNECTION_ENTRY_NAME :: u64 where "CPS_CONNECTION_ENTRY_NAME = 131075"
definition CPS_CONNECTION_ENTRY_IP :: u64 where "CPS_CONNECTION_ENTRY_IP = 131076"
definition CPS_CONNECTION_ENTRY_CONNECTION_STATE :: u64 where "CPS_CONNECTION_ENTRY_CONNECTION_STATE = 131078"

definition get_node_name :: "bytes \<Rightarrow> 'x node_world \<Rightarrow> bytes" where
  "get_node_name str w = (case cps_api_db_get_node_from_ip str w of None \<Rightarrow> str | Some s \<Rightarrow> s)"

definition conn_event_enabled :: "std_tlv_api \<Rightarrow> cps_obj \<Rightarrow> bool option" where
  "conn_event_enabled T p = cps_api_obj_attr_get_bool T p CPS_CONNECTION_ENTRY_CONNECTION_STATE False"

definition continue_on_failure :: "std_tlv_api \<Rightarrow> cps_obj \<Rightarrow> bool option" where
  "continue_on_failure T p = cps_api_obj_attr_get_bool T p CPS_OBJECT_GROUP_CONTINUE_ON_FAILURE False"

text \<open>The results from another node carry its name.\<close>

fun set_nodes_of_results ::
  "node_env \<Rightarrow> bytes \<Rightarrow> obj_list \<Rightarrow> 'x cps_world \<Rightarrow> 'x cps_world option" where
  "set_nodes_of_results N node_name [] w = Some w"
| "set_nodes_of_results N node_name (q # qs) w = do {
     a \<leftarrow> q;
     (_, w) \<leftarrow> on_object a (cps_api_key_set_node N node_name) w;
     set_nodes_of_results N node_name qs w
   }"

text \<open>The entry that tells that a node could not be read.\<close>

definition add_connection_entry ::
  "node_env \<Rightarrow> bytes \<Rightarrow> bytes \<Rightarrow> bytes \<Rightarrow> obj_list \<Rightarrow> 'x node_world \<Rightarrow> (obj_list \<times> 'x node_world) option" where
  "add_connection_entry N grp name node_name results w = do {
     (q, results, h) \<leftarrow> cps_api_object_list_create_obj_and_append (nw_libc N) (w_heap w) results;
     a \<leftarrow> q;
     (_, w) \<leftarrow> on_object a (\<lambda>p. do {
        (ok, k) \<leftarrow> cps_api_key_from_attr_with_qual (ds_dict (db_of w)) (obj_key p) CPS_CONNECTION_ENTRY
          cps_api_qualifier_OBSERVED;
        Some (ok, p\<lparr>obj_key := k\<rparr>)
      }) (w\<lparr>w_heap := h\<rparr>);
     (_, w) \<leftarrow> on_object a (\<lambda>p. cps_api_object_attr_add (nw_tlv N) (nw_libc N) p CPS_CONNECTION_ENTRY_NAME
        (node_name @ [0]) (length node_name + 1)) w;
     (_, w) \<leftarrow> on_object a (\<lambda>p. cps_api_object_attr_add (nw_tlv N) (nw_libc N) p CPS_CONNECTION_ENTRY_IP
        (name @ [0]) (length name + 1)) w;
     (_, w) \<leftarrow> on_object a (cps_api_key_set_group N grp) w;
     (_, w) \<leftarrow> on_object a (cps_api_key_set_node N node_name) w;
     Some (results, w)
   }"

text \<open>The work at one node that has a connection: the return code and the results.\<close>

definition get_at_node ::
  "node_env \<Rightarrow> 'x redis_api \<Rightarrow> nat \<Rightarrow> bytes \<Rightarrow> bytes \<Rightarrow> cps_api_return_code_t \<Rightarrow> obj_list \<Rightarrow> db_connection \<Rightarrow>
     'x node_world \<Rightarrow> ((cps_api_return_code_t \<times> obj_list) \<times> db_connection \<times> 'x node_world) option" where
  "get_at_node N A obj grp name rc results conn w = do {
     let prev_len = cps_api_object_list_size results;
     (ok, rc, results, conn, v) \<leftarrow> get_objects (ne_db N) A obj results True rc conn (db_world w);
     let rc = (if ok then cps_api_ret_code_OK else rc);
     let w = set_db_world w v;
     let node_name = get_node_name name w;
     w \<leftarrow> (if rc = cps_api_ret_code_OK \<and> \<not> cps_api_key_is_local_group name
           then set_nodes_of_results N (c_str node_name) (drop prev_len results) w
           else Some w);
     p \<leftarrow> hp_objs (w_heap w) obj;
     needed \<leftarrow> (if rc = cps_api_ret_code_OK then Some False else conn_event_enabled (nw_tlv N) p);
     (results, w) \<leftarrow> (if needed then add_connection_entry N grp name node_name results w else Some (results, w));
     Some ((rc, results), conn, w)
   }"

definition db_operation_get ::
  "node_env \<Rightarrow> 'x redis_api \<Rightarrow> nat \<Rightarrow> obj_list \<Rightarrow> 'x node_world \<Rightarrow>
     (cps_api_return_code_t \<times> obj_list \<times> 'x node_world) option" where
  "db_operation_get N A obj results w = do {
     p \<leftarrow> hp_objs (w_heap w) obj;
     cont \<leftarrow> continue_on_failure (nw_tlv N) p;
     grp \<leftarrow> cps_api_key_get_group (nw_tlv N) p;
     (_, (rc, results), w) \<leftarrow> cps_api_node_set_iterate N A grp (\<lambda>name (rc, results) w. do {
         (c, w) \<leftarrow> on_connection N A name (cps_api_ret_code_COMMUNICATION_ERROR, results)
           (get_at_node N A obj grp name rc results) w;
         Some (True, c, w)
       }) (if cont then cps_api_ret_code_OK else cps_api_ret_code_ERR, results) w;
     Some (rc, results, w)
   }"

definition cps_api_db_get_filter_enable_connection ::
  "node_env \<Rightarrow> cps_obj \<Rightarrow> (bool \<times> cps_obj) option" where
  "cps_api_db_get_filter_enable_connection N obj = do {
     (ok, obj) \<leftarrow> cps_api_object_attr_add (nw_tlv N) (nw_libc N) obj CPS_CONNECTION_ENTRY_CONNECTION_STATE [1] 1;
     Some ((if ok then 1 else 0) = cps_api_ret_code_OK, obj)
   }"

definition cps_api_db_get ::
  "node_env \<Rightarrow> 'x redis_api \<Rightarrow> nat \<Rightarrow> obj_list \<Rightarrow> 'x node_world \<Rightarrow>
     (cps_api_return_code_t \<times> obj_list \<times> 'x node_world) option" where
  "cps_api_db_get N A obj found w = retry_request N A (db_operation_get N A obj) 0 found w"

definition db_get_bulk ::
  "node_env \<Rightarrow> 'x redis_api \<Rightarrow> bytes option \<Rightarrow> obj_list \<Rightarrow> 'x node_world \<Rightarrow>
     (cps_api_return_code_t \<times> obj_list \<times> 'x node_world) option" where
  "db_get_bulk N A node_group objs w = do {
     let grp = (case node_group of None \<Rightarrow> DEFAULT_REDIS_ADDR | Some g \<Rightarrow> c_str g);
     (_, (rc, objs), w) \<leftarrow> cps_api_node_set_iterate N A grp (\<lambda>name (rc, objs) w. do {
         let rc = (if rc \<noteq> cps_api_ret_code_OK then cps_api_ret_code_COMMUNICATION_ERROR else rc);
         (c, w) \<leftarrow> on_connection N A name (rc, objs) (\<lambda>conn w. do {
             (ok, rc, objs, conn, v) \<leftarrow> get_object_list (ne_db N) A objs conn (db_world w);
             Some ((if ok then cps_api_ret_code_OK else rc, objs), conn, set_db_world w v)
           }) w;
         Some (True, c, w)
       }) (cps_api_ret_code_ERR, objs) w;
     Some (rc, objs, w)
   }"

definition cps_api_db_get_bulk ::
  "node_env \<Rightarrow> 'x redis_api \<Rightarrow> obj_list \<Rightarrow> bytes option \<Rightarrow> 'x node_world \<Rightarrow>
     (cps_api_return_code_t \<times> obj_list \<times> 'x node_world) option" where
  "cps_api_db_get_bulk N A objs node_group w = retry_request N A (db_get_bulk N A node_group) 0 objs w"

section \<open>Committing one object\<close>

text \<open>The stored object is read into the previous one from the first node that answers.\<close>

fun pre_load_loop ::
  "node_env \<Rightarrow> 'x redis_api \<Rightarrow> bytes \<Rightarrow> nat \<Rightarrow> bytes list \<Rightarrow> cps_api_return_code_t \<Rightarrow> 'x node_world \<Rightarrow>
     (cps_api_return_code_t \<times> 'x node_world) option" where
  "pre_load_loop N A key prev [] rc w = Some (rc, w)"
| "pre_load_loop N A key prev (it # its) rc w = do {
     ((ok, rc), w) \<leftarrow> on_connection N A it (False, cps_api_ret_code_COMMUNICATION_ERROR) (\<lambda>conn w. do {
         p \<leftarrow> hp_objs (w_heap w) prev;
         (ok, rc, p, conn, s) \<leftarrow> get_object_by_key (ne_db N) A key p True conn (db_of w);
         Some ((ok, rc), conn, obj_put (set_db w s) prev p)
       }) w;
     if ok then Some (cps_api_ret_code_OK, w)
     else if rc = cps_api_ret_code_NO_EXIST then Some (rc, w)
     else pre_load_loop N A key prev its rc w
   }"

definition one_pre_load_into_prev ::
  "node_env \<Rightarrow> 'x redis_api \<Rightarrow> bytes list \<Rightarrow> nat \<Rightarrow> nat \<Rightarrow> 'x node_world \<Rightarrow>
     (cps_api_return_code_t \<times> 'x node_world) option" where
  "one_pre_load_into_prev N A addrs obj prev w = do {
     p \<leftarrow> hp_objs (w_heap w) obj;
     (ok, key, D) \<leftarrow> dbkey_from_instance_key (nw_libc N) (nw_tlv N) (de_hash (ne_db N)) (ds_dict (db_of w)) [] p False;
     let w = set_db w ((db_of w)\<lparr>ds_dict := D\<rparr>);
     if \<not> ok then Some (cps_api_ret_code_ERR, w)
     else pre_load_loop N A key prev addrs cps_api_ret_code_ERR w
   }"

definition one_pre_load_into_prev_delete ::
  "node_env \<Rightarrow> 'x redis_api \<Rightarrow> bytes list \<Rightarrow> nat \<Rightarrow> nat \<Rightarrow> 'x node_world \<Rightarrow>
     (cps_api_return_code_t \<times> 'x node_world) option" where
  "one_pre_load_into_prev_delete N A addrs obj prev w = do {
     (_, w) \<leftarrow> one_pre_load_into_prev N A addrs obj prev w;
     Some (cps_api_ret_code_OK, w)
   }"

text \<open>A previous object of another class is replaced by an empty one with the key of the object.\<close>

definition one_pre_load_into_prev_for_set ::
  "node_env \<Rightarrow> 'x redis_api \<Rightarrow> bytes list \<Rightarrow> nat \<Rightarrow> nat \<Rightarrow> 'x node_world \<Rightarrow>
     (cps_api_return_code_t \<times> 'x node_world) option" where
  "one_pre_load_into_prev_for_set N A addrs obj prev w = do {
     (_, w) \<leftarrow> one_pre_load_into_prev N A addrs obj prev w;
     p \<leftarrow> hp_objs (w_heap w) obj;
     q \<leftarrow> hp_objs (w_heap w) prev;
     m \<leftarrow> cps_api_key_matches (obj_key p) (obj_key q) True;
     if m = 0 then Some (cps_api_ret_code_OK, w)
     else do {
       (og, h) \<leftarrow> cps_api_object_create (nw_libc N) (w_heap w);
       g \<leftarrow> hp_objs h og;
       k \<leftarrow> cps_api_key_copy (obj_key g) (obj_key p);
       let (g, q) = cps_api_object_swap (g\<lparr>obj_key := k\<rparr>) q;
       w \<leftarrow> guard_end og (obj_put (obj_put (w\<lparr>w_heap := h\<rparr>) og g) prev q);
       Some (cps_api_ret_code_OK, w)
     }
   }"

fun one_handle_delete ::
  "node_env \<Rightarrow> 'x redis_api \<Rightarrow> nat \<Rightarrow> bytes list \<Rightarrow> cps_api_return_code_t \<Rightarrow> 'x node_world \<Rightarrow>
     (cps_api_return_code_t \<times> 'x node_world) option" where
  "one_handle_delete N A obj [] rc w = Some (rc, w)"
| "one_handle_delete N A obj (it # its) rc w = do {
     (rc, w) \<leftarrow> on_connection N A it cps_api_ret_code_COMMUNICATION_ERROR (\<lambda>conn w. do {
         p \<leftarrow> hp_objs (w_heap w) obj;
         (_, rc, conn, s) \<leftarrow> delete_object (ne_db N) A p conn (db_of w);
         Some (if rc \<noteq> cps_api_ret_code_COMMUNICATION_ERROR then cps_api_ret_code_OK else rc, conn, set_db w s)
       }) w;
     one_handle_delete N A obj its rc w
   }"

text \<open>The object \<open>stored\<close> is written at one node: \<open>None\<close> without a connection, otherwise whether it was stored.\<close>

definition store_at ::
  "node_env \<Rightarrow> 'x redis_api \<Rightarrow> nat \<Rightarrow> bytes \<Rightarrow> 'x node_world \<Rightarrow> (bool option \<times> 'x node_world) option" where
  "store_at N A stored it w = on_connection N A it None (\<lambda>conn w. do {
     p \<leftarrow> hp_objs (w_heap w) stored;
     (ok, conn, s) \<leftarrow> store_object (ne_db N) A p conn (db_of w);
     Some (Some ok, conn, set_db w s)
   }) w"

fun one_handle_create ::
  "node_env \<Rightarrow> 'x redis_api \<Rightarrow> nat \<Rightarrow> bytes list \<Rightarrow> cps_api_return_code_t \<Rightarrow> 'x node_world \<Rightarrow>
     (cps_api_return_code_t \<times> 'x node_world) option" where
  "one_handle_create N A obj [] rc w = Some (rc, w)"
| "one_handle_create N A obj (it # its) rc w = do {
     (r, w) \<leftarrow> store_at N A obj it w;
     (case r of
        None \<Rightarrow> one_handle_create N A obj its
          (if rc \<noteq> cps_api_ret_code_OK then cps_api_ret_code_COMMUNICATION_ERROR else rc) w
      | Some ok \<Rightarrow>
          if ok then one_handle_create N A obj its cps_api_ret_code_OK w
          else do {
            p \<leftarrow> hp_objs (w_heap w) obj;
            cont \<leftarrow> continue_on_failure (nw_tlv N) p;
            if \<not> cont then Some (cps_api_ret_code_COMMUNICATION_ERROR, w)
            else one_handle_create N A obj its rc w
          })
   }"

fun handle_set_loop ::
  "node_env \<Rightarrow> 'x redis_api \<Rightarrow> nat \<Rightarrow> nat \<Rightarrow> bytes list \<Rightarrow> cps_api_return_code_t \<Rightarrow> 'x node_world \<Rightarrow>
     (cps_api_return_code_t \<times> 'x node_world) option" where
  "handle_set_loop N A obj merged [] rc w = Some (rc, w)"
| "handle_set_loop N A obj merged (it # its) rc w = do {
     let rc = (if rc \<noteq> cps_api_ret_code_OK then cps_api_ret_code_COMMUNICATION_ERROR else rc);
     (r, w) \<leftarrow> store_at N A merged it w;
     (case r of
        None \<Rightarrow> handle_set_loop N A obj merged its rc w
      | Some ok \<Rightarrow>
          if ok then handle_set_loop N A obj merged its cps_api_ret_code_OK w
          else do {
            p \<leftarrow> hp_objs (w_heap w) obj;
            cont \<leftarrow> continue_on_failure (nw_tlv N) p;
            if \<not> cont then Some (cps_api_ret_code_COMMUNICATION_ERROR, w)
            else handle_set_loop N A obj merged its rc w
          })
   }"

text \<open>The attributes of the object replace those of the previous one in a copy, which is stored.\<close>

definition one_handle_set ::
  "node_env \<Rightarrow> 'x redis_api \<Rightarrow> nat \<Rightarrow> nat \<Rightarrow> bytes list \<Rightarrow> 'x node_world \<Rightarrow>
     (cps_api_return_code_t \<times> 'x node_world) option" where
  "one_handle_set N A obj prev addrs w = do {
     (q, h) \<leftarrow> cps_api_object_create_clone (nw_libc N) (w_heap w) prev;
     merged \<leftarrow> q;
     p \<leftarrow> hp_objs h obj;
     (ok, w) \<leftarrow> on_object merged (\<lambda>m. cps_api_object_attr_merge (nw_tlv N) (nw_libc N) m p True) (w\<lparr>w_heap := h\<rparr>);
     (rc, w) \<leftarrow> (if \<not> ok then Some (cps_api_ret_code_ERR, w)
                 else handle_set_loop N A obj merged addrs cps_api_ret_code_ERR w);
     w \<leftarrow> guard_end merged w;
     Some (rc, w)
   }"

text \<open>The event is queued once for every node that has a connection; the first time the key gets the operation.\<close>

fun publish_objects ::
  "node_env \<Rightarrow> u32 \<Rightarrow> obj_list \<Rightarrow> bool \<Rightarrow> db_connection \<Rightarrow> 'x node_world \<Rightarrow> 'x node_world option" where
  "publish_objects N op [] first_time conn w = Some w"
| "publish_objects N op (q # qs) first_time conn w = do {
     a \<leftarrow> q;
     p \<leftarrow> hp_objs (w_heap w) a;
     k \<leftarrow> (if first_time then cps_api_object_set_type_operation (obj_key p) op else Some (obj_key p));
     (_, w) \<leftarrow> node_publish N conn a (obj_put w a (p\<lparr>obj_key := k\<rparr>));
     publish_objects N op qs first_time conn w
   }"

fun publish_at_nodes ::
  "node_env \<Rightarrow> 'x redis_api \<Rightarrow> u32 \<Rightarrow> obj_list \<Rightarrow> bytes list \<Rightarrow> bool \<Rightarrow> 'x node_world \<Rightarrow> 'x node_world option" where
  "publish_at_nodes N A op objs [] first_time w = Some w"
| "publish_at_nodes N A op objs (it # its) first_time w = do {
     (sent, w) \<leftarrow> on_connection N A it False (\<lambda>conn w. do {
         w \<leftarrow> publish_objects N op objs first_time conn w;
         Some (True, conn, w)
       }) w;
     publish_at_nodes N A op objs its (first_time \<and> \<not> sent) w
   }"

text \<open>The tables of hooks and handlers by operation.\<close>

definition commit_one_steps ::
  "node_env \<Rightarrow> 'x redis_api \<Rightarrow> u32 \<Rightarrow> nat \<Rightarrow> nat \<Rightarrow> bytes list \<Rightarrow> 'x node_world \<Rightarrow>
     (cps_api_return_code_t \<times> 'x node_world) option" where
  "commit_one_steps N A op obj prev lst w =
     (if op = cps_api_oper_DELETE then do {
        (rc, w) \<leftarrow> one_pre_load_into_prev_delete N A lst obj prev w;
        if rc \<noteq> cps_api_ret_code_OK then Some (rc, w)
        else one_handle_delete N A obj lst cps_api_ret_code_OK w
      }
      else if op = cps_api_oper_CREATE then one_handle_create N A obj lst cps_api_ret_code_ERR w
      else do {
        (rc, w) \<leftarrow> one_pre_load_into_prev_for_set N A lst obj prev w;
        if rc \<noteq> cps_api_ret_code_OK then Some (rc, w)
        else one_handle_set N A obj prev lst w
      })"

definition db_commit_one ::
  "node_env \<Rightarrow> 'x redis_api \<Rightarrow> u32 \<Rightarrow> nat \<Rightarrow> obj_ptr \<Rightarrow> bool \<Rightarrow> 'x node_world \<Rightarrow>
     (cps_api_return_code_t \<times> 'x node_world) option" where
  "db_commit_one N A op obj prev pub w =
     (if op > cps_api_oper_SET \<or> op \<le> cps_api_oper_NULL then Some (cps_api_ret_code_ERR, w)
      else do {
        (og, pv, h) \<leftarrow> (case prev of
            Some a \<Rightarrow> Some (None, a, w_heap w)
          | None \<Rightarrow> do {
              (a, h) \<leftarrow> cps_api_object_create (nw_libc N) (w_heap w);
              Some (Some a, a, h)
            });
        p \<leftarrow> hp_objs h obj;
        grp \<leftarrow> cps_api_key_get_group (nw_tlv N) p;
        (ok, lst, w) \<leftarrow> cps_api_db_get_node_group N A grp [] (w\<lparr>w_heap := h\<rparr>);
        (rc, w) \<leftarrow> (if \<not> ok then Some (cps_api_ret_code_ERR, w) else commit_one_steps N A op obj pv lst w);
        w \<leftarrow> (if rc = cps_api_ret_code_OK \<and> pub then publish_at_nodes N A op [Some obj] lst True w else Some w);
        h \<leftarrow> cps_api_object_delete (w_heap w) og;
        Some (rc, w\<lparr>w_heap := h\<rparr>)
      })"

definition cps_api_db_commit_one ::
  "node_env \<Rightarrow> 'x redis_api \<Rightarrow> u32 \<Rightarrow> nat \<Rightarrow> obj_ptr \<Rightarrow> bool \<Rightarrow> 'x node_world \<Rightarrow>
     (cps_api_return_code_t \<times> 'x node_world) option" where
  "cps_api_db_commit_one N A op obj prev pub w = do {
     (rc, _, w) \<leftarrow> retry_request N A (\<lambda>u w. do {
         (rc, w) \<leftarrow> db_commit_one N A op obj prev pub w;
         Some (rc, (), w)
       }) 0 () w;
     Some (rc, w)
   }"

section \<open>Committing a list\<close>

record cps_api_db_commit_bulk_t =
  cb_op :: u32
  cb_objects :: obj_list
  cb_publish :: bool
  cb_node_group :: "bytes option"

fun pre_set ::
  "node_env \<Rightarrow> 'x redis_api \<Rightarrow> obj_list \<Rightarrow> bytes list \<Rightarrow> cps_api_return_code_t \<Rightarrow> 'x node_world \<Rightarrow>
     (cps_api_return_code_t \<times> 'x node_world) option" where
  "pre_set N A objs [] rc w = Some (rc, w)"
| "pre_set N A objs (it # its) rc w = do {
     ((merged, rc), w) \<leftarrow> on_connection N A it (False, cps_api_ret_code_COMMUNICATION_ERROR) (\<lambda>conn w. do {
         (ok, rc, conn, v) \<leftarrow> merge_objects (ne_db N) A objs conn (db_world w);
         Some ((ok, rc), conn, set_db_world w v)
       }) w;
     if merged then Some (rc, w) else pre_set N A objs its rc w
   }"

fun handle_delete ::
  "node_env \<Rightarrow> 'x redis_api \<Rightarrow> obj_list \<Rightarrow> bytes list \<Rightarrow> cps_api_return_code_t \<Rightarrow> 'x node_world \<Rightarrow>
     (cps_api_return_code_t \<times> 'x node_world) option" where
  "handle_delete N A objs [] rc w = Some (rc, w)"
| "handle_delete N A objs (it # its) rc w = do {
     (ok, w) \<leftarrow> on_connection N A it False (\<lambda>conn w. do {
         (ok, conn, v) \<leftarrow> delete_object_list (ne_db N) A objs conn (db_world w);
         Some (ok, conn, set_db_world w v)
       }) w;
     handle_delete N A objs its (if ok then cps_api_ret_code_OK else rc) w
   }"

fun handle_create ::
  "node_env \<Rightarrow> 'x redis_api \<Rightarrow> obj_list \<Rightarrow> bytes list \<Rightarrow> cps_api_return_code_t \<Rightarrow> 'x node_world \<Rightarrow>
     (cps_api_return_code_t \<times> 'x node_world) option" where
  "handle_create N A objs [] rc w = Some (rc, w)"
| "handle_create N A objs (it # its) rc w = do {
     let rc = (if rc = cps_api_ret_code_ERR then cps_api_ret_code_COMMUNICATION_ERROR else rc);
     (ok, w) \<leftarrow> on_connection N A it False (\<lambda>conn w. do {
         (ok, conn, v) \<leftarrow> store_objects (ne_db N) A objs conn (db_world w);
         Some (ok, conn, set_db_world w v)
       }) w;
     handle_create N A objs its (if ok then cps_api_ret_code_OK else rc) w
   }"

definition cps_api_db_commit_bulk_init :: cps_api_db_commit_bulk_t where
  "cps_api_db_commit_bulk_init = \<lparr>cb_op = 0, cb_objects = cps_api_object_list_create, cb_publish = False,
     cb_node_group = None\<rparr>"

definition cps_api_db_commit_bulk_close :: "cps_api_db_commit_bulk_t \<Rightarrow> obj_heap \<Rightarrow> obj_heap option" where
  "cps_api_db_commit_bulk_close p h = cps_api_object_list_destroy h (cb_objects p) True"

definition commit_bulk_steps ::
  "node_env \<Rightarrow> 'x redis_api \<Rightarrow> u32 \<Rightarrow> obj_list \<Rightarrow> bytes list \<Rightarrow> 'x node_world \<Rightarrow>
     (cps_api_return_code_t \<times> 'x node_world) option" where
  "commit_bulk_steps N A op objs lst w = do {
     (rc, w) \<leftarrow> (if op = cps_api_oper_SET then pre_set N A objs lst cps_api_ret_code_ERR w
                 else Some (cps_api_ret_code_OK, w));
     if rc \<noteq> cps_api_ret_code_OK then Some (rc, w)
     else if op = cps_api_oper_DELETE then handle_delete N A objs lst cps_api_ret_code_COMMUNICATION_ERROR w
     else handle_create N A objs lst cps_api_ret_code_ERR w
   }"

definition db_commit_bulk ::
  "node_env \<Rightarrow> 'x redis_api \<Rightarrow> cps_api_db_commit_bulk_t \<Rightarrow> 'x node_world \<Rightarrow>
     (cps_api_return_code_t \<times> cps_api_db_commit_bulk_t \<times> 'x node_world) option" where
  "db_commit_bulk N A param w =
     (if cb_op param > cps_api_oper_SET \<or> cb_op param \<le> cps_api_oper_NULL
      then Some (cps_api_ret_code_PARAM_INVALID, param, w)
      else do {
        let grp = (case cb_node_group param of None \<Rightarrow> DEFAULT_REDIS_ADDR | Some g \<Rightarrow> c_str g);
        let param = param\<lparr>cb_node_group := Some grp\<rparr>;
        (ok, lst, w) \<leftarrow> cps_api_db_get_node_group N A grp [] w;
        if \<not> ok then Some (cps_api_ret_code_PARAM_INVALID, param, w)
        else do {
          (rc, w) \<leftarrow> commit_bulk_steps N A (cb_op param) (cb_objects param) lst w;
          w \<leftarrow> (if rc = cps_api_ret_code_OK \<and> cb_publish param
                then publish_at_nodes N A (cb_op param) (cb_objects param) lst True w else Some w);
          Some (rc, param, w)
        }
      })"

definition cps_api_db_commit_bulk ::
  "node_env \<Rightarrow> 'x redis_api \<Rightarrow> cps_api_db_commit_bulk_t \<Rightarrow> 'x node_world \<Rightarrow>
     (cps_api_return_code_t \<times> cps_api_db_commit_bulk_t \<times> 'x node_world) option" where
  "cps_api_db_commit_bulk N A param w = retry_request N A (db_commit_bulk N A) 0 param w"

end
