(* ===== verification/Cps_Db_Event_Adapter.thy ===== *)
theory Cps_Db_Event_Adapter
  imports Cps_Db_Direct "HOL-Library.List_Lexorder"
begin

text \<open>
  The client of events over the database (\<open>src/db/cps_api_db_event_adapter.cpp\<close>): a handle keeps the keys
  registered for each group, a connection to every node of the groups with the keys subscribed there, filters on
  events, and the events on the state of connections not handed out yet.

  \<open>select\<close> and the order in which the C++ library walks over the keys of a hash table are parameters. The text of
  registered keys is kept for log output only and left out. One thread uses a handle; what other threads
  register while it waits is not part of a wait.
\<close>

section \<open>State\<close>

record conn_details =
  cd_name :: bytes
  cd_keys :: "bytes list"
  cd_group_reg :: "bytes \<rightharpoonup> bool"

record db_event_handle =
  eh_group_keys :: "(bytes \<times> bytes list) list"
  eh_connections :: "(bytes \<times> db_connection) list"
  eh_mon :: "bytes \<rightharpoonup> conn_details"
  eh_sequence :: "nat \<rightharpoonup> nat"
  eh_filters :: "nat list cache"
  eh_fd_set :: "int list"
  eh_max_fd :: int
  eh_last_checked :: u64
  eh_pending :: obj_list

text \<open>
  \<open>ec_select\<close> gets the bound of the descriptors, the set to read and the time in milliseconds, and gives the
  result and the descriptors that are ready.
\<close>

record 'x event_client =
  ec_select :: "int \<Rightarrow> int list \<Rightarrow> u64 \<Rightarrow> 'x \<Rightarrow> int \<times> int list \<times> 'x"
  ec_order :: "bytes list \<Rightarrow> bytes list"

definition conn_timeout :: u64 where "conn_timeout = 60 * 1000 * 1000"

definition FD_SETSIZE :: int where "FD_SETSIZE = 1024"

definition CPS_CONNECTION_ENTRY_GROUP :: u64 where "CPS_CONNECTION_ENTRY_GROUP = 131077"

definition no_details :: conn_details where
  "no_details = \<lparr>cd_name = [], cd_keys = [], cd_group_reg = Map.empty\<rparr>"

text \<open>\<open>operator[]\<close> of the table of details makes an entry when there is none.\<close>

definition mon_of :: "db_event_handle \<Rightarrow> bytes \<Rightarrow> conn_details" where
  "mon_of h node = (case eh_mon h node of None \<Rightarrow> no_details | Some d \<Rightarrow> d)"

definition update_mon :: "bytes \<Rightarrow> (conn_details \<Rightarrow> conn_details) \<Rightarrow> db_event_handle \<Rightarrow> db_event_handle" where
  "update_mon node f h = h\<lparr>eh_mon := (eh_mon h)(node \<mapsto> f (mon_of h node))\<rparr>"

definition details_reset :: "conn_details \<Rightarrow> conn_details" where
  "details_reset d = d\<lparr>cd_group_reg := Map.empty, cd_keys := []\<rparr>"

definition set_connection :: "bytes \<Rightarrow> db_connection \<Rightarrow> db_event_handle \<Rightarrow> db_event_handle" where
  "set_connection node conn h = h\<lparr>eh_connections := umap_set (eh_connections h) node conn\<rparr>"

section \<open>Filters\<close>

fun any_filter_matches :: "std_tlv_api \<Rightarrow> cps_dict \<Rightarrow> obj_heap \<Rightarrow> cps_obj \<Rightarrow> nat list \<Rightarrow> bool option" where
  "any_filter_matches T D hp p [] = Some False"
| "any_filter_matches T D hp p (f # fs) = do {
     q \<leftarrow> hp_objs hp f;
     ok \<leftarrow> cps_api_obj_tool_matches_filter T D q p True;
     if ok then Some True else any_filter_matches T D hp p fs
   }"

definition object_matches_filter ::
  "node_env \<Rightarrow> db_event_handle \<Rightarrow> cps_obj \<Rightarrow> 'x node_world \<Rightarrow> bool option" where
  "object_matches_filter N h p w = do {
     filt \<leftarrow> cache_find (de_hash (ne_db N)) (eh_filters h) (obj_key p) True;
     (case filt of
        None \<Rightarrow> Some True
      | Some fs \<Rightarrow> any_filter_matches (nw_tlv N) (ds_dict (db_of w)) (w_heap w) p fs)
   }"

text \<open>
  The guard keeps the copy unless all went well; the result of the insertion is not looked at.
\<close>

definition object_add_filter ::
  "node_env \<Rightarrow> nat \<Rightarrow> db_event_handle \<Rightarrow> 'x node_world \<Rightarrow> (bool \<times> db_event_handle \<times> 'x node_world) option" where
  "object_add_filter N obj h w = do {
     (og, hp) \<leftarrow> cps_api_object_create (nw_libc N) (w_heap w);
     (ok, hp) \<leftarrow> heap_clone (nw_libc N) hp og obj;
     let w = w\<lparr>w_heap := hp\<rparr>;
     if \<not> ok then do {
       w \<leftarrow> guard_end og w;
       Some (False, h, w)
     }
     else do {
       (_, w) \<leftarrow> on_object og (\<lambda>p. cps_api_object_attr_delete (nw_tlv N) p CPS_OBJECT_GROUP_EXACT_MATCH) w;
       p \<leftarrow> hp_objs (w_heap w) og;
       filt \<leftarrow> cache_at (de_hash (ne_db N)) (eh_filters h) (obj_key p) True;
       c \<leftarrow> (case filt of
          None \<Rightarrow> map_option snd (cache_insert (de_hash (ne_db N)) (key_mem_ok (nw_libc N) (obj_key p)) (eh_filters h)
            (obj_key p) [og] True)
        | Some e \<Rightarrow> cache_at_update (eh_filters h) e (\<lambda>fs. fs @ [og]));
       Some (True, h\<lparr>eh_filters := c\<rparr>, w)
     }
   }"

section \<open>Connections of a handle\<close>

text \<open>A descriptor outside the range of \<open>FD_SET\<close> is undefined.\<close>

definition update_connection_set :: "'x redis_api \<Rightarrow> 'x \<Rightarrow> db_event_handle \<Rightarrow> db_event_handle option" where
  "update_connection_set A x h = do {
     let fds = map (\<lambda>e. connection_get_fd A (snd e) x) (eh_connections h);
     if \<forall>fd \<in> set fds. 0 \<le> fd \<and> fd < FD_SETSIZE
     then Some (h\<lparr>eh_max_fd := fold max fds (-1), eh_fd_set := fds\<rparr>)
     else None
   }"

definition add_connection_state_event ::
  "node_env \<Rightarrow> bytes \<Rightarrow> bytes \<Rightarrow> bool \<Rightarrow> db_event_handle \<Rightarrow> 'x node_world \<Rightarrow>
     (db_event_handle \<times> 'x node_world) option" where
  "add_connection_state_event N node grp state h w = do {
     (q, l, hp) \<leftarrow> cps_api_object_list_create_obj_and_append (nw_libc N) (w_heap w) (eh_pending h);
     let h = h\<lparr>eh_pending := l\<rparr>;
     let w = w\<lparr>w_heap := hp\<rparr>;
     (case q of
        None \<Rightarrow> Some (h, w)
      | Some a \<Rightarrow> do {
          (_, w) \<leftarrow> (case eh_mon h (c_str node) of
             None \<Rightarrow> Some (True, w)
           | Some d \<Rightarrow> on_object a (\<lambda>p. cps_api_object_attr_add (nw_tlv N) (nw_libc N) p CPS_CONNECTION_ENTRY_NAME
               (cd_name d @ [0]) (length (cd_name d) + 1)) w);
          (_, w) \<leftarrow> on_object a (\<lambda>p. do {
             (ok, k) \<leftarrow> cps_api_key_from_attr_with_qual (ds_dict (db_of w)) (obj_key p) CPS_CONNECTION_ENTRY
               cps_api_qualifier_TARGET;
             Some (ok, p\<lparr>obj_key := k\<rparr>)
           }) w;
          (_, w) \<leftarrow> on_object a (add_string N CPS_CONNECTION_ENTRY_IP node) w;
          (_, w) \<leftarrow> on_object a (add_string N CPS_CONNECTION_ENTRY_GROUP grp) w;
          (_, w) \<leftarrow> on_object a (\<lambda>p. cps_api_object_attr_add_u32 (nw_tlv N) (nw_libc N) p
             CPS_CONNECTION_ENTRY_CONNECTION_STATE (of_bool state)) w;
          Some (h, w)
        })
   }"

text \<open>The literal \<open>N/A\<close>.\<close>

definition not_available :: bytes where "not_available = [78, 47, 65]"

definition erase_node :: "bytes \<Rightarrow> db_event_handle \<Rightarrow> db_event_handle" where
  "erase_node node h = h\<lparr>eh_connections := [e \<leftarrow> eh_connections h. fst e \<noteq> node], eh_mon := (eh_mon h)(node := None)\<rparr>"

definition disconnect_node ::
  "node_env \<Rightarrow> 'x redis_api \<Rightarrow> bytes \<Rightarrow> bool \<Rightarrow> db_event_handle \<Rightarrow> 'x node_world \<Rightarrow>
     (db_event_handle \<times> 'x node_world) option" where
  "disconnect_node N A node update_fd_set h w = do {
     (h, w) \<leftarrow> add_connection_state_event N (c_str node) not_available False h w;
     let w = (case umap_find (eh_connections h) node of
                None \<Rightarrow> w
              | Some conn \<Rightarrow> set_db w (connection_delete A conn (db_of w)));
     let h = erase_node node h;
     h \<leftarrow> (if update_fd_set then update_connection_set A (ds_net (db_of w)) h else Some h);
     Some (h, w)
   }"

section \<open>Subscriptions\<close>

text \<open>
  The keys of a group at a node: the key that was sent, with the star \<open>subscribe\<close> appends, goes into the set of
  keys, while the search uses the key without it. The flag tells whether the node is still connected.
\<close>

fun resync_keys ::
  "node_env \<Rightarrow> 'x redis_api \<Rightarrow> bytes \<Rightarrow> bytes list \<Rightarrow> db_event_handle \<Rightarrow> 'x node_world \<Rightarrow>
     (bool \<times> db_event_handle \<times> 'x node_world) option" where
  "resync_keys N A node [] h w = Some (True, h, w)"
| "resync_keys N A node (k # ks) h w =
     (if k \<in> set (cd_keys (mon_of h node)) then resync_keys N A node ks h w
      else do {
        conn \<leftarrow> umap_find (eh_connections h) node;
        (ok, k, conn, s) \<leftarrow> subscribe_key (ne_db N) A k conn (db_of w);
        let w = set_db w s;
        let h = set_connection node conn h;
        if \<not> ok then do {
          (h, w) \<leftarrow> disconnect_node N A (c_str node) True h w;
          Some (False, h, w)
        }
        else resync_keys N A node ks (update_mon node (\<lambda>d. d\<lparr>cd_keys := List.insert k (cd_keys d)\<rparr>) h) w
      })"

definition group_reg_of :: "db_event_handle \<Rightarrow> bytes \<Rightarrow> bytes \<Rightarrow> bool" where
  "group_reg_of h node grp = (case cd_group_reg (mon_of h node) grp of None \<Rightarrow> False | Some b \<Rightarrow> b)"

definition set_group_reg :: "bytes \<Rightarrow> bytes \<Rightarrow> bool \<Rightarrow> db_event_handle \<Rightarrow> db_event_handle" where
  "set_group_reg node grp b = update_mon node (\<lambda>d. d\<lparr>cd_group_reg := (cd_group_reg d)(grp \<mapsto> b)\<rparr>)"

text \<open>One node of a group; the first component says whether connections changed.\<close>

definition resync_node ::
  "node_env \<Rightarrow> 'x redis_api \<Rightarrow> bytes \<Rightarrow> bytes list \<Rightarrow> bytes \<Rightarrow> bool \<times> db_event_handle \<Rightarrow> 'x node_world \<Rightarrow>
     (bool \<times> (bool \<times> db_event_handle) \<times> 'x node_world) option" where
  "resync_node N A grp keys node c w = (case c of (changed, h) \<Rightarrow>
     if umap_find (eh_connections h) node = None then Some (True, (changed, h), w)
     else do {
       let done = group_reg_of h node grp;
       let h = set_group_reg node grp done h;
       if done then Some (True, (changed, h), w)
       else do {
         (ok, h, w) \<leftarrow> resync_keys N A node keys h w;
         Some (True, if ok then (changed, set_group_reg node grp True h) else (True, h), w)
       }
     })"

fun resync_groups ::
  "node_env \<Rightarrow> 'x redis_api \<Rightarrow> bytes list \<Rightarrow> bool \<times> db_event_handle \<Rightarrow> 'x node_world \<Rightarrow>
     ((bool \<times> db_event_handle) \<times> 'x node_world) option" where
  "resync_groups N A [] c w = Some (c, w)"
| "resync_groups N A (g # gs) c w = do {
     keys \<leftarrow> umap_find (eh_group_keys (snd c)) g;
     (_, c, w) \<leftarrow> cps_api_node_set_iterate N A g (resync_node N A g keys) c w;
     resync_groups N A gs c w
   }"

definition resync_regs ::
  "node_env \<Rightarrow> 'x redis_api \<Rightarrow> 'x event_client \<Rightarrow> db_event_handle \<Rightarrow> 'x node_world \<Rightarrow>
     (db_event_handle \<times> 'x node_world) option" where
  "resync_regs N A C h w = do {
     ((changed, h), w) \<leftarrow> resync_groups N A (ec_order C (map fst (eh_group_keys h))) (False, h) w;
     h \<leftarrow> (if changed then update_connection_set A (ds_net (db_of w)) h else Some h);
     Some (h, w)
   }"

section \<open>Checking connections\<close>

text \<open>
  A node without a connection gets one; \<open>None\<close> stands for a node that cannot be connected to.
\<close>

definition connect_node ::
  "node_env \<Rightarrow> 'x redis_api \<Rightarrow> bytes \<Rightarrow> bytes \<Rightarrow> db_event_handle \<Rightarrow> 'x node_world \<Rightarrow>
     (db_event_handle option \<times> 'x node_world) option" where
  "connect_node N A grp node h w = do {
     (c, s) \<leftarrow> cps_api_db_create_validated_connection (ne_db N) A (c_str node) (db_of w);
     let w = set_db w s;
     (case c of
        None \<Rightarrow> Some (None, w)
      | Some conn \<Rightarrow> do {
          let h = (case cps_api_db_get_node_from_ip node w of
                     None \<Rightarrow> h
                   | Some name \<Rightarrow> update_mon node (\<lambda>d. d\<lparr>cd_name := name\<rparr>) h);
          let h = set_connection node conn (update_mon node details_reset h);
          (h, w) \<leftarrow> add_connection_state_event N (c_str node) (c_str grp) True h w;
          Some (Some h, w)
        })
   }"

text \<open>One node of a group: whether connections changed, the nodes not seen yet, and the handle.\<close>

definition check_node ::
  "node_env \<Rightarrow> 'x redis_api \<Rightarrow> bytes \<Rightarrow> bytes \<Rightarrow> bool \<times> bytes list \<times> db_event_handle \<Rightarrow> 'x node_world \<Rightarrow>
     (bool \<times> (bool \<times> bytes list \<times> db_event_handle) \<times> 'x node_world) option" where
  "check_node N A grp node c w = (case c of (changed, nodes, h) \<Rightarrow> do {
     let known = (umap_find (eh_connections h) node \<noteq> None);
     (r, w) \<leftarrow> (if known then Some (Some h, w) else connect_node N A grp node h w);
     (case r of
        None \<Rightarrow> Some (True, (changed, nodes, h), w)
      | Some h \<Rightarrow> do {
          let changed = (changed \<or> \<not> known);
          conn \<leftarrow> umap_find (eh_connections h) node;
          let (old, x) = used_within A conn conn_timeout (ds_net (db_of w));
          let w = set_db w ((db_of w)\<lparr>ds_net := x\<rparr>);
          (ok, conn, s) \<leftarrow> (if old then cps_api_db_validate_connection (ne_db N) A conn (db_of w)
                            else Some (True, conn, db_of w));
          let w = set_db w s;
          let h = set_connection node conn h;
          if \<not> ok then do {
            (h, w) \<leftarrow> disconnect_node N A (c_str node) True h w;
            Some (True, (changed, nodes, h), w)
          }
          else Some (True, (changed, remove1 node nodes, set_group_reg node grp (group_reg_of h node grp) h), w)
        })
   })"

fun check_groups ::
  "node_env \<Rightarrow> 'x redis_api \<Rightarrow> bytes list \<Rightarrow> bool \<times> bytes list \<times> db_event_handle \<Rightarrow> 'x node_world \<Rightarrow>
     ((bool \<times> bytes list \<times> db_event_handle) \<times> 'x node_world) option" where
  "check_groups N A [] c w = Some (c, w)"
| "check_groups N A (g # gs) c w = do {
     (_, c, w) \<leftarrow> cps_api_node_set_iterate N A g (check_node N A g) c w;
     check_groups N A gs c w
   }"

fun disconnect_nodes ::
  "node_env \<Rightarrow> 'x redis_api \<Rightarrow> bytes list \<Rightarrow> db_event_handle \<Rightarrow> 'x node_world \<Rightarrow>
     (db_event_handle \<times> 'x node_world) option" where
  "disconnect_nodes N A [] h w = Some (h, w)"
| "disconnect_nodes N A (node # nodes) h w = do {
     (h, w) \<leftarrow> disconnect_node N A (c_str node) True h w;
     disconnect_nodes N A nodes h w
   }"

text \<open>The set of the nodes connected before is ordered by the names.\<close>

definition check_connections ::
  "node_env \<Rightarrow> 'x redis_api \<Rightarrow> 'x event_client \<Rightarrow> db_event_handle \<Rightarrow> 'x node_world \<Rightarrow>
     (bool \<times> db_event_handle \<times> 'x node_world) option" where
  "check_connections N A C h w = do {
     let nodes = sort (map fst (eh_connections h));
     ((changed, nodes, h), w) \<leftarrow> check_groups N A (ec_order C (map fst (eh_group_keys h))) (False, nodes, h) w;
     let changed = (changed \<or> nodes \<noteq> []);
     (h, w) \<leftarrow> disconnect_nodes N A nodes h w;
     h \<leftarrow> (if changed then update_connection_set A (ds_net (db_of w)) h else Some h);
     Some (changed, h, w)
   }"

definition maintain_connections ::
  "node_env \<Rightarrow> 'x redis_api \<Rightarrow> 'x event_client \<Rightarrow> db_event_handle \<Rightarrow> 'x node_world \<Rightarrow>
     (bool \<times> db_event_handle \<times> 'x node_world) option" where
  "maintain_connections N A C h w = do {
     (new_conn, h, w) \<leftarrow> check_connections N A C h w;
     (h, w) \<leftarrow> resync_regs N A C h w;
     Some (new_conn, h, w)
   }"

section \<open>Registration\<close>

definition add_group_key :: "bytes \<Rightarrow> bytes \<Rightarrow> db_event_handle \<Rightarrow> db_event_handle" where
  "add_group_key grp key h = h\<lparr>eh_group_keys := umap_set (eh_group_keys h) grp
     ((case umap_find (eh_group_keys h) grp of None \<Rightarrow> [] | Some ks \<Rightarrow> ks) @ [key])\<rparr>"

definition audit_node ::
  "bytes \<Rightarrow> bytes \<Rightarrow> db_event_handle \<Rightarrow> 'x node_world \<Rightarrow> (bool \<times> db_event_handle \<times> 'x node_world) option" where
  "audit_node grp node h w = Some (True, set_group_reg node grp False h, w)"

definition register_one_object ::
  "node_env \<Rightarrow> 'x redis_api \<Rightarrow> nat \<Rightarrow> db_event_handle \<Rightarrow> 'x node_world \<Rightarrow>
     (cps_api_return_code_t \<times> db_event_handle \<times> 'x node_world) option" where
  "register_one_object N A obj h w = do {
     p \<leftarrow> hp_objs (w_heap w) obj;
     grp \<leftarrow> cps_api_key_get_group (nw_tlv N) p;
     (_, key, D) \<leftarrow> dbkey_from_instance_key (nw_libc N) (nw_tlv N) (de_hash (ne_db N)) (ds_dict (db_of w)) [] p True;
     let w = set_db w ((db_of w)\<lparr>ds_dict := D\<rparr>);
     if key = [] then Some (cps_api_ret_code_ERR, h, w)
     else do {
       (_, h, w) \<leftarrow> cps_api_node_set_iterate N A grp (audit_node grp) (add_group_key grp key h) w;
       p \<leftarrow> hp_objs (w_heap w) obj;
       filt \<leftarrow> get_data_uint (nw_tlv N) p CPS_OBJECT_GROUP_EXACT_MATCH 1;
       (_, h, w) \<leftarrow> (if filt \<noteq> None \<and> filt \<noteq> Some 0 then object_add_filter N obj h w else Some (True, h, w));
       Some (cps_api_ret_code_OK, h, w)
     }
   }"

definition new_handle :: db_event_handle where
  "new_handle = \<lparr>eh_group_keys = [], eh_connections = [], eh_mon = Map.empty, eh_sequence = Map.empty,
     eh_filters = [], eh_fd_set = [], eh_max_fd = 0, eh_last_checked = 0, eh_pending = cps_api_object_list_create\<rparr>"

text \<open>
  The key of the group class is made once; before that it is zero. Its value is passed in and out.
\<close>

definition init_event_data :: "'x node_world \<Rightarrow> cps_api_key_t \<Rightarrow> cps_api_key_t option" where
  "init_event_data w grp_key = map_option snd
     (cps_api_key_from_attr_with_qual (ds_dict (db_of w)) grp_key CPS_CONNECTIVITY_GROUP cps_api_qualifier_OBSERVED)"

definition event_service_client_connect ::
  "node_env \<Rightarrow> 'x redis_api \<Rightarrow> 'x event_client \<Rightarrow> cps_api_key_t \<Rightarrow> 'x node_world \<Rightarrow>
     (cps_api_return_code_t \<times> db_event_handle \<times> 'x node_world) option" where
  "event_service_client_connect N A C grp_key w = do {
     (og, hp) \<leftarrow> cps_api_object_create (nw_libc N) (w_heap w);
     (_, w) \<leftarrow> on_object og (\<lambda>p. do {
        k \<leftarrow> cps_api_key_copy (obj_key p) grp_key;
        Some ((), p\<lparr>obj_key := k\<rparr>)
      }) (w\<lparr>w_heap := hp\<rparr>);
     (_, h, w) \<leftarrow> register_one_object N A og new_handle w;
     (_, h, w) \<leftarrow> maintain_connections N A C h w;
     w \<leftarrow> guard_end og w;
     Some (cps_api_ret_code_OK, h, w)
   }"

fun register_each ::
  "node_env \<Rightarrow> 'x redis_api \<Rightarrow> obj_list \<Rightarrow> db_event_handle \<Rightarrow> 'x node_world \<Rightarrow>
     (cps_api_return_code_t \<times> db_event_handle \<times> 'x node_world) option" where
  "register_each N A [] h w = Some (cps_api_ret_code_OK, h, w)"
| "register_each N A (q # qs) h w = do {
     obj \<leftarrow> q;
     (rc, h, w) \<leftarrow> register_one_object N A obj h w;
     if rc \<noteq> cps_api_ret_code_OK then Some (rc, h, w) else register_each N A qs h w
   }"

definition event_service_register_objs_function ::
  "node_env \<Rightarrow> 'x redis_api \<Rightarrow> 'x event_client \<Rightarrow> obj_list \<Rightarrow> db_event_handle \<Rightarrow> 'x node_world \<Rightarrow>
     (cps_api_return_code_t \<times> db_event_handle \<times> 'x node_world) option" where
  "event_service_register_objs_function N A C objects h w = do {
     (rc, h, w) \<leftarrow> register_each N A objects h w;
     if rc \<noteq> cps_api_ret_code_OK then Some (rc, h, w)
     else do {
       (_, h, w) \<leftarrow> maintain_connections N A C h w;
       Some (cps_api_ret_code_OK, h, w)
     }
   }"

section \<open>Publication\<close>

text \<open>After a failure at one node the others are not tried; a group that cannot be resolved counts as sent.\<close>

definition publish_at_node ::
  "node_env \<Rightarrow> 'x redis_api \<Rightarrow> nat \<Rightarrow> bytes \<Rightarrow> bool \<Rightarrow> 'x node_world \<Rightarrow> (bool \<times> bool \<times> 'x node_world) option" where
  "publish_at_node N A msg name sent w = do {
     (sent, w) \<leftarrow> on_connection N A (c_str name) False (\<lambda>conn w.
       if sent then do {
         (ok, w) \<leftarrow> node_publish N conn msg w;
         Some (ok, conn, w)
       }
       else Some (False, conn, w)) w;
     Some (True, sent, w)
   }"

definition event_service_publish_msg ::
  "node_env \<Rightarrow> 'x redis_api \<Rightarrow> nat \<Rightarrow> 'x node_world \<Rightarrow> (cps_api_return_code_t \<times> 'x node_world) option" where
  "event_service_publish_msg N A msg w = do {
     p \<leftarrow> hp_objs (w_heap w) msg;
     len \<leftarrow> cps_api_key_get_len (obj_key p);
     if len < CPS_OBJ_KEY_SUBCAT_POS then Some (cps_api_ret_code_ERR, w)
     else do {
       grp \<leftarrow> cps_api_key_get_group (nw_tlv N) p;
       (_, sent, w) \<leftarrow> cps_api_node_set_iterate N A grp (publish_at_node N A msg) True w;
       Some (if sent then cps_api_ret_code_OK else cps_api_ret_code_ERR, w)
     }
   }"

section \<open>The end of a handle\<close>

fun delete_filters :: "nat list \<Rightarrow> obj_heap \<Rightarrow> obj_heap option" where
  "delete_filters [] hp = Some hp"
| "delete_filters (f # fs) hp = do {
     hp \<leftarrow> cps_api_object_delete hp (Some f);
     delete_filters fs hp
   }"

definition event_handle_delete ::
  "node_env \<Rightarrow> 'x redis_api \<Rightarrow> db_event_handle \<Rightarrow> 'x node_world \<Rightarrow> 'x node_world option" where
  "event_handle_delete N A h w = do {
     hp \<leftarrow> snd (cache_walk (\<lambda>b s. (True, b, Option.bind s (delete_filters (concat (map fe_data b)))))
       (Some (w_heap w)) [] (eh_filters h));
     Some (set_db (w\<lparr>w_heap := hp\<rparr>) (fold (\<lambda>e. connection_delete A (snd e)) (eh_connections h) (db_of w)))
   }"

definition event_service_client_deregister ::
  "node_env \<Rightarrow> 'x redis_api \<Rightarrow> db_event_handle \<Rightarrow> 'x node_world \<Rightarrow>
     (cps_api_return_code_t \<times> 'x node_world) option" where
  "event_service_client_deregister N A h w = do {
     hp \<leftarrow> cps_api_object_list_destroy (w_heap w) (eh_pending h) True;
     w \<leftarrow> event_handle_delete N A h (w\<lparr>w_heap := hp\<rparr>);
     Some (cps_api_ret_code_OK, w)
   }"

section \<open>Waiting for an event\<close>

text \<open>The literal \<open>pmessage\<close>.\<close>

definition pmessage_literal :: bytes where
  "pmessage_literal = [112, 109, 101, 115, 115, 97, 103, 101]"

text \<open>An event of a connection into the object: the flag, the error flag, the connection.\<close>

definition read_event ::
  "node_env \<Rightarrow> 'x redis_api \<Rightarrow> nat \<Rightarrow> bool \<Rightarrow> db_connection \<Rightarrow> 'x node_world \<Rightarrow>
     (bool \<times> bool \<times> db_connection \<times> 'x node_world) option" where
  "read_event N A msg has_error conn w = do {
     (ok, err, _, resp, conn, x) \<leftarrow> get_event (ne_db N) A [] has_error conn (ds_net (db_of w));
     let w = set_db w ((db_of w)\<lparr>ds_net := x\<rparr>);
     if \<not> ok then Some (False, err, conn, w)
     else do {
       r \<leftarrow> response_set_get resp 0;
       type \<leftarrow> response_element_at r 0;
       str \<leftarrow> response_get_str type;
       if strcasecmp_eq str pmessage_literal then do {
         dat \<leftarrow> response_element_at r 3;
         let s = (case response_get_str dat of None \<Rightarrow> [] | Some s \<Rightarrow> s);
         (ok, w) \<leftarrow> on_object msg (cps_api_array_to_object (nw_libc N) s (length s)) w;
         Some (ok, err, conn, w)
       }
       else Some (False, err, conn, w)
     }
   }"

definition note_sequence :: "std_tlv_api \<Rightarrow> cps_obj \<Rightarrow> db_event_handle \<Rightarrow> db_event_handle option" where
  "note_sequence T p h = do {
     i \<leftarrow> get_data_uint T p CPS_OBJECT_GROUP_THREAD_ID 8;
     q \<leftarrow> get_data_uint T p CPS_OBJECT_GROUP_SEQUENCE 8;
     Some (case (i, q) of
        (Some i, Some q) \<Rightarrow>
          (let cur = (case eh_sequence h i of None \<Rightarrow> 0 | Some v \<Rightarrow> v)
           in h\<lparr>eh_sequence := (eh_sequence h)(i \<mapsto> if q \<le> cur then cur else q)\<rparr>)
      | _ \<Rightarrow> h)
   }"

text \<open>
  What is done with an event: \<open>None\<close> says that it is for the handle itself, else whether it is handed out.
\<close>

definition handle_event ::
  "node_env \<Rightarrow> cps_api_key_t \<Rightarrow> bytes \<Rightarrow> nat \<Rightarrow> db_event_handle \<Rightarrow> 'x node_world \<Rightarrow>
     (bool option \<times> db_event_handle \<times> 'x node_world) option" where
  "handle_event N grp_key node msg h w = do {
     p \<leftarrow> hp_objs (w_heap w) msg;
     m \<leftarrow> cps_api_key_matches grp_key (obj_key p) True;
     if m = 0 then Some (None, h, w)
     else do {
       ok \<leftarrow> object_matches_filter N h p w;
       if \<not> ok then Some (Some False, h, w)
       else do {
         (_, w) \<leftarrow> (case cps_api_db_get_node_from_ip node w of
            None \<Rightarrow> Some (True, w)
          | Some name \<Rightarrow> on_object msg (\<lambda>p. cps_api_object_attr_add (nw_tlv N) (nw_libc N) p CPS_OBJECT_GROUP_NODE
              (name @ [0]) (length name + 1)) w);
         p \<leftarrow> hp_objs (w_heap w) msg;
         h \<leftarrow> note_sequence (nw_tlv N) p h;
         Some (Some True, h, w)
       }
     }
   }"

text \<open>
  The first loop over the connections: whether one has an event, whether one failed. A connection that failed
  is given up and ends the loop.
\<close>

fun poll_connections ::
  "node_env \<Rightarrow> 'x redis_api \<Rightarrow> bytes list \<Rightarrow> bool \<Rightarrow> db_event_handle \<Rightarrow> 'x node_world \<Rightarrow>
     (bool \<times> bool \<times> db_event_handle \<times> 'x node_world) option" where
  "poll_connections N A [] pending h w = Some (pending, False, h, w)"
| "poll_connections N A (node # nodes) pending h w = do {
     conn \<leftarrow> umap_find (eh_connections h) node;
     (has, err, _, conn, x) \<leftarrow> has_event A False conn (ds_net (db_of w));
     let w = set_db w ((db_of w)\<lparr>ds_net := x\<rparr>);
     let h = set_connection node conn h;
     if err then do {
       (h, w) \<leftarrow> disconnect_node N A node True h w;
       Some (pending \<or> has, True, h, w)
     }
     else poll_connections N A nodes (pending \<or> has) h w
   }"

text \<open>
  The second loop, with the descriptors that are ready. A change of the connections during the loop leaves the
  iterator valid only when it removes other nodes.
\<close>

definition walk_goes_on :: "bytes \<Rightarrow> db_event_handle \<Rightarrow> db_event_handle \<Rightarrow> bool" where
  "walk_goes_on node h h' \<longleftrightarrow>
     fst ` set (eh_connections h') \<subseteq> fst ` set (eh_connections h) \<and> node \<in> fst ` set (eh_connections h')"

text \<open>The next connection, or the end of the loop with the answer whether an event is handed out.\<close>

datatype walk_step = Walk_next | Walk_end bool

text \<open>An event was read into the object, or an error seen.\<close>

definition after_event ::
  "node_env \<Rightarrow> 'x redis_api \<Rightarrow> 'x event_client \<Rightarrow> cps_api_key_t \<Rightarrow> nat \<Rightarrow> bytes \<Rightarrow> db_event_handle \<Rightarrow> 'x node_world \<Rightarrow>
     (walk_step \<times> db_event_handle \<times> 'x node_world) option" where
  "after_event N A C grp_key msg node h w = do {
     (r, h, w) \<leftarrow> handle_event N grp_key node msg h w;
     (case r of
        Some True \<Rightarrow> Some (Walk_end True, h, w)
      | Some False \<Rightarrow> Some (Walk_next, h, w)
      | None \<Rightarrow> do {
          (_, h', w) \<leftarrow> maintain_connections N A C h w;
          if walk_goes_on node h h' then Some (Walk_next, h', w) else None
        })
   }"

definition drop_connection ::
  "node_env \<Rightarrow> 'x redis_api \<Rightarrow> bytes \<Rightarrow> db_event_handle \<Rightarrow> 'x node_world \<Rightarrow>
     (walk_step \<times> db_event_handle \<times> 'x node_world) option" where
  "drop_connection N A node h w = do {
     (h, w) \<leftarrow> disconnect_node N A node True h w;
     Some (Walk_end False, h, w)
   }"

text \<open>One connection: the step with the error flag, the handle and the world.\<close>

definition read_connection ::
  "node_env \<Rightarrow> 'x redis_api \<Rightarrow> 'x event_client \<Rightarrow> cps_api_key_t \<Rightarrow> nat \<Rightarrow> bool \<Rightarrow> int list \<Rightarrow> bytes \<Rightarrow> db_connection \<Rightarrow>
     bool \<Rightarrow> db_event_handle \<Rightarrow> 'x node_world \<Rightarrow> (bool \<times> walk_step \<times> db_event_handle \<times> 'x node_world) option" where
  "read_connection N A C grp_key msg pending ready node conn err h w = do {
     let fd = connection_get_fd A conn (ds_net (db_of w));
     if eh_max_fd h < fd then Some (err, Walk_next, h, w)
     else do {
       (has, err, _, conn, x) \<leftarrow> has_event A err conn (ds_net (db_of w));
       let w = set_db w ((db_of w)\<lparr>ds_net := x\<rparr>);
       let h = set_connection node conn h;
       if err then map_option (Pair err) (drop_connection N A node h w)
       else if \<not> pending \<and> (fd < 0 \<or> FD_SETSIZE \<le> fd) then None
       else if \<not> (has \<or> \<not> pending \<and> fd \<in> set ready) then Some (err, Walk_next, h, w)
       else do {
         (ok, err, conn, w) \<leftarrow> read_event N A msg err conn w;
         let h = set_connection node conn h;
         map_option (Pair err)
           (if ok then after_event N A C grp_key msg node h w
            else if err then drop_connection N A node h w
            else Some (Walk_next, h, w))
       }
     }
   }"

text \<open>A node that was removed during the loop is not visited any more.\<close>

fun read_connections ::
  "node_env \<Rightarrow> 'x redis_api \<Rightarrow> 'x event_client \<Rightarrow> cps_api_key_t \<Rightarrow> nat \<Rightarrow> bool \<Rightarrow> int list \<Rightarrow> bytes list \<Rightarrow> bool \<Rightarrow>
     db_event_handle \<Rightarrow> 'x node_world \<Rightarrow> (bool \<times> db_event_handle \<times> 'x node_world) option" where
  "read_connections N A C grp_key msg pending ready [] err h w = Some (False, h, w)"
| "read_connections N A C grp_key msg pending ready (node # nodes) err h w =
     (case umap_find (eh_connections h) node of
        None \<Rightarrow> read_connections N A C grp_key msg pending ready nodes err h w
      | Some conn \<Rightarrow> do {
          (err, r, h, w) \<leftarrow> read_connection N A C grp_key msg pending ready node conn err h w;
          (case r of
             Walk_end got \<Rightarrow> Some (got, h, w)
           | Walk_next \<Rightarrow> read_connections N A C grp_key msg pending ready nodes err h w)
        })"

definition CPS_API_TIMEDWAIT_NO_TIMEOUT :: int where "CPS_API_TIMEDWAIT_NO_TIMEOUT = -1"

definition DEF_SELECT_TIMEOUT_SEC :: nat where "DEF_SELECT_TIMEOUT_SEC = 3"

text \<open>How long to wait in milliseconds, and whether to wait again after this round.\<close>

definition wait_time :: "'x redis_api \<Rightarrow> int \<Rightarrow> u64 \<Rightarrow> 'x \<Rightarrow> u64 \<times> bool \<times> 'x" where
  "wait_time A timeout_ms started x =
     (if timeout_ms = CPS_API_TIMEDWAIT_NO_TIMEOUT then (of_nat (DEF_SELECT_TIMEOUT_SEC * 1000), True, x)
      else
        (let (now, x) = rd_uptime A x; (expired, x) = rd_expired A started (of_int timeout_ms * 1000) x
         in if expired then (0, False, x) else (of_int timeout_ms - (now - started) div 1000, True, x)))"

text \<open>The oldest event on the state of connections, moved to the object.\<close>

definition take_pending ::
  "node_env \<Rightarrow> nat \<Rightarrow> db_event_handle \<Rightarrow> 'x node_world \<Rightarrow> (db_event_handle \<times> 'x node_world) option" where
  "take_pending N msg h w = do {
     og \<leftarrow> cps_api_object_list_get (eh_pending h) 0;
     (_, hp) \<leftarrow> heap_clone (nw_libc N) (w_heap w) msg og;
     w \<leftarrow> guard_end og (w\<lparr>w_heap := hp\<rparr>);
     Some (h\<lparr>eh_pending := cps_api_object_list_remove (eh_pending h) 0\<rparr>, w)
   }"

definition reset_last_used :: "db_event_handle \<Rightarrow> db_event_handle" where
  "reset_last_used h = h\<lparr>eh_connections := map (\<lambda>(n, c). (n, c\<lparr>cn_last_used := 0\<rparr>)) (eh_connections h),
     eh_last_checked := 0\<rparr>"

definition wait_maintain ::
  "node_env \<Rightarrow> 'x redis_api \<Rightarrow> 'x event_client \<Rightarrow> db_event_handle \<Rightarrow> 'x node_world \<Rightarrow>
     (db_event_handle \<times> 'x node_world) option" where
  "wait_maintain N A C h w = do {
     let (expired, x) = rd_expired A (eh_last_checked h) 3000000 (ds_net (db_of w));
     let w = set_db w ((db_of w)\<lparr>ds_net := x\<rparr>);
     if expired then do {
       let (now, x) = rd_uptime A (ds_net (db_of w));
       (_, h, w) \<leftarrow> maintain_connections N A C (h\<lparr>eh_last_checked := now\<rparr>) (set_db w ((db_of w)\<lparr>ds_net := x\<rparr>));
       Some (h, w)
     }
     else Some (h, w)
   }"

text \<open>The part of a round that has connections: whether an event is handed out.\<close>

definition wait_select ::
  "node_env \<Rightarrow> 'x redis_api \<Rightarrow> 'x event_client \<Rightarrow> cps_api_key_t \<Rightarrow> nat \<Rightarrow> u64 \<Rightarrow> db_event_handle \<Rightarrow> 'x node_world \<Rightarrow>
     (bool \<times> db_event_handle \<times> 'x node_world) option" where
  "wait_select N A C grp_key msg max_wait h w = do {
     (pending, err, h, w) \<leftarrow> poll_connections N A (ec_order C (map fst (eh_connections h))) False h w;
     if err then Some (False, h, w)
     else if pending then
       read_connections N A C grp_key msg True [] (ec_order C (map fst (eh_connections h))) False h w
     else do {
       let (rc, ready, x) = ec_select C (eh_max_fd h + 1) (eh_fd_set h) max_wait (ds_net (db_of w));
       let w = set_db w ((db_of w)\<lparr>ds_net := x\<rparr>);
       if rc = -1 then Some (False, reset_last_used h, w)
       else if rc = 0 then Some (False, h, w)
       else read_connections N A C grp_key msg False ready (ec_order C (map fst (eh_connections h))) False h w
     }
   }"

text \<open>One round: whether an event is handed out.\<close>

definition wait_round ::
  "node_env \<Rightarrow> 'x redis_api \<Rightarrow> 'x event_client \<Rightarrow> cps_api_key_t \<Rightarrow> nat \<Rightarrow> u64 \<Rightarrow> db_event_handle \<Rightarrow> 'x node_world \<Rightarrow>
     (bool \<times> db_event_handle \<times> 'x node_world) option" where
  "wait_round N A C grp_key msg max_wait h w =
     (if cps_api_object_list_size (eh_pending h) > 0 then do {
        (h, w) \<leftarrow> take_pending N msg h w;
        Some (True, h, w)
      }
      else do {
        (h, w) \<leftarrow> wait_maintain N A C h w;
        if eh_max_fd h = -1 then
          Some (False, h, set_db w ((db_of w)\<lparr>ds_net := rd_usleep A 1000000 (ds_net (db_of w))\<rparr>))
        else wait_select N A C grp_key msg max_wait h w
      })"

partial_function (option) wait_loop ::
  "node_env \<Rightarrow> 'x redis_api \<Rightarrow> 'x event_client \<Rightarrow> cps_api_key_t \<Rightarrow> nat \<Rightarrow> int \<Rightarrow> u64 \<Rightarrow> bool \<Rightarrow> db_event_handle \<Rightarrow>
     'x node_world \<Rightarrow> (cps_api_return_code_t \<times> db_event_handle \<times> 'x node_world) option" where
  "wait_loop N A C grp_key msg timeout_ms started waiting h w =
     (if \<not> waiting then Some (cps_api_ret_code_TIMEOUT, h, w)
      else do {
        let (max_wait, waiting, x) = wait_time A timeout_ms started (ds_net (db_of w));
        (got, h, w) \<leftarrow> wait_round N A C grp_key msg max_wait h (set_db w ((db_of w)\<lparr>ds_net := x\<rparr>));
        if got then Some (cps_api_ret_code_OK, h, w)
        else wait_loop N A C grp_key msg timeout_ms started waiting h w
      })"

definition event_service_wait_for_event ::
  "node_env \<Rightarrow> 'x redis_api \<Rightarrow> 'x event_client \<Rightarrow> cps_api_key_t \<Rightarrow> nat \<Rightarrow> int \<Rightarrow> db_event_handle \<Rightarrow> 'x node_world \<Rightarrow>
     (cps_api_return_code_t \<times> db_event_handle \<times> 'x node_world) option" where
  "event_service_wait_for_event N A C grp_key msg timeout_ms h w = do {
     let (started, x) = rd_uptime A (ds_net (db_of w));
     wait_loop N A C grp_key msg timeout_ms started True h (set_db w ((db_of w)\<lparr>ds_net := x\<rparr>))
   }"

end
