(* ===== verification/Cps_Events.thy ===== *)
theory Cps_Events
  imports Cps_Db_Event_Adapter
begin

text \<open>
  Events for applications (\<open>src/cps_api_events.cpp\<close>): calls that go to the functions an event service has
  registered, and the thread that waits for events and calls back. The methods of a service are a record
  of functions; the callbacks of applications are a parameter, a function on the state of the thread, so that a
  callback may itself register callbacks. Locks are left out.

  The event service of the repository is the adapter of \<open>Cps_Db_Event_Adapter\<close>.
\<close>

section \<open>Flags of registrations\<close>

definition cps_api_event_object_exact_match ::
  "std_tlv_api \<Rightarrow> libc \<Rightarrow> cps_obj \<Rightarrow> bool \<Rightarrow> (bool \<times> cps_obj) option" where
  "cps_api_event_object_exact_match T E obj match_flag =
     (if match_flag then cps_api_object_attr_add T E obj CPS_OBJECT_GROUP_EXACT_MATCH [1] 1
      else do {
        obj \<leftarrow> delete_until_gone T obj CPS_OBJECT_GROUP_EXACT_MATCH;
        Some (True, obj)
      })"

section \<open>Event services\<close>

text \<open>A connect gives the handle unless it failed before there was one.\<close>

record ('h, 'x) event_methods =
  em_connect :: "'x cps_world \<Rightarrow> (cps_api_return_code_t \<times> 'h option \<times> 'x cps_world) option"
  em_register :: "'h \<Rightarrow> obj_list \<Rightarrow> 'x cps_world \<Rightarrow> (cps_api_return_code_t \<times> 'h \<times> 'x cps_world) option"
  em_publish :: "'h \<Rightarrow> nat \<Rightarrow> 'x cps_world \<Rightarrow> (cps_api_return_code_t \<times> 'x cps_world) option"
  em_deregister :: "'h \<Rightarrow> 'x cps_world \<Rightarrow> (cps_api_return_code_t \<times> 'x cps_world) option"
  em_wait :: "'h \<Rightarrow> nat \<Rightarrow> int \<Rightarrow> 'x cps_world \<Rightarrow> (cps_api_return_code_t \<times> 'h \<times> 'x cps_world) option"

text \<open>The static data of the file; \<open>'c\<close> is a callback with its context.\<close>

record 'c event_thread_cb =
  tc_obj :: nat
  tc_cb :: 'c

record ('h, 'x, 'c) event_thread =
  et_method :: "('h, 'x) event_methods option"
  et_handle :: "'h option"
  et_is_running :: bool
  et_once :: bool
  et_cb_map :: "'c event_thread_cb list"
  et_world :: "'x cps_world"

definition cps_api_event_method_register ::
  "('h, 'x) event_methods \<Rightarrow> ('h, 'x, 'c) event_thread \<Rightarrow> cps_api_return_code_t \<times> ('h, 'x, 'c) event_thread" where
  "cps_api_event_method_register what st = (cps_api_ret_code_OK, st\<lparr>et_method := Some what\<rparr>)"

definition cps_api_event_client_connect ::
  "('h, 'x) event_methods \<Rightarrow> 'x cps_world \<Rightarrow> (cps_api_return_code_t \<times> 'h option \<times> 'x cps_world) option" where
  "cps_api_event_client_connect m w = em_connect m w"

text \<open>The objects with the keys of a registration.\<close>

fun key_objects ::
  "libc \<Rightarrow> cps_api_key_t list \<Rightarrow> obj_list \<Rightarrow> 'x cps_world \<Rightarrow> (bool \<times> obj_list \<times> 'x cps_world) option" where
  "key_objects E [] l w = Some (True, l, w)"
| "key_objects E (k # ks) l w = do {
     (q, l, hp) \<leftarrow> cps_api_object_list_create_obj_and_append E (w_heap w) l;
     let w = w\<lparr>w_heap := hp\<rparr>;
     (case q of
        None \<Rightarrow> Some (False, l, w)
      | Some a \<Rightarrow> do {
          (_, w) \<leftarrow> on_object a (\<lambda>p. do {
             k \<leftarrow> cps_api_key_copy (obj_key p) k;
             Some ((), p\<lparr>obj_key := k\<rparr>)
           }) w;
          key_objects E ks l w
        })
   }"

definition cps_api_event_client_register ::
  "libc \<Rightarrow> ('h, 'x) event_methods \<Rightarrow> 'h \<Rightarrow> cps_api_key_t list \<Rightarrow> 'x cps_world \<Rightarrow>
     (cps_api_return_code_t \<times> 'h \<times> 'x cps_world) option" where
  "cps_api_event_client_register E m handle objects w = do {
     (ok, l, w) \<leftarrow> key_objects E objects cps_api_object_list_create w;
     (rc, handle, w) \<leftarrow> (if ok then em_register m handle l w else Some (cps_api_ret_code_ERR, handle, w));
     hp \<leftarrow> cps_api_object_list_destroy (w_heap w) l True;
     Some (rc, handle, w\<lparr>w_heap := hp\<rparr>)
   }"

definition cps_api_event_client_register_object ::
  "('h, 'x) event_methods \<Rightarrow> 'h \<Rightarrow> obj_list \<Rightarrow> 'x cps_world \<Rightarrow>
     (cps_api_return_code_t \<times> 'h \<times> 'x cps_world) option" where
  "cps_api_event_client_register_object m handle objects w = em_register m handle objects w"

definition cps_api_event_publish ::
  "('h, 'x) event_methods \<Rightarrow> 'h \<Rightarrow> nat \<Rightarrow> 'x cps_world \<Rightarrow> (cps_api_return_code_t \<times> 'x cps_world) option" where
  "cps_api_event_publish m handle msg w = em_publish m handle msg w"

definition cps_api_event_client_disconnect ::
  "('h, 'x) event_methods \<Rightarrow> 'h \<Rightarrow> 'x cps_world \<Rightarrow> (cps_api_return_code_t \<times> 'x cps_world) option" where
  "cps_api_event_client_disconnect m handle w = em_deregister m handle w"

definition cps_api_wait_for_event ::
  "('h, 'x) event_methods \<Rightarrow> 'h \<Rightarrow> nat \<Rightarrow> 'x cps_world \<Rightarrow> (cps_api_return_code_t \<times> 'h \<times> 'x cps_world) option" where
  "cps_api_wait_for_event m handle msg w = em_wait m handle msg CPS_API_TIMEDWAIT_NO_TIMEOUT w"

definition cps_api_timedwait_for_event ::
  "('h, 'x) event_methods \<Rightarrow> 'h \<Rightarrow> nat \<Rightarrow> int \<Rightarrow> 'x cps_world \<Rightarrow>
     (cps_api_return_code_t \<times> 'h \<times> 'x cps_world) option" where
  "cps_api_timedwait_for_event m handle msg timeout w = em_wait m handle msg timeout w"

section \<open>The event thread\<close>

text \<open>
  The start, once: connect until it works, with the sleep of a second as a function on the world. The thread is
  created by the operating system.
\<close>

partial_function (option) connect_loop ::
  "('h, 'x) event_methods \<Rightarrow> ('x cps_world \<Rightarrow> 'x cps_world) \<Rightarrow> 'h option \<Rightarrow> 'x cps_world \<Rightarrow>
     ('h option \<times> 'x cps_world) option" where
  "connect_loop m sleep old w = do {
     (rc, handle, w) \<leftarrow> cps_api_event_client_connect m w;
     let handle = (if handle = None then old else handle);
     if rc = cps_api_ret_code_OK then Some (handle, w) else connect_loop m sleep handle (sleep w)
   }"

definition one_time_init ::
  "('x cps_world \<Rightarrow> 'x cps_world) \<Rightarrow> ('h, 'x, 'c) event_thread \<Rightarrow> ('h, 'x, 'c) event_thread option" where
  "one_time_init sleep st =
     (if et_once st then Some st
      else do {
        m \<leftarrow> et_method st;
        (handle, w) \<leftarrow> connect_loop m sleep (et_handle st) (et_world st);
        Some (st\<lparr>et_once := True, et_handle := handle, et_is_running := True, et_world := w\<rparr>)
      })"

text \<open>
  Calling back: \<open>mx\<close> is the number of callbacks, read again after every call. A callback that refuses ends the
  processing of the event.
\<close>

partial_function (option) dispatch_event ::
  "('c \<Rightarrow> nat \<Rightarrow> ('h, 'x, 'c) event_thread \<Rightarrow> (bool \<times> ('h, 'x, 'c) event_thread) option) \<Rightarrow> nat \<Rightarrow> nat \<Rightarrow> nat \<Rightarrow>
     ('h, 'x, 'c) event_thread \<Rightarrow> ('h, 'x, 'c) event_thread option" where
  "dispatch_event run obj ix mx st =
     (if ix < mx then do {
        p \<leftarrow> hp_objs (w_heap (et_world st)) obj;
        e \<leftarrow> (if ix < length (et_cb_map st) then Some (et_cb_map st ! ix) else None);
        q \<leftarrow> hp_objs (w_heap (et_world st)) (tc_obj e);
        m \<leftarrow> cps_api_key_matches (obj_key p) (obj_key q) False;
        if m = 0 then do {
          (go, st) \<leftarrow> run (tc_cb e) obj st;
          if \<not> go then Some st else dispatch_event run obj (ix + 1) (length (et_cb_map st)) st
        }
        else dispatch_event run obj (ix + 1) mx st
      }
      else Some st)"

text \<open>
  One round of the thread: wait, and call back; when the wait fails, the handle is replaced by a new one, on which
  nothing is registered.
\<close>

definition thread_round ::
  "('c \<Rightarrow> nat \<Rightarrow> ('h, 'x, 'c) event_thread \<Rightarrow> (bool \<times> ('h, 'x, 'c) event_thread) option) \<Rightarrow> nat \<Rightarrow>
     ('h, 'x, 'c) event_thread \<Rightarrow> ('h, 'x, 'c) event_thread option" where
  "thread_round run obj st = do {
     m \<leftarrow> et_method st;
     handle \<leftarrow> et_handle st;
     (rc, handle, w) \<leftarrow> cps_api_wait_for_event m handle obj (et_world st);
     let st = st\<lparr>et_handle := Some handle, et_world := w\<rparr>;
     if rc = cps_api_ret_code_OK then dispatch_event run obj 0 (length (et_cb_map st)) st
     else do {
       (_, w) \<leftarrow> cps_api_event_client_disconnect m handle (et_world st);
       (_, handle, w) \<leftarrow> cps_api_event_client_connect m w;
       Some (st\<lparr>et_handle := handle, et_world := w\<rparr>)
     }
   }"

definition CPS_API_EVENT_THREAD_MAX_OBJ :: nat where "CPS_API_EVENT_THREAD_MAX_OBJ = 50000"

text \<open>The thread function makes the object of the events, then runs rounds while the flag is set.\<close>

definition thread_start ::
  "libc \<Rightarrow> ('h, 'x, 'c) event_thread \<Rightarrow> (nat \<times> ('h, 'x, 'c) event_thread) option" where
  "thread_start E st = do {
     (obj, hp) \<leftarrow> cps_api_object_create E (w_heap (et_world st));
     (_, w) \<leftarrow> on_object obj (\<lambda>p. Some (cps_api_object_reserve E p CPS_API_EVENT_THREAD_MAX_OBJ))
       ((et_world st)\<lparr>w_heap := hp\<rparr>);
     Some (obj, st\<lparr>et_world := w\<rparr>)
   }"

fun thread_rounds ::
  "('c \<Rightarrow> nat \<Rightarrow> ('h, 'x, 'c) event_thread \<Rightarrow> (bool \<times> ('h, 'x, 'c) event_thread) option) \<Rightarrow> nat \<Rightarrow> nat \<Rightarrow>
     ('h, 'x, 'c) event_thread \<Rightarrow> ('h, 'x, 'c) event_thread option" where
  "thread_rounds run obj 0 st = Some st"
| "thread_rounds run obj (Suc n) st =
     (if et_is_running st then Option.bind (thread_round run obj st) (thread_rounds run obj n) else Some st)"

section \<open>Registration with the thread\<close>

fun add_callbacks ::
  "libc \<Rightarrow> 'c \<Rightarrow> obj_list \<Rightarrow> ('h, 'x, 'c) event_thread \<Rightarrow>
     (cps_api_return_code_t \<times> ('h, 'x, 'c) event_thread) option" where
  "add_callbacks E cb [] st = Some (cps_api_ret_code_OK, st)"
| "add_callbacks E cb (q # qs) st = do {
     src \<leftarrow> q;
     (a, hp) \<leftarrow> cps_api_object_create E (w_heap (et_world st));
     (ok, hp) \<leftarrow> heap_clone E hp a src;
     if \<not> ok then do {
       hp \<leftarrow> cps_api_object_delete hp (Some a);
       Some (cps_api_ret_code_ERR, st\<lparr>et_world := (et_world st)\<lparr>w_heap := hp\<rparr>\<rparr>)
     }
     else add_callbacks E cb qs (st\<lparr>et_world := (et_world st)\<lparr>w_heap := hp\<rparr>,
       et_cb_map := et_cb_map st @ [\<lparr>tc_obj = a, tc_cb = cb\<rparr>]\<rparr>)
   }"

definition cps_api_event_thread_reg_object ::
  "libc \<Rightarrow> ('x cps_world \<Rightarrow> 'x cps_world) \<Rightarrow> obj_list \<Rightarrow> 'c \<Rightarrow> ('h, 'x, 'c) event_thread \<Rightarrow>
     (cps_api_return_code_t \<times> ('h, 'x, 'c) event_thread) option" where
  "cps_api_event_thread_reg_object E sleep objects cb st = do {
     st \<leftarrow> one_time_init sleep st;
     m \<leftarrow> et_method st;
     handle \<leftarrow> et_handle st;
     (rc, handle, w) \<leftarrow> cps_api_event_client_register_object m handle objects (et_world st);
     let st = st\<lparr>et_handle := Some handle, et_world := w\<rparr>;
     if rc \<noteq> cps_api_ret_code_OK then Some (cps_api_ret_code_ERR, st)
     else add_callbacks E cb objects st
   }"

definition cps_api_event_thread_reg ::
  "libc \<Rightarrow> ('x cps_world \<Rightarrow> 'x cps_world) \<Rightarrow> cps_api_key_t list \<Rightarrow> 'c \<Rightarrow> ('h, 'x, 'c) event_thread \<Rightarrow>
     (cps_api_return_code_t \<times> ('h, 'x, 'c) event_thread) option" where
  "cps_api_event_thread_reg E sleep keys cb st = do {
     st \<leftarrow> one_time_init sleep st;
     (ok, l, w) \<leftarrow> key_objects E keys cps_api_object_list_create (et_world st);
     let st = st\<lparr>et_world := w\<rparr>;
     (rc, st) \<leftarrow> (if ok then cps_api_event_thread_reg_object E sleep l cb st else Some (cps_api_ret_code_ERR, st));
     hp \<leftarrow> cps_api_object_list_destroy (w_heap (et_world st)) l True;
     Some (rc, st\<lparr>et_world := (et_world st)\<lparr>w_heap := hp\<rparr>\<rparr>)
   }"

definition cps_api_event_thread_publish ::
  "('x cps_world \<Rightarrow> 'x cps_world) \<Rightarrow> nat \<Rightarrow> ('h, 'x, 'c) event_thread \<Rightarrow>
     (cps_api_return_code_t \<times> ('h, 'x, 'c) event_thread) option" where
  "cps_api_event_thread_publish sleep obj st = do {
     st \<leftarrow> one_time_init sleep st;
     m \<leftarrow> et_method st;
     handle \<leftarrow> et_handle st;
     (rc, w) \<leftarrow> cps_api_event_publish m handle obj (et_world st);
     Some (rc, st\<lparr>et_world := w\<rparr>)
   }"

text \<open>The copies of the registered objects are not deleted.\<close>

definition cps_api_event_thread_shutdown ::
  "('h, 'x, 'c) event_thread \<Rightarrow> cps_api_return_code_t \<times> ('h, 'x, 'c) event_thread" where
  "cps_api_event_thread_shutdown st = (cps_api_ret_code_OK, st\<lparr>et_is_running := False, et_cb_map := []\<rparr>)"

section \<open>The service over the database\<close>

definition event_functions ::
  "node_env \<Rightarrow> 'x redis_api \<Rightarrow> 'x event_client \<Rightarrow> cps_api_key_t \<Rightarrow> (db_event_handle, 'x node_state) event_methods" where
  "event_functions N A C grp_key = \<lparr>
     em_connect = (\<lambda>w. map_option (\<lambda>(rc, h, w). (rc, Some h, w)) (event_service_client_connect N A C grp_key w)),
     em_register = (\<lambda>h l w. event_service_register_objs_function N A C l h w),
     em_publish = (\<lambda>h msg w. event_service_publish_msg N A msg w),
     em_deregister = event_service_client_deregister N A,
     em_wait = (\<lambda>h msg timeout_ms w. event_service_wait_for_event N A C grp_key msg timeout_ms h w)\<rparr>"

definition cps_api_event_service_init ::
  "node_env \<Rightarrow> 'x redis_api \<Rightarrow> 'x event_client \<Rightarrow> cps_api_key_t \<Rightarrow> (db_event_handle, 'x node_state, 'c) event_thread \<Rightarrow>
     cps_api_return_code_t \<times> (db_event_handle, 'x node_state, 'c) event_thread" where
  "cps_api_event_service_init N A C grp_key st =
     (cps_api_ret_code_OK, snd (cps_api_event_method_register (event_functions N A C grp_key) st))"

section \<open>Publication and start of the library\<close>

text \<open>\<open>src/db/cps_api_core_utils.cpp\<close>.\<close>

definition cps_api_core_publish ::
  "node_env \<Rightarrow> 'x redis_api \<Rightarrow> nat \<Rightarrow> 'x node_world \<Rightarrow> (bool \<times> 'x node_world) option" where
  "cps_api_core_publish N A obj w = on_connection N A DEFAULT_REDIS_ADDR False (\<lambda>conn w. do {
     (ok, w) \<leftarrow> node_publish N conn obj w;
     Some (ok, conn, w)
   }) w"

text \<open>\<open>src/db/cps_api_db_init.cpp\<close>: the group \<open>localhost\<close> with the node \<open>local\<close>; failures are retried and then ignored.\<close>

definition local_group :: cps_api_node_group_t where
  "local_group = \<lparr>ng_id = [108, 111, 99, 97, 108, 104, 111, 115, 116],
     ng_addrs = [\<lparr>id_node_name = [108, 111, 99, 97, 108], id_addr = DEFAULT_REDIS_ADDR\<rparr>],
     ng_data_type = CPS_GROUP_TYPE_NODAL\<rparr>"

fun init_attempts ::
  "node_env \<Rightarrow> 'x redis_api \<Rightarrow> 'x node_state req_backend \<Rightarrow> (nat \<Rightarrow> 'x node_world \<Rightarrow> 'x node_world) \<Rightarrow> nat \<Rightarrow>
     'x node_world \<Rightarrow> 'x node_world option" where
  "init_attempts N A B usleep 0 w = Some w"
| "init_attempts N A B usleep (Suc n) w = do {
     (rc, w) \<leftarrow> cps_api_set_node_group N A B usleep local_group w;
     if rc \<noteq> cps_api_ret_code_OK then init_attempts N A B usleep n (usleep 2000000 w) else Some w
   }"

definition cps_api_db_init ::
  "node_env \<Rightarrow> 'x redis_api \<Rightarrow> 'x node_state req_backend \<Rightarrow> (nat \<Rightarrow> 'x node_world \<Rightarrow> 'x node_world) \<Rightarrow>
     'x node_world \<Rightarrow> (cps_api_return_code_t \<times> 'x node_world) option" where
  "cps_api_db_init N A B usleep w = do {
     w \<leftarrow> init_attempts N A B usleep 20 w;
     Some (cps_api_ret_code_OK, w)
   }"

end
