(* ===== verification/Cps_Db_Connection_Proofs.thy ===== *)
theory Cps_Db_Connection_Proofs
  imports Cps_Redis Cps_Channel_Proofs
begin

text \<open>
  Properties of database connections: what requests expand to, that queued requests are flushed and
  executed in order and their replies read in order with events set aside, and what the pool holds.
\<close>

section \<open>Requests\<close>

text \<open>Each handler adds at least one entry and stays below the size of the array.\<close>

definition grows :: "bytes list \<Rightarrow> bytes list \<Rightarrow> bool" where
  "grows cmds cmds' \<longleftrightarrow> length cmds < length cmds' \<and> length cmds' < MAX_EXP_CMD"

lemma handle_grows:
  assumes "request_walker_handle K cur cmds D = Some (True, cmds', D')"
  shows "grows cmds cmds'"
  using assms
  by (auto simp: request_walker_handle_def handle_str_def handle_class_key_def handle_instance_key_def
      handle_object_def handle_object_data_def handle_event_fields_def enough_def grows_def Let_def
      split: obj_fields_t.splits if_splits bind_splits)

lemma walker_set_bound:
  assumes "request_walker_set K lst cmds D = Some (ok, cmds', D')" and "length cmds < MAX_EXP_CMD"
  shows "length cmds' < MAX_EXP_CMD \<and> (ok \<longrightarrow> length cmds + length lst \<le> length cmds') \<and> (\<not> ok \<longrightarrow> cmds' = [])"
  using assms
proof (induction K lst cmds D rule: request_walker_set.induct)
  case (2 K cur rest cmds D)
  then obtain ok1 cmds1 D1 where h: "request_walker_handle K cur cmds D = Some (ok1, cmds1, D1)"
    by (cases "request_walker_handle K cur cmds D") auto
  show ?case
  proof (cases ok1)
    case True
    then have g: "grows cmds cmds1" using handle_grows h by simp
    have "request_walker_set K rest cmds1 D1 = Some (ok, cmds', D')" using 2 h True by simp
    then show ?thesis using 2(1) [OF h] True g by (fastforce simp: grows_def)
  qed (use 2 h in \<open>auto simp: MAX_EXP_CMD_def\<close>)
qed auto

text \<open>
  \<^bold>\<open>C39.\<close> A request never overruns the array of the command: it has at most nine entries. A list of
  ten or more parts is refused as a whole, and nothing is sent of it.
\<close>

theorem request_fits_array:
  assumes "request_walker K lst D = Some (cmds, D')"
  shows "length cmds < MAX_EXP_CMD \<and> (MAX_EXP_CMD \<le> length lst \<longrightarrow> cmds = [])"
proof -
  obtain ok where "request_walker_set K lst [] D = Some (ok, cmds, D')"
    using assms by (auto simp: request_walker_def split: bind_splits)
  from walker_set_bound [OF this] show ?thesis by (cases ok) (auto simp: MAX_EXP_CMD_def)
qed

text \<open>What the requests of the library expand to.\<close>

lemma walker_strings:
  assumes "length strs < MAX_EXP_CMD"
  shows "request_walker K (map from_string strs) D = Some (strs, D)"
proof -
  have "request_walker_set K (map from_string strs) cmds D = Some (True, cmds @ strs, D)"
    if "length cmds + length strs < MAX_EXP_CMD" for cmds
    using that
    by (induction strs arbitrary: cmds)
      (auto simp: request_walker_handle_def from_string_def handle_str_def enough_def)
  from this [of "[]"] assms show ?thesis by (simp add: request_walker_def)
qed

lemma walker_store:
  assumes "obj_wf T p xs" and "attrs_size T xs + 256 < obj_cap"
    and "dbkey_from_instance_key (de_libc K) (de_tlv K) (de_hash K) D [] p False = Some (True, key, D')"
  shows "request_walker K [from_string s, from_object p True True] D = Some ([s, key, object_field, obj_wire p], D')"
proof -
  have "cps_api_object_to_array_len p \<le> length (cps_api_object_array p)"
    by (rule obj_wire_eq(4) [OF assms(1,2)])
  then show ?thesis using assms(3)
    by (simp add: request_walker_def request_walker_handle_def from_string_def from_object_def handle_str_def
        handle_object_def handle_instance_key_def handle_object_data_def enough_def MAX_EXP_CMD_def obj_wire_def)
qed

section \<open>The server behind a connection\<close>

text \<open>Executing commands in order: the replies and the final contents.\<close>

fun exec_all :: "(bytes list \<Rightarrow> 'd \<Rightarrow> redisReply \<times> 'd) \<Rightarrow> bytes list list \<Rightarrow> 'd \<Rightarrow> redisReply list \<times> 'd" where
  "exec_all exec [] d = ([], d)"
| "exec_all exec (c # cs) d =
     (let (r, d) = exec c d; (rs, d) = exec_all exec cs d in (r # rs, d))"

lemma exec_all_append:
  "exec_all exec (as @ bs) d =
     (fst (exec_all exec as d) @ fst (exec_all exec bs (snd (exec_all exec as d))),
      snd (exec_all exec bs (snd (exec_all exec as d))))"
  by (induction as arbitrary: d) (simp_all add: case_prod_beta Let_def)

lemma exec_all_length: "length (fst (exec_all exec cs d)) = length cs"
  by (induction cs arbitrary: d) (simp_all add: case_prod_beta Let_def)

text \<open>
  What a connected context of the redis library promises. \<open>queued\<close> are the commands appended and not
  yet sent, \<open>ready\<close> the replies of the server that were not taken yet, \<open>db\<close> the contents of the
  server and \<open>exec\<close> what a command does there. A write sends commands in order, possibly not all of
  them, and a reply may need several reads; \<open>unsent\<close> and \<open>unread\<close> measure the bytes that remain.
\<close>

locale redis_server =
  fixes A :: "'x redis_api"
    and live :: "nat \<Rightarrow> int \<Rightarrow> 'x \<Rightarrow> bool"
    and queued :: "nat \<Rightarrow> 'x \<Rightarrow> bytes list list"
    and ready :: "nat \<Rightarrow> 'x \<Rightarrow> redisReply list"
    and db :: "'x \<Rightarrow> 'd"
    and exec :: "bytes list \<Rightarrow> 'd \<Rightarrow> redisReply \<times> 'd"
    and unsent :: "nat \<Rightarrow> 'x \<Rightarrow> nat"
    and unread :: "nat \<Rightarrow> 'x \<Rightarrow> nat"
  assumes append_queues: "live c fd x \<Longrightarrow> \<exists>x'. rd_append A c cmd x = (True, x') \<and> live c fd x' \<and>
      queued c x' = queued c x @ [cmd] \<and> ready c x' = ready c x \<and> db x' = db x"
    and poll_write: "live c fd x \<Longrightarrow> \<exists>x'. rd_poll A fd True t x = (1, True, x') \<and> live c fd x' \<and>
      queued c x' = queued c x \<and> ready c x' = ready c x \<and> db x' = db x \<and> unsent c x' = unsent c x"
    and poll_read: "live c fd x \<Longrightarrow> ready c x \<noteq> [] \<Longrightarrow>
      \<exists>x'. rd_poll A fd False t x = (1, True, x') \<and> live c fd x' \<and>
      queued c x' = queued c x \<and> ready c x' = ready c x \<and> db x' = db x \<and> unread c x' = unread c x"
    and clock: "live c fd x \<Longrightarrow> \<exists>t x'. rd_uptime A x = (t, x') \<and> live c fd x' \<and>
      queued c x' = queued c x \<and> ready c x' = ready c x \<and> db x' = db x \<and>
      unsent c x' = unsent c x \<and> unread c x' = unread c x"
    and write_sends: "live c fd x \<Longrightarrow> \<exists>k is_done x'. rd_write A c x = (Some is_done, x') \<and> live c fd x' \<and>
      queued c x' = drop k (queued c x) \<and>
      ready c x' = ready c x @ fst (exec_all exec (take k (queued c x)) (db x)) \<and>
      db x' = snd (exec_all exec (take k (queued c x)) (db x)) \<and>
      (if is_done then queued c x' = [] else unsent c x' < unsent c x)"
    and reply_taken: "live c fd x \<Longrightarrow> ready c x = r # rs \<Longrightarrow>
      \<exists>rep x'. rd_get_reply A c x = (Some rep, x') \<and> live c fd x' \<and> queued c x' = queued c x \<and> db x' = db x \<and>
      (case rep of
         None \<Rightarrow> ready c x' = r # rs \<and> 0 < unread c x' \<and> unread c x' = unread c x
       | Some r' \<Rightarrow> r' = r \<and> ready c x' = rs)"
    and read_fills: "live c fd x \<Longrightarrow> ready c x \<noteq> [] \<Longrightarrow> 0 < unread c x \<Longrightarrow>
      \<exists>x'. rd_read A c x = (True, x') \<and> live c fd x' \<and> queued c x' = queued c x \<and> ready c x' = ready c x \<and>
      db x' = db x \<and> unread c x' < unread c x"
begin

text \<open>A connection that uses a live context.\<close>

definition linked :: "nat \<Rightarrow> int \<Rightarrow> db_connection \<Rightarrow> 'x \<Rightarrow> bool" where
  "linked c fd conn x \<longleftrightarrow> cn_ctx conn = Some c \<and> cn_fd conn = Some fd \<and> live c fd x"

text \<open>Two connections that differ in the time of the last use.\<close>

definition touched :: "db_connection \<Rightarrow> db_connection \<Rightarrow> bool" where
  "touched conn conn' \<longleftrightarrow> (\<exists>u. conn' = conn\<lparr>cn_last_used := u\<rparr>)"

lemma touched_refl [simp]: "touched conn conn"
  by (auto simp: touched_def intro!: exI [of _ "cn_last_used conn"])

lemma touched_trans: "touched a b \<Longrightarrow> touched b c \<Longrightarrow> touched a c"
  by (auto simp: touched_def)

lemma touched_linked: "touched conn conn' \<Longrightarrow> live c fd x' \<Longrightarrow> linked c fd conn x \<Longrightarrow> linked c fd conn' x'"
  by (auto simp: touched_def linked_def)

lemma update_used_quiet:
  assumes "live c fd x"
  obtains conn' x' where "update_used A conn x = (conn', x')" and "touched conn conn'" and "live c fd x'"
    and "queued c x' = queued c x" and "ready c x' = ready c x" and "db x' = db x"
    and "unsent c x' = unsent c x" and "unread c x' = unread c x"
  using clock [OF assms] that by (auto simp: update_used_def touched_def) blast

lemma flush_step_live:
  assumes "linked c fd conn x"
  obtains k is_done conn' x' where
    "flush_step K A t conn x = Some (if is_done then Some True else None, cps_api_ret_code_OK, conn', x')"
    and "touched conn conn'" and "linked c fd conn' x'" and "queued c x' = drop k (queued c x)"
    and "ready c x' = ready c x @ fst (exec_all exec (take k (queued c x)) (db x))"
    and "db x' = snd (exec_all exec (take k (queued c x)) (db x))"
    and "if is_done then queued c x' = [] else unsent c x' < unsent c x"
proof -
  have l: "cn_ctx conn = Some c" "cn_fd conn = Some fd" "live c fd x" using assms by (simp_all add: linked_def)
  obtain x1 where x1: "rd_poll A fd True (to_int32 t) x = (1, True, x1)" "live c fd x1" "queued c x1 = queued c x"
    "ready c x1 = ready c x" "db x1 = db x" "unsent c x1 = unsent c x"
    using poll_write [OF l(3)] by blast
  obtain k is_done x2 where x2: "rd_write A c x1 = (Some is_done, x2)" "live c fd x2" "queued c x2 = drop k (queued c x1)"
    "ready c x2 = ready c x1 @ fst (exec_all exec (take k (queued c x1)) (db x1))"
    "db x2 = snd (exec_all exec (take k (queued c x1)) (db x1))"
    "if is_done then queued c x2 = [] else unsent c x2 < unsent c x1"
    using write_sends [OF x1(2)] by blast
  obtain conn' x3 where x3: "update_used A conn x2 = (conn', x3)" "touched conn conn'" "live c fd x3"
    "queued c x3 = queued c x2" "ready c x3 = ready c x2" "db x3 = db x2" "unsent c x3 = unsent c x2"
    using update_used_quiet [OF x2(2), of conn] by metis
  have "flush_step K A t conn x = Some (if is_done then Some True else None, cps_api_ret_code_OK, conn', x3)"
    using l x1(1) x2(1) x3(1)
    by (simp add: flush_step_def connection_writable_def connection_wait_def)
  then show thesis
    by (rule that) (use x1 x2 x3 touched_linked [OF x3(2,3) assms] in auto)
qed

lemma flush_loop_live:
  assumes "linked c fd conn x"
  shows "\<exists>conn' x'. flush_loop K A t conn x = Some (True, cps_api_ret_code_OK, conn', x') \<and> touched conn conn' \<and>
     linked c fd conn' x' \<and> queued c x' = [] \<and> ready c x' = ready c x @ fst (exec_all exec (queued c x) (db x)) \<and>
     db x' = snd (exec_all exec (queued c x) (db x))"
  using assms
proof (induction "unsent c x" arbitrary: conn x t rule: less_induct)
  case less
  obtain k is_done conn1 x1 where
    st: "flush_step K A (flush_timeout K conn t) conn x =
        Some (if is_done then Some True else None, cps_api_ret_code_OK, conn1, x1)"
    and tc: "touched conn conn1" and li: "linked c fd conn1 x1" and q: "queued c x1 = drop k (queued c x)"
    and r: "ready c x1 = ready c x @ fst (exec_all exec (take k (queued c x)) (db x))"
    and d: "db x1 = snd (exec_all exec (take k (queued c x)) (db x))"
    and m: "if is_done then queued c x1 = [] else unsent c x1 < unsent c x"
    by (rule flush_step_live [OF less.prems])
  have split: "exec_all exec (queued c x) (db x) =
      (fst (exec_all exec (take k (queued c x)) (db x)) @ fst (exec_all exec (queued c x1) (db x1)),
       snd (exec_all exec (queued c x1) (db x1)))"
    using exec_all_append [of exec "take k (queued c x)" "drop k (queued c x)" "db x"] by (simp add: q d)
  show ?case
  proof (cases is_done)
    case True
    then have "flush_loop K A t conn x = Some (True, cps_api_ret_code_OK, conn1, x1)"
      using st by (simp add: flush_loop.simps [of K A t])
    then show ?thesis using True m tc li r d split by auto
  next
    case False
    obtain conn2 x2 where "flush_loop K A (flush_timeout K conn1 t) conn1 x1 = Some (True, cps_api_ret_code_OK, conn2, x2)"
      "touched conn1 conn2" "linked c fd conn2 x2" "queued c x2 = []"
      "ready c x2 = ready c x1 @ fst (exec_all exec (queued c x1) (db x1))"
      "db x2 = snd (exec_all exec (queued c x1) (db x1))"
      using less.hyps [OF _ li, of "flush_timeout K conn1 t"] m False by auto
    moreover from this(1) have "flush_loop K A t conn x = Some (True, cps_api_ret_code_OK, conn2, x2)"
      using st False by (simp add: flush_loop.simps [of K A t])
    ultimately show ?thesis using touched_trans [OF tc] r split by auto
  qed
qed

lemma flush_live:
  assumes "linked c fd conn x"
  obtains conn' x' where "connection_flush K A t conn x = Some (True, cps_api_ret_code_OK, conn', x')"
    and "touched conn conn'" and "linked c fd conn' x'" and "queued c x' = []"
    and "ready c x' = ready c x @ fst (exec_all exec (queued c x) (db x))"
    and "db x' = snd (exec_all exec (queued c x) (db x))"
proof -
  obtain u1 x1 where x1: "rd_uptime A x = (u1, x1)" "live c fd x1" "queued c x1 = queued c x"
    "ready c x1 = ready c x" "db x1 = db x"
    using clock assms unfolding linked_def by blast
  have l1: "linked c fd conn x1" using assms x1(2) by (simp add: linked_def)
  obtain conn' x2 where x2: "flush_loop K A t conn x1 = Some (True, cps_api_ret_code_OK, conn', x2)" "touched conn conn'"
    "linked c fd conn' x2" "queued c x2 = []" "ready c x2 = ready c x @ fst (exec_all exec (queued c x) (db x))"
    "db x2 = snd (exec_all exec (queued c x) (db x))"
    using flush_loop_live [OF l1, of K t] x1 by auto
  obtain u3 x3 where x3: "rd_uptime A x2 = (u3, x3)" "live c fd x3" "queued c x3 = queued c x2"
    "ready c x3 = ready c x2" "db x3 = db x2"
    using clock x2(3) unfolding linked_def by blast
  show thesis
    by (rule that [of conn' x3]) (use x1 x2 x3 in \<open>auto simp: connection_flush_def linked_def\<close>)
qed

lemma response_wait_live:
  assumes "linked c fd conn x" and "ready c x \<noteq> []" and "0 < unread c x"
  obtains t' conn' x' where "response_wait K A t force conn x = Some (True, t', conn', x')"
    and "touched conn conn'" and "linked c fd conn' x'" and "queued c x' = queued c x"
    and "ready c x' = ready c x" and "db x' = db x" and "unread c x' < unread c x"
proof -
  have l: "cn_ctx conn = Some c" "cn_fd conn = Some fd" "live c fd x" using assms(1) by (simp_all add: linked_def)
  let ?check = "force \<or> \<not> cps_api_db_is_local_node (cn_addr conn)"
  let ?t = "if ?check \<and> t = SELECT_MS_WAIT then flag_size (fl_timeout_remote (de_flags K)) else t"
  obtain x1 where x1: "(if ?check then do { (ok, _, x) \<leftarrow> connection_readable A conn ?t x; Some (ok, x) }
        else Some (True, x)) = Some (True, x1)"
    "live c fd x1" "queued c x1 = queued c x" "ready c x1 = ready c x" "db x1 = db x" "unread c x1 = unread c x"
  proof (cases ?check)
    case True
    obtain y where "rd_poll A fd False (to_int32 ?t) x = (1, True, y)" "live c fd y" "queued c y = queued c x"
      "ready c y = ready c x" "db y = db x" "unread c y = unread c x"
      using poll_read [OF l(3) assms(2)] by blast
    then show thesis using True l
      by (intro that [of y]) (simp_all add: connection_readable_def connection_wait_def)
  qed (use l that in simp)
  obtain x2 where x2: "rd_read A c x1 = (True, x2)" "live c fd x2" "queued c x2 = queued c x1"
    "ready c x2 = ready c x1" "db x2 = db x1" "unread c x2 < unread c x1"
    using read_fills [OF x1(2)] x1(4,6) assms by auto
  obtain conn' x3 where x3: "update_used A conn x2 = (conn', x3)" "touched conn conn'" "live c fd x3"
    "queued c x3 = queued c x2" "ready c x3 = ready c x2" "db x3 = db x2" "unread c x3 = unread c x2"
    using update_used_quiet [OF x2(2), of conn] by metis
  have "response_wait K A t force conn x = Some (True, ?t, conn', x3)"
    unfolding response_wait_def Let_def using x1(1) x2(1) x3(1) l(1) by simp
  then show thesis
    by (rule that) (use x1 x2 x3 touched_linked [OF x3(2,3) assms(1)] in auto)
qed

lemma response_loop_next:
  assumes "linked c fd conn x" and "ready c x = r # rs"
  shows "\<exists>t' conn' x'. response_loop K A t force dat conn x =
       (if cn_event_connection conn \<and> is_event_message r
        then response_loop K A t' force dat (conn'\<lparr>cn_pending_events := cn_pending_events conn @ [r]\<rparr>) x'
        else Some (True, snd (response_set_add dat r), conn', x')) \<and>
     touched conn conn' \<and> linked c fd conn' x' \<and> queued c x' = queued c x \<and> ready c x' = rs \<and> db x' = db x"
  using assms
proof (induction "unread c x" arbitrary: conn x t rule: less_induct)
  case less
  have l: "cn_ctx conn = Some c" "live c fd x" using less.prems(1) by (simp_all add: linked_def)
  obtain rep x1 where g: "rd_get_reply A c x = (Some rep, x1)" "live c fd x1" "queued c x1 = queued c x" "db x1 = db x"
    "case rep of None \<Rightarrow> ready c x1 = r # rs \<and> 0 < unread c x1 \<and> unread c x1 = unread c x
       | Some r' \<Rightarrow> r' = r \<and> ready c x1 = rs"
    using reply_taken [OF l(2) less.prems(2)] by blast
  have l1: "linked c fd conn x1" using less.prems(1) g(2) by (simp add: linked_def)
  show ?case
  proof (cases rep)
    case None
    obtain t1 conn1 x2 where w: "response_wait K A t force conn x1 = Some (True, t1, conn1, x2)"
      "touched conn conn1" "linked c fd conn1 x2" "queued c x2 = queued c x1" "ready c x2 = ready c x1"
      "db x2 = db x1" "unread c x2 < unread c x1"
      by (rule response_wait_live [OF l1, of K t force]) (use g None in auto)
    have "response_loop K A t force dat conn x = response_loop K A t1 force dat conn1 x2"
      using l(1) g(1) None w(1) by (simp add: response_loop.simps [of K A t])
    moreover have "cn_event_connection conn1 = cn_event_connection conn" "cn_pending_events conn1 = cn_pending_events conn"
      using w(2) by (auto simp: touched_def)
    ultimately show ?thesis
      using less.hyps [OF _ w(3), of t1] w g None touched_trans [OF w(2)] by fastforce
  next
    case (Some r')
    have "response_loop K A t force dat conn x =
       (if cn_event_connection conn \<and> is_event_message r
        then response_loop K A t force dat (conn\<lparr>cn_pending_events := cn_pending_events conn @ [r]\<rparr>) x1
        else Some (True, snd (response_set_add dat r), conn, x1))"
      using l(1) g(1,5) Some by (simp add: response_loop.simps [of K A t])
    then show ?thesis using l1 g Some by (intro exI [of _ t] exI [of _ conn] exI [of _ x1]) simp
  qed
qed

lemma response_loop_live:
  assumes "linked c fd conn x" and "ready c x = evs @ r # rs"
    and "\<forall>e \<in> set evs. cn_event_connection conn \<and> is_event_message e"
    and "\<not> (cn_event_connection conn \<and> is_event_message r)"
  shows "\<exists>conn' x'. response_loop K A t force [] conn x = Some (True, [r], conn', x') \<and>
     touched (conn\<lparr>cn_pending_events := cn_pending_events conn @ evs\<rparr>) conn' \<and> linked c fd conn' x' \<and>
     queued c x' = queued c x \<and> ready c x' = rs \<and> db x' = db x"
  using assms
proof (induction evs arbitrary: conn x t)
  case Nil
  then show ?case using response_loop_next [of c fd conn x r rs K t force "[]"]
    by (auto simp: response_set_add_def)
next
  case (Cons e evs)
  have "ready c x = e # (evs @ r # rs)" using Cons.prems(2) by simp
  from response_loop_next [OF Cons.prems(1) this, of K t force "[]"] Cons.prems(3)
  obtain t1 conn1 x1 where n: "response_loop K A t force [] conn x =
      response_loop K A t1 force [] (conn1\<lparr>cn_pending_events := cn_pending_events conn @ [e]\<rparr>) x1"
    "touched conn conn1" "linked c fd conn1 x1" "queued c x1 = queued c x" "ready c x1 = evs @ r # rs" "db x1 = db x"
    by auto
  let ?c = "conn1\<lparr>cn_pending_events := cn_pending_events conn @ [e]\<rparr>"
  have c: "linked c fd ?c x1" using n(3) by (simp add: linked_def)
  have ev: "cn_event_connection ?c = cn_event_connection conn" using n(2) by (auto simp: touched_def)
  obtain conn' x' where "response_loop K A t1 force [] ?c x1 = Some (True, [r], conn', x')"
    "touched (?c\<lparr>cn_pending_events := cn_pending_events ?c @ evs\<rparr>) conn'" "linked c fd conn' x'"
    "queued c x' = queued c x1" "ready c x' = rs" "db x' = db x1"
    using Cons.IH [OF c n(5), of t1] Cons.prems(3,4) ev by auto
  then show ?case using n by (auto simp: touched_def)
qed

lemma response_live:
  assumes "linked c fd conn x"
    and "ready c x @ fst (exec_all exec (queued c x) (db x)) = evs @ r # rs"
    and "\<forall>e \<in> set evs. cn_event_connection conn \<and> is_event_message e"
    and "\<not> (cn_event_connection conn \<and> is_event_message r)"
  obtains conn' x' where
    "connection_response K A dat t force conn x = Some (True, cps_api_ret_code_OK, [r], conn', x')"
    and "touched (conn\<lparr>cn_pending_events := cn_pending_events conn @ evs\<rparr>) conn'" and "linked c fd conn' x'"
    and "queued c x' = []" and "ready c x' = rs" and "db x' = snd (exec_all exec (queued c x) (db x))"
proof -
  obtain conn1 x1 where f: "connection_flush K A t conn x = Some (True, cps_api_ret_code_OK, conn1, x1)"
    "touched conn conn1" "linked c fd conn1 x1" "queued c x1 = []"
    "ready c x1 = ready c x @ fst (exec_all exec (queued c x) (db x))"
    "db x1 = snd (exec_all exec (queued c x) (db x))"
    by (rule flush_live [OF assms(1)])
  have e: "cn_event_connection conn1 = cn_event_connection conn" using f(2) by (auto simp: touched_def)
  obtain conn' x' where g: "response_loop K A t force [] conn1 x1 = Some (True, [r], conn', x')"
    "touched (conn1\<lparr>cn_pending_events := cn_pending_events conn1 @ evs\<rparr>) conn'" "linked c fd conn' x'"
    "queued c x' = queued c x1" "ready c x' = rs" "db x' = db x1"
    using response_loop_live [OF f(3), of evs r rs K t force] f(5) assms(2-4) e by auto
  have "connection_response K A dat t force conn x = Some (True, cps_api_ret_code_OK, [r], conn', x')"
    using f(1) g(1) assms(1) by (simp add: connection_response_def linked_def response_set_clear_def)
  then show thesis
    by (rule that) (use f g in \<open>auto simp: touched_def\<close>)
qed

lemma operation_live:
  assumes "linked c fd conn (ds_net s)" and "request_walker K lst (ds_dict s) = Some (cmds, D')" and "cmds \<noteq> []"
  obtains x' where
    "connection_operation K A lst False t conn s =
       Some (True, cps_api_ret_code_OK, conn, s\<lparr>ds_dict := D', ds_net := x'\<rparr>)"
    and "linked c fd conn x'" and "queued c x' = queued c (ds_net s) @ [cmds]"
    and "ready c x' = ready c (ds_net s)" and "db x' = db (ds_net s)"
proof -
  have l: "cn_ctx conn = Some c" "live c fd (ds_net s)" using assms(1) by (simp_all add: linked_def)
  obtain x' where x': "rd_append A c cmds (ds_net s) = (True, x')" "live c fd x'"
    "queued c x' = queued c (ds_net s) @ [cmds]" "ready c x' = ready c (ds_net s)" "db x' = db (ds_net s)"
    using append_queues [OF l(2)] by blast
  have "append_loop K A cmds n conn (ds_net s) = Some (True, conn, x')" for n
    using l(1) x'(1) by (simp add: append_loop.simps)
  then have "connection_operation K A lst False t conn s =
       Some (True, cps_api_ret_code_OK, conn, s\<lparr>ds_dict := D', ds_net := x'\<rparr>)"
    using assms(2,3) l(1) by (simp add: connection_operation_def)
  then show thesis by (rule that) (use x' assms(1) in \<open>auto simp: linked_def\<close>)
qed

lemma operation_push_live:
  assumes "linked c fd conn (ds_net s)" and "request_walker K lst (ds_dict s) = Some (cmds, D')" and "cmds \<noteq> []"
  obtains conn' x' where
    "connection_operation K A lst True t conn s =
       Some (True, cps_api_ret_code_OK, conn', s\<lparr>ds_dict := D', ds_net := x'\<rparr>)"
    and "touched conn conn'" and "linked c fd conn' x'" and "queued c x' = []"
    and "ready c x' = ready c (ds_net s) @ fst (exec_all exec (queued c (ds_net s) @ [cmds]) (db (ds_net s)))"
    and "db x' = snd (exec_all exec (queued c (ds_net s) @ [cmds]) (db (ds_net s)))"
proof -
  have l: "cn_ctx conn = Some c" "live c fd (ds_net s)" using assms(1) by (simp_all add: linked_def)
  obtain x1 where x1: "rd_append A c cmds (ds_net s) = (True, x1)" "live c fd x1"
    "queued c x1 = queued c (ds_net s) @ [cmds]" "ready c x1 = ready c (ds_net s)" "db x1 = db (ds_net s)"
    using append_queues [OF l(2)] by blast
  have "append_loop K A cmds n conn (ds_net s) = Some (True, conn, x1)" for n
    using l(1) x1(1) by (simp add: append_loop.simps)
  moreover have "linked c fd conn x1" using assms(1) x1(2) by (simp add: linked_def)
  then obtain conn' x' where f: "connection_flush K A t conn x1 = Some (True, cps_api_ret_code_OK, conn', x')"
    "touched conn conn'" "linked c fd conn' x'" "queued c x' = []"
    "ready c x' = ready c x1 @ fst (exec_all exec (queued c x1) (db x1))"
    "db x' = snd (exec_all exec (queued c x1) (db x1))"
    by (rule flush_live)
  ultimately have "connection_operation K A lst True t conn s =
       Some (True, cps_api_ret_code_OK, conn', s\<lparr>ds_dict := D', ds_net := x'\<rparr>)"
    using assms(2,3) l(1) by (simp add: connection_operation_def)
  then show thesis by (rule that) (use f x1 in auto)
qed

end

section \<open>A server with hashes\<close>

text \<open>
  A server that keeps hashes: for each key a table from fields to values. Every context has a queue of
  commands and a queue of replies; a write executes all commands at once.
\<close>

type_synonym hash_store = "bytes \<Rightarrow> bytes \<Rightarrow> bytes option"

definition hash_exec :: "bytes list \<Rightarrow> hash_store \<Rightarrow> redisReply \<times> hash_store" where
  "hash_exec cmd d =
     (case cmd of
        [c, k, f, v] \<Rightarrow>
          if c = hset_literal then
            (REDIS_REPLY_INTEGER (if d k f = None then 1 else 0), d(k := (d k)(f \<mapsto> v)))
          else (REDIS_REPLY_ERROR [], d)
      | [c, k, f] \<Rightarrow>
          if c = hget_literal then (case d k f of None \<Rightarrow> REDIS_REPLY_NIL | Some v \<Rightarrow> REDIS_REPLY_STRING v, d)
          else (REDIS_REPLY_ERROR [], d)
      | [c, k] \<Rightarrow>
          if c = del_literal then
            (REDIS_REPLY_INTEGER (if \<forall>f. d k f = None then 0 else 1), d(k := (\<lambda>_. None)))
          else (REDIS_REPLY_ERROR [], d)
      | [c] \<Rightarrow> if c = ping_literal then (REDIS_REPLY_STATUS pong_literal, d) else (REDIS_REPLY_ERROR [], d)
      | _ \<Rightarrow> (REDIS_REPLY_ERROR [], d))"

record redis_sim =
  rs_store :: hash_store
  rs_queue :: "nat \<Rightarrow> bytes list list"
  rs_ready :: "nat \<Rightarrow> redisReply list"
  rs_next :: nat
  rs_time :: u64

definition sim_redis :: "redis_sim redis_api" where
  "sim_redis = \<lparr>
     rd_connect = (\<lambda>ip port sec x. (Some (rs_next x, True), x\<lparr>rs_next := rs_next x + 1\<rparr>)),
     rd_free = (\<lambda>c x. x\<lparr>rs_queue := (rs_queue x)(c := []), rs_ready := (rs_ready x)(c := [])\<rparr>),
     rd_fd = (\<lambda>c x. int c),
     rd_append = (\<lambda>c cmd x. (True, x\<lparr>rs_queue := (rs_queue x)(c := rs_queue x c @ [cmd])\<rparr>)),
     rd_write = (\<lambda>c x. (Some True,
        x\<lparr>rs_queue := (rs_queue x)(c := []),
          rs_ready := (rs_ready x)(c := rs_ready x c @ fst (exec_all hash_exec (rs_queue x c) (rs_store x))),
          rs_store := snd (exec_all hash_exec (rs_queue x c) (rs_store x))\<rparr>)),
     rd_get_reply = (\<lambda>c x. (case rs_ready x c of [] \<Rightarrow> (Some None, x)
        | r # rs \<Rightarrow> (Some (Some r), x\<lparr>rs_ready := (rs_ready x)(c := rs)\<rparr>))),
     rd_reader_reply = (\<lambda>c x. (case rs_ready x c of [] \<Rightarrow> (Some None, x)
        | r # rs \<Rightarrow> (Some (Some r), x\<lparr>rs_ready := (rs_ready x)(c := rs)\<rparr>))),
     rd_read = (\<lambda>c x. (True, x)),
     rd_poll = (\<lambda>fd out t x. (1, True, x)),
     rd_uptime = (\<lambda>x. (rs_time x, x\<lparr>rs_time := rs_time x + 1\<rparr>)),
     rd_expired = (\<lambda>last rel x. (rs_time x - last > rel, x)),
     rd_usleep = (\<lambda>n x. x)\<rparr>"

interpretation sim: redis_server sim_redis "\<lambda>c fd x. fd = int c" "\<lambda>c x. rs_queue x c" "\<lambda>c x. rs_ready x c"
  rs_store hash_exec "\<lambda>_ _. 0" "\<lambda>_ _. 0"
proof unfold_locales
  fix c :: nat and fd :: int and x :: redis_sim
  assume "fd = int c"
  then show "\<exists>k is_done x'. rd_write sim_redis c x = (Some is_done, x') \<and> fd = int c \<and>
      rs_queue x' c = drop k (rs_queue x c) \<and>
      rs_ready x' c = rs_ready x c @ fst (exec_all hash_exec (take k (rs_queue x c)) (rs_store x)) \<and>
      rs_store x' = snd (exec_all hash_exec (take k (rs_queue x c)) (rs_store x)) \<and>
      (if is_done then rs_queue x' c = [] else (0::nat) < 0)"
    by (intro exI [of _ "length (rs_queue x c)"] exI [of _ True]) (simp add: sim_redis_def)
qed (auto simp: sim_redis_def)

definition sim_start :: redis_sim where
  "sim_start = \<lparr>rs_store = (\<lambda>_ _. None), rs_queue = (\<lambda>_. []), rs_ready = (\<lambda>_. []), rs_next = 1, rs_time = 0\<rparr>"

text \<open>The values the flags have in the code.\<close>

definition default_flags :: db_flags where
  "default_flags = \<lparr>fl_operation_retry = 1, fl_timeout_local = 2000, fl_timeout_remote = 2000,
     fl_connection_retry_local = 30, fl_connection_retry_remote = 1, fl_delay_between_retries = 500000,
     fl_conn_ping_timeout = 500, fl_cache_entry_timeout = 30000000, fl_cache_max_connections = 6,
     fl_in_the_pipe = 500, fl_ignore_communication_errors = 0, fl_communication_error_retry = 6000,
     fl_communication_error_retry_timeout = 200\<rparr>"

definition demo_db :: db_env where
  "demo_db = \<lparr>de_libc = libc_ok, de_tlv = tlv16, de_hash = id, de_flags = default_flags\<rparr>"

definition demo_conn :: db_connection where
  "demo_conn = \<lparr>cn_addr = DEFAULT_REDIS_ADDR, cn_ctx = Some 1, cn_fd = Some 1, cn_pending_events = [],
     cn_last_used = 0, cn_event_connection = False\<rparr>"

theorem request_fits_array_witness:
  "request_walker demo_db (replicate 9 (from_string [1])) demo_dict = Some (replicate 9 [1], demo_dict) \<and>
   length (replicate 9 [1 :: u8]) < MAX_EXP_CMD"
proof -
  have "map from_string (replicate 9 [1]) = replicate 9 (from_string [1])" by simp
  then have w: "request_walker demo_db (replicate 9 (from_string [1])) demo_dict = Some (replicate 9 [1], demo_dict)"
    using walker_strings [of "replicate 9 [1]" demo_db demo_dict] by (simp only:) (simp add: MAX_EXP_CMD_def)
  then show ?thesis using request_fits_array [OF w] by simp
qed

section \<open>Events between replies\<close>

text \<open>
  \<^bold>\<open>C10.\<close> On a connection that carries events, reading a reply flushes the queued requests, skips the
  event messages that arrived before the reply and returns that reply. No event is lost: they are
  appended to the pending events in the order of their arrival, the next request for an event returns
  the oldest one without waiting, and the replies behind the one returned stay.
\<close>

theorem events_set_aside:
  assumes "redis_server A live queued ready db exec unsent unread"
    and "cn_ctx conn = Some c" and "cn_fd conn = Some fd" and "live c fd x" and "cn_event_connection conn"
    and "ready c x @ fst (exec_all exec (queued c x) (db x)) = evs @ r # rs"
    and "list_all is_event_message evs" and "\<not> is_event_message r"
    and "cn_pending_events conn @ evs = e # es"
  shows "\<exists>conn' x'. connection_response K A dat t force conn x = Some (True, cps_api_ret_code_OK, [r], conn', x') \<and>
     cn_pending_events conn' = cn_pending_events conn @ evs \<and> ready c x' = rs \<and> queued c x' = [] \<and>
     db x' = snd (exec_all exec (queued c x) (db x)) \<and>
     get_event K A dat' err conn' x' =
       Some (True, False, cps_api_ret_code_OK, [e], conn'\<lparr>cn_pending_events := es\<rparr>, x')"
proof -
  note rs = assms(1)
  have "redis_server.linked live c fd conn x" using assms(2-4) by (simp add: redis_server.linked_def [OF rs])
  moreover have "\<forall>e \<in> set evs. cn_event_connection conn \<and> is_event_message e"
    using assms(5,7) by (simp add: list_all_iff)
  ultimately obtain conn' x' where
    g: "connection_response K A dat t force conn x = Some (True, cps_api_ret_code_OK, [r], conn', x')"
    "redis_server.touched (conn\<lparr>cn_pending_events := cn_pending_events conn @ evs\<rparr>) conn'"
    "queued c x' = []" "ready c x' = rs" "db x' = snd (exec_all exec (queued c x) (db x))"
    using redis_server.response_live [OF rs _ assms(6), of fd conn K dat t force] assms(8) by metis
  obtain u where u: "conn' = conn\<lparr>cn_pending_events := cn_pending_events conn @ evs, cn_last_used := u\<rparr>"
    using g(2) by (auto simp: redis_server.touched_def [OF rs])
  have "get_event K A dat' err conn' x' =
       Some (True, False, cps_api_ret_code_OK, [e], conn'\<lparr>cn_pending_events := es\<rparr>, x')"
    using assms(2,9) by (simp add: u get_event_def take_event_def response_set_clear_def response_set_add_def)
  then show ?thesis using g u by auto
qed

text \<open>A published message, and a ping whose answer arrives after it.\<close>

definition demo_event :: redisReply where
  "demo_event = REDIS_REPLY_ARRAY
     [REDIS_REPLY_STRING (112 # message_literal), REDIS_REPLY_STRING [1], REDIS_REPLY_STRING [2]]"

lemma demo_event_message: "is_event_message demo_event"
  by (simp add: is_event_message_def demo_event_def response_elements_def response_element_at_def
      response_is_str_def response_get_str_def strstr_def find_all_def c_str_def message_literal_def upt_rec)

definition demo_event_net :: redis_sim where
  "demo_event_net = sim_start\<lparr>rs_ready := (\<lambda>_. [demo_event]), rs_queue := (\<lambda>_. [[ping_literal]])\<rparr>"

theorem events_set_aside_witness:
  "\<exists>conn' x'. connection_response demo_db sim_redis [] SELECT_MS_WAIT False (demo_conn\<lparr>cn_event_connection := True\<rparr>)
       demo_event_net = Some (True, cps_api_ret_code_OK, [REDIS_REPLY_STATUS pong_literal], conn', x') \<and>
     get_event demo_db sim_redis [] False conn' x' =
       Some (True, False, cps_api_ret_code_OK, [demo_event], conn'\<lparr>cn_pending_events := []\<rparr>, x')"
proof -
  have "\<not> is_event_message (REDIS_REPLY_STATUS pong_literal)"
    by (simp add: is_event_message_def response_elements_def)
  moreover have "rs_ready demo_event_net 1 @ fst (exec_all hash_exec (rs_queue demo_event_net 1) (rs_store demo_event_net)) =
      [demo_event] @ REDIS_REPLY_STATUS pong_literal # []"
    by (simp add: demo_event_net_def hash_exec_def)
  ultimately show ?thesis
    using events_set_aside [OF sim.redis_server_axioms, of "demo_conn\<lparr>cn_event_connection := True\<rparr>" 1 1
        demo_event_net "[demo_event]" "REDIS_REPLY_STATUS pong_literal" "[]" demo_event "[]" demo_db "[]" SELECT_MS_WAIT
        False "[]" False]
    by (auto simp: demo_conn_def demo_event_message)
qed

text \<open>A response that fails leaves the code \<open>OK\<close> behind.\<close>

lemma response_failure_ok:
  assumes "connection_response K A dat t force conn x = Some (False, rc, resp, conn', x')" and "cn_ctx conn \<noteq> None"
  shows "rc = cps_api_ret_code_OK"
  using assms by (auto simp: connection_response_def Let_def split: bind_splits if_splits)

section \<open>The address of a connection\<close>

text \<open>An address of version 4 is taken apart as meant; of a version 6 address the closing bracket stays.\<close>

lemma parse_addr_v4:
  assumes "58 \<notin> set port" and "ip = [] \<or> hd ip \<noteq> 91"
  shows "parse_addr (ip @ 58 # port) = Some (ip, atoi port)"
proof -
  have "find_all [58] (ip @ 58 # port) = find_all [58] ip @ [length ip]"
  proof -
    have "[i \<leftarrow> [0..<length (ip @ 58 # port)]. (ip @ 58 # port) ! i = 58] =
        [i \<leftarrow> [0..<length ip]. ip ! i = 58] @ [length ip]"
    proof -
      have "[0..<length (ip @ 58 # port)] = [0..<length ip] @ length ip # [Suc (length ip)..<length (ip @ 58 # port)]"
        using upt_add_eq_append [of 0 "length ip" "Suc (length port)"]
          upt_conv_Cons [of "length ip" "length ip + Suc (length port)"]
        by (simp del: upt_Suc upt_Suc_append)
      moreover have "[i \<leftarrow> [Suc (length ip)..<length (ip @ 58 # port)]. (ip @ 58 # port) ! i = 58] = []"
        using assms(1) by (auto simp: filter_empty_conv nth_append nth_Cons' in_set_conv_nth)
      moreover have "[i \<leftarrow> [0..<length ip]. (ip @ 58 # port) ! i = 58] = [i \<leftarrow> [0..<length ip]. ip ! i = 58]"
        by (rule filter_cong) (auto simp: nth_append)
      ultimately show ?thesis by simp
    qed
    moreover have "find_all [58] s = [i \<leftarrow> [0..<length s]. s ! i = 58]" for s
      unfolding find_all_def by (rule filter_cong) (auto simp: take_Suc_conv_app_nth Cons_nth_drop_Suc [symmetric])
    ultimately show ?thesis by simp
  qed
  then have "rfind [58] (ip @ 58 # port) = Some (length ip)"
    by (cases "find_all [58] ip") (simp_all add: rfind_def)
  moreover have "(ip @ 58 # port) ! 0 \<noteq> 91" using assms(2) by (cases ip) auto
  ultimately show ?thesis by (simp add: parse_addr_def)
qed

lemma parse_addr_v6_bracket: "parse_addr [91, 58, 58, 49, 93, 58, 54] = Some ([58, 58, 49, 93], Some 6)"
  by (simp add: parse_addr_def rfind_def find_all_def upt_rec)

section \<open>The pool\<close>

text \<open>
  The steps on the pool, and the property kept: no entry has more connections than the limit, and
  every pooled connection has a context.
\<close>

inductive pool_step :: "db_env \<Rightarrow> 'x redis_api \<Rightarrow> 'x db_state \<Rightarrow> 'x db_state \<Rightarrow> bool" for K A where
  pool_step_get: "connection_cache_get K A name check_alive s = Some (r, s') \<Longrightarrow> pool_step K A s s'"
| pool_step_put: "connection_cache_put K A name conn s = Some s' \<Longrightarrow> pool_step K A s s'"
| pool_step_remove: "pool_step K A s (connection_cache_remove A name s)"

definition pool_ok :: "db_env \<Rightarrow> (bytes \<rightharpoonup> db_connection list) \<Rightarrow> bool" where
  "pool_ok K pool \<longleftrightarrow> (\<forall>l \<in> ran pool. length l \<le> flag_size (fl_cache_max_connections (de_flags K)) \<and>
     (\<forall>c \<in> set l. cn_ctx c \<noteq> None))"

lemma command_pool:
  "connection_command K A lst t conn s = Some (ok, rc, resp, conn', s') \<Longrightarrow> ds_pool s' = ds_pool s"
  by (auto simp: connection_command_def connection_operation_def Let_def split: bind_splits if_splits)

lemma ping_pool: "ping K A t conn s = Some (ok, conn', s') \<Longrightarrow> ds_pool s' = ds_pool s"
  by (auto simp: ping_def dest!: command_pool split: bind_splits if_splits)

lemma validate_pool: "cps_api_db_validate_connection K A conn s = Some (ok, conn', s') \<Longrightarrow> ds_pool s' = ds_pool s"
  by (auto simp: cps_api_db_validate_connection_def dest!: ping_pool split: bind_splits if_splits)

lemma select_pool: "select_db K A i conn s = Some (ok, conn', s') \<Longrightarrow> ds_pool s' = ds_pool s"
  by (auto simp: select_db_def dest!: command_pool split: bind_splits if_splits)

lemma connect_pool: "connection_connect K A addr i conn s = Some (ok, conn', s') \<Longrightarrow> ds_pool s' = ds_pool s"
  by (auto simp: connection_connect_def Let_def dest!: select_pool split: bind_splits if_splits prod.splits)

lemma delete_pool [simp]: "ds_pool (connection_delete A conn s) = ds_pool s"
  by (simp add: connection_delete_def)

lemma create_validated_pool:
  "create_validated_loop K A node n s = Some (r, s') \<Longrightarrow> ds_pool s' = ds_pool s"
proof (induction n arbitrary: s)
  case (Suc n)
  from Suc.prems obtain ok c s1 where c: "connection_connect K A node [] new_connection s = Some (ok, c, s1)"
    by (auto split: bind_splits)
  with Suc.prems obtain ok' c' s2 where
    v: "(if ok then cps_api_db_validate_connection K A c s1 else Some (False, c, s1)) = Some (ok', c', s2)"
    by (auto split: bind_splits)
  have "ds_pool s2 = ds_pool s" using connect_pool [OF c] v by (auto split: if_splits dest: validate_pool)
  then show ?case using Suc.prems Suc.IH c v by (auto simp: Let_def split: if_splits)
qed simp

lemma pool_get_loop_pool:
  "pool_get_loop K A check_alive l s = Some (r, rest, s') \<Longrightarrow> ds_pool s' = ds_pool s \<and> length rest \<le> length l \<and> set rest \<subseteq> set l"
proof (induction l arbitrary: s)
  case (Cons conn l)
  obtain old x where o: "(if check_alive then used_within A conn (word_of_int (fl_cache_entry_timeout (de_flags K))) (ds_net s)
      else (False, ds_net s)) = (old, x)" by fastforce
  let ?s = "s\<lparr>ds_net := x\<rparr>"
  from Cons.prems o obtain ok c' s1 where
    v: "(if old then cps_api_db_validate_connection K A conn ?s else Some (True, conn, ?s)) = Some (ok, c', s1)"
    by (auto simp: Let_def split: bind_splits)
  have p: "ds_pool s1 = ds_pool s" using v validate_pool [of K A conn ?s] by (auto split: if_splits)
  show ?case
  proof (cases ok)
    case True
    then show ?thesis using Cons.prems o v p by auto
  next
    case False
    then have "pool_get_loop K A check_alive l (connection_delete A c' s1) = Some (r, rest, s')"
      using Cons.prems o v by simp
    from Cons.IH [OF this] p show ?thesis by auto
  qed
qed simp

lemma pool_ok_upd:
  assumes "pool_ok K pool" and "length l \<le> flag_size (fl_cache_max_connections (de_flags K))"
    and "\<forall>c \<in> set l. cn_ctx c \<noteq> None"
  shows "pool_ok K (pool(name \<mapsto> l))"
  using assms by (auto simp: pool_ok_def ran_def split: if_splits)

lemma pool_get_ok:
  assumes "connection_cache_get K A name check_alive s = Some (r, s')" and "pool_ok K (ds_pool s)"
  shows "pool_ok K (ds_pool s')"
proof (cases "ds_pool s name")
  case None
  then show ?thesis using assms create_validated_pool
    by (auto simp: connection_cache_get_def cps_api_db_create_validated_connection_def dest!: create_validated_pool)
next
  case (Some conns)
  with assms(1) obtain found rest s1 where
    g: "pool_get_loop K A check_alive (rev conns) s = Some (found, rest, s1)"
    by (auto simp: connection_cache_get_def split: bind_splits)
  have sub: "length rest \<le> length conns" "set rest \<subseteq> set conns" "ds_pool s1 = ds_pool s"
    using pool_get_loop_pool [OF g] by auto
  have "conns \<in> ran (ds_pool s)" using Some by (auto simp: ran_def)
  then have "pool_ok K ((ds_pool s1)(name \<mapsto> rev rest))"
    using assms(2) sub by (intro pool_ok_upd) (auto simp: pool_ok_def)
  then show ?thesis using assms(1) Some g
    by (auto simp: connection_cache_get_def cps_api_db_create_validated_connection_def Let_def
        dest!: create_validated_pool split: option.splits)
qed

lemma pool_put_ok:
  assumes "connection_cache_put K A name conn s = Some s'" and "pool_ok K (ds_pool s)"
  shows "pool_ok K (ds_pool s')"
proof -
  obtain ok conn' x where v: "connection_valid A conn (ds_net s) = Some (ok, conn', x)"
    using assms(1) by (auto simp: connection_cache_put_def split: bind_splits)
  have ctx: "cn_ctx conn' \<noteq> None" if ok
    using v that by (auto simp: connection_valid_def update_used_def split: if_splits bind_splits prod.splits)
  let ?l = "case ds_pool s name of None \<Rightarrow> [] | Some l \<Rightarrow> l"
  have l: "length ?l \<le> flag_size (fl_cache_max_connections (de_flags K))" "\<forall>c \<in> set ?l. cn_ctx c \<noteq> None"
    using assms(2) by (cases "ds_pool s name"; auto simp: pool_ok_def ran_def)+
  show ?thesis
    using assms v ctx l pool_ok_upd [OF assms(2), of "?l @ [conn']" name] pool_ok_upd [OF assms(2) l, of name]
    by (auto simp: connection_cache_put_def Let_def split: if_splits)
qed

lemma pool_remove_ok:
  assumes "pool_ok K (ds_pool s)"
  shows "pool_ok K (ds_pool (connection_cache_remove A name s))"
proof -
  have f: "ds_pool (foldl (\<lambda>s c. connection_delete A c s) s l) = ds_pool s" for l and s :: "'a db_state"
    by (induction l arbitrary: s) simp_all
  then show ?thesis using assms
    by (auto simp: connection_cache_remove_def pool_ok_def ran_def split: option.splits if_splits)
qed

text \<open>
  \<^bold>\<open>C12.\<close> Whatever sequence of taking, giving back and removing connections runs from an empty pool, and
  whatever the server and the network do, the pool never holds more connections to an address than the
  configured limit, and never one without a context.
\<close>

theorem pool_bounded:
  assumes "(pool_step K A)\<^sup>*\<^sup>* s s'" and "ds_pool s = (\<lambda>_. None)"
  shows "pool_ok K (ds_pool s')"
  using assms
proof (induction rule: rtranclp_induct)
  case base
  then show ?case by (simp add: pool_ok_def)
next
  case (step s1 s2)
  from step.hyps(2) show ?case
  proof cases
    case (pool_step_remove name)
    then show ?thesis using pool_remove_ok step.IH step.prems by blast
  qed (use step.IH step.prems pool_get_ok pool_put_ok in blast)+
qed

definition demo_db_state :: "redis_sim db_state" where
  "demo_db_state = \<lparr>ds_dict = demo_dict, ds_pool = (\<lambda>_. None), ds_net = sim_start\<rparr>"

theorem pool_bounded_witness:
  "\<exists>s. connection_cache_put demo_db sim_redis DEFAULT_REDIS_ADDR demo_conn demo_db_state = Some s \<and>
     ds_pool s DEFAULT_REDIS_ADDR \<noteq> None \<and> pool_ok demo_db (ds_pool s)"
proof -
  obtain s where s: "connection_cache_put demo_db sim_redis DEFAULT_REDIS_ADDR demo_conn demo_db_state = Some s"
    "ds_pool s DEFAULT_REDIS_ADDR \<noteq> None"
    by (simp add: connection_cache_put_def connection_valid_def connection_writable_def connection_wait_def
        update_used_def demo_conn_def sim_redis_def demo_db_state_def demo_db_def default_flags_def flag_size_def)
  have "(pool_step demo_db sim_redis)\<^sup>*\<^sup>* demo_db_state s" using pool_step_put [OF s(1)] by simp
  then have "pool_ok demo_db (ds_pool s)" by (rule pool_bounded) (simp add: demo_db_state_def)
  then show ?thesis using s by blast
qed

end
