(* ===== verification/Cps_Redis_Proofs.thy ===== *)
theory Cps_Redis_Proofs
  imports Cps_Db_Connection_Proofs Cps_Db_Pipeline
begin

text \<open>
  Properties of the database operations against a server that keeps hashes: what is stored is read
  back, an object that is not there is reported as such, and the pipelined operations do what their
  one by one forms do.
\<close>

section \<open>The commands of the server\<close>

locale redis_hash = redis_server +
  fixes look :: "'b \<Rightarrow> bytes \<Rightarrow> bytes \<Rightarrow> bytes option"
  assumes hset: "\<exists>b d'. exec [hset_literal, k, f, v] d = (REDIS_REPLY_INTEGER b, d') \<and> (b = 0 \<or> b = 1) \<and>
      look d' = (look d)(k := (look d k)(f \<mapsto> v))"
    and hget: "exec [hget_literal, k, f] d =
      (case look d k f of None \<Rightarrow> REDIS_REPLY_NIL | Some v \<Rightarrow> REDIS_REPLY_STRING v, d)"
    and del: "\<exists>b d'. exec [del_literal, k] d = (REDIS_REPLY_INTEGER b, d') \<and> look d' = (look d)(k := (\<lambda>_. None))"
    and pings: "exec [ping_literal] d = (REDIS_REPLY_STATUS pong_literal, d)"
begin

text \<open>A connection for commands with nothing under way.\<close>

definition idle :: "nat \<Rightarrow> int \<Rightarrow> db_connection \<Rightarrow> 'a \<Rightarrow> bool" where
  "idle c fd conn x \<longleftrightarrow> linked c fd conn x \<and> queued c x = [] \<and> ready c x = [] \<and> \<not> cn_event_connection conn"

lemma idle_live: "idle c fd conn x \<Longrightarrow> linked c fd conn x"
  by (simp add: idle_def)

lemma touched_pending: "touched (conn\<lparr>cn_pending_events := cn_pending_events conn @ []\<rparr>) conn' \<longleftrightarrow> touched conn conn'"
  by (simp add: touched_def)

lemma touched_event: "touched conn conn' \<Longrightarrow> cn_event_connection conn' = cn_event_connection conn"
  by (auto simp: touched_def)

lemma read_response_live:
  assumes "linked c fd conn (ds_net s)" and "\<not> cn_event_connection conn"
    and "ready c (ds_net s) @ fst (exec_all exec (queued c (ds_net s)) (db (ds_net s))) = r # rs"
  obtains conn' x' where
    "read_response K A conn s = Some (True, cps_api_ret_code_OK, [r], conn', s\<lparr>ds_net := x'\<rparr>)"
    and "touched conn conn'" and "linked c fd conn' x'" and "queued c x' = []" and "ready c x' = rs"
    and "db x' = snd (exec_all exec (queued c (ds_net s)) (db (ds_net s)))"
proof -
  obtain conn' x' where
    "connection_response K A [] SELECT_MS_WAIT False conn (ds_net s) = Some (True, cps_api_ret_code_OK, [r], conn', x')"
    "touched (conn\<lparr>cn_pending_events := cn_pending_events conn @ []\<rparr>) conn'" "linked c fd conn' x'" "queued c x' = []"
    "ready c x' = rs" "db x' = snd (exec_all exec (queued c (ds_net s)) (db (ds_net s)))"
    by (rule response_live [OF assms(1), of "[]" r rs]) (use assms in auto)
  then show thesis unfolding touched_pending by (intro that) (auto simp: read_response_def)
qed

lemma command_live:
  assumes "idle c fd conn (ds_net s)" and "request_walker K lst (ds_dict s) = Some (cmds, D')" and "cmds \<noteq> []"
    and "exec cmds (db (ds_net s)) = (r, d')"
  obtains conn' x' where
    "connection_command K A lst t conn s =
       Some (True, cps_api_ret_code_OK, [r], conn', s\<lparr>ds_dict := D', ds_net := x'\<rparr>)"
    and "touched conn conn'" and "idle c fd conn' x'" and "db x' = d'"
proof -
  have i: "linked c fd conn (ds_net s)" "queued c (ds_net s) = []" "ready c (ds_net s) = []" "\<not> cn_event_connection conn"
    using assms(1) by (simp_all add: idle_def)
  obtain conn1 x1 where o: "connection_operation K A lst True t conn s =
       Some (True, cps_api_ret_code_OK, conn1, s\<lparr>ds_dict := D', ds_net := x1\<rparr>)"
    "touched conn conn1" "linked c fd conn1 x1" "queued c x1 = []"
    "ready c x1 = ready c (ds_net s) @ fst (exec_all exec (queued c (ds_net s) @ [cmds]) (db (ds_net s)))"
    "db x1 = snd (exec_all exec (queued c (ds_net s) @ [cmds]) (db (ds_net s)))"
    by (rule operation_push_live [OF i(1) assms(2,3), of t])
  have e: "\<not> cn_event_connection conn1" using i(4) touched_event [OF o(2)] by simp
  have r1: "ready c x1 @ fst (exec_all exec (queued c x1) (db x1)) = [] @ r # []"
    using o(4,5) i(2,3) assms(4) by simp
  obtain conn' x' where
    r: "connection_response K A [] t False conn1 x1 = Some (True, cps_api_ret_code_OK, [r], conn', x')"
    "touched (conn1\<lparr>cn_pending_events := cn_pending_events conn1 @ []\<rparr>) conn'" "linked c fd conn' x'" "queued c x' = []"
    "ready c x' = []" "db x' = snd (exec_all exec (queued c x1) (db x1))"
    by (rule response_live [OF o(3) r1]) (use e in auto)
  have t: "touched conn conn'" using r(2) touched_trans [OF o(2)] unfolding touched_pending by blast
  show thesis
    by (rule that [of conn' x', OF _ t])
      (use o r i assms(4) touched_event [OF t] in \<open>auto simp: connection_command_def idle_def\<close>)
qed

lemma validate_live:
  assumes "idle c fd conn (ds_net s)"
  obtains conn' x' where "cps_api_db_validate_connection K A conn s = Some (True, conn', s\<lparr>ds_net := x'\<rparr>)"
    and "touched conn conn'" and "idle c fd conn' x'" and "db x' = db (ds_net s)"
proof (cases "cps_api_db_is_local_node (cn_addr conn)")
  case True
  have l: "cn_ctx conn = Some c" "cn_fd conn = Some fd" "live c fd (ds_net s)"
    using assms by (simp_all add: idle_def linked_def)
  obtain x1 where x1: "rd_poll A fd True (to_int32 0) (ds_net s) = (1, True, x1)" "live c fd x1"
    "queued c x1 = queued c (ds_net s)" "ready c x1 = ready c (ds_net s)" "db x1 = db (ds_net s)"
    using poll_write [OF l(3)] by blast
  obtain conn' x2 where x2: "update_used A conn x1 = (conn', x2)" "touched conn conn'" "live c fd x2"
    "queued c x2 = queued c x1" "ready c x2 = ready c x1" "db x2 = db x1"
    using update_used_quiet [OF x1(2), of conn] by metis
  show thesis
    by (rule that [of conn' x2, OF _ x2(2)])
      (use l x1 x2 True assms touched_linked [OF x2(2,3)] touched_event [OF x2(2)] in
        \<open>auto simp: cps_api_db_validate_connection_def connection_valid_def connection_writable_def
          connection_wait_def idle_def\<close>)
next
  case False
  have w: "request_walker K [from_string ping_literal] (ds_dict s) = Some ([ping_literal], ds_dict s)"
    using walker_strings [of "[ping_literal]" K] by (simp add: MAX_EXP_CMD_def)
  obtain conn' x' where "connection_command K A [from_string ping_literal]
        (flag_size (fl_conn_ping_timeout (de_flags K))) conn s =
       Some (True, cps_api_ret_code_OK, [REDIS_REPLY_STATUS pong_literal], conn', s\<lparr>ds_dict := ds_dict s, ds_net := x'\<rparr>)"
    "touched conn conn'" "idle c fd conn' x'" "db x' = db (ds_net s)"
    by (rule command_live [OF assms w _ pings]) simp
  then show thesis using False
    by (intro that [of conn' x']) (auto simp: cps_api_db_validate_connection_def ping_def response_set_get_def
        response_has_elements_def response_is_ok_def response_get_str_def strcasecmp_eq_def)
qed

lemma store_object_live:
  assumes "idle c fd conn (ds_net s)" and "obj_wf T p xs" and "attrs_size T xs + 256 < obj_cap"
    and "dbkey_from_instance_key (de_libc K) (de_tlv K) (de_hash K) (ds_dict s) [] p False = Some (True, key, D')"
  obtains conn' x' where "store_object K A p conn s = Some (True, conn', s\<lparr>ds_dict := D', ds_net := x'\<rparr>)"
    and "touched conn conn'" and "idle c fd conn' x'"
    and "look (db x') = (look (db (ds_net s)))(key := (look (db (ds_net s)) key)(object_field \<mapsto> obj_wire p))"
proof -
  have i: "linked c fd conn (ds_net s)" "queued c (ds_net s) = []" "ready c (ds_net s) = []" "\<not> cn_event_connection conn"
    using assms(1) by (simp_all add: idle_def)
  note w = walker_store [OF assms(2-4), of hset_literal]
  obtain x1 where o: "connection_operation K A [from_string hset_literal, from_object p True True] False SELECT_MS_WAIT conn s =
       Some (True, cps_api_ret_code_OK, conn, s\<lparr>ds_dict := D', ds_net := x1\<rparr>)"
    "linked c fd conn x1" "queued c x1 = queued c (ds_net s) @ [[hset_literal, key, object_field, obj_wire p]]"
    "ready c x1 = ready c (ds_net s)" "db x1 = db (ds_net s)"
    by (rule operation_live [OF i(1) w, of SELECT_MS_WAIT]) auto
  obtain b d' where e: "exec [hset_literal, key, object_field, obj_wire p] (db (ds_net s)) = (REDIS_REPLY_INTEGER b, d')"
    "b = 0 \<or> b = 1" "look d' = (look (db (ds_net s)))(key := (look (db (ds_net s)) key)(object_field \<mapsto> obj_wire p))"
    using hset by blast
  let ?s = "s\<lparr>ds_dict := D', ds_net := x1\<rparr>"
  obtain conn' x' where r: "read_response K A conn ?s =
      Some (True, cps_api_ret_code_OK, [REDIS_REPLY_INTEGER b], conn', ?s\<lparr>ds_net := x'\<rparr>)"
    "touched conn conn'" "linked c fd conn' x'" "queued c x' = []" "ready c x' = []"
    "db x' = snd (exec_all exec (queued c x1) (db x1))"
    by (rule read_response_live [of c fd conn ?s "REDIS_REPLY_INTEGER b" "[]" K]) (use o i e in auto)
  have "response_get_int (REDIS_REPLY_INTEGER b) = b"
    using e(2) by (auto simp: response_get_int_def to_int32_def)
  then have "store_object K A p conn s = Some (True, conn', s\<lparr>ds_dict := D', ds_net := x'\<rparr>)"
    using o(1) r(1) e(2) by (auto simp: store_object_def set_object_request_def queue_request_def set_object_response_def
        response_set_get_def response_is_int_def)
  then show thesis
    by (rule that) (use r o e i touched_event [OF r(2)] in \<open>auto simp: idle_def\<close>)
qed

text \<open>Reading under a key, with the request flushed at once or with the response.\<close>

lemma get_reply_live:
  assumes "idle c fd conn (ds_net s)"
  obtains conn' x' conn1 s1 where "get_object_request K A key has_rc conn s = Some (True, conn1, s1)"
    and "read_response K A conn1 s1 = Some (True, cps_api_ret_code_OK,
        [case look (db (ds_net s)) key object_field of None \<Rightarrow> REDIS_REPLY_NIL | Some v \<Rightarrow> REDIS_REPLY_STRING v],
        conn', s\<lparr>ds_net := x'\<rparr>)"
    and "touched conn conn'" and "idle c fd conn' x'" and "db x' = db (ds_net s)"
proof -
  let ?lst = "[from_string hget_literal, from_string key, from_string object_field]"
  let ?cmd = "[hget_literal, key, object_field]"
  let ?r = "case look (db (ds_net s)) key object_field of None \<Rightarrow> REDIS_REPLY_NIL | Some v \<Rightarrow> REDIS_REPLY_STRING v"
  have i: "linked c fd conn (ds_net s)" "queued c (ds_net s) = []" "ready c (ds_net s) = []" "\<not> cn_event_connection conn"
    using assms by (simp_all add: idle_def)
  have w: "request_walker K ?lst (ds_dict s) = Some (?cmd, ds_dict s)"
    using walker_strings [of ?cmd K "ds_dict s"] by (simp add: MAX_EXP_CMD_def)
  obtain conn1 x1 where o: "connection_operation K A ?lst has_rc SELECT_MS_WAIT conn s =
       Some (True, cps_api_ret_code_OK, conn1, s\<lparr>ds_net := x1\<rparr>)"
    "touched conn conn1" "linked c fd conn1 x1"
    "ready c x1 @ fst (exec_all exec (queued c x1) (db x1)) = ?r # []"
    "snd (exec_all exec (queued c x1) (db x1)) = db (ds_net s)"
  proof (cases has_rc)
    case True
    obtain conn1 x1 where "connection_operation K A ?lst True SELECT_MS_WAIT conn s =
         Some (True, cps_api_ret_code_OK, conn1, s\<lparr>ds_dict := ds_dict s, ds_net := x1\<rparr>)"
      "touched conn conn1" "linked c fd conn1 x1" "queued c x1 = []"
      "ready c x1 = ready c (ds_net s) @ fst (exec_all exec (queued c (ds_net s) @ [?cmd]) (db (ds_net s)))"
      "db x1 = snd (exec_all exec (queued c (ds_net s) @ [?cmd]) (db (ds_net s)))"
      by (rule operation_push_live [OF i(1) w, of SELECT_MS_WAIT]) auto
    then show thesis using True i hget by (intro that [of conn1 x1]) auto
  next
    case False
    obtain x1 where "connection_operation K A ?lst False SELECT_MS_WAIT conn s =
         Some (True, cps_api_ret_code_OK, conn, s\<lparr>ds_dict := ds_dict s, ds_net := x1\<rparr>)"
      "linked c fd conn x1" "queued c x1 = queued c (ds_net s) @ [?cmd]"
      "ready c x1 = ready c (ds_net s)" "db x1 = db (ds_net s)"
      by (rule operation_live [OF i(1) w, of SELECT_MS_WAIT]) auto
    then show thesis using False i hget by (intro that [of conn x1]) auto
  qed
  have e: "\<not> cn_event_connection conn1" using i(4) touched_event [OF o(2)] by simp
  let ?s = "s\<lparr>ds_net := x1\<rparr>"
  obtain conn' x' where r: "read_response K A conn1 ?s =
      Some (True, cps_api_ret_code_OK, [?r], conn', ?s\<lparr>ds_net := x'\<rparr>)"
    "touched conn1 conn'" "linked c fd conn' x'" "queued c x' = []" "ready c x' = []"
    "db x' = snd (exec_all exec (queued c x1) (db x1))"
    by (rule read_response_live [of c fd conn1 ?s ?r "[]" K]) (use o e in auto)
  show thesis
    by (rule that [of conn1 ?s conn' x'])
      (use o r i touched_trans [OF o(2) r(2)] touched_event [OF r(2)] e in
        \<open>auto simp: get_object_request_def queue_request_def idle_def\<close>)
qed

end

section \<open>Objects in the database\<close>

text \<open>Only the bytes of an object matter for reading it.\<close>

lemma array_of_wire:
  assumes "obj_wf T p xs" and "attrs_size T xs + 256 < obj_cap"
  shows "cps_api_array_to_object E (obj_wire p) (length (obj_wire p)) q =
     cps_api_array_to_object E (cps_api_object_array p) (cps_api_object_to_array_len p) q"
proof -
  note w = obj_wire_eq [OF assms]
  have a: "cps_api_object_array p = obj_wire p @ drop (cps_api_object_to_array_len p) (cps_api_object_array p)"
    by (simp add: obj_wire_def)
  have "key_of_bytes (obj_wire p) = key_of_bytes (cps_api_object_array p)"
    unfolding key_of_bytes_def
  proof (rule map_cong [OF refl])
    fix i assume "i \<in> set [0..<64 :: nat]"
    then have "4 * i + 4 \<le> length (obj_wire p)" using w(2) by auto
    then show "bytes_u32 (take 4 (drop (4 * i) (obj_wire p))) = bytes_u32 (take 4 (drop (4 * i) (cps_api_object_array p)))"
      by (subst a) (simp add: take_append drop_append)
  qed
  moreover have "take (length (obj_wire p) - sizeof_object_data) (drop sizeof_object_data (obj_wire p)) =
      take (length (obj_wire p) - sizeof_object_data) (drop sizeof_object_data (cps_api_object_array p))"
    by (subst a) (simp add: drop_append)
  ultimately show ?thesis using w(3,4) by (simp add: cps_api_array_to_object_def Let_def cong: option.case_cong)
qed

text \<open>
  \<^bold>\<open>C8.\<close> An object stored through a connection is read back under its key as the same object: the
  same class key and the same attributes in the same order, with the code \<open>OK\<close>; a key under which
  nothing is stored gives \<open>NO_EXIST\<close>. Both requests return, however many writes and reads the
  connection needs for them, and leave the connection with nothing under way.
\<close>

theorem stored_object_read_back:
  assumes "redis_hash A live queued ready db exec unsent unread look"
    and "redis_hash.idle live queued ready c fd conn (ds_net s)"
    and "obj_wf T p xs" and "attrs_size T xs + 2 * sizeof_object_data < obj_cap"
    and "dbkey_from_instance_key (de_libc K) (de_tlv K) (de_hash K) (ds_dict s) [] p False = Some (True, key, D')"
    and "obj_wf T q ys" and "obj_allocated q" and "alloc_ok (de_libc K) (attrs_size T xs + 2 * sizeof_object_data)"
    and "look (db (ds_net s)) other object_field = None" and "other \<noteq> key" and "std_tlv T"
  shows "\<exists>conn1 s1 conn2 s2 q' conn3 s3. store_object K A p conn s = Some (True, conn1, s1) \<and>
     get_object_by_key K A key q has_rc conn1 s1 = Some (True, cps_api_ret_code_OK, q', conn2, s2) \<and>
     obj_wf T q' xs \<and> obj_key q' = obj_key p \<and>
     get_object_by_key K A other q' has_rc conn2 s2 = Some (False, cps_api_ret_code_NO_EXIST, q', conn3, s3) \<and>
     redis_hash.idle live queued ready c fd conn3 (ds_net s3)"
proof -
  note rh = assms(1)
  have cap: "attrs_size T xs + 256 < obj_cap"
    using assms(4) by (simp add: sizeof_object_data_def CPS_OBJ_KEY_BYTE_MAX_LEN_def)
  obtain conn1 x1 where st: "store_object K A p conn s = Some (True, conn1, s\<lparr>ds_dict := D', ds_net := x1\<rparr>)"
    "redis_hash.idle live queued ready c fd conn1 x1"
    "look (db x1) = (look (db (ds_net s)))(key := (look (db (ds_net s)) key)(object_field \<mapsto> obj_wire p))"
    by (rule redis_hash.store_object_live [OF rh assms(2,3) cap assms(5)])
  let ?s1 = "s\<lparr>ds_dict := D', ds_net := x1\<rparr>"
  have i1: "redis_hash.idle live queued ready c fd conn1 (ds_net ?s1)" using st(2) by simp
  have lk: "look (db x1) key object_field = Some (obj_wire p)" "look (db x1) other object_field = None"
    using st(3) assms(9,10) by simp_all
  obtain conn2 x2 ca sa where g: "get_object_request K A key has_rc conn1 ?s1 = Some (True, ca, sa)"
    "read_response K A ca sa = Some (True, cps_api_ret_code_OK,
       [case look (db (ds_net ?s1)) key object_field of None \<Rightarrow> REDIS_REPLY_NIL | Some v \<Rightarrow> REDIS_REPLY_STRING v],
       conn2, ?s1\<lparr>ds_net := x2\<rparr>)"
    "redis_hash.idle live queued ready c fd conn2 x2" "db x2 = db (ds_net ?s1)"
    by (rule redis_hash.get_reply_live [OF rh i1, of K key has_rc])
  obtain q' where q': "cps_api_array_to_object (de_libc K) (obj_wire p) (length (obj_wire p)) q = Some (True, q')"
    "obj_wf T q' xs" "obj_key q' = obj_key p"
    using std_tlv.array_roundtrip [OF assms(11,3,7) _ _ assms(4,8)] assms(6) array_of_wire [OF assms(3) cap]
    by (auto simp: obj_wf_def)
  let ?s2 = "?s1\<lparr>ds_net := x2\<rparr>"
  have i2: "redis_hash.idle live queued ready c fd conn2 (ds_net ?s2)" using g(3) by simp
  obtain conn3 x3 cb sb where n: "get_object_request K A other has_rc conn2 ?s2 = Some (True, cb, sb)"
    "read_response K A cb sb = Some (True, cps_api_ret_code_OK,
       [case look (db (ds_net ?s2)) other object_field of None \<Rightarrow> REDIS_REPLY_NIL | Some v \<Rightarrow> REDIS_REPLY_STRING v],
       conn3, ?s2\<lparr>ds_net := x3\<rparr>)"
    "redis_hash.idle live queued ready c fd conn3 x3"
    by (rule redis_hash.get_reply_live [OF rh i2, of K other has_rc])
  have "get_object_by_key K A key q has_rc conn1 ?s1 = Some (True, cps_api_ret_code_OK, q', conn2, ?s2)"
    using g(1,2) q'(1) lk(1) by (simp add: get_object_by_key_def get_object_response_def response_set_get_def
        response_is_nill_def response_is_str_def response_get_str_def)
  moreover have "get_object_by_key K A other q' has_rc conn2 ?s2 =
      Some (False, cps_api_ret_code_NO_EXIST, q', conn3, ?s2\<lparr>ds_net := x3\<rparr>)"
    using n(1,2) lk(2) g(4) by (simp add: get_object_by_key_def get_object_response_def response_set_get_def response_is_nill_def)
  ultimately show ?thesis using st(1) q'(2,3) n(3) by (intro exI conjI) (assumption | simp)+
qed

interpretation sim_hash: redis_hash sim_redis "\<lambda>c fd x. fd = int c" "\<lambda>c x. rs_queue x c" "\<lambda>c x. rs_ready x c"
  rs_store hash_exec "\<lambda>_ _. 0" "\<lambda>_ _. 0" id
  by unfold_locales (auto simp: hash_exec_def)

lemma demo_idle: "sim_hash.idle 1 1 demo_conn (ds_net demo_db_state)"
  by (simp add: sim_hash.idle_def sim.linked_def demo_conn_def demo_db_state_def sim_start_def)

lemma demo_instance_key:
  "\<exists>D'. dbkey_from_instance_key libc_ok tlv16 id demo_dict [] (demo_instance [(7, [v])]) False =
     Some (True, instance_bytes demo_key [[v]], D')"
proof -
  obtain D' where D': "cps_api_key_attrs id demo_dict demo_key 1 = Some ([7], D')" using demo_key_attrs by blast
  let ?p = "demo_instance [(7, [v])]"
  have wf: "obj_wf tlv16 ?p [(7, [v])]" by (rule demo_instance_wf(1)) (simp_all add: size_lim_def obj_cap_def)
  have k: "obj_key ?p = demo_key" by (simp add: demo_instance_def)
  have w: "cps_api_filter_has_wildcard_attrs tlv16 ?p = Some False"
    using tlv16.has_wildcard_absent [OF wf] by (simp add: CPS_OBJECT_GROUP_WILDCARD_SEARCH_def)
  have "key_vals tlv16 ?p [7] = [[v]]"
    using tlv16.key_vals_plain [OF wf, of "[7]"] by (simp add: CPS_API_OBJ_KEY_ATTRS_def map_filter_simps)
  then show ?thesis
    using append_attrs_bytes(1) [of libc_ok ?p tlv16 False id demo_dict "[7]" D' False] w k D' demo_key_facts
    by (simp add: dbkey_from_instance_key_def)
qed

theorem stored_object_read_back_witness:
  "\<exists>conn1 s1 conn2 s2 q' conn3 s3. store_object demo_db sim_redis (demo_instance [(7, [1])]) demo_conn demo_db_state =
       Some (True, conn1, s1) \<and>
     get_object_by_key demo_db sim_redis (instance_bytes demo_key [[1]]) demo_obj True conn1 s1 =
       Some (True, cps_api_ret_code_OK, q', conn2, s2) \<and> obj_wf tlv16 q' [(7, [1])] \<and> obj_key q' = demo_key \<and>
     get_object_by_key demo_db sim_redis [] q' True conn2 s2 = Some (False, cps_api_ret_code_NO_EXIST, q', conn3, s3)"
proof -
  obtain D' where D': "dbkey_from_instance_key libc_ok tlv16 id demo_dict [] (demo_instance [(7, [1])]) False =
     Some (True, instance_bytes demo_key [[1]], D')" using demo_instance_key by blast
  have wf: "obj_wf tlv16 (demo_instance [(7, [1])]) [(7, [1])]" "obj_key (demo_instance [(7, [1])]) = demo_key"
    by (rule demo_instance_wf; simp add: size_lim_def obj_cap_def)+
  have al: "obj_allocated demo_obj" by (simp add: demo_obj_def)
  have ne: "[] \<noteq> instance_bytes demo_key [[1]]" by (simp add: instance_bytes_def value_bytes_def)
  show ?thesis
    using stored_object_read_back [OF sim_hash.redis_hash_axioms demo_idle wf(1), of demo_db
        "instance_bytes demo_key [[1]]" D' demo_obj "[(5, [9])]" "[]" True] D' al wf(2) demo_obj_wf ne tlv16.std_tlv_axioms
    by (auto simp: demo_db_def demo_db_state_def sim_start_def demo_sizes obj_cap_def)
qed

end
