(* ===== verification/Cps_Db_Pipeline_Proofs.thy ===== *)
theory Cps_Db_Pipeline_Proofs
  imports Cps_Redis_Proofs
begin

text \<open>
  The pipelined operations on lists of objects do what storing or deleting one object after the
  other does, and take exactly as many replies as they sent requests, whatever the depth of the pipe.
\<close>

section \<open>Ranges\<close>

lemma range_split_steps:
  assumes "0 < n" and "tot + n < size_lim" and "I 0 s"
    and step: "\<And>a b s. a < b \<Longrightarrow> b \<le> tot \<Longrightarrow> I a s \<Longrightarrow> \<exists>s'. visit a b s = Some (True, s') \<and> I b s'"
  shows "\<exists>s'. cps_api_range_split tot n visit s = Some (True, s') \<and> I tot s'"
proof -
  have "\<exists>s'. range_split_loop tot n visit ix s = Some (True, s') \<and> I tot s'" if "ix \<le> tot" "I ix s" for ix s
    using that
  proof (induction "tot - ix" arbitrary: ix s rule: less_induct)
    case less
    show ?case
    proof (cases "ix < tot")
      case True
      let ?j = "min (ix + n) tot"
      have j: "sz_add ix n = ix + n" using assms(2) True by (simp add: sz_add_def)
      obtain s1 where s1: "visit ix ?j s = Some (True, s1)" "I ?j s1"
        using step [of ix ?j s] True assms(1) less.prems(2) by auto
      have "tot - ?j < tot - ix" "?j \<le> tot" using True assms(1) by auto
      from less.hyps [OF this s1(2)] s1(1) True show ?thesis
        by (subst range_split_loop.simps) (simp add: j)
    next
      case False
      then show ?thesis using less.prems by (simp add: range_split_loop.simps [of tot])
    qed
  qed
  from this [of 0 s] assms(3) show ?thesis by (simp add: cps_api_range_split_def)
qed

section \<open>Reference definitions\<close>

text \<open>The keys of a list of objects, computed one after the other; the dictionary remembers key attributes.\<close>

fun instance_keys :: "db_env \<Rightarrow> cps_dict \<Rightarrow> cps_obj list \<Rightarrow> (bytes list \<times> cps_dict) option" where
  "instance_keys K D [] = Some ([], D)"
| "instance_keys K D (p # ps) = do {
     (ok, key, D) \<leftarrow> dbkey_from_instance_key (de_libc K) (de_tlv K) (de_hash K) D [] p False;
     if ok then do { (keys, D) \<leftarrow> instance_keys K D ps; Some (key # keys, D) } else None
   }"

text \<open>The contents of the database after storing and after deleting objects in order.\<close>

definition store_in :: "hash_store \<Rightarrow> bytes \<times> cps_obj \<Rightarrow> hash_store" where
  "store_in m e = m(fst e := (m (fst e))(object_field \<mapsto> obj_wire (snd e)))"

definition store_cmd :: "bytes \<times> cps_obj \<Rightarrow> bytes list" where
  "store_cmd e = [hset_literal, fst e, object_field, obj_wire (snd e)]"

definition delete_cmd :: "bytes \<times> cps_obj \<Rightarrow> bytes list" where
  "delete_cmd e = [del_literal, fst e]"

lemma instance_keys_length: "instance_keys K D ps = Some (keys, D') \<Longrightarrow> length keys = length ps"
  by (induction ps arbitrary: D keys) (auto split: bind_splits if_splits)

lemma instance_keys_append:
  "instance_keys K D (ps @ qs) =
     (case instance_keys K D ps of
        None \<Rightarrow> None
      | Some (ks, D1) \<Rightarrow> map_option (\<lambda>(ls, D2). (ks @ ls, D2)) (instance_keys K D1 qs))"
proof (induction ps arbitrary: D)
  case Nil
  then show ?case by (cases "instance_keys K D qs") auto
next
  case (Cons p ps)
  then show ?case
    by (cases "dbkey_from_instance_key (de_libc K) (de_tlv K) (de_hash K) D [] p False")
      (auto simp: map_conv_bind_option comp_def case_prod_beta split: option.splits)
qed

lemma instance_keys_section:
  assumes "instance_keys K D ps = Some (keys, D')" and "a \<le> b" and "b \<le> length ps"
    and "instance_keys K D (take a ps) = Some (take a keys, Da)"
  obtains Db where "instance_keys K Da (list_section a b ps) = Some (list_section a b keys, Db)"
    and "instance_keys K D (take b ps) = Some (take b keys, Db)"
proof -
  have l: "length keys = length ps" by (rule instance_keys_length [OF assms(1)])
  have "instance_keys K D (take b ps @ drop b ps) = Some (take b keys @ drop b keys, D')" using assms(1) by simp
  then obtain ks Db ls D2 where b: "instance_keys K D (take b ps) = Some (ks, Db)"
    "instance_keys K Db (drop b ps) = Some (ls, D2)" "ks @ ls = take b keys @ drop b keys"
    unfolding instance_keys_append by (auto split: option.splits)
  have k: "ks = take b keys"
    using b(3) instance_keys_length [OF b(1)] l assms(3) by (auto simp: append_eq_append_conv)
  have t: "take b zs = take a zs @ list_section a b zs" for zs :: "'z list"
    using assms(2) take_add [of a "b - a" zs] by (simp add: list_section_def)
  have "instance_keys K Da (list_section a b ps) = Some (list_section a b keys, Db)"
    using b(1) k assms(4) unfolding t [of ps] t [of keys] instance_keys_append by auto
  then show thesis using that b(1) k by blast
qed

section \<open>Pipelining\<close>

context redis_hash
begin

lemma request_each_live:
  assumes "linked c fd conn (ds_net (w_ext w))" and "map (obj_at w) ps = map Some objs"
    and "instance_keys K (ds_dict (w_ext w)) objs = Some (keys, D')"
    and walks: "\<And>D p key D'. p \<in> set objs \<Longrightarrow>
      dbkey_from_instance_key (de_libc K) (de_tlv K) (de_hash K) D [] p False = Some (True, key, D') \<Longrightarrow>
      request_walker K (mk p) D = Some (cmd (key, p), D') \<and> cmd (key, p) \<noteq> []"
  shows "\<exists>x'. request_each K A mk ps conn w =
       Some (True, conn, w\<lparr>w_ext := (w_ext w)\<lparr>ds_dict := D', ds_net := x'\<rparr>\<rparr>) \<and>
     linked c fd conn x' \<and> queued c x' = queued c (ds_net (w_ext w)) @ map cmd (zip keys objs) \<and>
     ready c x' = ready c (ds_net (w_ext w)) \<and> db x' = db (ds_net (w_ext w))"
  using assms
proof (induction ps arbitrary: objs keys w)
  case Nil
  then show ?case by (intro exI [of _ "ds_net (w_ext w)"]) auto
next
  case (Cons a ps)
  from Cons.prems(2) obtain p os where o: "objs = p # os" "obj_at w a = Some p" "map (obj_at w) ps = map Some os"
    by (cases objs) auto
  from Cons.prems(3) o(1) obtain key D1 ks where
    k: "dbkey_from_instance_key (de_libc K) (de_tlv K) (de_hash K) (ds_dict (w_ext w)) [] p False = Some (True, key, D1)"
    "instance_keys K D1 os = Some (ks, D')" "keys = key # ks"
    by (auto split: bind_splits if_splits)
  have rw: "request_walker K (mk p) (ds_dict (w_ext w)) = Some (cmd (key, p), D1)" "cmd (key, p) \<noteq> []"
    using Cons.prems(4) [OF _ k(1)] o(1) by auto
  obtain x1 where x1: "connection_operation K A (mk p) False SELECT_MS_WAIT conn (w_ext w) =
       Some (True, cps_api_ret_code_OK, conn, (w_ext w)\<lparr>ds_dict := D1, ds_net := x1\<rparr>)"
    "linked c fd conn x1" "queued c x1 = queued c (ds_net (w_ext w)) @ [cmd (key, p)]"
    "ready c x1 = ready c (ds_net (w_ext w))" "db x1 = db (ds_net (w_ext w))"
    by (rule operation_live [OF Cons.prems(1) rw, of SELECT_MS_WAIT])
  let ?w = "w\<lparr>w_ext := (w_ext w)\<lparr>ds_dict := D1, ds_net := x1\<rparr>\<rparr>"
  have "obj_at ?w = obj_at w" by (rule ext) (simp add: obj_at_def)
  then have m: "map (obj_at ?w) ps = map Some os" using o(3) by simp
  obtain x' where "request_each K A mk ps conn ?w =
       Some (True, conn, ?w\<lparr>w_ext := (w_ext ?w)\<lparr>ds_dict := D', ds_net := x'\<rparr>\<rparr>)"
    "linked c fd conn x'" "queued c x' = queued c (ds_net (w_ext ?w)) @ map cmd (zip ks os)"
    "ready c x' = ready c (ds_net (w_ext ?w))" "db x' = db (ds_net (w_ext ?w))"
    using Cons.IH [of ?w, OF _ m] k(2) x1(2) Cons.prems(4) o(1) by auto
  then show ?case using x1 o k(3) by (intro exI [of _ x']) (simp add: queue_request_def)
qed

lemma store_responses_live:
  assumes "linked c fd conn (ds_net (w_ext w))" and "\<not> cn_event_connection conn"
    and "length (ready c (ds_net (w_ext w))) + length (queued c (ds_net (w_ext w))) = n"
  shows "\<exists>conn' x'. store_responses K A n conn w =
       Some (True, conn', w\<lparr>w_ext := (w_ext w)\<lparr>ds_net := x'\<rparr>\<rparr>) \<and> touched conn conn' \<and> idle c fd conn' x' \<and>
     db x' = snd (exec_all exec (queued c (ds_net (w_ext w))) (db (ds_net (w_ext w))))"
  using assms
proof (induction n arbitrary: conn w)
  case 0
  then show ?case by (intro exI [of _ conn] exI [of _ "ds_net (w_ext w)"]) (auto simp: idle_def)
next
  case (Suc n)
  let ?x = "ds_net (w_ext w)"
  have "length (ready c ?x @ fst (exec_all exec (queued c ?x) (db ?x))) = Suc n"
    using Suc.prems(3) by (simp add: exec_all_length)
  then obtain r rs where r: "ready c ?x @ fst (exec_all exec (queued c ?x) (db ?x)) = r # rs" "length rs = n"
    unfolding length_Suc_conv by blast
  obtain conn1 x1 where x1: "read_response K A conn (w_ext w) =
      Some (True, cps_api_ret_code_OK, [r], conn1, (w_ext w)\<lparr>ds_net := x1\<rparr>)"
    "touched conn conn1" "linked c fd conn1 x1" "queued c x1 = []" "ready c x1 = rs"
    "db x1 = snd (exec_all exec (queued c ?x) (db ?x))"
    by (rule read_response_live [OF Suc.prems(1,2) r(1)])
  let ?w = "w\<lparr>w_ext := (w_ext w)\<lparr>ds_net := x1\<rparr>\<rparr>"
  obtain conn' x' where "store_responses K A n conn1 ?w =
       Some (True, conn', ?w\<lparr>w_ext := (w_ext ?w)\<lparr>ds_net := x'\<rparr>\<rparr>)" "touched conn1 conn'" "idle c fd conn' x'"
    "db x' = snd (exec_all exec (queued c (ds_net (w_ext ?w))) (db (ds_net (w_ext ?w))))"
    using Suc.IH [of conn1 ?w] x1 r(2) Suc.prems(2) touched_event [OF x1(2)] by auto
  then show ?case using x1 touched_trans [OF x1(2)] by (intro exI [of _ conn'] exI [of _ x']) auto
qed

lemma look_stores:
  "look (snd (exec_all exec (map store_cmd es) d)) = foldl store_in (look d) es"
proof (induction es arbitrary: d)
  case (Cons e es)
  obtain b d' where "exec (store_cmd e) d = (REDIS_REPLY_INTEGER b, d')" "look d' = store_in (look d) e"
    using hset [of "fst e" object_field "obj_wire (snd e)" d] by (auto simp: store_cmd_def store_in_def)
  then show ?case using Cons.IH [of d'] by (simp add: case_prod_beta)
qed simp

text \<open>The state after the first \<open>i\<close> objects of a list are stored.\<close>

definition stored_upto ::
  "db_env \<Rightarrow> nat \<Rightarrow> int \<Rightarrow> obj_heap \<Rightarrow> cps_dict \<Rightarrow> hash_store \<Rightarrow> cps_obj list \<Rightarrow> bytes list \<Rightarrow> nat \<Rightarrow>
     db_connection \<times> 'a db_world \<Rightarrow> bool" where
  "stored_upto K c fd h D L objs keys i st \<longleftrightarrow>
     (let (conn, w) = st; x = ds_net (w_ext w) in
      w_heap w = h \<and> idle c fd conn x \<and> look (db x) = foldl store_in L (take i (zip keys objs)) \<and>
      instance_keys K D (take i objs) = Some (take i keys, ds_dict (w_ext w)))"

lemma store_range_live:
  assumes "stored_upto K c fd h D L objs keys a st" and "a < b" and "b \<le> length objs"
    and "instance_keys K D objs = Some (keys, D')"
    and "map (\<lambda>p. Option.bind p (hp_objs h)) ps = map Some objs"
    and wf: "\<forall>p \<in> set objs. \<exists>xs. obj_wf T p xs \<and> attrs_size T xs + 256 < obj_cap"
  shows "\<exists>st'. store_range K A ps a b st = Some (True, st') \<and> stored_upto K c fd h D L objs keys b st'"
proof -
  obtain conn w where st: "st = (conn, w)" by (cases st)
  let ?x = "ds_net (w_ext w)" and ?os = "list_section a b objs" and ?ks = "list_section a b keys"
  have s: "w_heap w = h" "idle c fd conn ?x" "look (db ?x) = foldl store_in L (take a (zip keys objs))"
    "instance_keys K D (take a objs) = Some (take a keys, ds_dict (w_ext w))"
    using assms(1) by (simp_all add: stored_upto_def st Let_def)
  have i: "linked c fd conn ?x" "queued c ?x = []" "ready c ?x = []" "\<not> cn_event_connection conn"
    using s(2) by (simp_all add: idle_def)
  obtain Db where k: "instance_keys K (ds_dict (w_ext w)) ?os = Some (?ks, Db)"
    "instance_keys K D (take b objs) = Some (take b keys, Db)"
    by (rule instance_keys_section [OF assms(4) less_imp_le [OF assms(2)] assms(3) s(4)])
  have ob: "map (obj_at w) (list_section a b ps) = map Some ?os"
    using arg_cong [OF assms(5), of "list_section a b"] s(1)
    by (simp add: list_section_def take_map drop_map obj_at_def [abs_def])
  have sub: "set ?os \<subseteq> set objs" by (auto simp: list_section_def dest!: in_set_takeD in_set_dropD)
  have wk: "request_walker K (store_atoms p) D = Some (store_cmd (key, p), D') \<and> store_cmd (key, p) \<noteq> []"
    if "p \<in> set ?os" "dbkey_from_instance_key (de_libc K) (de_tlv K) (de_hash K) D [] p False = Some (True, key, D')"
    for D p key D'
    using wf sub that walker_store [of T p _ K D key D' hset_literal]
    by (auto simp: store_atoms_def store_cmd_def)
  obtain x1 where x1: "request_each K A store_atoms (list_section a b ps) conn w =
       Some (True, conn, w\<lparr>w_ext := (w_ext w)\<lparr>ds_dict := Db, ds_net := x1\<rparr>\<rparr>)"
    "linked c fd conn x1" "queued c x1 = map store_cmd (zip ?ks ?os)" "ready c x1 = []" "db x1 = db ?x"
    using request_each_live [of c fd conn w "list_section a b ps" ?os K ?ks Db store_atoms store_cmd,
        OF i(1) ob k(1) wk] i by auto
  let ?w = "w\<lparr>w_ext := (w_ext w)\<lparr>ds_dict := Db, ds_net := x1\<rparr>\<rparr>"
  have n: "length (ready c x1) + length (queued c x1) = b - a"
    using x1 assms(2,3) instance_keys_length [OF assms(4)] by (simp add: list_section_def)
  obtain conn' x2 where x2: "store_responses K A (b - a) conn ?w =
       Some (True, conn', ?w\<lparr>w_ext := (w_ext ?w)\<lparr>ds_net := x2\<rparr>\<rparr>)" "idle c fd conn' x2"
    "db x2 = snd (exec_all exec (queued c x1) (db x1))"
    using store_responses_live [of c fd conn ?w "b - a" K] x1(2) i(4) n by auto
  have "take b (zip keys objs) = take a (zip keys objs) @ zip ?ks ?os"
    using assms(2) take_add [of a "b - a" "zip keys objs"] by (simp add: list_section_def take_zip drop_zip)
  then have "look (db x2) = foldl store_in L (take b (zip keys objs))"
    using x2(3) x1(3,5) look_stores s(3) by simp
  then show ?thesis using x1(1) x2(1,2) k(2) s(1)
    by (simp add: st store_range_def stored_upto_def Let_def)
qed

end

lemma objects_after_create:
  assumes "hp_objs (w_heap w) og = None" and "hp_objs h1 = (hp_objs (w_heap w))(og \<mapsto> p)"
    and "map (obj_at w) ps = map Some objs"
  shows "map (\<lambda>q. Option.bind q (hp_objs h1)) ps = map Some objs"
proof -
  have "Option.bind q (hp_objs h1) = obj_at w q" if "q \<in> set ps" for q
  proof -
    have "obj_at w q \<in> set (map Some objs)" using that by (simp flip: assms(3))
    then show ?thesis using assms(1,2) by (cases q) (auto simp: obj_at_def)
  qed
  then show ?thesis using assms(3) by (metis (no_types, lifting) map_eq_conv)
qed

text \<open>
  \<^bold>\<open>C9.\<close> Storing a list of objects through the pipe returns with success and leaves in the database
  what storing the objects one after the other in the order of the list leaves there, for every depth of
  the pipe and every length of the list. Every reply is taken, so that the connection can be
  used again, and the objects of the caller and no others are left on the heap.
\<close>

theorem pipelined_store_in_order:
  assumes "redis_hash A live queued ready db exec unsent unread look"
    and "redis_hash.idle live queued ready c fd conn (ds_net (w_ext w))"
    and "heap_wf (w_heap w)" and "\<forall>n. alloc_ok (de_libc K) n"
    and "map (obj_at w) ps = map Some objs"
    and "instance_keys K (ds_dict (w_ext w)) objs = Some (keys, D')"
    and "\<forall>p \<in> set objs. \<exists>xs. obj_wf T p xs \<and> attrs_size T xs + 256 < obj_cap"
    and "0 < fl_in_the_pipe (de_flags K)" and "length ps + fl_in_the_pipe (de_flags K) < size_lim"
  shows "\<exists>conn' w'. store_objects K A ps conn w = Some (True, conn', w') \<and>
     look (db (ds_net (w_ext w'))) = foldl store_in (look (db (ds_net (w_ext w)))) (zip keys objs) \<and>
     redis_hash.idle live queued ready c fd conn' (ds_net (w_ext w')) \<and>
     hp_objs (w_heap w') = hp_objs (w_heap w) \<and> heap_wf (w_heap w') \<and> ds_dict (w_ext w') = D'"
proof -
  note rh = assms(1)
  obtain og h1 p where cr: "cps_api_object_create (de_libc K) (w_heap w) = Some (og, h1)" "hp_objs (w_heap w) og = None"
    "hp_objs h1 = (hp_objs (w_heap w))(og \<mapsto> p)" "heap_wf h1" "obj_ref_count p = 1" "obj_token p = KEY_TOKEN"
    "obj_allocated p"
    by (rule receive_room [OF assms(3)]) (use assms(4) in auto)
  obtain conn1 x1 where v: "cps_api_db_validate_connection K A conn (w_ext w) = Some (True, conn1, (w_ext w)\<lparr>ds_net := x1\<rparr>)"
    "redis_hash.idle live queued ready c fd conn1 x1" "db x1 = db (ds_net (w_ext w))"
    by (rule redis_hash.validate_live [OF rh assms(2)])
  let ?w = "w\<lparr>w_heap := h1, w_ext := (w_ext w)\<lparr>ds_net := x1\<rparr>\<rparr>"
  let ?I = "redis_hash.stored_upto live queued ready db look K c fd h1 (ds_dict (w_ext w)) (look (db (ds_net (w_ext w)))) objs keys"
  note ob = objects_after_create [OF cr(2,3) assms(5)]
  have len: "length ps = length objs" using arg_cong [OF assms(5), of length] by simp
  have I0: "?I 0 (conn1, ?w)"
    using v by (simp add: redis_hash.stored_upto_def [OF rh] Let_def)
  obtain st where st: "cps_api_range_split (length ps) (fl_in_the_pipe (de_flags K)) (store_range K A ps) (conn1, ?w) =
      Some (True, st)" "?I (length ps) st"
    using range_split_steps [OF assms(8,9), of ?I "(conn1, ?w)" "store_range K A ps"] I0
      redis_hash.store_range_live [OF rh _ _ _ assms(6) ob assms(7)] len by metis
  obtain conn' w' where st': "st = (conn', w')" by (cases st)
  have e: "w_heap w' = h1" "redis_hash.idle live queued ready c fd conn' (ds_net (w_ext w'))"
    "look (db (ds_net (w_ext w'))) = foldl store_in (look (db (ds_net (w_ext w)))) (zip keys objs)"
    "ds_dict (w_ext w') = D'"
    using st(2) assms(6) len instance_keys_length [OF assms(6)] by (simp_all add: st' redis_hash.stored_upto_def [OF rh] Let_def)
  obtain h2 where h2: "cps_api_object_delete (heap_set h1 og p) (Some og) = Some h2" "heap_wf h2"
    "hp_objs h2 = hp_objs (w_heap w)"
    using delete_new [OF cr(4,2,3) cr(5-7)] by blast
  have "heap_set h1 og p = h1" using cr(3) by (simp add: heap_set_def)
  then have "store_objects K A ps conn w = Some (True, conn', w'\<lparr>w_heap := h2\<rparr>)"
    using cr(1) v(1) st(1) h2(1) e(1) by (simp add: store_objects_def st' cps_api_object_list_size_def)
  then show ?thesis using e h2 by (intro exI [of _ conn'] exI [of _ "w'\<lparr>w_heap := h2\<rparr>"]) simp
qed

text \<open>A heap with one object of the class, beside an idle connection.\<close>

definition demo_db_world :: "redis_sim db_world" where
  "demo_db_world = \<lparr>w_heap = demo_heap\<lparr>hp_objs := [1 \<mapsto> demo_instance [(7, [1])]]\<rparr>, w_ext = demo_db_state\<rparr>"

lemma demo_db_world_facts:
  "heap_wf (w_heap demo_db_world)" "obj_at demo_db_world (Some 1) = Some (demo_instance [(7, [1])])"
  "w_ext demo_db_world = demo_db_state"
  by (auto simp: heap_wf_def demo_db_world_def demo_heap_def demo_instance_def tlv16_obj_def obj_at_def)

theorem pipelined_store_in_order_witness:
  "\<exists>conn' w'. store_objects demo_db sim_redis [Some 1] demo_conn demo_db_world = Some (True, conn', w') \<and>
     rs_store (ds_net (w_ext w')) (instance_bytes demo_key [[1]]) object_field = Some (obj_wire (demo_instance [(7, [1])])) \<and>
     hp_objs (w_heap w') = hp_objs (w_heap demo_db_world)"
proof -
  let ?p = "demo_instance [(7, [1])]"
  obtain D' where "dbkey_from_instance_key libc_ok tlv16 id demo_dict [] ?p False =
     Some (True, instance_bytes demo_key [[1]], D')" using demo_instance_key by blast
  then have k: "instance_keys demo_db (ds_dict (w_ext demo_db_world)) [?p] = Some ([instance_bytes demo_key [[1]]], D')"
    by (simp add: demo_db_def demo_db_world_facts(3) demo_db_state_def)
  have "obj_wf tlv16 ?p [(7, [1])]" by (rule demo_instance_wf(1)) (simp_all add: size_lim_def obj_cap_def)
  then have wf: "\<forall>p \<in> set [?p]. \<exists>xs. obj_wf tlv16 p xs \<and> attrs_size tlv16 xs + 256 < obj_cap"
    by (intro ballI exI [of _ "[(7, [1])]"]) (simp add: demo_sizes)
  have "sim_hash.idle 1 1 demo_conn (ds_net (w_ext demo_db_world))" using demo_idle demo_db_world_facts(3) by simp
  note idle = this
  have m: "map (obj_at demo_db_world) [Some 1] = map Some [?p]" by (simp only: list.map demo_db_world_facts(2))
  have f: "0 < fl_in_the_pipe (de_flags demo_db)" "length [Some (1 :: nat)] + fl_in_the_pipe (de_flags demo_db) < size_lim"
    "\<forall>n. alloc_ok (de_libc demo_db) n"
    by (simp_all add: demo_db_def default_flags_def size_lim_def)
  show ?thesis
    using pipelined_store_in_order [OF sim_hash.redis_hash_axioms idle demo_db_world_facts(1) f(3) m k wf f(1,2)]
    by (auto simp: store_in_def)
qed

end
