(* ===== verification/Cps_Db_Events_Proofs.thy ===== *)
theory Cps_Db_Events_Proofs
  imports Cps_Db_Events Cps_Db_Pipeline_Proofs
begin

text \<open>
  Publishers and the sending thread in every interleaving: events leave the queue in the order of their
  publication, each once, and what is not sent stays queued.
\<close>

section \<open>What the sending steps leave alone\<close>

text \<open>The objects of the entries of a list that still have one.\<close>

definition live_objs :: "ev_elem list \<Rightarrow> nat list" where
  "live_objs l = List.map_filter snd l"

lemma live_objs_simps [simp]:
  "live_objs [] = []" "live_objs ((x, None) # l) = live_objs l" "live_objs ((x, Some a) # l) = a # live_objs l"
  "live_objs (k @ l) = live_objs k @ live_objs l"
  by (simp_all add: live_objs_def map_filter_def)

definition same_queue :: "'x ev_state \<Rightarrow> 'x ev_state \<Rightarrow> bool" where
  "same_queue e e' \<longleftrightarrow> es_events e' = es_events e \<and> es_published e' = es_published e \<and>
     hp_brk (w_heap (es_world e')) = hp_brk (w_heap (es_world e))"

lemma same_queue_refl [simp]: "same_queue e e"
  by (simp add: same_queue_def)

lemma same_queue_trans: "same_queue a b \<Longrightarrow> same_queue b c \<Longrightarrow> same_queue a c"
  by (simp add: same_queue_def)

lemma delete_brk: "cps_api_object_delete h p = Some h' \<Longrightarrow> hp_brk h' = hp_brk h"
  by (auto simp: cps_api_object_delete_def obj_delloc_def heap_set_def db_list_tracker_rm_def Let_def
      split: option.splits bind_splits if_splits)

lemma cache_get_queue: "events_cache_get K A name e = Some (r, e') \<Longrightarrow> same_queue e e'"
  by (auto simp: events_cache_get_def same_queue_def Let_def split: bind_splits)

lemma cache_put_queue: "events_cache_put K A name conn e = Some e' \<Longrightarrow> same_queue e e'"
  by (auto simp: events_cache_put_def same_queue_def Let_def split: bind_splits)

lemma finish_queue: "finish_connection K A F addr n conn e = Some e' \<Longrightarrow> same_queue e e'"
  by (auto simp: finish_connection_def Let_def same_queue_def dest!: cache_put_queue split: bind_splits)

lemma change_queue: "change_connection K A F addr pc e = Some (ok, pc', e') \<Longrightarrow> same_queue e e'"
  by (auto simp: change_connection_def Let_def dest!: cache_get_queue finish_queue
      split: bind_splits option.splits if_splits intro: same_queue_trans)

lemma ev_delete_queue: "ev_delete a e = Some e' \<Longrightarrow> same_queue e e'"
  by (auto simp: ev_delete_def same_queue_def delete_brk split: bind_splits)

lemma push_queue: "push_event K A F a conn e = Some (ok, conn', e') \<Longrightarrow> same_queue e e'"
  by (auto simp: push_event_def Let_def same_queue_def obj_put_def heap_set_def split: bind_splits)

lemma process_end_queue: "process_end K A F pc e = Some e' \<Longrightarrow> same_queue e e'"
  by (auto simp: process_end_def dest: change_queue split: bind_splits if_splits)

lemma process_one_result:
  assumes "process_one K A F it pc e = Some (go, p, pc', e')"
  shows "same_queue e e' \<and> (if go then p = None else p = None \<or> p = snd it)"
proof (cases "snd it")
  case None
  then show ?thesis using assms by (auto simp: process_one_def same_queue_def)
next
  case (Some a)
  let ?addr = "if fst it = [] then DEFAULT_REDIS_ADDR else fst it"
  from assms Some obtain ok pc1 e1 where
    c: "(if pc_addr pc \<noteq> ?addr then do {
           (ok, pc, e) \<leftarrow> change_connection K A F ?addr pc e;
           Some (ok, if ok then pc\<lparr>pc_sent := 0\<rparr> else pc, e)
         } else Some (True, pc, e)) = Some (ok, pc1, e1)"
    by (auto simp: process_one_def Let_def split: bind_splits)
  have q1: "same_queue e e1" using c by (auto dest: change_queue simp: same_queue_def split: if_splits bind_splits)
  show ?thesis
  proof (cases "\<not> ok \<or> pc_conn pc1 = None")
    case True
    then show ?thesis using assms Some c q1 same_queue_trans [OF q1 ev_delete_queue]
      by (auto simp: process_one_def Let_def split: bind_splits if_splits)
  next
    case False
    then obtain conn where cn: "pc_conn pc1 = Some conn" by auto
    with assms Some c False obtain ok2 conn2 e2 where p: "push_event K A F a conn e1 = Some (ok2, conn2, e2)"
      by (auto simp: process_one_def Let_def split: bind_splits)
    note q2 = same_queue_trans [OF q1 push_queue [OF p]]
    have q3: "same_queue e e3" if "ev_delete a (e2\<lparr>es_pushed := n\<rparr>) = Some e3" for e3 n
      using q2 ev_delete_queue [OF that] by (simp add: same_queue_def)
    show ?thesis using assms Some c cn p False q2 q3
      by (auto simp: process_one_def Let_def split: bind_splits if_splits)
  qed
qed

lemma publish_result:
  assumes "publish K F conn obj e = Some (ok, e')"
  shows "hp_brk (w_heap (es_world e')) = hp_brk (w_heap (es_world e)) + 1 \<and>
     (if ok then es_events e' = es_events e @ [(cn_addr conn, Some (hp_brk (w_heap (es_world e))))] \<and>
        length (es_events e) \<le> ef_max_inflight F
      else es_events e' = es_events e)"
proof -
  let ?h = "w_heap (es_world e)"
  obtain h1 where c: "cps_api_object_create (de_libc K) ?h = Some (hp_brk ?h, h1)" "hp_brk h1 = hp_brk ?h + 1"
    using assms
    by (auto simp: publish_def cps_api_object_create_def cps_api_object_create_int_def Let_def heap_set_def
        db_list_tracker_add_def split: bind_splits)
  obtain b h2 where k: "heap_clone (de_libc K) h1 (hp_brk ?h) obj = Some (b, h2)" "hp_brk h2 = hp_brk h1"
    using assms c by (auto simp: publish_def heap_clone_def heap_set_def split: bind_splits)
  show ?thesis
    using assms c k
    by (auto simp: publish_def Let_def cps_api_object_reference_def heap_set_def delete_brk
        split: bind_splits if_splits dest!: delete_brk)
qed

section \<open>Publishers and the thread\<close>

text \<open>
  A run: the shared state, where the thread is, the entries of its list it is done with and those
  before it, and its connection. \<open>er_hist\<close> and \<open>er_gone\<close> are the history: the objects published so
  far, and those that left the queue, with \<open>False\<close> for one that was discarded because no
  connection to its server could be had.
\<close>

datatype ev_phase = Ev_waiting | Ev_sending | Ev_stopped | Ev_returning

record 'x ev_run =
  er_state :: "'x ev_state"
  er_phase :: ev_phase
  er_done :: "ev_elem list"
  er_todo :: "ev_elem list"
  er_pc :: push_conn
  er_hist :: "nat list"
  er_gone :: "(nat \<times> bool) list"

definition gone_of :: "obj_ptr \<Rightarrow> bool \<Rightarrow> (nat \<times> bool) list" where
  "gone_of p sent = (case p of None \<Rightarrow> [] | Some a \<Rightarrow> [(a, sent)])"

inductive ev_step :: "db_env \<Rightarrow> 'x redis_api \<Rightarrow> ev_flags \<Rightarrow> 'x ev_run \<Rightarrow> 'x ev_run \<Rightarrow> bool" for K A F where
  ev_publish: "publish K F conn obj (er_state r) = Some (ok, e') \<Longrightarrow>
    ev_step K A F r (r\<lparr>er_state := e', er_hist := er_hist r @
      live_objs (drop (length (es_events (er_state r))) (es_events e'))\<rparr>)"
| ev_take: "er_phase r = Ev_waiting \<Longrightarrow> thread_take (er_state r) = (current, e') \<Longrightarrow>
    ev_step K A F r (r\<lparr>er_state := e', er_phase := Ev_sending, er_done := [], er_todo := current, er_pc := no_connection\<rparr>)"
| ev_send: "er_phase r = Ev_sending \<Longrightarrow> er_todo r = it # its \<Longrightarrow>
    process_one K A F it (er_pc r) (er_state r) = Some (True, p, pc', e') \<Longrightarrow>
    ev_step K A F r (r\<lparr>er_state := e', er_done := er_done r @ [(fst it, p)], er_todo := its, er_pc := pc',
      er_gone := er_gone r @ gone_of (snd it) True\<rparr>)"
| ev_stop: "er_phase r = Ev_sending \<Longrightarrow> er_todo r = it # its \<Longrightarrow>
    process_one K A F it (er_pc r) (er_state r) = Some (False, p, pc', e') \<Longrightarrow>
    ev_step K A F r (r\<lparr>er_state := e', er_phase := Ev_stopped, er_todo := (fst it, p) # its, er_pc := pc',
      er_gone := er_gone r @ (if p = None then gone_of (snd it) False else [])\<rparr>)"
| ev_finish: "er_phase r = Ev_sending \<Longrightarrow> er_todo r = [] \<Longrightarrow> process_end K A F (er_pc r) (er_state r) = Some e' \<Longrightarrow>
    ev_step K A F r (r\<lparr>er_state := e', er_phase := Ev_waiting, er_done := []\<rparr>)"
| ev_end: "er_phase r = Ev_stopped \<Longrightarrow> process_end K A F (er_pc r) (er_state r) = Some e' \<Longrightarrow>
    ev_step K A F r (r\<lparr>er_state := e', er_phase := Ev_returning\<rparr>)"
| ev_return: "er_phase r = Ev_returning \<Longrightarrow> thread_put_back F (er_done r @ er_todo r) (er_state r) = Some e' \<Longrightarrow>
    ev_step K A F r (r\<lparr>er_state := e', er_phase := Ev_waiting, er_done := [], er_todo := []\<rparr>)"

inductive_cases ev_step_cases: "ev_step K A F r r'"

definition ev_start :: "'x ev_state \<Rightarrow> 'x ev_run" where
  "ev_start e = \<lparr>er_state = e, er_phase = Ev_waiting, er_done = [], er_todo = [], er_pc = no_connection,
     er_hist = [], er_gone = []\<rparr>"

definition ev_fresh :: "'x ev_run \<Rightarrow> bool" where
  "ev_fresh r \<longleftrightarrow> distinct (er_hist r) \<and> (\<forall>a \<in> set (er_hist r). a < hp_brk (w_heap (es_world (er_state r))))"

definition ev_inv :: "ev_flags \<Rightarrow> 'x ev_run \<Rightarrow> bool" where
  "ev_inv F r \<longleftrightarrow>
     er_hist r = map fst (er_gone r) @ live_objs (er_todo r) @ live_objs (es_events (er_state r)) \<and>
     live_objs (er_done r) = [] \<and> ev_fresh r \<and>
     (er_phase r = Ev_waiting \<longrightarrow> er_todo r = []) \<and>
     (er_phase r \<noteq> Ev_waiting \<longrightarrow> length (es_events (er_state r)) \<le> ef_max_inflight F + 1)"

lemma live_objs_entry: "live_objs ((x, p) # l) = map fst (gone_of p b) @ live_objs l"
  by (cases p) (simp_all add: gone_of_def)

lemma ev_fresh_step:
  assumes "ev_step K A F r r'" and "ev_fresh r" and "er_phase r = Ev_returning \<Longrightarrow> length (es_events (er_state r)) \<le> ef_redline F"
  shows "ev_fresh r'"
  using assms(1)
proof cases
  case (ev_publish conn obj ok e')
  note p = publish_result [OF ev_publish(2)]
  have "er_hist r' = er_hist r @ (if ok then [hp_brk (w_heap (es_world (er_state r)))] else [])"
    using p ev_publish(1) by auto
  then show ?thesis using p ev_publish(1) assms(2) by (auto simp: ev_fresh_def less_SucI)
next
  case (ev_send it its p pc' e')
  then show ?thesis using assms(2) process_one_result [OF ev_send(4)] by (simp add: ev_fresh_def same_queue_def)
next
  case (ev_stop it its p pc' e')
  then show ?thesis using assms(2) process_one_result [OF ev_stop(4)] by (simp add: ev_fresh_def same_queue_def)
qed (use assms(2,3) in \<open>auto simp: ev_fresh_def thread_take_def thread_put_back_def same_queue_def dest!: process_end_queue\<close>)

lemma ev_inv_step:
  assumes "ev_step K A F r r'" and "ev_inv F r" and "ef_max_inflight F < ef_redline F"
  shows "ev_inv F r'"
proof -
  have len: "length (es_events (er_state r)) \<le> ef_redline F" if "er_phase r = Ev_returning"
    using assms(2,3) that by (auto simp: ev_inv_def)
  have fresh: "ev_fresh r'"
    by (rule ev_fresh_step [OF assms(1)]) (use assms(2) len in \<open>auto simp: ev_inv_def\<close>)
  from assms(1) show ?thesis
  proof cases
    case (ev_publish conn obj ok e')
    then show ?thesis using publish_result [OF ev_publish(2)] assms(2) fresh by (cases ok) (auto simp: ev_inv_def)
  next
    case (ev_send it its p pc' e')
    have "live_objs (er_todo r) = map fst (gone_of (snd it) True) @ live_objs its"
      using ev_send(3) live_objs_entry [of "fst it" "snd it"] by simp
    then show ?thesis using process_one_result [OF ev_send(4)] assms(2) ev_send(1,2) fresh
      by (auto simp: ev_inv_def same_queue_def)
  next
    case (ev_stop it its p pc' e')
    note q = process_one_result [OF ev_stop(4)]
    have "live_objs (er_todo r) = map fst (gone_of (snd it) False) @ live_objs its"
      using ev_stop(3) live_objs_entry [of "fst it" "snd it"] by simp
    moreover have "map fst (gone_of (snd it) False) @ live_objs its =
        map fst (if p = None then gone_of (snd it) False else []) @ live_objs ((fst it, p) # its)"
      using q live_objs_entry [of "fst it" p its False] by (auto simp: gone_of_def)
    ultimately show ?thesis using q assms(2) ev_stop(1,2) fresh by (auto simp: ev_inv_def same_queue_def)
  next
    case (ev_return e')
    then have "e' = (er_state r)\<lparr>es_events := (er_done r @ er_todo r) @ es_events (er_state r)\<rparr>"
      using len by (simp add: thread_put_back_def)
    then show ?thesis using assms(2) ev_return(1,2) fresh by (auto simp: ev_inv_def)
  qed (use assms(2) fresh in \<open>auto simp: ev_inv_def same_queue_def thread_take_def dest!: process_end_queue\<close>)
qed

text \<open>
  \<^bold>\<open>C11.\<close> In every interleaving of publishers with the sending thread, and whatever the servers do, the
  events leave the queue in the order in which they were published, each exactly once: those that left
  and those in the thread's list and in the queue are, in this order, the published ones. When
  sending stops, the rest goes back in front of what was published meanwhile. This holds with the
  second limit above the first, as by default; then the code that cuts the queue is never reached.
\<close>

theorem events_in_publication_order:
  assumes "(ev_step K A F)\<^sup>*\<^sup>* (ev_start e) r" and "es_events e = []" and "ef_max_inflight F < ef_redline F"
  shows "er_hist r = map fst (er_gone r) @ live_objs (er_todo r) @ live_objs (es_events (er_state r)) \<and>
     distinct (er_hist r)"
proof -
  have "ev_inv F r" using assms(1)
  proof (induction rule: rtranclp_induct)
    case base
    then show ?case using assms(2) by (simp add: ev_inv_def ev_fresh_def ev_start_def)
  next
    case (step r1 r2)
    then show ?case using ev_inv_step assms(3) by blast
  qed
  then show ?thesis unfolding ev_inv_def ev_fresh_def by blast
qed

section \<open>Limits\<close>

text \<open>An event beyond the limit is refused at once; cutting a list to a limit leaves the excess instead.\<close>

lemma publish_full_refused:
  "publish K F conn obj e = Some (ok, e') \<Longrightarrow> length (es_events e) > ef_max_inflight F \<Longrightarrow> \<not> ok \<and> es_events e' = es_events e"
  using publish_result [of K F conn obj e ok e'] by (auto split: if_splits)

lemma limit_events_leaves_excess:
  "limit_events lst n h = Some (l, h') \<Longrightarrow> n < length lst \<Longrightarrow> length l = length lst - n"
  by (auto simp: limit_events_def remove_x_events_def Let_def split: bind_splits if_splits)

text \<open>A published object, taken by the thread.\<close>

definition demo_ev_flags :: ev_flags where
  "demo_ev_flags = \<lparr>ef_max_inflight = 100000, ef_redline = 200000, ef_flush_timeout = 15000, ef_pid = 1\<rparr>"

definition demo_ev_state :: "redis_sim ev_state" where
  "demo_ev_state = \<lparr>es_events = [], es_published = 0, es_pushed = 0, es_pool = (\<lambda>_. None), es_world = demo_db_world\<rparr>"

lemma demo_publish: "\<exists>e. publish demo_db demo_ev_flags demo_conn 1 demo_ev_state = Some (True, e) \<and>
    es_events e = [(DEFAULT_REDIS_ADDR, Some 2)]"
proof -
  let ?h = "w_heap (es_world demo_ev_state)"
  have wf: "heap_wf ?h" using demo_db_world_facts(1) by (simp add: demo_ev_state_def)
  have al: "alloc_ok libc_ok n" for n by (simp add: libc_ok_def)
  obtain og h1 p where c: "cps_api_object_create libc_ok ?h = Some (og, h1)" "hp_objs ?h og = None"
    "hp_objs h1 = (hp_objs ?h)(og \<mapsto> p)" "heap_wf h1" "hp_objs h1 og = Some p" "obj_ref_count p = 1"
    "obj_token p = KEY_TOKEN" "obj_allocated p" "length (obj_key p) = 64" "length (obj_buf p) = obj_len p"
    "obj_len p = DEF_OBJECT_SIZE"
    by (rule receive_room [OF wf al al])
  have og: "og = 2" using c(1)
    by (auto simp: cps_api_object_create_def cps_api_object_create_int_def Let_def demo_ev_state_def demo_db_world_def
        demo_heap_def split: bind_splits)
  let ?p = "demo_instance [(7, [1])]"
  have o1: "hp_objs h1 1 = Some ?p"
    using c(3) og by (simp add: demo_ev_state_def demo_db_world_def)
  have used: "obj_used_len ?p \<le> obj_len p" "obj_used_len ?p \<le> length (obj_buf ?p)"
    using c(11) by (simp_all add: demo_instance_def tlv16_obj_def obj_used_len_def sz_sub_def size_lim_def DEF_OBJECT_SIZE_def)
  obtain m where m: "memcpy (obj_buf p) 0 (take (obj_used_len ?p) (obj_buf ?p)) = Some m"
    using used c(10) by (simp add: memcpy_def)
  let ?q = "p\<lparr>obj_key := obj_key ?p, obj_buf := m, obj_remain := sz_sub (obj_len p) (obj_used_len ?p)\<rparr>"
  have "cps_api_object_clone libc_ok p ?p = Some (True, ?q)"
    using used m by (simp add: cps_api_object_clone_def Let_def)
  then have "heap_clone libc_ok h1 og 1 = Some (True, heap_set h1 og ?q)"
    using c(5) o1 by (simp add: heap_clone_def)
  then show ?thesis using c(1,5-8) og
    by (simp add: publish_def demo_db_def demo_ev_flags_def demo_ev_state_def Let_def cps_api_object_reference_def
        heap_set_def sz_add_def size_lim_def events_ok_def al cps_api_object_delete_def obj_delloc_def demo_conn_def)
qed

theorem events_in_publication_order_witness:
  "\<exists>r :: redis_sim ev_run. (ev_step demo_db sim_redis demo_ev_flags)\<^sup>*\<^sup>* (ev_start demo_ev_state) r \<and>
     er_phase r = Ev_sending \<and> er_hist r = [2] \<and>
     er_hist r = map fst (er_gone r) @ live_objs (er_todo r) @ live_objs (es_events (er_state r))"
proof -
  obtain e where e: "publish demo_db demo_ev_flags demo_conn 1 demo_ev_state = Some (True, e)"
    "es_events e = [(DEFAULT_REDIS_ADDR, Some 2)]" using demo_publish by blast
  let ?r1 = "(ev_start demo_ev_state)\<lparr>er_state := e, er_hist := [2]\<rparr>"
  have s1: "ev_step demo_db sim_redis demo_ev_flags (ev_start demo_ev_state) ?r1"
    using ev_publish [of demo_db demo_ev_flags demo_conn 1 "ev_start demo_ev_state" True e sim_redis] e
    by (simp add: ev_start_def demo_ev_state_def)
  let ?r2 = "?r1\<lparr>er_state := e\<lparr>es_events := []\<rparr>, er_phase := Ev_sending, er_done := [],
    er_todo := es_events e, er_pc := no_connection\<rparr>"
  have s2: "ev_step demo_db sim_redis demo_ev_flags ?r1 ?r2"
    using ev_take [of ?r1 "es_events e" "e\<lparr>es_events := []\<rparr>" demo_db sim_redis demo_ev_flags]
    by (simp add: ev_start_def thread_take_def)
  have st: "(ev_step demo_db sim_redis demo_ev_flags)\<^sup>*\<^sup>* (ev_start demo_ev_state) ?r2" using s1 s2 by simp
  show ?thesis
    using events_in_publication_order [OF st] st
    by (intro exI [of _ ?r2] conjI) (simp_all add: demo_ev_state_def demo_ev_flags_def e(2) ev_start_def)
qed

end
