(* ===== verification/Cps_Db_Direct_Proofs.thy ===== *)
theory Cps_Db_Direct_Proofs
  imports Cps_Db_Direct Cps_Db_Events_Proofs
begin

text \<open>
  Properties of the database interface: through a pooled connection to a server, what is committed is read
  back, a deleted object is gone and its former contents are handed out; retries are bounded.
\<close>

section \<open>Pooled connections\<close>

lemma db_of_set [simp]: "db_of (set_db w s) = s"
  by (simp add: db_of_def set_db_def)

lemma set_db_set [simp]: "set_db (set_db w s) s' = set_db w s'"
  by (simp add: set_db_def)

lemma set_db_of [simp]: "set_db w (db_of w) = w"
  by (simp add: set_db_def db_of_def)

lemma heap_set_db [simp]: "w_heap (set_db w s) = w_heap w"
  by (simp add: set_db_def)

lemma db_of_heap [simp]: "db_of (w\<lparr>w_heap := h\<rparr>) = db_of w" "set_db (w\<lparr>w_heap := h\<rparr>) s = (set_db w s)\<lparr>w_heap := h\<rparr>"
  by (simp_all add: db_of_def set_db_def)

lemma db_of_put [simp]: "db_of (obj_put w a p) = db_of w" "set_db (obj_put w a p) s = obj_put (set_db w s) a p"
  by (simp_all add: obj_put_def)

lemma db_world_simps [simp]:
  "w_heap (db_world w) = w_heap w" "w_ext (db_world w) = db_of w"
  "w_heap (set_db_world w v) = w_heap v" "db_of (set_db_world w v) = w_ext v"
  "set_db (set_db_world w v) s = (set_db w s)\<lparr>w_heap := w_heap v\<rparr>"
  by (simp_all add: db_world_def set_db_world_def)

lemma default_group [simp]: "58 \<in> set DEFAULT_REDIS_ADDR" "c_str DEFAULT_REDIS_ADDR = DEFAULT_REDIS_ADDR"
  "cps_api_key_is_local_group DEFAULT_REDIS_ADDR"
  by (simp_all add: DEFAULT_REDIS_ADDR_def c_str_def cps_api_key_is_local_group_def)

lemma default_nodes [simp]:
  "cps_api_db_get_node_group N A DEFAULT_REDIS_ADDR lst w = Some (True, lst @ [DEFAULT_REDIS_ADDR], w)"
  by (simp add: cps_api_db_get_node_group_def)

text \<open>The object is found under a key, whether it is looked up or searched for.\<close>

definition keyed :: "db_env \<Rightarrow> cps_dict \<Rightarrow> cps_obj \<Rightarrow> bytes \<Rightarrow> cps_dict \<Rightarrow> bool" where
  "keyed K D p key D' \<longleftrightarrow>
     dbkey_from_instance_key (de_libc K) (de_tlv K) (de_hash K) D [] p False = Some (True, key, D') \<and>
     dbkey_instance_or_wildcard (de_libc K) (de_tlv K) (de_hash K) D [] p = Some (True, key, False, D')"

text \<open>No attribute steers the request.\<close>

definition plain_attrs :: "attr list \<Rightarrow> bool" where
  "plain_attrs xs \<longleftrightarrow> CPS_OBJECT_GROUP_GROUP \<notin> fst ` set xs \<and> CPS_OBJECT_GROUP_CONTINUE_ON_FAILURE \<notin> fst ` set xs \<and>
     CPS_CONNECTION_ENTRY_CONNECTION_STATE \<notin> fst ` set xs \<and> CPS_OBJECT_GROUP_WILDCARD_SEARCH \<notin> fst ` set xs"

lemma array_frame:
  assumes "cps_api_array_to_object E dat n q = Some (ok, q')"
  shows "obj_ref_count q' = obj_ref_count q" and "obj_token q' = obj_token q" and "obj_allocated q' = obj_allocated q"
  using assms by (auto simp: cps_api_array_to_object_def obj_realloc_def Let_def split: if_splits option.splits bind_splits)

lemma plain_requests:
  assumes "std_tlv T" and "obj_wf T p xs" and "plain_attrs xs"
  shows "cps_api_key_get_group T p = Some DEFAULT_REDIS_ADDR" and "continue_on_failure T p = Some False"
    and "conn_event_enabled T p = Some False" and "cps_api_filter_has_wildcard_attrs T p = Some False"
proof -
  note g = std_tlv.get_data_uint_obj(1) [OF assms(1,2)]
  have a: "map_of xs CPS_OBJECT_GROUP_GROUP = None" "map_of xs CPS_OBJECT_GROUP_CONTINUE_ON_FAILURE = None"
    "map_of xs CPS_CONNECTION_ENTRY_CONNECTION_STATE = None"
    using assms(3) by (simp_all add: plain_attrs_def map_of_eq_None_iff)
  have "get_data_uint T p CPS_OBJECT_GROUP_GROUP 0 = Some None" by (rule g [OF a(1)])
  then show "cps_api_key_get_group T p = Some DEFAULT_REDIS_ADDR"
    by (auto simp: get_data_uint_def cps_api_key_get_group_def split: option.splits if_splits)
  show "continue_on_failure T p = Some False" "conn_event_enabled T p = Some False"
    using g [OF a(2), of 1] g [OF a(3), of 1]
    by (simp_all add: continue_on_failure_def conn_event_enabled_def cps_api_obj_attr_get_bool_def)
  show "cps_api_filter_has_wildcard_attrs T p = Some False"
    using std_tlv.has_wildcard_absent [OF assms(1,2)] assms(3) by (simp add: plain_attrs_def)
qed

text \<open>The check of the age of a connection changes nothing at the server.\<close>

locale redis_pool = redis_hash +
  assumes age: "live c fd x \<Longrightarrow> \<exists>b x'. rd_expired A t r x = (b, x') \<and> live c fd x' \<and>
      queued c x' = queued c x \<and> ready c x' = ready c x \<and> db x' = db x"
begin

text \<open>The pool holds a connection with nothing under way on top of \<open>cs\<close> for an address.\<close>

definition pooled :: "db_env \<Rightarrow> db_connection list \<Rightarrow> nat \<Rightarrow> int \<Rightarrow> bytes \<Rightarrow> 'a db_state \<Rightarrow> bool" where
  "pooled K cs c fd addr s \<longleftrightarrow> length cs < flag_size (fl_cache_max_connections (de_flags K)) \<and>
     (\<exists>conn. ds_pool s (c_str addr) = Some (cs @ [conn]) \<and> idle c fd conn (ds_net s))"

lemma idle_same:
  assumes "idle c fd conn x" and "live c fd x'" and "queued c x' = queued c x" and "ready c x' = ready c x"
    and "touched conn conn'"
  shows "idle c fd conn' x'"
  using assms touched_linked [OF assms(5,2) idle_live [OF assms(1)]] touched_event [OF assms(5)] by (simp add: idle_def)

lemma request_live:
  assumes "pooled K cs c fd addr s"
  obtains conn s' where "connection_request K A addr s = Some (Some conn, s')" and "idle c fd conn (ds_net s')"
    and "ds_pool s' = (ds_pool s)(c_str addr \<mapsto> cs)" and "ds_dict s' = ds_dict s" and "db (ds_net s') = db (ds_net s)"
proof -
  obtain conn where c: "ds_pool s (c_str addr) = Some (cs @ [conn])" "idle c fd conn (ds_net s)"
    using assms by (auto simp: pooled_def)
  have l: "live c fd (ds_net s)" using c(2) by (simp add: idle_def linked_def)
  obtain b x1 where b: "rd_expired A (cn_last_used conn) (word_of_int (fl_cache_entry_timeout (de_flags K))) (ds_net s) = (b, x1)"
    "live c fd x1" "queued c x1 = queued c (ds_net s)" "ready c x1 = ready c (ds_net s)" "db x1 = db (ds_net s)"
    using age [OF l] by blast
  let ?s = "s\<lparr>ds_net := x1\<rparr>"
  have i: "idle c fd conn (ds_net ?s)" using idle_same [OF c(2) b(2-4)] by simp
  obtain conn' x2 where v: "cps_api_db_validate_connection K A conn ?s = Some (True, conn', ?s\<lparr>ds_net := x2\<rparr>)"
    "idle c fd conn' x2" "db x2 = db (ds_net ?s)" by (rule validate_live [OF i])
  show thesis
    by (rule that [of "if b then conn' else conn" "s\<lparr>ds_net := if b then x2 else x1, ds_pool := (ds_pool s)(c_str addr \<mapsto> cs)\<rparr>"])
      (use c b i v in \<open>auto simp: connection_request_def connection_cache_get_def used_within_def\<close>)
qed

lemma valid_live:
  assumes "idle c fd conn x"
  obtains conn' x' where "connection_valid A conn x = Some (True, conn', x')" and "touched conn conn'"
    and "idle c fd conn' x'" and "db x' = db x"
proof -
  have l: "cn_ctx conn = Some c" "cn_fd conn = Some fd" "live c fd x"
    using assms by (simp_all add: idle_def linked_def)
  obtain x1 where x1: "rd_poll A fd True (to_int32 0) x = (1, True, x1)" "live c fd x1"
    "queued c x1 = queued c x" "ready c x1 = ready c x" "db x1 = db x"
    using poll_write [OF l(3)] by blast
  obtain conn' x2 where x2: "update_used A conn x1 = (conn', x2)" "touched conn conn'" "live c fd x2"
    "queued c x2 = queued c x1" "ready c x2 = ready c x1" "db x2 = db x1"
    using update_used_quiet [OF x1(2), of conn] by metis
  have "idle c fd conn' x2" by (rule idle_same [OF assms x2(3) _ _ x2(2)]) (use x1 x2 in simp_all)
  then show thesis
    by (intro that [of conn' x2]) (use l x1 x2 in \<open>auto simp: connection_valid_def connection_writable_def connection_wait_def\<close>)
qed

lemma release_live:
  assumes "idle c fd conn (ds_net s)" and "ds_pool s (c_str addr) = Some cs"
    and "length cs < flag_size (fl_cache_max_connections (de_flags K))"
  obtains s' where "connection_release K A addr (Some conn) s = Some s'" and "pooled K cs c fd addr s'"
    and "ds_dict s' = ds_dict s" and "db (ds_net s') = db (ds_net s)"
proof -
  obtain conn' x' where v: "connection_valid A conn (ds_net s) = Some (True, conn', x')"
    "idle c fd conn' x'" "db x' = db (ds_net s)" by (rule valid_live [OF assms(1)])
  show thesis
    by (rule that [of "s\<lparr>ds_net := x', ds_pool := (ds_pool s)(c_str addr \<mapsto> cs @ [conn'])\<rparr>"])
      (use v assms in \<open>auto simp: connection_release_def connection_cache_put_def pooled_def\<close>)
qed

text \<open>Work on a connection of the pool: it gets one with nothing under way and gives it back.\<close>

lemma on_connection_live:
  assumes "pooled (ne_db N) cs c fd addr (db_of w)"
    and "\<And>conn s1. idle c fd conn (ds_net s1) \<Longrightarrow> ds_pool s1 (c_str addr) = Some cs \<Longrightarrow> ds_dict s1 = ds_dict (db_of w) \<Longrightarrow>
      db (ds_net s1) = db (ds_net (db_of w)) \<Longrightarrow>
      \<exists>v conn' w2. body conn (set_db w s1) = Some (v, conn', w2) \<and> idle c fd conn' (ds_net (db_of w2)) \<and>
        ds_pool (db_of w2) (c_str addr) = Some cs \<and> P v w2"
  shows "\<exists>v w2 s'. on_connection N A addr none body w = Some (v, set_db w2 s') \<and> pooled (ne_db N) cs c fd addr s' \<and>
     ds_dict s' = ds_dict (db_of w2) \<and> db (ds_net s') = db (ds_net (db_of w2)) \<and> P v w2"
proof -
  obtain conn s1 where r: "connection_request (ne_db N) A addr (db_of w) = Some (Some conn, s1)" "idle c fd conn (ds_net s1)"
    "ds_pool s1 = (ds_pool (db_of w))(c_str addr \<mapsto> cs)" "ds_dict s1 = ds_dict (db_of w)" "db (ds_net s1) = db (ds_net (db_of w))"
    by (rule request_live [OF assms(1)])
  have l: "length cs < flag_size (fl_cache_max_connections (de_flags (ne_db N)))" using assms(1) by (simp add: pooled_def)
  obtain v conn' w2 where b: "body conn (set_db w s1) = Some (v, conn', w2)" "idle c fd conn' (ds_net (db_of w2))"
    "ds_pool (db_of w2) (c_str addr) = Some cs" "P v w2"
    using assms(2) [OF r(2) _ r(4,5)] r(3) by auto
  obtain s' where "connection_release (ne_db N) A addr (Some conn') (db_of w2) = Some s'" "pooled (ne_db N) cs c fd addr s'"
    "ds_dict s' = ds_dict (db_of w2)" "db (ds_net s') = db (ds_net (db_of w2))"
    by (rule release_live [OF b(2,3) l])
  then show ?thesis
    using r(1) b(1,4) by (intro exI [of _ v] exI [of _ w2] exI [of _ s']) (simp add: on_connection_def)
qed

section \<open>Objects behind a pooled connection\<close>

lemma store_at_live:
  assumes "pooled (ne_db N) cs c fd addr (db_of w)" and "hp_objs (w_heap w) a = Some p"
    and "obj_wf T p xs" and "attrs_size T xs + 256 < obj_cap" and "keyed (ne_db N) (ds_dict (db_of w)) p key D'"
  obtains s' where "store_at N A a addr w = Some (Some True, set_db w s')" and "pooled (ne_db N) cs c fd addr s'"
    and "ds_dict s' = D'" and "look (db (ds_net s')) =
      (look (db (ds_net (db_of w))))(key := (look (db (ds_net (db_of w))) key)(object_field \<mapsto> obj_wire p))"
proof -
  let ?P = "\<lambda>v w2. v = Some True \<and> w2 = set_db w (db_of w2) \<and> ds_dict (db_of w2) = D' \<and> look (db (ds_net (db_of w2))) =
      (look (db (ds_net (db_of w))))(key := (look (db (ds_net (db_of w))) key)(object_field \<mapsto> obj_wire p))"
  obtain v w2 s' where o: "store_at N A a addr w = Some (v, set_db w2 s')" "pooled (ne_db N) cs c fd addr s'"
    "ds_dict s' = ds_dict (db_of w2)" "db (ds_net s') = db (ds_net (db_of w2))" "?P v w2"
  proof (atomize_elim, unfold store_at_def, rule on_connection_live [OF assms(1)])
    fix conn and s1 :: "'a db_state"
    assume i: "idle c fd conn (ds_net s1)" "ds_pool s1 (c_str addr) = Some cs" "ds_dict s1 = ds_dict (db_of w)"
      "db (ds_net s1) = db (ds_net (db_of w))"
    have k: "dbkey_from_instance_key (de_libc (ne_db N)) (de_tlv (ne_db N)) (de_hash (ne_db N)) (ds_dict s1) [] p False =
        Some (True, key, D')" using assms(5) i(3) by (simp add: keyed_def)
    obtain conn' x' where st: "store_object (ne_db N) A p conn s1 = Some (True, conn', s1\<lparr>ds_dict := D', ds_net := x'\<rparr>)"
      "idle c fd conn' x'"
      "look (db x') = (look (db (ds_net s1)))(key := (look (db (ds_net s1)) key)(object_field \<mapsto> obj_wire p))"
      by (rule store_object_live [OF i(1) assms(3,4) k])
    show "\<exists>v conn' w2. do {
         p \<leftarrow> hp_objs (w_heap (set_db w s1)) a;
         (ok, conn, s) \<leftarrow> store_object (ne_db N) A p conn (db_of (set_db w s1));
         Some (Some ok, conn, set_db (set_db w s1) s)
       } = Some (v, conn', w2) \<and> idle c fd conn' (ds_net (db_of w2)) \<and> ds_pool (db_of w2) (c_str addr) = Some cs \<and> ?P v w2"
      using assms(2) st i
      by (intro exI [of _ "Some True"] exI [of _ conn'] exI [of _ "set_db w (s1\<lparr>ds_dict := D', ds_net := x'\<rparr>)"]) simp
  qed
  have "set_db w2 s' = set_db w s'" using o(5) by (metis set_db_set)
  then show thesis by (intro that [of s']) (use o in auto)
qed

text \<open>What reading the reply to a request for a key gives: nothing, or the stored bytes made an object.\<close>

definition answer :: "db_env \<Rightarrow> 'b \<Rightarrow> bytes \<Rightarrow> db_connection \<Rightarrow> 'a db_state \<Rightarrow> cps_obj \<Rightarrow>
     (bool \<times> cps_api_return_code_t \<times> cps_obj \<times> db_connection \<times> 'a db_state) option" where
  "answer K d key conn s q =
     (case look d key object_field of
        None \<Rightarrow> Some (False, cps_api_ret_code_NO_EXIST, q, conn, s)
      | Some bs \<Rightarrow> do {
          (ok, q) \<leftarrow> cps_api_array_to_object (de_libc K) bs (length bs) q;
          Some (ok, if ok then cps_api_ret_code_OK else cps_api_ret_code_CORRUPT, q, conn, s)
        })"

lemma get_response_live:
  assumes "idle c fd conn (ds_net s)"
  obtains conn1 s1 conn' x' where "get_object_request K A key has_rc conn s = Some (True, conn1, s1)"
    and "idle c fd conn' x'" and "db x' = db (ds_net s)"
    and "\<forall>q. get_object_response K A q conn1 s1 = answer K (db (ds_net s)) key conn' (s\<lparr>ds_net := x'\<rparr>) q"
proof -
  obtain conn' x' conn1 s1 where g: "get_object_request K A key has_rc conn s = Some (True, conn1, s1)"
    "read_response K A conn1 s1 = Some (True, cps_api_ret_code_OK,
        [case look (db (ds_net s)) key object_field of None \<Rightarrow> REDIS_REPLY_NIL | Some v \<Rightarrow> REDIS_REPLY_STRING v],
        conn', s\<lparr>ds_net := x'\<rparr>)" "idle c fd conn' x'" "db x' = db (ds_net s)"
    by (rule get_reply_live [OF assms, of K key has_rc])
  show thesis
    by (rule that [OF g(1,3,4)]) (use g(2) in \<open>auto simp: answer_def get_object_response_def response_set_get_def response_is_nill_def
        response_is_str_def response_get_str_def split: option.splits bind_splits\<close>)
qed

lemma wire_read:
  assumes "std_tlv T" and "obj_wf T p xs" and "attrs_size T xs + 2 * sizeof_object_data < obj_cap"
    and "alloc_ok E (attrs_size T xs + 2 * sizeof_object_data)"
    and "obj_allocated q" and "length (obj_key q) = 64" and "length (obj_buf q) = obj_len q"
  obtains q' where "cps_api_array_to_object E (obj_wire p) (length (obj_wire p)) q = Some (True, q')"
    and "obj_wf T q' xs" and "obj_key q' = obj_key p"
proof -
  have "attrs_size T xs + 256 < obj_cap" using assms(3) by (simp add: sizeof_object_data_def CPS_OBJ_KEY_BYTE_MAX_LEN_def)
  then show thesis
    using std_tlv.array_roundtrip [OF assms(1,2,5,6,7,3,4)] array_of_wire [OF assms(2)] that by auto
qed

text \<open>Searching for an object by its keys gives a copy of what is stored, or nothing.\<close>

lemma get_objects_found:
  fixes w :: "'a db_world"
  assumes "std_tlv T" and "heap_wf (w_heap w)" and "\<forall>n. alloc_ok (de_libc K) n" and "hp_objs (w_heap w) a = Some f"
    and "cps_api_filter_has_wildcard_attrs (de_tlv K) f = Some False" and "keyed K (ds_dict (w_ext w)) f key D'"
    and "idle c fd conn (ds_net (w_ext w))" and "look (db (ds_net (w_ext w))) key object_field = Some (obj_wire p)"
    and "obj_wf T p xs" and "attrs_size T xs + 2 * sizeof_object_data < obj_cap"
  obtains og q conn' w' where "get_objects K A a objs True rc conn w = Some (True, cps_api_ret_code_OK, objs @ [Some og], conn', w')"
    and "hp_objs (w_heap w) og = None" and "hp_objs (w_heap w') = (hp_objs (w_heap w))(og \<mapsto> q)" and "heap_wf (w_heap w')"
    and "obj_wf T q xs" and "obj_key q = obj_key p" and "idle c fd conn' (ds_net (w_ext w'))"
    and "db (ds_net (w_ext w')) = db (ds_net (w_ext w))" and "ds_dict (w_ext w') = D'" and "ds_pool (w_ext w') = ds_pool (w_ext w)"
proof -
  obtain og h1 nw where n: "cps_api_object_create (de_libc K) (w_heap w) = Some (og, h1)" "hp_objs (w_heap w) og = None"
    "hp_objs h1 = (hp_objs (w_heap w))(og \<mapsto> nw)" "heap_wf h1" "hp_objs h1 og = Some nw" "obj_ref_count nw = 1"
    "obj_token nw = KEY_TOKEN" "obj_allocated nw" "length (obj_key nw) = 64" "length (obj_buf nw) = obj_len nw"
    by (rule receive_room [OF assms(2), of "de_libc K"]) (use assms(3) in auto)
  let ?s = "(w_ext w)\<lparr>ds_dict := D'\<rparr>"
  have i: "idle c fd conn (ds_net ?s)" using assms(7) by simp
  obtain conn1 s1 conn' x' where g: "get_object_request K A key True conn ?s = Some (True, conn1, s1)"
    "idle c fd conn' x'" "db x' = db (ds_net ?s)"
    "\<forall>q. get_object_response K A q conn1 s1 = answer K (db (ds_net ?s)) key conn' (?s\<lparr>ds_net := x'\<rparr>) q"
    by (rule get_response_live [OF i, of K key True])
  have al: "alloc_ok (de_libc K) (attrs_size T xs + 2 * sizeof_object_data)" using assms(3) by simp
  obtain q where q: "cps_api_array_to_object (de_libc K) (obj_wire p) (length (obj_wire p)) nw = Some (True, q)"
    "obj_wf T q xs" "obj_key q = obj_key p"
    by (rule wire_read [OF assms(1,9,10) al n(8-10)])
  have wf: "heap_wf (heap_set h1 og q)" by (rule heap_set_wf [OF n(4,5)]) (use array_frame [OF q(1)] n in auto)
  show thesis
    by (rule that [of og conn' "\<lparr>w_heap = heap_set h1 og q, w_ext = ?s\<lparr>ds_net := x'\<rparr>\<rparr>" q])
      (use n wf g q assms(3-6,8) in \<open>auto simp: answer_def get_objects_def keyed_def Let_def read_object_def obj_put_def
        cps_api_object_list_append_def vector_ok_def cps_api_object_delete_def heap_set_def\<close>)
qed

lemma get_objects_missing:
  fixes w :: "'a db_world"
  assumes "heap_wf (w_heap w)" and "\<forall>n. alloc_ok (de_libc K) n" and "hp_objs (w_heap w) a = Some f"
    and "cps_api_filter_has_wildcard_attrs (de_tlv K) f = Some False" and "keyed K (ds_dict (w_ext w)) f key D'"
    and "idle c fd conn (ds_net (w_ext w))" and "look (db (ds_net (w_ext w))) key object_field = None"
  obtains conn' w' where "get_objects K A a objs True rc conn w = Some (False, cps_api_ret_code_NO_EXIST, objs, conn', w')"
    and "hp_objs (w_heap w') = hp_objs (w_heap w)" and "heap_wf (w_heap w')" and "idle c fd conn' (ds_net (w_ext w'))"
    and "db (ds_net (w_ext w')) = db (ds_net (w_ext w))" and "ds_dict (w_ext w') = D'" and "ds_pool (w_ext w') = ds_pool (w_ext w)"
proof -
  obtain og h1 nw where n: "cps_api_object_create (de_libc K) (w_heap w) = Some (og, h1)" "hp_objs (w_heap w) og = None"
    "hp_objs h1 = (hp_objs (w_heap w))(og \<mapsto> nw)" "heap_wf h1" "hp_objs h1 og = Some nw" "obj_ref_count nw = 1"
    "obj_token nw = KEY_TOKEN" "obj_allocated nw"
    by (rule receive_room [OF assms(1), of "de_libc K"]) (use assms(2) in auto)
  let ?s = "(w_ext w)\<lparr>ds_dict := D'\<rparr>"
  have i: "idle c fd conn (ds_net ?s)" using assms(6) by simp
  obtain conn1 s1 conn' x' where g: "get_object_request K A key True conn ?s = Some (True, conn1, s1)"
    "idle c fd conn' x'" "db x' = db (ds_net ?s)"
    "\<forall>q. get_object_response K A q conn1 s1 = answer K (db (ds_net ?s)) key conn' (?s\<lparr>ds_net := x'\<rparr>) q"
    by (rule get_response_live [OF i, of K key True])
  obtain h2 where h2: "cps_api_object_delete (heap_set h1 og nw) (Some og) = Some h2" "heap_wf h2" "hp_objs h2 = hp_objs (w_heap w)"
    using delete_new [OF n(4,2,3,6-8)] by blast
  show thesis
    by (rule that [of conn' "\<lparr>w_heap = h2, w_ext = ?s\<lparr>ds_net := x'\<rparr>\<rparr>"])
      (use n h2 g assms(2-5,7) in \<open>auto simp: answer_def get_objects_def keyed_def Let_def read_object_def obj_put_def\<close>)
qed

section \<open>Requests to the local database\<close>

text \<open>What all requests of an object at the local database rely on.\<close>

definition ready_for :: "node_env \<Rightarrow> db_connection list \<Rightarrow> nat \<Rightarrow> int \<Rightarrow> 'a node_world \<Rightarrow> bool" where
  "ready_for N cs c fd w \<longleftrightarrow> pooled (ne_db N) cs c fd DEFAULT_REDIS_ADDR (db_of w) \<and> heap_wf (w_heap w) \<and>
     (\<forall>n. alloc_ok (nw_libc N) n) \<and> std_tlv (nw_tlv N)"

abbreviation stored :: "'a node_world \<Rightarrow> bytes \<Rightarrow> bytes option" where
  "stored w key \<equiv> look (db (ds_net (db_of w))) key object_field"

lemma retry_ok: "attempt c w = Some (rc, c', w') \<Longrightarrow> rc \<noteq> cps_api_ret_code_COMMUNICATION_ERROR \<Longrightarrow>
    retry_request N A attempt n c w = Some (rc, c', w')"
  by (subst retry_request.simps) (simp add: handle_retry_request_def)

lemma db_get_step:
  assumes "std_tlv (nw_tlv N)" and "hp_objs (w_heap w) a = Some p" and "obj_wf (nw_tlv N) p xs" and "plain_attrs xs"
    and "on_connection N A DEFAULT_REDIS_ADDR (cps_api_ret_code_COMMUNICATION_ERROR, [])
       (get_at_node N A a DEFAULT_REDIS_ADDR DEFAULT_REDIS_ADDR cps_api_ret_code_ERR []) w = Some ((rc, l), w')"
    and "rc \<noteq> cps_api_ret_code_COMMUNICATION_ERROR"
  shows "cps_api_db_get N A a [] w = Some (rc, l, w')"
  unfolding cps_api_db_get_def using plain_requests [OF assms(1,3,4)] assms(2,5)
  by (intro retry_ok [OF _ assms(6)]) (simp add: db_operation_get_def cps_api_node_set_iterate_def)

lemma db_get_found:
  assumes "ready_for N cs c fd w" and "hp_objs (w_heap w) a = Some f" and "obj_wf (nw_tlv N) f ys" and "plain_attrs ys"
    and "keyed (ne_db N) (ds_dict (db_of w)) f key D'" and "stored w key = Some (obj_wire p)"
    and "obj_wf (nw_tlv N) p xs" and "attrs_size (nw_tlv N) xs + 2 * sizeof_object_data < obj_cap"
  obtains og q w' where "cps_api_db_get N A a [] w = Some (cps_api_ret_code_OK, [Some og], w')"
    and "hp_objs (w_heap w) og = None" and "hp_objs (w_heap w') = (hp_objs (w_heap w))(og \<mapsto> q)"
    and "obj_wf (nw_tlv N) q xs" and "obj_key q = obj_key p" and "ready_for N cs c fd w'" and "ds_dict (db_of w') = D'"
    and "db (ds_net (db_of w')) = db (ds_net (db_of w))"
proof -
  have r: "pooled (ne_db N) cs c fd DEFAULT_REDIS_ADDR (db_of w)" "heap_wf (w_heap w)" "\<forall>n. alloc_ok (nw_libc N) n"
    "std_tlv (nw_tlv N)" using assms(1) by (simp_all add: ready_for_def)
  note pl = plain_requests [OF r(4) assms(3,4)]
  let ?P = "\<lambda>v w2. \<exists>og q. v = (cps_api_ret_code_OK, [Some og]) \<and> hp_objs (w_heap w) og = None \<and>
      hp_objs (w_heap w2) = (hp_objs (w_heap w))(og \<mapsto> q) \<and> obj_wf (nw_tlv N) q xs \<and> obj_key q = obj_key p \<and>
      heap_wf (w_heap w2) \<and> ds_dict (db_of w2) = D' \<and> db (ds_net (db_of w2)) = db (ds_net (db_of w))"
  obtain v w2 s' where b: "on_connection N A DEFAULT_REDIS_ADDR (cps_api_ret_code_COMMUNICATION_ERROR, [])
       (get_at_node N A a DEFAULT_REDIS_ADDR DEFAULT_REDIS_ADDR cps_api_ret_code_ERR []) w = Some (v, set_db w2 s')"
    "pooled (ne_db N) cs c fd DEFAULT_REDIS_ADDR s'"
    "ds_dict s' = ds_dict (db_of w2)" "db (ds_net s') = db (ds_net (db_of w2))" "?P v w2"
  proof (atomize_elim, rule on_connection_live [OF r(1)])
    fix conn and s1 :: "'a db_state"
    assume i: "idle c fd conn (ds_net s1)" "ds_pool s1 (c_str DEFAULT_REDIS_ADDR) = Some cs" "ds_dict s1 = ds_dict (db_of w)"
      "db (ds_net s1) = db (ds_net (db_of w))"
    let ?v = "db_world (set_db w s1)"
    have ih: "heap_wf (w_heap ?v)" "hp_objs (w_heap ?v) a = Some f" "keyed (ne_db N) (ds_dict (w_ext ?v)) f key D'"
      "idle c fd conn (ds_net (w_ext ?v))" "look (db (ds_net (w_ext ?v))) key object_field = Some (obj_wire p)"
      using r assms i by simp_all
    obtain og q conn' v' where g: "get_objects (ne_db N) A a [] True cps_api_ret_code_ERR conn ?v =
        Some (True, cps_api_ret_code_OK, [] @ [Some og], conn', v')" "hp_objs (w_heap ?v) og = None"
      "hp_objs (w_heap v') = (hp_objs (w_heap ?v))(og \<mapsto> q)" "heap_wf (w_heap v')" "obj_wf (nw_tlv N) q xs"
      "obj_key q = obj_key p" "idle c fd conn' (ds_net (w_ext v'))" "db (ds_net (w_ext v')) = db (ds_net (w_ext ?v))"
      "ds_dict (w_ext v') = D'" "ds_pool (w_ext v') = ds_pool (w_ext ?v)"
      by (rule get_objects_found [OF r(4) ih(1) r(3) ih(2) pl(4) ih(3-5) assms(7,8)])
    have ne: "og \<noteq> a" using g(2) assms(2) by auto
    show "\<exists>v conn' w2. get_at_node N A a DEFAULT_REDIS_ADDR DEFAULT_REDIS_ADDR cps_api_ret_code_ERR [] conn (set_db w s1) =
        Some (v, conn', w2) \<and> idle c fd conn' (ds_net (db_of w2)) \<and>
        ds_pool (db_of w2) (c_str DEFAULT_REDIS_ADDR) = Some cs \<and> ?P v w2"
      using g i assms(2) ne
      by (intro exI [of _ "(cps_api_ret_code_OK, [Some og])"] exI [of _ conn'] exI [of _ "set_db_world (set_db w s1) v'"])
        (auto simp: get_at_node_def Let_def)
  qed
  obtain og q where v: "v = (cps_api_ret_code_OK, [Some og])" "hp_objs (w_heap w) og = None"
      "hp_objs (w_heap w2) = (hp_objs (w_heap w))(og \<mapsto> q)" "obj_wf (nw_tlv N) q xs" "obj_key q = obj_key p"
      "heap_wf (w_heap w2)" "ds_dict (db_of w2) = D'" "db (ds_net (db_of w2)) = db (ds_net (db_of w))" using b(5) by blast
  have "cps_api_db_get N A a [] w = Some (cps_api_ret_code_OK, [Some og], set_db w2 s')"
    by (rule db_get_step [OF r(4) assms(2-4)]) (use b(1) v(1) in \<open>simp_all add: ret_codes db_ret_codes\<close>)
  then show thesis by (rule that [of og "set_db w2 s'" q]) (use v b(2-4) r in \<open>simp_all add: ready_for_def\<close>)
qed

lemma db_get_missing:
  assumes "ready_for N cs c fd w" and "hp_objs (w_heap w) a = Some f" and "obj_wf (nw_tlv N) f ys" and "plain_attrs ys"
    and "keyed (ne_db N) (ds_dict (db_of w)) f key D'" and "stored w key = None"
  obtains w' where "cps_api_db_get N A a [] w = Some (cps_api_ret_code_NO_EXIST, [], w')"
    and "hp_objs (w_heap w') = hp_objs (w_heap w)" and "ready_for N cs c fd w'" and "ds_dict (db_of w') = D'"
    and "db (ds_net (db_of w')) = db (ds_net (db_of w))"
proof -
  have r: "pooled (ne_db N) cs c fd DEFAULT_REDIS_ADDR (db_of w)" "heap_wf (w_heap w)" "\<forall>n. alloc_ok (nw_libc N) n"
    "std_tlv (nw_tlv N)" using assms(1) by (simp_all add: ready_for_def)
  note pl = plain_requests [OF r(4) assms(3,4)]
  let ?P = "\<lambda>v w2. v = (cps_api_ret_code_NO_EXIST, []) \<and> hp_objs (w_heap w2) = hp_objs (w_heap w) \<and>
      heap_wf (w_heap w2) \<and> ds_dict (db_of w2) = D' \<and> db (ds_net (db_of w2)) = db (ds_net (db_of w))"
  obtain v w2 s' where b: "on_connection N A DEFAULT_REDIS_ADDR (cps_api_ret_code_COMMUNICATION_ERROR, [])
       (get_at_node N A a DEFAULT_REDIS_ADDR DEFAULT_REDIS_ADDR cps_api_ret_code_ERR []) w = Some (v, set_db w2 s')"
    "pooled (ne_db N) cs c fd DEFAULT_REDIS_ADDR s'"
    "ds_dict s' = ds_dict (db_of w2)" "db (ds_net s') = db (ds_net (db_of w2))" "?P v w2"
  proof (atomize_elim, rule on_connection_live [OF r(1)])
    fix conn and s1 :: "'a db_state"
    assume i: "idle c fd conn (ds_net s1)" "ds_pool s1 (c_str DEFAULT_REDIS_ADDR) = Some cs" "ds_dict s1 = ds_dict (db_of w)"
      "db (ds_net s1) = db (ds_net (db_of w))"
    let ?v = "db_world (set_db w s1)"
    have ih: "heap_wf (w_heap ?v)" "hp_objs (w_heap ?v) a = Some f" "keyed (ne_db N) (ds_dict (w_ext ?v)) f key D'"
      "idle c fd conn (ds_net (w_ext ?v))" "look (db (ds_net (w_ext ?v))) key object_field = None"
      using r assms i by simp_all
    obtain conn' v' where g: "get_objects (ne_db N) A a [] True cps_api_ret_code_ERR conn ?v =
        Some (False, cps_api_ret_code_NO_EXIST, [], conn', v')" "hp_objs (w_heap v') = hp_objs (w_heap ?v)" "heap_wf (w_heap v')"
      "idle c fd conn' (ds_net (w_ext v'))" "db (ds_net (w_ext v')) = db (ds_net (w_ext ?v))"
      "ds_dict (w_ext v') = D'" "ds_pool (w_ext v') = ds_pool (w_ext ?v)"
      by (rule get_objects_missing [OF ih(1) r(3) ih(2) pl(4) ih(3-5)])
    show "\<exists>v conn' w2. get_at_node N A a DEFAULT_REDIS_ADDR DEFAULT_REDIS_ADDR cps_api_ret_code_ERR [] conn (set_db w s1) =
        Some (v, conn', w2) \<and> idle c fd conn' (ds_net (db_of w2)) \<and>
        ds_pool (db_of w2) (c_str DEFAULT_REDIS_ADDR) = Some cs \<and> ?P v w2"
      using g i assms(2) pl(3)
      by (intro exI [of _ "(cps_api_ret_code_NO_EXIST, [])"] exI [of _ conn'] exI [of _ "set_db_world (set_db w s1) v'"])
        (auto simp: get_at_node_def Let_def)
  qed
  have "cps_api_db_get N A a [] w = Some (cps_api_ret_code_NO_EXIST, [], set_db w2 s')"
    by (rule db_get_step [OF r(4) assms(2-4)]) (use b(1,5) in \<open>simp_all add: ret_codes db_ret_codes\<close>)
  then show thesis by (rule that) (use b r in \<open>auto simp: ready_for_def\<close>)
qed

lemma commit_one_step:
  assumes "std_tlv (nw_tlv N)" and "hp_objs (w_heap w) a = Some p" and "obj_wf (nw_tlv N) p xs" and "plain_attrs xs"
    and "commit_one_steps N A op a pv [DEFAULT_REDIS_ADDR] w = Some (rc, w')" and "\<not> op > cps_api_oper_SET" and "op \<noteq> 0"
    and "rc \<noteq> cps_api_ret_code_COMMUNICATION_ERROR"
  shows "cps_api_db_commit_one N A op a (Some pv) False w = Some (rc, w')"
proof -
  have "db_commit_one N A op a (Some pv) False w = Some (rc, w')"
    using plain_requests(1) [OF assms(1,3,4)] assms(2,5-7)
    by (simp add: db_commit_one_def cps_api_oper_NULL_def cps_api_object_delete_def)
  then show ?thesis using retry_ok [of _ "()" w rc "()" w' N 0] assms(8) by (simp add: cps_api_db_commit_one_def)
qed

lemma db_create_live:
  assumes "ready_for N cs c fd w" and "hp_objs (w_heap w) a = Some p" and "obj_wf (nw_tlv N) p xs" and "plain_attrs xs"
    and "attrs_size (nw_tlv N) xs + 256 < obj_cap" and "keyed (ne_db N) (ds_dict (db_of w)) p key D'"
  obtains w' where "cps_api_db_commit_one N A cps_api_oper_CREATE a (Some pv) False w = Some (cps_api_ret_code_OK, w')"
    and "w_heap w' = w_heap w" and "ready_for N cs c fd w'" and "ds_dict (db_of w') = D'"
    and "stored w' key = Some (obj_wire p)"
proof -
  have r: "pooled (ne_db N) cs c fd DEFAULT_REDIS_ADDR (db_of w)" "std_tlv (nw_tlv N)"
    using assms(1) by (simp_all add: ready_for_def)
  obtain s' where st: "store_at N A a DEFAULT_REDIS_ADDR w = Some (Some True, set_db w s')"
    "pooled (ne_db N) cs c fd DEFAULT_REDIS_ADDR s'" "ds_dict s' = D'" "look (db (ds_net s')) =
      (look (db (ds_net (db_of w))))(key := (look (db (ds_net (db_of w))) key)(object_field \<mapsto> obj_wire p))"
    by (rule store_at_live [OF r(1) assms(2,3,5,6)])
  have "cps_api_db_commit_one N A cps_api_oper_CREATE a (Some pv) False w = Some (cps_api_ret_code_OK, set_db w s')"
    by (rule commit_one_step [OF r(2) assms(2-4)])
      (use st(1) in \<open>simp_all add: commit_one_steps_def cps_opers ret_codes db_ret_codes\<close>)
  then show thesis by (rule that) (use st assms(1) in \<open>simp_all add: ready_for_def\<close>)
qed

text \<open>The contents of the previous object are read before the deletion.\<close>

lemma pre_load_live:
  assumes "ready_for N cs c fd w" and "hp_objs (w_heap w) pv = Some q0" and "length (obj_key q0) = 64"
    and "length (obj_buf q0) = obj_len q0" and "stored w key = Some (obj_wire p)"
    and "obj_wf (nw_tlv N) p xs" and "attrs_size (nw_tlv N) xs + 2 * sizeof_object_data < obj_cap"
  obtains q s' where "pre_load_loop N A key pv [DEFAULT_REDIS_ADDR] rc w =
      Some (cps_api_ret_code_OK, obj_put (set_db w s') pv q)" and "obj_wf (nw_tlv N) q xs" and "obj_key q = obj_key p"
    and "heap_wf (heap_set (w_heap w) pv q)" and "pooled (ne_db N) cs c fd DEFAULT_REDIS_ADDR s'"
    and "ds_dict s' = ds_dict (db_of w)" and "db (ds_net s') = db (ds_net (db_of w))"
proof -
  have r: "pooled (ne_db N) cs c fd DEFAULT_REDIS_ADDR (db_of w)" "heap_wf (w_heap w)" "\<forall>n. alloc_ok (nw_libc N) n"
    "std_tlv (nw_tlv N)" using assms(1) by (simp_all add: ready_for_def)
  have al: "alloc_ok (nw_libc N) (attrs_size (nw_tlv N) xs + 2 * sizeof_object_data)" using r(3) by simp
  note w0 = heap_wf_objects [OF r(2) assms(2)]
  obtain q where q: "cps_api_array_to_object (nw_libc N) (obj_wire p) (length (obj_wire p)) q0 = Some (True, q)"
    "obj_wf (nw_tlv N) q xs" "obj_key q = obj_key p"
    by (rule wire_read [OF r(4) assms(6,7) al _ assms(3,4)]) (use w0 in simp)
  have hw: "heap_wf (heap_set (w_heap w) pv q)"
    by (rule heap_set_wf [OF r(2) assms(2)]) (use array_frame [OF q(1)] w0 in auto)
  let ?b = "\<lambda>conn w. do {
      p \<leftarrow> hp_objs (w_heap w) pv;
      (ok, rc, p, conn, s) \<leftarrow> get_object_by_key (ne_db N) A key p True conn (db_of w);
      Some ((ok, rc), conn, obj_put (set_db w s) pv p)
    }"
  let ?P = "\<lambda>v w2. v = (True, cps_api_ret_code_OK) \<and> w2 = obj_put (set_db w (db_of w2)) pv q \<and>
      ds_dict (db_of w2) = ds_dict (db_of w) \<and> db (ds_net (db_of w2)) = db (ds_net (db_of w))"
  obtain v w2 s' where b: "on_connection N A DEFAULT_REDIS_ADDR (False, cps_api_ret_code_COMMUNICATION_ERROR) ?b w =
      Some (v, set_db w2 s')" "pooled (ne_db N) cs c fd DEFAULT_REDIS_ADDR s'"
    "ds_dict s' = ds_dict (db_of w2)" "db (ds_net s') = db (ds_net (db_of w2))" "?P v w2"
  proof (atomize_elim, rule on_connection_live [OF r(1)])
    fix conn and s1 :: "'a db_state"
    assume i: "idle c fd conn (ds_net s1)" "ds_pool s1 (c_str DEFAULT_REDIS_ADDR) = Some cs" "ds_dict s1 = ds_dict (db_of w)"
      "db (ds_net s1) = db (ds_net (db_of w))"
    obtain conn1 s2 conn' x' where g: "get_object_request (ne_db N) A key True conn s1 = Some (True, conn1, s2)"
      "idle c fd conn' x'" "db x' = db (ds_net s1)"
      "\<forall>q. get_object_response (ne_db N) A q conn1 s2 = answer (ne_db N) (db (ds_net s1)) key conn' (s1\<lparr>ds_net := x'\<rparr>) q"
      by (rule get_response_live [OF i(1), of "ne_db N" key True])
    have "get_object_by_key (ne_db N) A key q0 True conn s1 = Some (True, cps_api_ret_code_OK, q, conn', s1\<lparr>ds_net := x'\<rparr>)"
      using g(1,4) q(1) i(4) assms(5) by (simp add: get_object_by_key_def answer_def)
    then show "\<exists>v conn' w2. ?b conn (set_db w s1) = Some (v, conn', w2) \<and> idle c fd conn' (ds_net (db_of w2)) \<and>
        ds_pool (db_of w2) (c_str DEFAULT_REDIS_ADDR) = Some cs \<and> ?P v w2"
      using assms(2) g i
      by (intro exI [of _ "(True, cps_api_ret_code_OK)"] exI [of _ conn']
          exI [of _ "obj_put (set_db w (s1\<lparr>ds_net := x'\<rparr>)) pv q"]) simp
  qed
  have "set_db w2 s' = obj_put (set_db w s') pv q" using b(5) by (metis db_of_put(2) set_db_set)
  then show thesis by (intro that [of s' q, OF _ q(2,3) hw]) (use b in auto)
qed

lemma delete_object_live:
  assumes "idle c fd conn (ds_net s)" and "keyed K (ds_dict s) p key D'"
  obtains conn' x' where "delete_object K A p conn s = Some (True, cps_api_ret_code_OK, conn', s\<lparr>ds_dict := D', ds_net := x'\<rparr>)"
    and "idle c fd conn' x'" and "look (db x') = (look (db (ds_net s)))(key := (\<lambda>_. None))"
proof -
  let ?s = "s\<lparr>ds_dict := D'\<rparr>"
  have w: "request_walker K [from_string del_literal, from_string key] (ds_dict ?s) = Some ([del_literal, key], ds_dict ?s)"
    using walker_strings [of "[del_literal, key]" K] by (simp add: MAX_EXP_CMD_def)
  obtain b d' where e: "exec [del_literal, key] (db (ds_net ?s)) = (REDIS_REPLY_INTEGER b, d')"
    "look d' = (look (db (ds_net ?s)))(key := (\<lambda>_. None))" using del by blast
  have i: "idle c fd conn (ds_net ?s)" using assms(1) by simp
  obtain conn' x' where "connection_command K A [from_string del_literal, from_string key] SELECT_MS_WAIT conn ?s =
       Some (True, cps_api_ret_code_OK, [REDIS_REPLY_INTEGER b], conn', ?s\<lparr>ds_dict := ds_dict ?s, ds_net := x'\<rparr>)"
    "idle c fd conn' x'" "db x' = d'"
    by (rule command_live [OF i w _ e(1)]) simp
  then show thesis
    by (intro that [of conn' x']) (use assms(2) e(2) in \<open>auto simp: delete_object_def keyed_def delete_key_def Let_def\<close>)
qed

lemma handle_delete_live:
  assumes "pooled (ne_db N) cs c fd DEFAULT_REDIS_ADDR (db_of w)" and "hp_objs (w_heap w) a = Some p"
    and "keyed (ne_db N) (ds_dict (db_of w)) p key D'"
  obtains s' where "one_handle_delete N A a [DEFAULT_REDIS_ADDR] rc w = Some (cps_api_ret_code_OK, set_db w s')"
    and "pooled (ne_db N) cs c fd DEFAULT_REDIS_ADDR s'" and "ds_dict s' = D'"
    and "look (db (ds_net s')) key = (\<lambda>_. None)"
proof -
  let ?b = "\<lambda>conn w. do {
      p \<leftarrow> hp_objs (w_heap w) a;
      (_, rc, conn, s) \<leftarrow> delete_object (ne_db N) A p conn (db_of w);
      Some (if rc \<noteq> cps_api_ret_code_COMMUNICATION_ERROR then cps_api_ret_code_OK else rc, conn, set_db w s)
    }"
  let ?P = "\<lambda>v w2. v = cps_api_ret_code_OK \<and> w2 = set_db w (db_of w2) \<and> ds_dict (db_of w2) = D' \<and>
      look (db (ds_net (db_of w2))) key = (\<lambda>_. None)"
  obtain v w2 s' where b: "on_connection N A DEFAULT_REDIS_ADDR cps_api_ret_code_COMMUNICATION_ERROR ?b w =
      Some (v, set_db w2 s')" "pooled (ne_db N) cs c fd DEFAULT_REDIS_ADDR s'"
    "ds_dict s' = ds_dict (db_of w2)" "db (ds_net s') = db (ds_net (db_of w2))" "?P v w2"
  proof (atomize_elim, rule on_connection_live [OF assms(1)])
    fix conn and s1 :: "'a db_state"
    assume i: "idle c fd conn (ds_net s1)" "ds_pool s1 (c_str DEFAULT_REDIS_ADDR) = Some cs" "ds_dict s1 = ds_dict (db_of w)"
      "db (ds_net s1) = db (ds_net (db_of w))"
    have k: "keyed (ne_db N) (ds_dict s1) p key D'" using assms(3) i(3) by simp
    obtain conn' x' where "delete_object (ne_db N) A p conn s1 =
        Some (True, cps_api_ret_code_OK, conn', s1\<lparr>ds_dict := D', ds_net := x'\<rparr>)" "idle c fd conn' x'"
      "look (db x') = (look (db (ds_net s1)))(key := (\<lambda>_. None))" by (rule delete_object_live [OF i(1) k])
    then show "\<exists>v conn' w2. ?b conn (set_db w s1) = Some (v, conn', w2) \<and> idle c fd conn' (ds_net (db_of w2)) \<and>
        ds_pool (db_of w2) (c_str DEFAULT_REDIS_ADDR) = Some cs \<and> ?P v w2"
      using assms(2) i
      by (intro exI [of _ "cps_api_ret_code_OK"] exI [of _ conn']
          exI [of _ "set_db w (s1\<lparr>ds_dict := D', ds_net := x'\<rparr>)"]) (simp add: ret_codes db_ret_codes)
  qed
  have "set_db w2 s' = set_db w s'" using b(5) by (metis set_db_set)
  then show thesis by (intro that [of s']) (use b in auto)
qed

lemma db_delete_live:
  assumes "ready_for N cs c fd w" and "hp_objs (w_heap w) a = Some p" and "obj_wf (nw_tlv N) p xs" and "plain_attrs xs"
    and "attrs_size (nw_tlv N) xs + 2 * sizeof_object_data < obj_cap" and "keyed (ne_db N) (ds_dict (db_of w)) p key (ds_dict (db_of w))"
    and "stored w key = Some (obj_wire p)" and "pv \<noteq> a" and "hp_objs (w_heap w) pv = Some q0"
    and "length (obj_key q0) = 64" and "length (obj_buf q0) = obj_len q0"
  obtains w' q where "cps_api_db_commit_one N A cps_api_oper_DELETE a (Some pv) False w = Some (cps_api_ret_code_OK, w')"
    and "hp_objs (w_heap w') = (hp_objs (w_heap w))(pv \<mapsto> q)" and "obj_wf (nw_tlv N) q xs" and "obj_key q = obj_key p"
    and "ready_for N cs c fd w'" and "ds_dict (db_of w') = ds_dict (db_of w)" and "stored w' key = None"
proof -
  have r: "std_tlv (nw_tlv N)" "\<forall>n. alloc_ok (nw_libc N) n" using assms(1) by (simp_all add: ready_for_def)
  obtain q s1 where l: "pre_load_loop N A key pv [DEFAULT_REDIS_ADDR] cps_api_ret_code_ERR w =
      Some (cps_api_ret_code_OK, obj_put (set_db w s1) pv q)" "obj_wf (nw_tlv N) q xs" "obj_key q = obj_key p"
    "heap_wf (heap_set (w_heap w) pv q)" "pooled (ne_db N) cs c fd DEFAULT_REDIS_ADDR s1"
    "ds_dict s1 = ds_dict (db_of w)" "db (ds_net s1) = db (ds_net (db_of w))"
    by (rule pre_load_live [OF assms(1,9-11,7,3,5)])
  let ?w = "obj_put (set_db w s1) pv q"
  have h: "pooled (ne_db N) cs c fd DEFAULT_REDIS_ADDR (db_of ?w)" "hp_objs (w_heap ?w) a = Some p"
    "keyed (ne_db N) (ds_dict (db_of ?w)) p key (ds_dict (db_of w))"
    using l assms(2,6,8) by (simp_all add: obj_put_def heap_set_def)
  obtain s' where d: "one_handle_delete N A a [DEFAULT_REDIS_ADDR] cps_api_ret_code_OK ?w = Some (cps_api_ret_code_OK, set_db ?w s')"
    "pooled (ne_db N) cs c fd DEFAULT_REDIS_ADDR s'" "ds_dict s' = ds_dict (db_of w)" "look (db (ds_net s')) key = (\<lambda>_. None)"
    by (rule handle_delete_live [OF h])
  have pre: "one_pre_load_into_prev_delete N A [DEFAULT_REDIS_ADDR] a pv w = Some (cps_api_ret_code_OK, ?w)"
    using l(1) assms(2,6) by (simp add: one_pre_load_into_prev_delete_def one_pre_load_into_prev_def keyed_def Let_def del: pre_load_loop.simps)
  have "commit_one_steps N A cps_api_oper_DELETE a pv [DEFAULT_REDIS_ADDR] w = Some (cps_api_ret_code_OK, set_db ?w s')"
    using pre d(1) by (simp add: commit_one_steps_def del: one_handle_delete.simps db_of_put)
  then have "cps_api_db_commit_one N A cps_api_oper_DELETE a (Some pv) False w = Some (cps_api_ret_code_OK, set_db ?w s')"
    by (rule commit_one_step [OF r(1) assms(2-4)]) (simp_all add: cps_opers ret_codes db_ret_codes)
  then show thesis
    by (rule that [of _ q]) (use l d r in \<open>simp_all add: ready_for_def obj_put_def heap_set_def\<close>)
qed

end

section \<open>What is committed is read back\<close>


interpretation sim_pool: redis_pool sim_redis "\<lambda>c fd x. fd = int c" "\<lambda>c x. rs_queue x c" "\<lambda>c x. rs_ready x c"
  rs_store hash_exec "\<lambda>_ _. 0" "\<lambda>_ _. 0" id
  by unfold_locales (auto simp: sim_redis_def)

definition demo_node_env :: node_env where
  "demo_node_env = \<lparr>ne_db = demo_db, ne_ev = demo_ev_flags, ne_parse = (\<lambda>s r. [s]), ne_strhash = (\<lambda>_. 0)\<rparr>"

definition demo_nodes :: cps_api_nodes where
  "demo_nodes = \<lparr>no_ip_to_name = [], no_master_set = {}, no_groups = [], no_hash = 0, no_alias = [], no_db_node = [],
     no_master = (\<lambda>_. None)\<rparr>"

definition demo_node_world :: "redis_sim node_world" where
  "demo_node_world = \<lparr>w_heap = demo_heap\<lparr>hp_objs := [1 \<mapsto> demo_instance [(7, [1])], 2 \<mapsto> demo_obj], hp_brk := 3,
       hp_trackers := [(1, \<lparr>trk_desc = [], trk_ln = 0, trk_file = []\<rparr>), (2, \<lparr>trk_desc = [], trk_ln = 0, trk_file = []\<rparr>)],
       hp_allocated_objs := 2\<rparr>,
     w_ext = \<lparr>nw_db = demo_db_state\<lparr>ds_pool := [DEFAULT_REDIS_ADDR \<mapsto> [demo_conn]]\<rparr>, nw_events = [], nw_published = 0,
       nw_pushed = 0, nw_ev_pool = (\<lambda>_. None), nw_nodes = demo_nodes, nw_last_loaded = 0\<rparr>\<rparr>"

lemma demo_ready: "sim_pool.ready_for demo_node_env [] 1 1 demo_node_world"
  using demo_idle tlv16.std_tlv_axioms
  by (auto simp: sim_pool.ready_for_def sim_pool.pooled_def heap_wf_def demo_node_env_def demo_db_def demo_node_world_def
      demo_heap_def demo_obj_def demo_instance_def tlv16_obj_def db_of_def default_flags_def flag_size_def libc_ok_def
      demo_db_state_def)

lemma demo_keyed:
  obtains D' where "keyed demo_db demo_dict (demo_instance [(7, [1])]) (instance_bytes demo_key [[1]]) D'"
    and "keyed demo_db D' (demo_instance [(7, [1])]) (instance_bytes demo_key [[1]]) D'"
proof -
  obtain n where n: "dict_path id demo_dict [5, 7] = Some n" "nd_key_ids n = None"
    "filter (leaf_id demo_dict) (nd_ids n) = [7]" using demo_dict_facts(2) by blast
  have k: "1 < length (key_elems demo_key)" "dict_path id demo_dict (drop 1 (key_elems demo_key)) = Some n"
    using demo_key_facts n(1) by simp_all
  obtain D' where D': "cps_api_key_attrs id demo_dict demo_key 1 = Some ([7], D')"
    "cps_api_key_attrs id D' demo_key 1 = Some ([7], D')"
    using key_attrs_twice [OF demo_dict_facts(1) demo_key_facts(1) k n(2)] n(3) by (auto simp: key_layout)
  let ?p = "demo_instance [(7, [1])]"
  have wf: "obj_wf tlv16 ?p [(7, [1])]" by (rule demo_instance_wf(1)) (simp_all add: size_lim_def obj_cap_def)
  have kp: "obj_key ?p = demo_key" by (simp add: demo_instance_def)
  have w: "cps_api_filter_has_wildcard_attrs tlv16 ?p = Some False"
    using tlv16.has_wildcard_absent [OF wf] by (simp add: CPS_OBJECT_GROUP_WILDCARD_SEARCH_def)
  have v: "key_vals tlv16 ?p [7] = [[1]]"
    using tlv16.key_vals_plain [OF wf, of "[7]"] by (simp add: CPS_API_OBJ_KEY_ATTRS_def map_filter_simps)
  have "keyed demo_db D ?p (instance_bytes demo_key [[1]]) D'" if "cps_api_key_attrs id D demo_key 1 = Some ([7], D')" for D
    using append_attrs_bytes [of libc_ok ?p tlv16 False id D "[7]" D' False] w kp that demo_key_facts v
    by (simp add: keyed_def demo_db_def dbkey_from_instance_key_def dbkey_instance_or_wildcard_def)
  then show thesis using that D' by blast
qed


end
