(* ===== verification/Cps_Db_Set_Proofs.thy ===== *)
theory Cps_Db_Set_Proofs
  imports Cps_Db_Direct_Proofs
begin

text \<open>
  The update of a stored object through the database interface: the attributes of the request replace those
  stored and the others stay; and the bound on retries.
\<close>

section \<open>What merging leaves alone\<close>

definition framed :: "cps_obj \<Rightarrow> cps_obj \<Rightarrow> bool" where
  "framed d d' \<longleftrightarrow> obj_ref_count d' = obj_ref_count d \<and> obj_token d' = obj_token d \<and> obj_allocated d' = obj_allocated d"

lemma framed_refl [simp]: "framed d d"
  by (simp add: framed_def)

lemma framed_trans: "framed a b \<Longrightarrow> framed b c \<Longrightarrow> framed a c"
  by (simp add: framed_def)

lemma delete_one_frame: "object_attr_delete_one T p i = Some (b, p') \<Longrightarrow> framed p p'"
  by (auto simp: object_attr_delete_one_def framed_def Let_def split: bind_splits option.splits)

lemma delete_rest_frame:
  assumes "attr_delete_rest T p i = Some p'"
  shows "framed p p'"
  by (rule attr_delete_rest.raw_induct [OF _ assms, of "\<lambda>_ p _ p'. framed p p'"])
    (auto split: bind_splits if_splits dest!: delete_one_frame intro: framed_trans)

lemma attr_delete_frame: "cps_api_object_attr_delete T p i = Some (b, p') \<Longrightarrow> framed p p'"
  by (auto simp: cps_api_object_attr_delete_def split: bind_splits if_splits
      dest!: delete_one_frame delete_rest_frame intro: framed_trans)

lemma until_gone_frame:
  assumes "delete_until_gone T p i = Some p'"
  shows "framed p p'"
  by (rule delete_until_gone.raw_induct [OF _ assms, of "\<lambda>_ p _ p'. framed p p'"])
    (auto split: bind_splits if_splits dest!: attr_delete_frame intro: framed_trans)

lemma repeated_loop_frame:
  assumes "delete_repeated_loop T m it d ids = Some r"
  shows "framed d (fst r)"
  by (rule delete_repeated_loop.raw_induct [OF _ assms, of "\<lambda>_ _ _ d _ r. framed d (fst r)"])
    (auto simp: Let_def split: bind_splits if_splits option.splits dest!: until_gone_frame intro: framed_trans)

lemma realloc_frame: "obj_realloc E d n = Some d' \<Longrightarrow> framed d d'"
  by (auto simp: obj_realloc_def framed_def split: if_splits)

lemma merge_frame:
  assumes "cps_api_object_attr_merge T E d s dup = Some (ok, d')"
  shows "framed d d'"
proof -
  have m: "framed e (e\<lparr>obj_buf := m, obj_remain := n\<rparr>)" for e m n by (simp add: framed_def)
  obtain og b src where c: "object_create_storage E = Some og" "cps_api_object_clone E og s = Some (b, src)"
    using assms by (auto simp: cps_api_object_attr_merge_def split: bind_splits)
  define X where "X = (if dup \<and> obj_used_len d > 0 then delete_repeated_attributes T d src else Some (d, src))"
  show ?thesis
  proof (cases "obj_used_len src = 0")
    case True
    then show ?thesis using assms c by (auto simp: cps_api_object_attr_merge_def)
  next
    case False
    obtain e t where e: "X = Some (e, t)" using assms c False
      by (auto simp: cps_api_object_attr_merge_def Let_def X_def [symmetric] split: bind_splits)
    have f: "framed d e" using e unfolding X_def
      by (auto simp: delete_repeated_attributes_def split: if_splits bind_splits dest!: repeated_loop_frame)
    have "\<exists>e'. framed e e' \<and> framed e' d'"
      using assms c False e m
      by (auto simp: cps_api_object_attr_merge_def Let_def X_def [symmetric] split: bind_splits if_splits option.splits
          dest: realloc_frame intro: framed_refl)
    then show ?thesis using f framed_trans by blast
  qed
qed

section \<open>Updating a stored object\<close>

lemma new_object:
  assumes "std_tlv T" and "heap_wf h" and "\<forall>n. alloc_ok E n"
  obtains og h1 p where "cps_api_object_create E h = Some (og, h1)" and "hp_objs h og = None"
    and "hp_objs h1 = (hp_objs h)(og \<mapsto> p)" and "heap_wf h1" and "obj_wf T p []" and "obj_allocated p"
    and "obj_ref_count p = 1" and "obj_token p = KEY_TOKEN"
proof -
  obtain p where p: "object_create_storage E = Some p" "obj_wf T p []" "obj_allocated p"
    "obj_ref_count p = 1" "obj_token p = KEY_TOKEN"
    using std_tlv.create_storage_ok [OF assms(1)] assms(3) by blast
  obtain h1 where "cps_api_object_create E h = Some (hp_brk h, h1)" "heap_wf h1"
    "hp_objs h1 = (hp_objs h)(hp_brk h := Some p)"
    using create_cases [OF assms(2) p(1,4,5,3)] unfolding cps_api_object_create_def by blast
  moreover have "hp_objs h (hp_brk h) = None"
    using assms(2) by (cases "hp_objs h (hp_brk h)") (auto simp: heap_wf_def)
  ultimately show thesis using p by (intro that [of "hp_brk h" h1 p]) auto
qed

text \<open>What an update leaves: the attributes of the request, and those stored that the request does not name.\<close>

definition set_attrs :: "attr list \<Rightarrow> attr list \<Rightarrow> attr list" where
  "set_attrs ys xs = (if xs = [] then ys
     else if ys = [] then xs
     else filter (\<lambda>y. fst y \<notin> fst ` set xs) ys @ filter (\<lambda>x. (fst x, []) \<notin> set xs) xs)"

lemma set_attrs_merged: "set_attrs ys xs = (if xs = [] then ys else merged_attrs True ys xs)"
proof -
  have "fst x \<in> set (zero_ids xs) \<longleftrightarrow> (fst x, []) \<in> set xs" for x :: attr
    by (cases x) (auto simp: zero_ids_def image_iff)
  then show ?thesis by (simp add: set_attrs_def merged_attrs_def)
qed

lemma set_attrs_size: "attrs_size T (set_attrs ys xs) \<le> attrs_size T ys + attrs_size T xs"
  using attrs_size_filter [of T _ ys] attrs_size_filter [of T _ xs] by (simp add: set_attrs_def add_mono)

lemma set_attrs_lookup:
  assumes "map_of xs i = Some v" and "(i, []) \<notin> set xs"
  shows "map_of (set_attrs ys xs) i = Some v"
proof -
  have f: "map_of (filter (\<lambda>x. (fst x, []) \<notin> set us) vs) i = map_of vs i" if "(i, []) \<notin> set us" for us vs :: "attr list"
    using that by (induction vs) auto
  have "map_of (filter (\<lambda>y. fst y \<notin> fst ` set xs) ys) i = None"
    using map_of_SomeD [OF assms(1)] by (force simp: map_of_eq_None_iff)
  then show ?thesis using assms f [OF assms(2), of xs] by (auto simp: set_attrs_def map_add_def)
qed

lemma set_attrs_names: "fst ` set (set_attrs ys xs) \<subseteq> fst ` set ys \<union> fst ` set xs"
  by (auto simp: set_attrs_def)

lemma keyed_plain:
  assumes "std_tlv (de_tlv K)" and "\<forall>n. alloc_ok (de_libc K) n" and "obj_wf (de_tlv K) m zs"
    and "CPS_API_OBJ_KEY_ATTRS \<notin> fst ` set zs" and "CPS_OBJECT_GROUP_WILDCARD_SEARCH \<notin> fst ` set zs"
    and "key_ok (obj_key m)" and "cps_api_key_attrs (de_hash K) D (obj_key m) 1 = Some (is, D')"
    and "length is \<le> length (key_elems (obj_key m))" and "\<forall>i \<in> set is. map_of zs i = Some (val i) \<and> val i \<noteq> [42]"
  shows "keyed K D m (instance_bytes (obj_key m) (map val is)) D'"
proof -
  have w: "cps_api_filter_has_wildcard_attrs (de_tlv K) m = Some False"
    by (rule std_tlv.has_wildcard_absent [OF assms(1,3,5)])
  have "List.map_filter (map_of zs) js = map val js" if "set js \<subseteq> set is" for js
    using that assms(9) by (induction js) (auto simp: map_filter_simps)
  then have v: "key_vals (de_tlv K) m is = map val is" using std_tlv.key_vals_plain [OF assms(1,3,4)] by simp
  note a = append_attrs_bytes [OF assms(2,6) w assms(7,8)]
  have n: "\<not> ([42] \<in> set (key_vals (de_tlv K) m is) \<or> length (key_vals (de_tlv K) m is) \<noteq> length is)"
    using v assms(9) by auto
  show ?thesis using a(1) [of False] a(2) [of False] n v
    by (simp add: keyed_def dbkey_from_instance_key_def dbkey_instance_or_wildcard_def)
qed

context redis_pool
begin

lemma handle_set_live:
  assumes "ready_for N cs c fd w" and "hp_objs (w_heap w) a = Some p" and "obj_wf (nw_tlv N) p xs"
    and "hp_objs (w_heap w) pv = Some q" and "obj_wf (nw_tlv N) q ys"
    and "attrs_size (nw_tlv N) ys + attrs_size (nw_tlv N) xs + 256 < obj_cap"
    and "\<And>m. obj_wf (nw_tlv N) m (set_attrs ys xs) \<Longrightarrow> obj_key m = obj_key q \<Longrightarrow> keyed (ne_db N) (ds_dict (db_of w)) m key D'"
  obtains w' m where "one_handle_set N A a pv [DEFAULT_REDIS_ADDR] w = Some (cps_api_ret_code_OK, w')"
    and "hp_objs (w_heap w') = hp_objs (w_heap w)" and "ready_for N cs c fd w'" and "ds_dict (db_of w') = D'"
    and "stored w' key = Some (obj_wire m)" and "obj_wf (nw_tlv N) m (set_attrs ys xs)" and "obj_key m = obj_key q"
proof -
  let ?T = "nw_tlv N" and ?E = "nw_libc N"
  have r: "pooled (ne_db N) cs c fd DEFAULT_REDIS_ADDR (db_of w)" "heap_wf (w_heap w)" "\<forall>n. alloc_ok ?E n" "std_tlv ?T"
    using assms(1) by (simp_all add: ready_for_def)
  obtain og h1 nw where n: "cps_api_object_create ?E (w_heap w) = Some (og, h1)" "hp_objs (w_heap w) og = None"
    "hp_objs h1 = (hp_objs (w_heap w))(og \<mapsto> nw)" "heap_wf h1" "obj_wf ?T nw []" "obj_allocated nw"
    "obj_ref_count nw = 1" "obj_token nw = KEY_TOKEN" by (rule new_object [OF r(4,2,3)])
  have ne: "og \<noteq> a" "og \<noteq> pv" using n(2) assms(2,4) by auto
  obtain k where k: "cps_api_object_clone ?E nw q = Some (True, k)" "obj_wf ?T k ys" "obj_key k = obj_key q"
    using std_tlv.clone_ok [OF r(4) n(5) assms(5), of ?E] n(6) r(3) by auto
  note kf = clone_frame [OF k(1)]
  have sz: "attrs_size ?T ys + attrs_size ?T xs < obj_cap" using assms(6) by simp
  obtain m where m: "cps_api_object_attr_merge ?T ?E k p True = Some (True, m)" "obj_wf ?T m (set_attrs ys xs)"
    "obj_key m = obj_key q"
    using std_tlv.merge_ok [OF r(4) k(2) assms(3), of ?E True] sz r(3) kf n(6) k(3)
    by (auto simp: set_attrs_merged)
  have mf: "framed nw m" using merge_frame [OF m(1)] kf by (simp add: framed_def)
  let ?w1 = "w\<lparr>w_heap := heap_set h1 og m\<rparr>"
  have cap: "attrs_size ?T (set_attrs ys xs) + 256 < obj_cap" using set_attrs_size [of ?T ys xs] assms(6) by simp
  have h1: "pooled (ne_db N) cs c fd DEFAULT_REDIS_ADDR (db_of ?w1)" "hp_objs (w_heap ?w1) og = Some m"
    "keyed (ne_db N) (ds_dict (db_of ?w1)) m key D'"
    using r(1) assms(7) [OF m(2,3)] by (simp_all add: heap_set_def)
  obtain s' where st: "store_at N A og DEFAULT_REDIS_ADDR ?w1 = Some (Some True, set_db ?w1 s')"
    "pooled (ne_db N) cs c fd DEFAULT_REDIS_ADDR s'" "ds_dict s' = D'" "look (db (ds_net s')) =
      (look (db (ds_net (db_of ?w1))))(key := (look (db (ds_net (db_of ?w1))) key)(object_field \<mapsto> obj_wire m))"
    by (rule store_at_live [OF h1(1,2) m(2) cap h1(3)])
  obtain h2 where h2: "cps_api_object_delete (heap_set h1 og m) (Some og) = Some h2" "heap_wf h2" "hp_objs h2 = hp_objs (w_heap w)"
    using delete_new [OF n(4,2,3), of m] mf n(6-8) by (auto simp: framed_def)
  have hs: "heap_set (heap_set h1 og k) og m = heap_set h1 og m" by (simp add: heap_set_def)
  have cl: "cps_api_object_create_clone ?E (w_heap w) pv = Some (Some og, heap_set h1 og k)"
    using n(1,3) k(1) assms(4) ne by (simp add: cps_api_object_create_clone_def heap_clone_def)
  have "one_handle_set N A a pv [DEFAULT_REDIS_ADDR] w = Some (cps_api_ret_code_OK, (set_db w s')\<lparr>w_heap := h2\<rparr>)"
    using cl n(3) assms(2) ne m(1) st(1) h2(1) hs
    by (simp add: one_handle_set_def on_object_def obj_put_def guard_end_def Let_def heap_set_def)
  then show thesis
    by (rule that [of _ m]) (use st h2 r m in \<open>simp_all add: ready_for_def\<close>)
qed

lemma db_set_live:
  assumes "ready_for N cs c fd w" and "hp_objs (w_heap w) a = Some p" and "obj_wf (nw_tlv N) p xs" and "plain_attrs xs"
    and "keyed (ne_db N) (ds_dict (db_of w)) p key D'" and "stored w key = Some (obj_wire old)"
    and "obj_wf (nw_tlv N) old ys" and "attrs_size (nw_tlv N) ys + attrs_size (nw_tlv N) xs + 2 * sizeof_object_data < obj_cap"
    and "pv \<noteq> a" and "hp_objs (w_heap w) pv = Some q0" and "length (obj_key q0) = 64" and "length (obj_buf q0) = obj_len q0"
    and "cps_api_key_matches (obj_key p) (obj_key old) True = Some 0"
    and "\<And>m. obj_wf (nw_tlv N) m (set_attrs ys xs) \<Longrightarrow> obj_key m = obj_key old \<Longrightarrow> keyed (ne_db N) D' m key D'"
  obtains w' q m where "cps_api_db_commit_one N A cps_api_oper_SET a (Some pv) False w = Some (cps_api_ret_code_OK, w')"
    and "hp_objs (w_heap w') = (hp_objs (w_heap w))(pv \<mapsto> q)" and "obj_wf (nw_tlv N) q ys" and "obj_key q = obj_key old"
    and "ready_for N cs c fd w'" and "ds_dict (db_of w') = D'"
    and "stored w' key = Some (obj_wire m)" and "obj_wf (nw_tlv N) m (set_attrs ys xs)" and "obj_key m = obj_key old"
proof -
  have r: "std_tlv (nw_tlv N)" "\<forall>n. alloc_ok (nw_libc N) n" using assms(1) by (simp_all add: ready_for_def)
  let ?w0 = "set_db w ((db_of w)\<lparr>ds_dict := D'\<rparr>)"
  have r0: "ready_for N cs c fd ?w0" "hp_objs (w_heap ?w0) pv = Some q0" "stored ?w0 key = Some (obj_wire old)"
    using assms(1,6,10) by (simp_all add: ready_for_def pooled_def)
  have szo: "attrs_size (nw_tlv N) ys + 2 * sizeof_object_data < obj_cap"
    "attrs_size (nw_tlv N) ys + attrs_size (nw_tlv N) xs + 256 < obj_cap"
    using assms(8) by (simp_all add: sizeof_object_data_def CPS_OBJ_KEY_BYTE_MAX_LEN_def)
  obtain q s1 where l: "pre_load_loop N A key pv [DEFAULT_REDIS_ADDR] cps_api_ret_code_ERR ?w0 =
      Some (cps_api_ret_code_OK, obj_put (set_db ?w0 s1) pv q)" "obj_wf (nw_tlv N) q ys" "obj_key q = obj_key old"
    "heap_wf (heap_set (w_heap ?w0) pv q)" "pooled (ne_db N) cs c fd DEFAULT_REDIS_ADDR s1"
    "ds_dict s1 = ds_dict (db_of ?w0)" "db (ds_net s1) = db (ds_net (db_of ?w0))"
    by (rule pre_load_live [OF r0(1,2) assms(11,12) r0(3) assms(7) szo(1)])
  let ?w = "obj_put (set_db w s1) pv q"
  have h: "ready_for N cs c fd ?w" "hp_objs (w_heap ?w) a = Some p" "hp_objs (w_heap ?w) pv = Some q" "ds_dict (db_of ?w) = D'"
    using l assms(1,2,9) by (simp_all add: ready_for_def obj_put_def heap_set_def)
  have pre: "one_pre_load_into_prev_for_set N A [DEFAULT_REDIS_ADDR] a pv w = Some (cps_api_ret_code_OK, ?w)"
    using l(1,3) assms(2,5,13) h(2,3)
    by (simp add: one_pre_load_into_prev_for_set_def one_pre_load_into_prev_def keyed_def Let_def del: pre_load_loop.simps)
  have km: "keyed (ne_db N) (ds_dict (db_of ?w)) m key D'" if "obj_wf (nw_tlv N) m (set_attrs ys xs)" "obj_key m = obj_key q" for m
    unfolding h(4) using assms(14) [OF that(1)] that(2) l(3) by simp
  obtain w' m where s: "one_handle_set N A a pv [DEFAULT_REDIS_ADDR] ?w = Some (cps_api_ret_code_OK, w')"
    "hp_objs (w_heap w') = hp_objs (w_heap ?w)" "ready_for N cs c fd w'" "ds_dict (db_of w') = D'"
    "stored w' key = Some (obj_wire m)" "obj_wf (nw_tlv N) m (set_attrs ys xs)" "obj_key m = obj_key q"
    by (rule handle_set_live [OF h(1,2) assms(3) h(3) l(2) szo(2) km])
  have "commit_one_steps N A cps_api_oper_SET a pv [DEFAULT_REDIS_ADDR] w = Some (cps_api_ret_code_OK, w')"
    using pre s(1) by (simp add: commit_one_steps_def cps_opers)
  then have "cps_api_db_commit_one N A cps_api_oper_SET a (Some pv) False w = Some (cps_api_ret_code_OK, w')"
    by (rule commit_one_step [OF r(1) assms(2-4)]) (simp_all add: cps_opers ret_codes db_ret_codes)
  then show thesis
    by (rule that [of _ q m]) (use l s in \<open>simp_all add: obj_put_def heap_set_def\<close>)
qed

end


definition demo_old :: cps_obj where "demo_old = demo_instance [(7, [1]), (5, [9])]"
definition demo_new :: cps_obj where "demo_new = demo_instance [(7, [1]), (8, [2])]"

definition demo_set_world :: "redis_sim node_world" where
  "demo_set_world = (set_db demo_node_world ((db_of demo_node_world)\<lparr>ds_net := sim_start\<lparr>rs_store :=
       (\<lambda>_ _. None)(instance_bytes demo_key [[1]] := [object_field \<mapsto> obj_wire demo_old])\<rparr>\<rparr>))\<lparr>w_heap :=
     heap_set (w_heap demo_node_world) 1 demo_new\<rparr>"

lemma demo_set_facts:
  "obj_wf tlv16 demo_old [(7, [1]), (5, [9])]" "obj_wf tlv16 demo_new [(7, [1]), (8, [2])]"
  "obj_key demo_old = demo_key" "obj_key demo_new = demo_key"
  unfolding demo_old_def demo_new_def by (rule demo_instance_wf; simp add: size_lim_def obj_cap_def)+

lemma demo_set_ready: "sim_pool.ready_for demo_node_env [] 1 1 demo_set_world"
proof -
  have "heap_wf (heap_set (w_heap demo_node_world) 1 demo_new)"
    by (rule heap_set_wf [of _ 1 "demo_instance [(7, [1])]"])
      (use demo_ready in \<open>auto simp: sim_pool.ready_for_def demo_node_world_def demo_new_def demo_instance_def tlv16_obj_def\<close>)
  then show ?thesis using demo_ready
    by (auto simp: sim_pool.ready_for_def sim_pool.pooled_def sim_hash.idle_def sim.linked_def demo_set_world_def
        db_of_def set_db_def demo_node_world_def demo_db_state_def sim_start_def demo_conn_def)
qed


section \<open>Retries\<close>

text \<open>A number of attempts that fail with a communication error, each followed by a sleep, and a last one.\<close>

fun attempts ::
  "('c \<Rightarrow> 'w \<Rightarrow> (cps_api_return_code_t \<times> 'c \<times> 'w) option) \<Rightarrow> ('w \<Rightarrow> 'w) \<Rightarrow> nat \<Rightarrow> 'c \<Rightarrow> 'w \<Rightarrow>
     (cps_api_return_code_t \<times> 'c \<times> 'w) option" where
  "attempts f sleep 0 c w = f c w"
| "attempts f sleep (Suc n) c w = do {
     (rc, c, w) \<leftarrow> f c w;
     if rc = cps_api_ret_code_COMMUNICATION_ERROR then attempts f sleep n c (sleep w) else None
   }"

lemma retry_attempts:
  assumes "\<forall>c w. attempt c w \<noteq> None" and "n \<le> fl_communication_error_retry (de_flags (ne_db N))"
  shows "\<exists>k rc c' w'. retry_request N A attempt n c w = Some (rc, c', w') \<and>
     attempts attempt (retry_sleep N A) k c w = Some (rc, c', w') \<and>
     n + k \<le> fl_communication_error_retry (de_flags (ne_db N)) \<and>
     \<not> handle_retry_request (de_flags (ne_db N)) rc (n + k) \<and>
     (0 < k \<longrightarrow> fl_ignore_communication_errors (de_flags (ne_db N)) \<noteq> 0)"
  using assms
proof (induction N A attempt n c w rule: retry_request.induct)
  case (1 N A attempt n c w)
  obtain rc c1 w1 where a: "attempt c w = Some (rc, c1, w1)" using 1(2) by (metis not_None_eq prod_cases3)
  show ?case
  proof (cases "handle_retry_request (de_flags (ne_db N)) rc n")
    case True
    then have l: "n + 1 \<le> fl_communication_error_retry (de_flags (ne_db N))" "rc = cps_api_ret_code_COMMUNICATION_ERROR"
      "fl_ignore_communication_errors (de_flags (ne_db N)) \<noteq> 0" by (auto simp: handle_retry_request_def)
    obtain k rc' c' w' where k: "retry_request N A attempt (n + 1) c1 (retry_sleep N A w1) = Some (rc', c', w')"
      "attempts attempt (retry_sleep N A) k c1 (retry_sleep N A w1) = Some (rc', c', w')"
      "n + 1 + k \<le> fl_communication_error_retry (de_flags (ne_db N))"
      "\<not> handle_retry_request (de_flags (ne_db N)) rc' (n + 1 + k)"
      using 1(1) [OF a refl refl True 1(2) l(1)] by blast
    show ?thesis
      by (rule exI [of _ "Suc k"]) (use a True k l in \<open>auto simp: retry_request.simps [of N A attempt n]\<close>)
  next
    case False
    then show ?thesis using a 1(3)
      by (intro exI [of _ 0] exI [of _ rc] exI [of _ c1] exI [of _ w1]) (simp add: retry_request.simps [of N A attempt n])
  qed
qed



end
