(* ===== verification/Cps_Db_Event_Adapter_Proofs.thy ===== *)
theory Cps_Db_Event_Adapter_Proofs
  imports Cps_Db_Event_Adapter Cps_Db_Set_Proofs
begin

text \<open>
  Properties of the handles of the event client. The locale \<open>handle_invariant\<close> is what a predicate on handles has to
  be closed under; inside it every operation of a handle is shown to keep the predicate. It is interpreted for the
  well-formedness of handles and for the filters, which a wait does not change.
\<close>

section \<open>Invariants of handles\<close>

lemma iterate_nodes_keeps:
  assumes "iterate_nodes visit ns c w = Some (c', w')" and "P c"
    and "\<forall>n c w go c' w'. P c \<longrightarrow> visit n c w = Some (go, c', w') \<longrightarrow> P c'"
  shows "P c'"
  using assms(1,2)
proof (induction ns arbitrary: c w)
  case (Cons n ns)
  from Cons.prems(1) obtain go c1 w1 where v: "visit n c w = Some (go, c1, w1)"
    and r: "if go then iterate_nodes visit ns c1 w1 = Some (c', w') else c' = c1"
    by (auto split: bind_splits if_splits)
  have "P c1" using assms(3) Cons.prems(2) v by blast
  then show ?case using r Cons.IH by (cases go) simp_all
qed simp

lemma node_set_iterate_keeps:
  assumes "cps_api_node_set_iterate N A grp visit c w = Some (ok, c', w')" and "P c"
    and "\<forall>n c w go c' w'. P c \<longrightarrow> visit n c w = Some (go, c', w') \<longrightarrow> P c'"
  shows "P c'"
proof -
  from assms(1) consider "c' = c" | ns w1 w2 where "iterate_nodes visit ns c w1 = Some (c', w2)"
    by (auto simp: cps_api_node_set_iterate_def split: bind_splits if_splits)
  then show ?thesis using assms(2) iterate_nodes_keeps [where P = P, OF _ assms(2,3)] by cases blast+
qed

locale handle_invariant =
  fixes P :: "db_event_handle \<Rightarrow> bool"
  assumes pending: "P h \<Longrightarrow> P (h\<lparr>eh_pending := l\<rparr>)"
    and connection: "P h \<Longrightarrow> umap_find (eh_connections h) node \<noteq> None \<Longrightarrow> P (set_connection node conn h)"
    and connected: "P h \<Longrightarrow> P (set_connection node conn (update_mon node f h))"
    and details: "P h \<Longrightarrow> P (update_mon node f h)"
    and erased: "P h \<Longrightarrow> P (erase_node node h)"
    and descriptors: "P h \<Longrightarrow> \<forall>fd \<in> set fds. 0 \<le> fd \<and> fd < FD_SETSIZE \<Longrightarrow>
      P (h\<lparr>eh_max_fd := fold max fds (-1), eh_fd_set := fds\<rparr>)"
    and checked: "P h \<Longrightarrow> P (h\<lparr>eh_last_checked := t\<rparr>)"
    and unused: "P h \<Longrightarrow> P (reset_last_used h)"
    and numbered: "P h \<Longrightarrow> P (h\<lparr>eh_sequence := m\<rparr>)"
begin

lemmas updates_keep = pending connection connected details erased descriptors checked unused numbered

lemma state_event_keeps: "add_connection_state_event N node grp st h w = Some (h', w') \<Longrightarrow> P h \<Longrightarrow> P h'"
  by (auto simp: add_connection_state_event_def Let_def intro!: updates_keep split: bind_splits option.splits)

lemma connection_set_keeps: "update_connection_set A x h = Some h' \<Longrightarrow> P h \<Longrightarrow> P h'"
  by (auto simp: update_connection_set_def Let_def intro!: updates_keep split: if_splits)

lemma disconnect_keeps:
  assumes "disconnect_node N A node upd h w = Some (h', w')" and "P h"
  shows "P h'"
proof -
  obtain h1 w1 x where "add_connection_state_event N (c_str node) not_available False h w = Some (h1, w1)"
    and r: "if upd then update_connection_set A x (erase_node node h1) = Some h' else h' = erase_node node h1"
    using assms(1) by (auto simp: disconnect_node_def Let_def split: bind_splits if_splits)
  then have "P (erase_node node h1)" using state_event_keeps assms(2) erased by blast
  then show ?thesis using r by (cases upd) (auto dest: connection_set_keeps)
qed

lemma resync_keys_keeps: "resync_keys N A node ks h w = Some (ok, h', w') \<Longrightarrow> P h \<Longrightarrow> P h'"
proof (induction ks arbitrary: h w)
  case (Cons k ks)
  show ?case
  proof (cases "k \<in> set (cd_keys (mon_of h node))")
    case True
    then show ?thesis using Cons by simp
  next
    case False
    with Cons.prems(1) obtain conn ok1 k1 conn1 s where c: "umap_find (eh_connections h) node = Some conn"
      and r: "(if \<not> ok1 then do {
          (h, w) \<leftarrow> disconnect_node N A (c_str node) True (set_connection node conn1 h) (set_db w s);
          Some (False, h, w)
        }
        else resync_keys N A node ks (update_mon node (\<lambda>d. d\<lparr>cd_keys := List.insert k1 (cd_keys d)\<rparr>)
          (set_connection node conn1 h)) (set_db w s)) = Some (ok, h', w')"
      by (simp add: Let_def split: bind_split_asm prod.splits)
    have p: "P (set_connection node conn1 h)" using Cons.prems(2) c by (intro connection) simp_all
    show ?thesis
    proof (cases ok1)
      case True
      then show ?thesis using r details [OF p] Cons.IH by simp
    next
      case False
      then show ?thesis using r p by (auto dest: disconnect_keeps split: bind_splits)
    qed
  qed
qed simp

lemma resync_node_keeps:
  assumes "resync_node N A grp ks node c w = Some (go, c', w')" and "P (snd c)"
  shows "P (snd c')"
proof -
  obtain b h where c: "c = (b, h)" by (cases c)
  let ?h = "set_group_reg node grp (group_reg_of h node grp) h"
  have h: "P h" "P ?h" using assms(2) details by (auto simp: c set_group_reg_def)
  from assms(1) consider "snd c' = h" | "snd c' = ?h"
    | ok h1 w1 where "resync_keys N A node ks ?h w = Some (ok, h1, w1)"
        "snd c' = (if ok then set_group_reg node grp True h1 else h1)"
    by (auto simp: resync_node_def c Let_def split: bind_splits if_splits)
  then show ?thesis
  proof cases
    case 3
    have "P h1" by (rule resync_keys_keeps [OF 3(1) h(2)])
    then show ?thesis using 3(2) details by (simp add: set_group_reg_def)
  qed (use h in simp_all)
qed

lemma resync_groups_keeps: "resync_groups N A gs c w = Some (c', w') \<Longrightarrow> P (snd c) \<Longrightarrow> P (snd c')"
proof (induction gs arbitrary: c w)
  case (Cons g gs)
  from Cons.prems(1) obtain keys ok c1 w1 where
    i: "cps_api_node_set_iterate N A g (resync_node N A g keys) c w = Some (ok, c1, w1)"
    and r: "resync_groups N A gs c1 w1 = Some (c', w')"
    by (auto split: bind_splits)
  have "P (snd c1)"
    by (rule node_set_iterate_keeps [OF i, of "\<lambda>c. P (snd c)"]) (use Cons.prems(2) resync_node_keeps in blast)+
  then show ?case by (rule Cons.IH [OF r])
qed simp

lemma resync_keeps: "resync_regs N A C h w = Some (h', w') \<Longrightarrow> P h \<Longrightarrow> P h'"
  by (fastforce simp: resync_regs_def dest!: resync_groups_keeps connection_set_keeps split: bind_splits if_splits)

lemma connect_node_keeps: "connect_node N A grp node h w = Some (Some h', w') \<Longrightarrow> P h \<Longrightarrow> P h'"
  by (auto simp: connect_node_def Let_def intro!: connected intro: details dest!: state_event_keeps
      split: bind_splits option.splits)

lemma check_node_keeps: "check_node N A grp node c w = Some (go, c', w') \<Longrightarrow> P (snd (snd c)) \<Longrightarrow> P (snd (snd c'))"
  by (auto simp: check_node_def set_group_reg_def Let_def intro!: details connection intro: disconnect_keeps
      dest: connect_node_keeps split: prod.splits bind_splits if_splits option.splits)

lemma check_groups_keeps: "check_groups N A gs c w = Some (c', w') \<Longrightarrow> P (snd (snd c)) \<Longrightarrow> P (snd (snd c'))"
proof (induction gs arbitrary: c w)
  case (Cons g gs)
  from Cons.prems(1) obtain ok c1 w1 where
    i: "cps_api_node_set_iterate N A g (check_node N A g) c w = Some (ok, c1, w1)"
    and r: "check_groups N A gs c1 w1 = Some (c', w')"
    by (auto split: bind_splits)
  have "P (snd (snd c1))"
    by (rule node_set_iterate_keeps [OF i, of "\<lambda>c. P (snd (snd c))"]) (use Cons.prems(2) check_node_keeps in blast)+
  then show ?case by (rule Cons.IH [OF r])
qed simp

lemma disconnect_nodes_keeps: "disconnect_nodes N A ns h w = Some (h', w') \<Longrightarrow> P h \<Longrightarrow> P h'"
  by (induction ns arbitrary: h w) (auto dest: disconnect_keeps split: bind_splits)

lemma check_connections_keeps: "check_connections N A C h w = Some (b, h', w') \<Longrightarrow> P h \<Longrightarrow> P h'"
  by (fastforce simp: check_connections_def Let_def dest!: check_groups_keeps disconnect_nodes_keeps connection_set_keeps
      split: bind_splits if_splits)

lemma maintain_keeps: "maintain_connections N A C h w = Some (b, h', w') \<Longrightarrow> P h \<Longrightarrow> P h'"
  by (auto simp: maintain_connections_def dest!: check_connections_keeps resync_keeps split: bind_splits)

lemma handle_event_keeps: "handle_event N grp_key node msg h w = Some (r, h', w') \<Longrightarrow> P h \<Longrightarrow> P h'"
  by (auto simp: handle_event_def note_sequence_def Let_def intro!: updates_keep split: bind_splits if_splits option.splits)

lemma poll_keeps: "poll_connections N A ns b h w = Some (p, e, h', w') \<Longrightarrow> P h \<Longrightarrow> P h'"
proof (induction ns arbitrary: b h w)
  case (Cons n ns)
  from Cons.prems(1) obtain conn has err conn1 x where c: "umap_find (eh_connections h) n = Some conn"
    and r: "(if err then do {
         (h, w) \<leftarrow> disconnect_node N A n True (set_connection n conn1 h) (set_db w ((db_of w)\<lparr>ds_net := x\<rparr>));
         Some (b \<or> has, True, h, w)
       }
       else poll_connections N A ns (b \<or> has) (set_connection n conn1 h) (set_db w ((db_of w)\<lparr>ds_net := x\<rparr>))) =
       Some (p, e, h', w')"
    by (simp add: Let_def split: bind_split_asm prod.splits)
  have q: "P (set_connection n conn1 h)" using Cons.prems(2) c by (intro connection) simp_all
  show ?case
  proof (cases err)
    case True
    then show ?thesis using r q by (auto dest: disconnect_keeps split: bind_splits)
  next
    case False
    then show ?thesis using r q Cons.IH by auto
  qed
qed simp

text \<open>An event that is handed out went through \<open>handle_event\<close> of a handle with the invariant.\<close>

definition delivered ::
  "node_env \<Rightarrow> cps_api_key_t \<Rightarrow> nat \<Rightarrow> db_event_handle \<Rightarrow> 'x node_world \<Rightarrow> bool" where
  "delivered N grp_key msg h' w' \<longleftrightarrow>
     (\<exists>node h w. P h \<and> handle_event N grp_key node msg h w = Some (Some True, h', w'))"

lemma drop_connection_keeps: "drop_connection N A node h w = Some (r, h', w') \<Longrightarrow> P h \<Longrightarrow> P h' \<and> r = Walk_end False"
  by (auto simp: drop_connection_def dest: disconnect_keeps split: bind_splits)

lemma after_event_keeps:
  assumes "after_event N A C grp_key msg node h w = Some (r, h', w')" and "P h"
  shows "P h' \<and> (r = Walk_end True \<longrightarrow> delivered N grp_key msg h' w')"
proof -
  obtain b h1 w1 where e: "handle_event N grp_key node msg h w = Some (b, h1, w1)"
    and r: "b = Some True \<and> r = Walk_end True \<and> h' = h1 \<and> w' = w1 \<or> b = Some False \<and> r = Walk_next \<and> h' = h1 \<or>
      r = Walk_next \<and> (\<exists>c. maintain_connections N A C h1 w1 = Some (c, h', w'))"
    using assms(1) by (auto simp: after_event_def split: bind_splits option.splits bool.splits if_splits)
  have "P h1" using handle_event_keeps [OF e assms(2)] .
  then show ?thesis using r e assms(2) maintain_keeps by (auto simp: delivered_def)
qed

lemma read_connection_keeps:
  assumes "read_connection N A C grp_key msg pending ready node conn err h w = Some (e, r, h', w')" and "P h"
    and "umap_find (eh_connections h) node \<noteq> None"
  shows "P h' \<and> (r = Walk_end True \<longrightarrow> delivered N grp_key msg h' w')"
proof -
  have c: "P (set_connection node c h)" for c using assms(2,3) by (rule connection)
  have d: "P (set_connection node c' (set_connection node c h))" for c c'
    by (rule connection [OF c]) (simp add: set_connection_def)
  from assms(1) consider "h' = h" "r = Walk_next" | c w1 where "drop_connection N A node (set_connection node c h) w1 = Some (r, h', w')"
    | c where "h' = set_connection node c h" "r = Walk_next"
    | c c' w1 where "after_event N A C grp_key msg node (set_connection node c' (set_connection node c h)) w1 = Some (r, h', w')"
    | c c' w1 where "drop_connection N A node (set_connection node c' (set_connection node c h)) w1 = Some (r, h', w')"
    | c c' where "h' = set_connection node c' (set_connection node c h)" "r = Walk_next"
    unfolding read_connection_def Let_def by (auto split: bind_splits if_splits)
  then show ?thesis
  proof cases
    case 2
    then show ?thesis using drop_connection_keeps [OF _ c] by blast
  next
    case 4
    then show ?thesis by (rule after_event_keeps [OF _ d])
  next
    case 5
    then show ?thesis using drop_connection_keeps [OF _ d] by blast
  qed (simp_all add: assms(2) c d)
qed

lemma read_keeps:
  "read_connections N A C grp_key msg pending ready ns err h w = Some (got, h', w') \<Longrightarrow> P h \<Longrightarrow>
     P h' \<and> (got \<longrightarrow> delivered N grp_key msg h' w')"
proof (induction ns arbitrary: err h w)
  case (Cons n ns)
  show ?case
  proof (cases "umap_find (eh_connections h) n")
    case (Some conn)
    with Cons.prems(1) obtain e r h1 w1 where
      one: "read_connection N A C grp_key msg pending ready n conn err h w = Some (e, r, h1, w1)"
      and r: "(case r of Walk_end got \<Rightarrow> Some (got, h1, w1)
         | Walk_next \<Rightarrow> read_connections N A C grp_key msg pending ready ns e h1 w1) = Some (got, h', w')"
      by (auto split: bind_splits)
    have "P h1 \<and> (r = Walk_end True \<longrightarrow> delivered N grp_key msg h1 w1)"
      by (rule read_connection_keeps [OF one Cons.prems(2)]) (simp add: Some)
    then show ?thesis using r Cons.IH by (cases r) auto
  next
    case None
    then show ?thesis using Cons.IH [of err h w] Cons.prems by simp
  qed
qed simp

lemma wait_maintain_keeps: "wait_maintain N A C h w = Some (h', w') \<Longrightarrow> P h \<Longrightarrow> P h'"
  by (auto simp: wait_maintain_def Let_def dest: maintain_keeps intro: checked split: bind_splits if_splits prod.splits)

lemma wait_select_keeps:
  assumes "wait_select N A C grp_key msg t h w = Some (got, h', w')" and "P h"
  shows "P h' \<and> (got \<longrightarrow> delivered N grp_key msg h' w')"
proof -
  obtain pend err h1 w1 where p: "poll_connections N A (ec_order C (map fst (eh_connections h))) False h w = Some (pend, err, h1, w1)"
    and r: "\<not> got \<and> (h' = h1 \<or> h' = reset_last_used h1) \<or>
      (\<exists>b l ns e w2. read_connections N A C grp_key msg b l ns e h1 w2 = Some (got, h', w'))"
    using assms(1) unfolding wait_select_def Let_def by (auto split: bind_splits if_splits prod.splits) blast+
  show ?thesis using r poll_keeps [OF p assms(2)] read_keeps unused by blast
qed

text \<open>What a round that ends with an event has done.\<close>

lemma wait_round_keeps:
  assumes "wait_round N A C grp_key msg t h w = Some (got, h', w')" and "P h"
  shows "P h' \<and> (got \<longrightarrow> delivered N grp_key msg h' w' \<or> eh_pending h \<noteq> [] \<and> take_pending N msg h w = Some (h', w'))"
proof (cases "eh_pending h")
  case Nil
  then obtain h1 w1 where m: "wait_maintain N A C h w = Some (h1, w1)"
    and r: "h' = h1 \<and> \<not> got \<or> wait_select N A C grp_key msg t h1 w1 = Some (got, h', w')"
    using assms(1) by (auto simp: wait_round_def cps_api_object_list_size_def split: bind_splits if_splits)
  show ?thesis using r wait_maintain_keeps [OF m assms(2)] wait_select_keeps by blast
next
  case (Cons q l)
  then have "take_pending N msg h w = Some (h', w')"
    using assms(1) by (auto simp: wait_round_def cps_api_object_list_size_def split: bind_splits)
  then show ?thesis using assms(2) Cons by (auto simp: take_pending_def intro: pending split: bind_splits)
qed

definition handed_out ::
  "node_env \<Rightarrow> cps_api_key_t \<Rightarrow> nat \<Rightarrow> db_event_handle \<Rightarrow> 'x node_world \<Rightarrow> bool" where
  "handed_out N grp_key msg h' w' \<longleftrightarrow> delivered N grp_key msg h' w' \<or>
     (\<exists>h w. P h \<and> eh_pending h \<noteq> [] \<and> take_pending N msg h w = Some (h', w'))"

definition waited ::
  "node_env \<Rightarrow> cps_api_key_t \<Rightarrow> nat \<Rightarrow> int \<Rightarrow> cps_api_return_code_t \<times> db_event_handle \<times> 'x node_world \<Rightarrow> bool" where
  "waited N grp_key msg timeout_ms = (\<lambda>(rc, h, w). P h \<and>
     (rc = cps_api_ret_code_OK \<and> handed_out N grp_key msg h w \<or>
      rc = cps_api_ret_code_TIMEOUT \<and> timeout_ms \<noteq> CPS_API_TIMEDWAIT_NO_TIMEOUT))"

lemma wait_loop_keeps:
  assumes "wait_loop N A C grp_key msg timeout_ms started waiting h w = Some r"
  shows "P h \<longrightarrow> (timeout_ms = CPS_API_TIMEDWAIT_NO_TIMEOUT \<longrightarrow> waiting) \<longrightarrow> waited N grp_key msg timeout_ms r"
proof (rule wait_loop.raw_induct [OF _ assms, where P = "\<lambda>N A C k m t s waiting h w r.
    P h \<longrightarrow> (t = CPS_API_TIMEDWAIT_NO_TIMEOUT \<longrightarrow> waiting) \<longrightarrow> waited N k m t r"], goal_cases)
  case (1 loop N A C k m t s waiting h w r)
  note IH = 1(1) and run = 1(2)
  show ?case
  proof (cases waiting)
    case False
    then show ?thesis using run by (auto simp: waited_def)
  next
    case True
    obtain mx wt x where t: "wait_time A t s (ds_net (db_of w)) = (mx, wt, x)" by (metis prod_cases3)
    obtain got h1 w1 where rd: "wait_round N A C k m mx h (set_db w ((db_of w)\<lparr>ds_net := x\<rparr>)) = Some (got, h1, w1)"
      and r: "(if got then Some (cps_api_ret_code_OK, h1, w1) else loop N A C k m t s wt h1 w1) = Some r"
      using run True t by (auto simp: Let_def split: bind_splits)
    have wt: "t = CPS_API_TIMEDWAIT_NO_TIMEOUT \<longrightarrow> wt" using t by (auto simp: wait_time_def)
    have "P h1 \<and> (got \<longrightarrow> handed_out N k m h1 w1)" if "P h"
      using wait_round_keeps [OF rd that] that by (auto simp: handed_out_def)
    then show ?thesis using r wt IH [of N A C k m t s wt h1 w1 r] by (cases got) (auto simp: waited_def)
  qed
qed

lemma wait_keeps:
  assumes "event_service_wait_for_event N A C grp_key msg timeout_ms h w = Some r" and "P h"
  shows "waited N grp_key msg timeout_ms r"
proof -
  obtain t x where "rd_uptime A (ds_net (db_of w)) = (t, x)" by (metis prod.exhaust)
  then have "wait_loop N A C grp_key msg timeout_ms t True h (set_db w ((db_of w)\<lparr>ds_net := x\<rparr>)) = Some r"
    using assms(1) by (simp add: event_service_wait_for_event_def)
  then show ?thesis using wait_loop_keeps assms(2) by blast
qed

end

section \<open>Well-formed handles\<close>

text \<open>
  Nodes and groups occur once, every connected node has details, no key is empty, and \<open>select\<close> gets a set of
  descriptors in range together with a bound on them.
\<close>

definition handle_wf :: "db_event_handle \<Rightarrow> bool" where
  "handle_wf h \<longleftrightarrow> distinct (map fst (eh_connections h)) \<and> distinct (map fst (eh_group_keys h)) \<and>
     fst ` set (eh_connections h) \<subseteq> dom (eh_mon h) \<and> (\<forall>ks \<in> snd ` set (eh_group_keys h). [] \<notin> set ks) \<and>
     -1 \<le> eh_max_fd h \<and> (\<forall>fd \<in> set (eh_fd_set h). 0 \<le> fd \<and> fd < FD_SETSIZE \<and> fd \<le> eh_max_fd h)"

lemma fold_max_ge: "(m :: int) \<le> fold max xs m" and fold_max_mem: "x \<in> set xs \<Longrightarrow> x \<le> fold max xs m"
proof -
  show g: "(m :: int) \<le> fold max xs m" for m xs
  proof (induction xs arbitrary: m)
    case (Cons a xs)
    have "max a m \<le> fold max xs (max a m)" by (rule Cons)
    then show ?case by simp
  qed simp
  show "x \<in> set xs \<Longrightarrow> x \<le> fold max xs m"
  proof (induction xs arbitrary: m)
    case (Cons a xs)
    then show ?case using g [of "max a m" xs] by auto
  qed simp
qed

lemma fst_umap_set: "fst ` set (umap_set m k v) = insert k (fst ` set m)"
  using set_umap_set [of m k v] by simp

lemma umap_find_mem: "umap_find m k \<noteq> None \<longleftrightarrow> k \<in> fst ` set m"
  by (simp add: umap_find_def map_of_eq_None_iff)

interpretation wf: handle_invariant handle_wf
proof
  fix h node conn f
  assume wf: "handle_wf h"
  then show "handle_wf (set_connection node conn (update_mon node f h))"
    by (auto simp: handle_wf_def set_connection_def update_mon_def distinct_umap_set fst_umap_set)
  show "handle_wf (erase_node node h)" using wf
    by (auto simp: handle_wf_def erase_node_def distinct_map_filter)
  show "handle_wf (reset_last_used h)" using wf
    by (auto simp: handle_wf_def reset_last_used_def case_prod_beta comp_def image_image)
next
  fix h node conn
  assume "handle_wf h" and "umap_find (eh_connections h) node \<noteq> None"
  then show "handle_wf (set_connection node conn h)"
    unfolding umap_find_mem by (auto simp: handle_wf_def set_connection_def distinct_umap_set fst_umap_set)
next
  fix h and fds :: "int list"
  assume "handle_wf h" and "\<forall>fd \<in> set fds. 0 \<le> fd \<and> fd < FD_SETSIZE"
  then show "handle_wf (h\<lparr>eh_max_fd := fold max fds (-1), eh_fd_set := fds\<rparr>)"
    by (auto simp: handle_wf_def fold_max_ge fold_max_mem)
qed (auto simp: handle_wf_def update_mon_def)

text \<open>What a wait leaves alone: the filters.\<close>

interpretation filters: handle_invariant "\<lambda>h. eh_filters h = c"
  by unfold_locales (auto simp: set_connection_def update_mon_def erase_node_def reset_last_used_def)

section \<open>Registration\<close>

lemma new_handle_wf: "handle_wf new_handle"
  by (simp add: handle_wf_def new_handle_def)

lemma add_group_key_wf:
  assumes "handle_wf h" and "key \<noteq> []"
  shows "handle_wf (add_group_key grp key h)"
proof -
  let ?old = "case umap_find (eh_group_keys h) grp of None \<Rightarrow> [] | Some ks \<Rightarrow> ks"
  have old: "[] \<notin> set ?old" using assms(1)
    by (auto simp: handle_wf_def umap_find_def split: option.splits dest!: map_of_SomeD)
  have sub: "snd ` set (umap_set m k v) \<subseteq> insert v (snd ` set m)" for m k and v :: "bytes list"
    by (induction m k v rule: umap_set.induct) auto
  have "[] \<notin> set ks" if "ks \<in> snd ` set (umap_set (eh_group_keys h) grp (?old @ [key]))" for ks
  proof -
    have "ks = ?old @ [key] \<or> ks \<in> snd ` set (eh_group_keys h)" using subsetD [OF sub that] by (simp only: insert_iff)
    then show ?thesis using old assms by (auto simp: handle_wf_def)
  qed
  then have "\<forall>ks \<in> snd ` set (umap_set (eh_group_keys h) grp (?old @ [key])). [] \<notin> set ks" by blast
  then show ?thesis using assms(1) by (simp add: handle_wf_def add_group_key_def distinct_umap_set)
qed

lemma add_filter_wf:
  assumes "object_add_filter N obj h w = Some (ok, h', w')" and "handle_wf h"
  shows "handle_wf h'"
proof -
  from assms(1) consider "h' = h" | c where "h' = h\<lparr>eh_filters := c\<rparr>"
    by (auto simp: object_add_filter_def Let_def split: bind_splits if_splits)
  then show ?thesis using assms(2) by cases (simp_all add: handle_wf_def)
qed

lemma register_one_wf:
  assumes "register_one_object N A obj h w = Some (rc, h', w')" and "handle_wf h"
  shows "handle_wf h'"
proof (cases "h' = h")
  case False
  then obtain grp key ok h1 w0 w1 where key: "key \<noteq> []"
    and i: "cps_api_node_set_iterate N A grp (audit_node grp) (add_group_key grp key h) w0 = Some (ok, h1, w1)"
    and f: "h' = h1 \<or> (\<exists>ok w2. object_add_filter N obj h1 w1 = Some (ok, h', w2))"
    using assms(1) by (auto simp: register_one_object_def Let_def split: bind_splits if_splits)
  have "handle_wf h1"
    by (rule node_set_iterate_keeps [OF i, of handle_wf])
      (use add_group_key_wf [OF assms(2) key] wf.details in \<open>auto simp: audit_node_def set_group_reg_def\<close>)
  then show ?thesis using f add_filter_wf by blast
qed (simp add: assms(2))

lemma register_each_wf: "register_each N A qs h w = Some (rc, h', w') \<Longrightarrow> handle_wf h \<Longrightarrow> handle_wf h'"
  by (induction qs arbitrary: h w) (auto dest: register_one_wf split: bind_splits if_splits)

lemma register_wf: "event_service_register_objs_function N A C qs h w = Some (rc, h', w') \<Longrightarrow> handle_wf h \<Longrightarrow> handle_wf h'"
  by (auto simp: event_service_register_objs_function_def dest!: register_each_wf wf.maintain_keeps
      split: bind_splits if_splits)

lemma connect_wf: "event_service_client_connect N A C grp_key w = Some (rc, h, w') \<Longrightarrow> handle_wf h"
  by (auto simp: event_service_client_connect_def dest!: register_one_wf [OF _ new_handle_wf] wf.maintain_keeps
      split: bind_splits)

text \<open>
  The life of a handle: it is made empty, objects are registered, connections are maintained and events awaited,
  in any order and in any world.
\<close>

inductive handle_reach ::
  "node_env \<Rightarrow> 'x redis_api \<Rightarrow> 'x event_client \<Rightarrow> cps_api_key_t \<Rightarrow> db_event_handle \<Rightarrow> bool"
  for N A C grp_key where
  made: "handle_reach N A C grp_key new_handle"
| registered: "handle_reach N A C grp_key h \<Longrightarrow> register_one_object N A obj h w = Some (rc, h', w') \<Longrightarrow>
    handle_reach N A C grp_key h'"
| maintained: "handle_reach N A C grp_key h \<Longrightarrow> maintain_connections N A C h w = Some (b, h', w') \<Longrightarrow>
    handle_reach N A C grp_key h'"
| waited: "handle_reach N A C grp_key h \<Longrightarrow>
    event_service_wait_for_event N A C grp_key msg timeout_ms h w = Some (rc, h', w') \<Longrightarrow> handle_reach N A C grp_key h'"

lemma connect_reach:
  assumes "event_service_client_connect N A C grp_key w = Some (rc, h, w')"
  shows "handle_reach N A C grp_key h"
proof -
  obtain og w1 rc1 h1 w2 b w3 where "register_one_object N A og new_handle w1 = Some (rc1, h1, w2)"
    and "maintain_connections N A C h1 w2 = Some (b, h, w3)"
    using assms by (auto simp: event_service_client_connect_def split: bind_splits)
  then show ?thesis by (rule maintained [OF registered [OF made]])
qed

lemma register_each_reach:
  "register_each N A qs h w = Some (rc, h', w') \<Longrightarrow> handle_reach N A C grp_key h \<Longrightarrow> handle_reach N A C grp_key h'"
  by (induction qs arbitrary: h w) (auto dest: registered split: bind_splits if_splits)

lemma register_reach:
  "event_service_register_objs_function N A C qs h w = Some (rc, h', w') \<Longrightarrow> handle_reach N A C grp_key h \<Longrightarrow>
     handle_reach N A C grp_key h'"
  by (auto simp: event_service_register_objs_function_def dest!: register_each_reach intro: maintained
      split: bind_splits if_splits)

text \<open>
  \<^bold>\<open>C16.\<close> Every handle an application can get, by a connect followed by registrations and waits, is well formed:
  nodes and groups occur once, every connected node has its details, no registered key is empty, and the set of
  descriptors given to \<open>select\<close> is in range and below the bound given with it.
\<close>

theorem reachable_handle_wf:
  assumes "handle_reach N A C grp_key h"
  shows "handle_wf h"
  using assms
proof (induction rule: handle_reach.induct)
  case (waited h msg timeout_ms w rc h' w')
  then show ?case using wf.wait_keeps [OF waited(2,3)] by (simp add: wf.waited_def)
qed (auto intro: new_handle_wf register_one_wf wf.maintain_keeps)

text \<open>An object without a group is registered at the local database.\<close>

lemma local_nodes:
  "cps_api_node_set_iterate N A DEFAULT_REDIS_ADDR visit c w =
     Option.bind (visit DEFAULT_REDIS_ADDR c w) (\<lambda>(go, c, w). Some (True, c, w))"
  by (auto simp: cps_api_node_set_iterate_def cps_api_db_get_node_group_def DEFAULT_REDIS_ADDR_def split: bind_splits)

lemma register_local:
  assumes "hp_objs (w_heap w) a = Some p" and "cps_api_key_get_group (nw_tlv N) p = Some DEFAULT_REDIS_ADDR"
    and "dbkey_from_instance_key (nw_libc N) (nw_tlv N) (de_hash (ne_db N)) (ds_dict (db_of w)) [] p True = Some (ok, key, D')"
    and "key \<noteq> []" and "get_data_uint (nw_tlv N) p CPS_OBJECT_GROUP_EXACT_MATCH 1 = Some None"
  shows "register_one_object N A a h w = Some (cps_api_ret_code_OK,
     set_group_reg DEFAULT_REDIS_ADDR DEFAULT_REDIS_ADDR False (add_group_key DEFAULT_REDIS_ADDR key h),
     set_db w ((db_of w)\<lparr>ds_dict := D'\<rparr>))"
  using assms by (simp add: register_one_object_def local_nodes audit_node_def set_db_def)

text \<open>An object that is registered on the demonstration world.\<close>

lemma demo_registration:
  obtains key w' where "key \<noteq> []" and "register_one_object demo_node_env sim_redis 1 new_handle demo_node_world =
     Some (cps_api_ret_code_OK, set_group_reg DEFAULT_REDIS_ADDR DEFAULT_REDIS_ADDR False
       (add_group_key DEFAULT_REDIS_ADDR key new_handle), w')"
proof -
  let ?p = "demo_instance [(7, [1])]" and ?N = demo_node_env
  have wf: "obj_wf tlv16 ?p [(7, [1])]" by (rule demo_instance_wf(1)) (simp_all add: size_lim_def obj_cap_def)
  have pl: "plain_attrs [(7, [1])]" by (simp add: plain_attrs_def CPS_OBJECT_GROUP_GROUP_def
        CPS_OBJECT_GROUP_CONTINUE_ON_FAILURE_def CPS_CONNECTION_ENTRY_CONNECTION_STATE_def CPS_OBJECT_GROUP_WILDCARD_SEARCH_def)
  have T: "nw_tlv ?N = tlv16" "nw_libc ?N = libc_ok" "de_hash (ne_db ?N) = id" by (simp_all add: demo_node_env_def demo_db_def)
  note r = plain_requests [OF tlv16.std_tlv_axioms wf pl]
  have g: "get_data_uint tlv16 ?p CPS_OBJECT_GROUP_EXACT_MATCH 1 = Some None"
    by (rule tlv16.get_data_uint_obj(1) [OF wf]) (simp add: CPS_OBJECT_GROUP_EXACT_MATCH_def)
  obtain n where n: "dict_path id demo_dict [5, 7] = Some n" "nd_key_ids n = None"
    "filter (leaf_id demo_dict) (nd_ids n) = [7]" using demo_dict_facts(2) by blast
  have k: "1 < length (key_elems demo_key)" "dict_path id demo_dict (drop 1 (key_elems demo_key)) = Some n"
    using demo_key_facts n(1) by simp_all
  obtain D' where D': "cps_api_key_attrs id demo_dict demo_key 1 = Some ([7], D')"
    using key_attrs_twice [OF demo_dict_facts(1) demo_key_facts(1) k n(2)] n(3) by (auto simp: key_layout)
  have kp: "obj_key ?p = demo_key" by (simp add: demo_instance_def)
  obtain key where key: "dbkey_from_instance_key libc_ok tlv16 id demo_dict [] ?p True = Some (True, key, D')" "key \<noteq> []"
    using append_attrs_bytes(1) [of libc_ok ?p tlv16 False id demo_dict "[7]" D' True] r(4) kp D' demo_key_facts
    by (simp add: dbkey_from_instance_key_def)
  have h: "hp_objs (w_heap demo_node_world) 1 = Some ?p" "ds_dict (db_of demo_node_world) = demo_dict"
    by (simp_all add: demo_node_world_def db_of_def demo_db_state_def)
  show thesis
    by (rule that [OF key(2) register_local [of _ 1 ?p]]) (use h r(1) key g T in auto)
qed

theorem reachable_handle_wf_witness:
  "\<exists>h w'. register_one_object demo_node_env sim_redis 1 new_handle demo_node_world = Some (cps_api_ret_code_OK, h, w') \<and>
     length (eh_group_keys h) = 1 \<and> handle_wf h"
proof -
  let ?C = "\<lparr>ec_select = \<lambda>_ _ _ x. (0, [], x), ec_order = \<lambda>ks. ks\<rparr> :: redis_sim event_client"
  obtain key w' where r: "register_one_object demo_node_env sim_redis 1 new_handle demo_node_world =
     Some (cps_api_ret_code_OK, set_group_reg DEFAULT_REDIS_ADDR DEFAULT_REDIS_ADDR False
       (add_group_key DEFAULT_REDIS_ADDR key new_handle), w')" by (rule demo_registration)
  have "handle_wf (set_group_reg DEFAULT_REDIS_ADDR DEFAULT_REDIS_ADDR False (add_group_key DEFAULT_REDIS_ADDR key new_handle))"
    by (rule reachable_handle_wf [of _ _ ?C demo_key]) (rule registered [OF made r])
  then show ?thesis using r
    by (auto simp: set_group_reg_def update_mon_def add_group_key_def new_handle_def)
qed

end
