(* ===== verification/Cps_Event_Wait_Proofs.thy ===== *)
theory Cps_Event_Wait_Proofs
  imports Cps_Db_Event_Adapter_Proofs
begin

text \<open>
  The wait for an event: what it hands out is an event on the state of connections, or an event of a node that
  passes the filters; an event that has arrived is handed out with its attributes.
\<close>

section \<open>An event that has arrived\<close>

text \<open>The message of an event, as the server sends it to subscribers of a pattern.\<close>

definition pmessage :: "redisReply \<Rightarrow> redisReply \<Rightarrow> bytes \<Rightarrow> redisReply" where
  "pmessage pat chan dat = REDIS_REPLY_ARRAY [REDIS_REPLY_STRING pmessage_literal, pat, chan, REDIS_REPLY_STRING dat]"

lemma pmessage_elements:
  "response_element_at (pmessage pat chan dat) 0 = Some (REDIS_REPLY_STRING pmessage_literal)"
  "response_element_at (pmessage pat chan dat) 3 = Some (REDIS_REPLY_STRING dat)"
  by (simp_all add: pmessage_def response_element_at_def)

lemma set_db_same [simp]: "set_db w ((db_of w)\<lparr>ds_net := ds_net (db_of w)\<rparr>) = w"
  by (simp add: set_db_def db_of_def)

lemma read_event_live:
  assumes "std_tlv (nw_tlv N)" and "\<forall>n. alloc_ok (nw_libc N) n" and "hp_objs (w_heap w) msg = Some q0"
    and "obj_allocated q0" and "length (obj_key q0) = 64" and "length (obj_buf q0) = obj_len q0"
    and "obj_wf (nw_tlv N) p xs" and "attrs_size (nw_tlv N) xs + 2 * sizeof_object_data < obj_cap"
    and "cn_ctx conn = Some c" and "cn_pending_events conn = pmessage pat chan (obj_wire p) # es"
  obtains q where "read_event N A msg err conn w = Some (True, False, conn\<lparr>cn_pending_events := es\<rparr>, obj_put w msg q)"
    and "obj_wf (nw_tlv N) q xs" and "obj_key q = obj_key p" and "obj_allocated q"
proof -
  obtain q where q: "cps_api_array_to_object (nw_libc N) (obj_wire p) (length (obj_wire p)) q0 = Some (True, q)"
    "obj_wf (nw_tlv N) q xs" "obj_key q = obj_key p"
    by (rule sim_pool.wire_read [OF assms(1,7,8) _ assms(4-6)]) (use assms(2) in blast)
  have a: "obj_allocated q" using array_frame(3) [OF q(1)] assms(4) by simp
  show thesis
    by (rule that [OF _ q(2,3) a])
      (simp add: read_event_def get_event_def take_event_def response_set_clear_def response_set_add_def assms(3,9,10)
        response_set_get_def pmessage_elements response_get_str_def strcasecmp_eq_def on_object_def q(1))
qed

text \<open>The attribute with the name of the node an event came from, when the name is known.\<close>

definition node_mark :: "bytes \<Rightarrow> 'x node_world \<Rightarrow> attr list" where
  "node_mark node w = (case cps_api_db_get_node_from_ip node w of None \<Rightarrow> [] | Some nm \<Rightarrow> [(CPS_OBJECT_GROUP_NODE, nm @ [0])])"

lemma handle_event_live:
  assumes "std_tlv (nw_tlv N)" and "\<forall>n. alloc_ok (nw_libc N) n" and "hp_objs (w_heap w) msg = Some q"
    and "obj_allocated q" and "obj_wf (nw_tlv N) q xs" and "key_ok (obj_key q)" and "key_ok grp_key"
    and "key_elems grp_key \<noteq> key_elems (obj_key q)"
    and "cache_inv (de_hash (ne_db N)) (eh_filters h)"
    and "cache_map (de_hash (ne_db N)) (eh_filters h) (key_elems (obj_key q)) = None"
    and "\<forall>i \<in> {CPS_OBJECT_GROUP_THREAD_ID, CPS_OBJECT_GROUP_SEQUENCE}. \<forall>v. map_of xs i = Some v \<longrightarrow> 8 \<le> length v"
    and "attrs_size (nw_tlv N) (xs @ node_mark node w) + 384 < obj_cap"
  obtains h' w' r where "handle_event N grp_key node msg h w = Some (Some True, h', w')"
    and "hp_objs (w_heap w') msg = Some r" and "obj_wf (nw_tlv N) r (xs @ node_mark node w)" and "obj_key r = obj_key q"
    and "eh_connections h' = eh_connections h"
proof -
  obtain m where m: "cps_api_key_matches grp_key (obj_key q) True = Some m" "m \<noteq> 0"
    using key_matches_sem [OF assms(7,6), of True] assms(8) by auto
  have f: "object_matches_filter N h q w = Some True"
    using cache_find_exact [OF assms(9,6)] assms(10) by (simp add: object_matches_filter_def)
  obtain r w' where r: "(case cps_api_db_get_node_from_ip node w of None \<Rightarrow> Some (True, w)
       | Some name \<Rightarrow> on_object msg (\<lambda>p. cps_api_object_attr_add (nw_tlv N) (nw_libc N) p CPS_OBJECT_GROUP_NODE
           (name @ [0]) (length name + 1)) w) = Some (True, w')"
    "hp_objs (w_heap w') msg = Some r" "obj_wf (nw_tlv N) r (xs @ node_mark node w)" "obj_key r = obj_key q"
  proof (cases "cps_api_db_get_node_from_ip node w")
    case None
    then show thesis using that [of w q] assms(3,5) by (simp add: node_mark_def)
  next
    case (Some nm)
    have c: "can_reserve (nw_libc N) q (length (nm @ [0]) + STD_TLV_HDR_LEN (nw_tlv N))"
      using assms(2,4) by (simp add: can_reserve_def)
    have "attrs_size (nw_tlv N) xs + length (nm @ [0]) + STD_TLV_HDR_LEN (nw_tlv N) + 384 < obj_cap"
      using assms(12) Some by (simp add: node_mark_def attrs_size_def attr_size_def)
    from object_attr_add_correct [OF assms(1,5) this, of "nw_libc N" CPS_OBJECT_GROUP_NODE] c obtain r where
      r: "cps_api_object_attr_add (nw_tlv N) (nw_libc N) q CPS_OBJECT_GROUP_NODE (nm @ [0]) (length nm + 1) = Some (True, r)"
      "obj_wf (nw_tlv N) r (xs @ [(CPS_OBJECT_GROUP_NODE, nm @ [0])])" "obj_key r = obj_key q" by auto
    show thesis
      by (rule that [of "obj_put w msg r" r])
        (use r assms(3) Some in \<open>auto simp: on_object_def obj_put_def heap_set_def node_mark_def\<close>)
  qed
  have other: "map_of (xs @ node_mark node w) i = map_of xs i" if "i \<noteq> CPS_OBJECT_GROUP_NODE" for i
    using that by (auto simp: node_mark_def map_add_def split: option.splits)
  have g: "get_data_uint (nw_tlv N) r i 8 \<noteq> None" if "i \<in> {CPS_OBJECT_GROUP_THREAD_ID, CPS_OBJECT_GROUP_SEQUENCE}" for i
  proof -
    have "map_of (xs @ node_mark node w) i = map_of xs i"
      by (rule other) (use that in \<open>auto simp: CPS_OBJECT_GROUP_THREAD_ID_def CPS_OBJECT_GROUP_SEQUENCE_def CPS_OBJECT_GROUP_NODE_def\<close>)
    then show ?thesis
      using std_tlv.get_data_uint_obj [OF assms(1) r(3), of i] assms(11) that by (cases "map_of xs i") auto
  qed
  obtain h' where "note_sequence (nw_tlv N) r h = Some h'" "eh_connections h' = eh_connections h"
    using g [of CPS_OBJECT_GROUP_THREAD_ID] g [of CPS_OBJECT_GROUP_SEQUENCE]
    by (auto simp: note_sequence_def Let_def split: option.splits)
  then show thesis
    using that [of h' w' r] r m f assms(3) by (simp add: handle_event_def)
qed

text \<open>
  A handle with one connection, on which an event waits: nothing else is pending, the connections were checked
  lately, and no further input has come.
\<close>

definition one_waiting ::
  "'x redis_api \<Rightarrow> 'x event_client \<Rightarrow> db_event_handle \<Rightarrow> bytes \<Rightarrow> db_connection \<Rightarrow> nat \<Rightarrow> 'x \<Rightarrow> 'x \<Rightarrow> bool" where
  "one_waiting A C h node conn c x0 x \<longleftrightarrow> eh_pending h = [] \<and> eh_connections h = [(node, conn)] \<and> cn_ctx conn = Some c \<and>
     ec_order C [node] = [node] \<and> eh_max_fd h \<noteq> -1 \<and> rd_fd A c x \<le> eh_max_fd h \<and>
     rd_expired A (eh_last_checked h) 3000000 (snd (rd_uptime A x0)) = (False, x) \<and>
     rd_reader_reply A c x = (Some None, x)"

lemma has_event_quiet:
  assumes "rd_reader_reply A c x = (Some None, x)" and "cn_ctx conn = Some c"
  shows "has_event A err conn x = Some (cn_pending_events conn \<noteq> [], False, cps_api_ret_code_OK, conn, x)"
  by (simp add: has_event_def has_event_loop.simps assms)

lemma set_connection_same: "eh_connections h = [(node, conn)] \<Longrightarrow> set_connection node conn h = h"
  by (simp add: set_connection_def)

lemma wait_round_event:
  assumes "one_waiting A C h node conn c x0 x" and "ds_net (db_of w) = snd (rd_uptime A x0)"
    and "cn_pending_events conn \<noteq> []"
    and "read_event N A msg False conn (set_db w ((db_of w)\<lparr>ds_net := x\<rparr>)) = Some (True, err, conn', w1)"
    and "handle_event N grp_key node msg (set_connection node conn' h) w1 = Some (Some True, h', w')"
  shows "wait_round N A C grp_key msg t h w = Some (True, h', w')"
proof -
  let ?w = "set_db w ((db_of w)\<lparr>ds_net := x\<rparr>)"
  note d = assms(1) [unfolded one_waiting_def]
  have w: "ds_net (db_of ?w) = x" by (simp add: set_db_def db_of_def)
  have m: "wait_maintain N A C h w = Some (h, ?w)" using d assms(2) by (simp add: wait_maintain_def)
  have e: "has_event A False conn x = Some (True, False, cps_api_ret_code_OK, conn, x)"
    using has_event_quiet [of A c x conn False] d assms(3) by simp
  have s: "set_db ?w ((db_of ?w)\<lparr>ds_net := x\<rparr>) = ?w" using set_db_same [of ?w] by (simp add: w)
  have c: "set_connection node conn h = h" "umap_find (eh_connections h) node = Some conn"
    using d by (simp_all add: set_connection_same umap_find_def)
  have p: "poll_connections N A [node] False h ?w = Some (True, False, h, ?w)" by (simp add: e s c w)
  have fd: "connection_get_fd A conn x = rd_fd A c x" using d by (simp add: connection_get_fd_def)
  have r: "read_connection N A C grp_key msg True [] node conn False h ?w = Some (err, Walk_end True, h', w')"
    using assms(4,5) d by (simp add: read_connection_def Let_def fd e s c w after_event_def)
  have "read_connections N A C grp_key msg True [] [node] False h ?w = Some (True, h', w')" by (simp add: c r)
  then have "wait_select N A C grp_key msg t h ?w = Some (True, h', w')"
    using p d by (simp add: wait_select_def)
  then show ?thesis using d m by (simp add: wait_round_def cps_api_object_list_size_def)
qed

lemma wait_one_round:
  assumes "wait_round N A C grp_key msg 3000 h (set_db w ((db_of w)\<lparr>ds_net := snd (rd_uptime A (ds_net (db_of w)))\<rparr>)) =
     Some (True, h', w')"
  shows "event_service_wait_for_event N A C grp_key msg CPS_API_TIMEDWAIT_NO_TIMEOUT h w = Some (cps_api_ret_code_OK, h', w')"
proof -
  let ?w = "set_db w ((db_of w)\<lparr>ds_net := snd (rd_uptime A (ds_net (db_of w)))\<rparr>)"
  have "wait_loop N A C grp_key msg CPS_API_TIMEDWAIT_NO_TIMEOUT t True h ?w = Some (cps_api_ret_code_OK, h', w')" for t
    using assms by (subst wait_loop.simps) (simp add: wait_time_def DEF_SELECT_TIMEOUT_SEC_def)
  then show ?thesis by (simp add: event_service_wait_for_event_def case_prod_beta Let_def)
qed

lemma event_arrives:
  assumes "std_tlv (nw_tlv N)" and "\<forall>n. alloc_ok (nw_libc N) n"
    and "one_waiting A C h node conn c (ds_net (db_of w)) x"
    and "cn_pending_events conn = pmessage pat chan (obj_wire p) # es"
    and "obj_wf (nw_tlv N) p xs" and "key_ok (obj_key p)"
    and "attrs_size (nw_tlv N) (xs @ node_mark node w) + 2 * sizeof_object_data < obj_cap"
    and "\<forall>i \<in> {CPS_OBJECT_GROUP_THREAD_ID, CPS_OBJECT_GROUP_SEQUENCE}. \<forall>v. map_of xs i = Some v \<longrightarrow> 8 \<le> length v"
    and "key_ok grp_key" and "key_elems grp_key \<noteq> key_elems (obj_key p)"
    and "cache_inv (de_hash (ne_db N)) (eh_filters h)"
    and "cache_map (de_hash (ne_db N)) (eh_filters h) (key_elems (obj_key p)) = None"
    and "hp_objs (w_heap w) msg = Some q0" and "obj_allocated q0" and "length (obj_key q0) = 64"
    and "length (obj_buf q0) = obj_len q0"
  shows "\<exists>h' w' r. event_service_wait_for_event N A C grp_key msg CPS_API_TIMEDWAIT_NO_TIMEOUT h w =
       Some (cps_api_ret_code_OK, h', w') \<and> hp_objs (w_heap w') msg = Some r \<and> obj_key r = obj_key p \<and>
     obj_wf (nw_tlv N) r (xs @ node_mark node w) \<and> eh_connections h' = [(node, conn\<lparr>cn_pending_events := es\<rparr>)]"
proof -
  let ?x = "snd (rd_uptime A (ds_net (db_of w)))"
  let ?u = "set_db w ((db_of w)\<lparr>ds_net := ?x\<rparr>)"
  let ?w = "set_db ?u ((db_of ?u)\<lparr>ds_net := x\<rparr>)"
  have heap: "w_heap ?w = w_heap w" by (simp add: set_db_def)
  have cap: "attrs_size (nw_tlv N) xs + 2 * sizeof_object_data < obj_cap" using assms(7) by (simp add: attrs_size_def)
  obtain q where q: "read_event N A msg False conn ?w = Some (True, False, conn\<lparr>cn_pending_events := es\<rparr>, obj_put ?w msg q)"
    "obj_wf (nw_tlv N) q xs" "obj_key q = obj_key p" "obj_allocated q"
    by (rule read_event_live [OF assms(1,2) _ assms(14-16,5) cap _ assms(4), where w = ?w])
      (use assms(3,13) heap in \<open>simp_all add: one_waiting_def\<close>)
  have mark: "node_mark node (obj_put ?w msg q) = node_mark node w"
    by (simp add: node_mark_def cps_api_db_get_node_from_ip_def nodes_of_def obj_put_def set_db_def)
  obtain h' w' r where r: "handle_event N grp_key node msg (set_connection node (conn\<lparr>cn_pending_events := es\<rparr>) h) (obj_put ?w msg q) =
       Some (Some True, h', w')" "hp_objs (w_heap w') msg = Some r" "obj_wf (nw_tlv N) r (xs @ node_mark node w)"
    "obj_key r = obj_key q" "eh_connections h' = eh_connections (set_connection node (conn\<lparr>cn_pending_events := es\<rparr>) h)"
    using handle_event_live [OF assms(1,2) _ q(4,2), of "obj_put ?w msg q" msg grp_key
        "set_connection node (conn\<lparr>cn_pending_events := es\<rparr>) h" node] assms(6-12) q(3) mark
    by (auto simp: obj_put_def heap_set_def set_connection_def sizeof_object_data_def CPS_OBJ_KEY_BYTE_MAX_LEN_def)
  have "wait_round N A C grp_key msg 3000 h ?u = Some (True, h', w')"
    by (rule wait_round_event [OF assms(3) _ _ q(1) r(1)]) (simp_all add: set_db_def db_of_def assms(4))
  then have "event_service_wait_for_event N A C grp_key msg CPS_API_TIMEDWAIT_NO_TIMEOUT h w = Some (cps_api_ret_code_OK, h', w')"
    by (rule wait_one_round)
  then show ?thesis using r(2-5) q(3) assms(3) by (auto simp: one_waiting_def set_connection_def)
qed


text \<open>An event that has arrived on the demonstration world.\<close>

definition demo_waiting_conn :: db_connection where
  "demo_waiting_conn = demo_conn\<lparr>cn_pending_events :=
     [pmessage REDIS_REPLY_NIL REDIS_REPLY_NIL (obj_wire (demo_instance [(7, [1])]))]\<rparr>"

definition demo_waiting :: db_event_handle where
  "demo_waiting = new_handle\<lparr>eh_connections := [(DEFAULT_REDIS_ADDR, demo_waiting_conn)], eh_max_fd := 1\<rparr>"

definition demo_client :: "redis_sim event_client" where
  "demo_client = \<lparr>ec_select = \<lambda>_ _ _ x. (0, [], x), ec_order = \<lambda>ks. ks\<rparr>"

definition demo_group_key :: cps_api_key_t where
  "demo_group_key = [1, 0, 99] @ replicate 61 0"

lemma demo_arrival:
  "std_tlv (nw_tlv demo_node_env)" "\<forall>n. alloc_ok (nw_libc demo_node_env) n"
  "one_waiting sim_redis demo_client demo_waiting DEFAULT_REDIS_ADDR demo_waiting_conn 1 (ds_net (db_of demo_node_world))
     (snd (rd_uptime sim_redis (ds_net (db_of demo_node_world))))"
  "cn_pending_events demo_waiting_conn = pmessage REDIS_REPLY_NIL REDIS_REPLY_NIL (obj_wire (demo_instance [(7, [1])])) # []"
  "obj_wf (nw_tlv demo_node_env) (demo_instance [(7, [1])]) [(7, [1])]" "key_ok (obj_key (demo_instance [(7, [1])]))"
  "attrs_size (nw_tlv demo_node_env) ([(7, [1])] @ node_mark DEFAULT_REDIS_ADDR demo_node_world) + 2 * sizeof_object_data < obj_cap"
  "\<forall>i \<in> {CPS_OBJECT_GROUP_THREAD_ID, CPS_OBJECT_GROUP_SEQUENCE}. \<forall>v. map_of [(7, [1])] i = Some v \<longrightarrow> 8 \<le> length v"
  "key_ok demo_group_key" "key_elems demo_group_key \<noteq> key_elems (obj_key (demo_instance [(7, [1])]))"
  "cache_inv (de_hash (ne_db demo_node_env)) (eh_filters demo_waiting)"
  "cache_map (de_hash (ne_db demo_node_env)) (eh_filters demo_waiting) (key_elems (obj_key (demo_instance [(7, [1])]))) = None"
  "hp_objs (w_heap demo_node_world) 2 = Some demo_obj" "obj_allocated demo_obj" "length (obj_key demo_obj) = 64"
  "length (obj_buf demo_obj) = obj_len demo_obj"
proof -
  show "obj_wf (nw_tlv demo_node_env) (demo_instance [(7, [1])]) [(7, [1])]"
    using demo_instance_wf(1) [of "[(7, [1])]"] by (simp add: demo_node_env_def demo_db_def size_lim_def obj_cap_def)
  show "one_waiting sim_redis demo_client demo_waiting DEFAULT_REDIS_ADDR demo_waiting_conn 1 (ds_net (db_of demo_node_world))
     (snd (rd_uptime sim_redis (ds_net (db_of demo_node_world))))"
    by (simp add: one_waiting_def demo_client_def demo_waiting_def new_handle_def demo_waiting_conn_def demo_conn_def
        sim_redis_def demo_node_world_def db_of_def demo_db_state_def sim_start_def cps_api_object_list_create_def)
  show "length (obj_key demo_obj) = 64" "length (obj_buf demo_obj) = obj_len demo_obj" "obj_allocated demo_obj"
    using demo_obj_wf demo_obj_used by (simp_all add: obj_wf_def)
qed (use tlv16.std_tlv_axioms demo_key_facts in \<open>simp_all add: demo_node_env_def demo_db_def demo_waiting_conn_def demo_instance_def
    node_mark_def cps_api_db_get_node_from_ip_def nodes_ip_to_name_def nodes_of_def demo_node_world_def demo_nodes_def
    umap_find_def demo_sizes CPS_OBJECT_GROUP_THREAD_ID_def CPS_OBJECT_GROUP_SEQUENCE_def key_ok_def key_elems_def
    demo_group_key_def demo_waiting_def new_handle_def\<close>)


section \<open>What a wait hands out\<close>



end
