(* ===== verification/Cps_Events_Proofs.thy ===== *)
theory Cps_Events_Proofs
  imports Cps_Events Cps_Event_Wait_Proofs
begin

text \<open>
  Properties of the event client: the thread calls exactly the callbacks whose key leads the event's key, in
  the order of registration; what a wait hands out passes the filters.
\<close>

section \<open>Calling back\<close>

text \<open>The abstract behaviour: the callbacks of a list one after the other until one refuses.\<close>

fun call_all ::
  "('c \<Rightarrow> nat \<Rightarrow> 's \<Rightarrow> (bool \<times> 's) option) \<Rightarrow> nat \<Rightarrow> 'c list \<Rightarrow> 's \<Rightarrow> 's option" where
  "call_all run obj [] st = Some st"
| "call_all run obj (c # cs) st = do {
     (go, st) \<leftarrow> run c obj st;
     if go then call_all run obj cs st else Some st
   }"

text \<open>A callback is wanted for an event when the key it was registered with leads the event's key.\<close>

definition key_at :: "('h, 'x, 'c) event_thread \<Rightarrow> nat \<Rightarrow> cps_api_key_t option" where
  "key_at st a = map_option obj_key (hp_objs (w_heap (et_world st)) a)"

definition wanted :: "(nat \<Rightarrow> cps_api_key_t option) \<Rightarrow> nat \<Rightarrow> 'c event_thread_cb \<Rightarrow> bool" where
  "wanted ks obj e = (case (ks obj, ks (tc_obj e)) of
     (Some k, Some p) \<Rightarrow> take (length (key_elems p)) (key_elems k) = key_elems p
   | _ \<Rightarrow> False)"

text \<open>What the callbacks leave alone: the list of callbacks, and the keys of the event and of the callbacks.\<close>

definition same_watch :: "nat set \<Rightarrow> ('h, 'x, 'c) event_thread \<Rightarrow> ('h, 'x, 'c) event_thread \<Rightarrow> bool" where
  "same_watch as st st' \<longleftrightarrow> et_cb_map st' = et_cb_map st \<and> (\<forall>a \<in> as. key_at st' a = key_at st a)"

lemma same_watch_trans: "same_watch as st st' \<Longrightarrow> same_watch as st' st'' \<Longrightarrow> same_watch as st st''"
  by (simp add: same_watch_def)

lemma wanted_same:
  "same_watch as st st' \<Longrightarrow> obj \<in> as \<Longrightarrow> tc_obj e \<in> as \<Longrightarrow> wanted (key_at st') obj e = wanted (key_at st) obj e"
  by (simp add: same_watch_def wanted_def)

lemma dispatch_step:
  assumes "ix < length (et_cb_map st)" and "key_at st obj = Some k" and "key_ok k"
    and "key_at st (tc_obj (et_cb_map st ! ix)) = Some p" and "key_ok p"
  shows "dispatch_event run obj ix (length (et_cb_map st)) st =
     (if wanted (key_at st) obj (et_cb_map st ! ix) then do {
        (go, st) \<leftarrow> run (tc_cb (et_cb_map st ! ix)) obj st;
        if \<not> go then Some st else dispatch_event run obj (ix + 1) (length (et_cb_map st)) st
      }
      else dispatch_event run obj (ix + 1) (length (et_cb_map st)) st)"
proof -
  obtain o1 q where h: "hp_objs (w_heap (et_world st)) obj = Some o1" "obj_key o1 = k"
    "hp_objs (w_heap (et_world st)) (tc_obj (et_cb_map st ! ix)) = Some q" "obj_key q = p"
    using assms(2,4) by (auto simp: key_at_def)
  obtain r where r: "cps_api_key_matches k p False = Some r"
    "r = 0 \<longleftrightarrow> take (length (key_elems p)) (key_elems k) = key_elems p"
    using key_matches_sem [OF assms(3,5), of False] by auto
  have w: "wanted (key_at st) obj (et_cb_map st ! ix) \<longleftrightarrow> r = 0"
    using r(2) assms(2,4) by (simp add: wanted_def)
  show ?thesis by (subst dispatch_event.simps) (simp add: h r(1) w assms(1))
qed

lemma dispatch_from:
  assumes "as = insert obj (tc_obj ` set cbs)" and "et_cb_map st = cbs" and "ix \<le> length cbs"
    and "\<forall>a \<in> as. \<exists>k. key_at st a = Some k \<and> key_ok k"
    and "\<forall>c st go st'. run c obj st = Some (go, st') \<longrightarrow> same_watch as st st'"
  shows "dispatch_event run obj ix (length cbs) st =
     call_all run obj (map tc_cb (filter (wanted (key_at st) obj) (drop ix cbs))) st"
  using assms(2-4)
proof (induction "length cbs - ix" arbitrary: ix st)
  case 0
  then show ?case by (simp add: dispatch_event.simps)
next
  case (Suc n)
  then have ix: "ix < length (et_cb_map st)" by auto
  let ?e = "cbs ! ix"
  have mem: "obj \<in> as" "tc_obj ?e \<in> as" and sub: "\<forall>e \<in> set cbs. tc_obj e \<in> as"
    using ix Suc.prems(1) by (auto simp: assms(1))
  obtain k where k: "key_at st obj = Some k" "key_ok k" using Suc.prems(3) mem(1) by blast
  obtain p where p: "key_at st (tc_obj (et_cb_map st ! ix)) = Some p" "key_ok p"
    using Suc.prems(1,3) mem(2) by blast
  have drop: "drop ix cbs = ?e # drop (Suc ix) cbs" using ix Suc.prems(1) by (simp add: Cons_nth_drop_Suc)
  have next_round: "dispatch_event run obj (ix + 1) (length cbs) s =
      call_all run obj (map tc_cb (filter (wanted (key_at st) obj) (drop (ix + 1) cbs))) s"
    if "same_watch as st s" for s
  proof -
    have "et_cb_map s = cbs" "\<forall>a \<in> as. \<exists>k. key_at s a = Some k \<and> key_ok k"
      using that Suc.prems(1,3) by (auto simp: same_watch_def)
    moreover have "filter (wanted (key_at s) obj) (drop (ix + 1) cbs) =
        filter (wanted (key_at st) obj) (drop (ix + 1) cbs)"
      by (rule filter_cong [OF refl]) (use wanted_same [OF that mem(1)] sub in_set_dropD in fastforce)
    ultimately show ?thesis using Suc.hyps(1) [of "ix + 1" s] Suc.hyps(2) Suc.prems(1,2) ix by simp
  qed
  have same: "same_watch as st st" by (simp add: same_watch_def)
  have cbs: "et_cb_map s = cbs" if "same_watch as st s" for s using that Suc.prems(1) by (simp add: same_watch_def)
  show ?case using dispatch_step [OF ix k p, of run] next_round [OF same] next_round cbs assms(5)
    by (auto simp: Suc.prems(1) drop split: bind_splits)
qed

text \<open>
  \<^bold>\<open>C15.\<close> An event is handed to the callbacks registered with a key that leads the event's key, and to no
  others, in the order of their registration, until one of them refuses; this holds when the callbacks keep
  the list of callbacks and the keys of the event and of the registered objects.
\<close>

theorem event_dispatch_order:
  assumes "et_cb_map st = cbs" and "as = insert obj (tc_obj ` set cbs)"
    and "\<forall>a \<in> as. \<exists>k. key_at st a = Some k \<and> key_ok k"
    and "\<forall>c st go st'. run c obj st = Some (go, st') \<longrightarrow> same_watch as st st'"
  shows "dispatch_event run obj 0 (length (et_cb_map st)) st =
     call_all run obj (map tc_cb (filter (wanted (key_at st) obj) cbs)) st"
  using dispatch_from [where run = run, OF assms(2,1) _ assms(3,4), of 0] assms(1) by simp

text \<open>A thread with three callbacks, which note that they were called; the second of the wanted ones refuses.\<close>

definition demo_watch_key :: "u32 list \<Rightarrow> cps_api_key_t" where
  "demo_watch_key es = [of_nat (length es), 0] @ es @ replicate (62 - length es) 0"

definition demo_watch :: "(unit, nat list, nat) event_thread" where
  "demo_watch = \<lparr>et_method = None, et_handle = Some (), et_is_running = True, et_once = True,
     et_cb_map = [\<lparr>tc_obj = 1, tc_cb = 11\<rparr>, \<lparr>tc_obj = 2, tc_cb = 12\<rparr>, \<lparr>tc_obj = 3, tc_cb = 13\<rparr>, \<lparr>tc_obj = 1, tc_cb = 14\<rparr>],
     et_world = \<lparr>w_heap = empty_heap\<lparr>hp_objs := [0 \<mapsto> demo_obj\<lparr>obj_key := demo_watch_key [1, 5, 7]\<rparr>,
       1 \<mapsto> demo_obj\<lparr>obj_key := demo_watch_key [1, 5]\<rparr>, 2 \<mapsto> demo_obj\<lparr>obj_key := demo_watch_key [1, 6]\<rparr>,
       3 \<mapsto> demo_obj\<lparr>obj_key := demo_watch_key [1]\<rparr>]\<rparr>, w_ext = []\<rparr>\<rparr>"

definition demo_call :: "nat \<Rightarrow> nat \<Rightarrow> (unit, nat list, nat) event_thread \<Rightarrow> (bool \<times> (unit, nat list, nat) event_thread) option" where
  "demo_call c obj st = Some (c \<noteq> 13, st\<lparr>et_world := (et_world st)\<lparr>w_ext := w_ext (et_world st) @ [c]\<rparr>\<rparr>)"

lemma demo_watch_key:
  assumes "length es \<le> 3"
  shows "key_ok (demo_watch_key es)" and "key_elems (demo_watch_key es) = es"
proof -
  have "unat (of_nat (length es) :: u32) = length es" using assms by (simp add: unat_of_nat)
  then show "key_ok (demo_watch_key es)" "key_elems (demo_watch_key es) = es"
    using assms by (simp_all add: key_ok_def key_elems_def demo_watch_key_def key_layout)
qed

theorem event_dispatch_order_witness:
  "map_option (\<lambda>st. w_ext (et_world st)) (dispatch_event demo_call 0 0 (length (et_cb_map demo_watch)) demo_watch) = Some [11, 13]"
proof -
  let ?as = "insert 0 (tc_obj ` set (et_cb_map demo_watch))"
  have as: "?as = {0, 1, 2, 3}" by (auto simp: demo_watch_def)
  have k: "key_at demo_watch 0 = Some (demo_watch_key [1, 5, 7])" "key_at demo_watch 1 = Some (demo_watch_key [1, 5])"
    "key_at demo_watch 2 = Some (demo_watch_key [1, 6])" "key_at demo_watch 3 = Some (demo_watch_key [1])"
    by (simp_all add: key_at_def demo_watch_def)
  have "\<forall>a \<in> ?as. \<exists>k. key_at demo_watch a = Some k \<and> key_ok k" by (simp add: as k k [unfolded One_nat_def] demo_watch_key)
  moreover have "\<forall>c st go st'. demo_call c 0 st = Some (go, st') \<longrightarrow> same_watch ?as st st'"
    by (auto simp: demo_call_def same_watch_def key_at_def)
  ultimately have "dispatch_event demo_call 0 0 (length (et_cb_map demo_watch)) demo_watch =
      call_all demo_call 0 (map tc_cb (filter (wanted (key_at demo_watch) 0) (et_cb_map demo_watch))) demo_watch"
    by (rule event_dispatch_order [OF refl refl])
  then show ?thesis
    by (simp add: demo_watch_def [THEN arg_cong [of _ _ et_cb_map]] wanted_def k [unfolded One_nat_def] demo_watch_key demo_call_def)
      (simp add: demo_watch_def)
qed

end
