(* ===== verification/Spec2Isabelle.thy ===== *)
theory Spec2Isabelle
  imports Cps_Key_Cache Cps_Object_Embedded Cps_Object_Heap Cps_Dictionary_Proofs Cps_Object_Tools_Proofs
    Cps_Ns_Proofs Cps_Events_Proofs
begin

text \<open>
  A verification of the CPS library (Control Plane Services): the C++ sources under \<open>src/src\<close> and
  \<open>src/inc/opx\<close> of the repository; the paths below are relative to \<open>src\<close>.

  \<^bold>\<open>The program.\<close> Applications exchange \<^emph>\<open>objects\<close>: a hierarchical key and a list of attributes, each an
  id and bytes, kept in one buffer in a tag-length-value layout. A service registers the keys it owns
  with the name server and answers get, commit and roll back requests for them; a client finds the owner of
  a key through the name server and talks to it over a socket. Objects whose class says so are kept in a
  database instead. A dictionary describes the classes, attributes and enumerations.

  \<^bold>\<open>Conventions.\<close> An operation that can leave the defined behaviour of C++ (an assertion that fails, an
  access outside an array, a use of a freed object, a loop that never returns) returns an option, and \<open>None\<close>
  stands for it; error codes, \<open>false\<close> and \<open>NULL\<close> are values inside \<open>Some\<close>. A \<open>size_t\<close> is a natural number
  with its wrap-around written out, 32-bit and 64-bit values are words. State is passed explicitly. Loops are
  structural or well-founded recursion, or \<open>partial_function\<close> in the option monad where the code has no bound;
  no definition uses fuel. Locks serialise operations and do not appear. Log output is left out.

  \<^bold>\<open>Parameters.\<close> Code outside the repository is a parameter: the attribute layout of the std library
  (record \<open>std_tlv_api\<close>, laws in the locale \<open>std_tlv\<close>, instance \<open>tlv16\<close>), the allocator (record \<open>libc\<close>), the
  hash of the C++ library (any function), sockets (record \<open>sock_api\<close>, laws in the locale \<open>stream_sock\<close>,
  instance \<open>pipe_sock\<close>), the socket service (record \<open>svc_api\<close>), the pattern matching of the database (locale
  \<open>glob_match\<close>), the redis client library with poll and the clock (record \<open>redis_api\<close>, laws in the locales
  \<open>redis_server\<close>, \<open>redis_hash\<close> and \<open>redis_pool\<close>, instance \<open>sim_redis\<close>), the string splitting of the std library and the
  hash of strings (fields of \<open>node_env\<close>), \<open>select\<close> and the order of hash tables (record \<open>event_client\<close>), and the handlers of applications.

  \<^bold>\<open>The theories.\<close>
    \<^item> \<open>Cps_Prelude\<close>: machine types, \<open>size_t\<close> arithmetic, memory primitives, bytes of integers.
    \<^item> \<open>Cps_Key\<close> (\<open>src/cps_api_key.cpp\<close>, \<open>src/cps_api_key_utils.cpp\<close>, \<open>inc/opx/cps_key_internals.h\<close>): keys as arrays;
      insertion and removal of elements, comparison, hashing, copying, shown against lists of elements.
    \<^item> \<open>Cps_Key_Cache\<close> (\<open>inc/opx/private/cps_api_key_cache.h\<close>): the hash table keyed by keys, shown to be a map
      with longest prefix search; the locale \<open>key_store\<close> is what its clients rely on.
    \<^item> \<open>Cps_Tlv\<close>: the layout of attributes and the laws of the std library.
    \<^item> \<open>Cps_Object\<close>, \<open>Cps_Object_Proofs\<close>, \<open>Cps_Object_Embedded\<close> (\<open>src/cps_api_object.cpp\<close>,
      \<open>src/cps_api_object_attr.cpp\<close>): object storage, iterators, search, deletion, addition along paths, cloning, merging
      and serialising, each shown against the list of attributes.
    \<^item> \<open>Cps_Object_Heap\<close>: ownership, reference counts, trackers and object lists; every reachable heap has the
      right accounts.
    \<^item> \<open>Cps_Dictionary\<close>, \<open>Cps_Dictionary_Proofs\<close> (\<open>src/metadata/cps_dictionary.cpp\<close>): classes, attributes and
      enumerations; what is registered is found, the memo of key attributes does not change answers.
    \<^item> \<open>Cps_Object_Tools\<close>, \<open>Cps_Object_Tools_Proofs\<close> (\<open>src/non-core/cps_api_object_tools.cpp\<close>): filters, return codes,
      compaction.
    \<^item> \<open>Cps_Operation\<close>, \<open>Cps_Operation_Proofs\<close> (\<open>src/cps_api_operation_common.cpp\<close>,
      \<open>src/db/cps_api_db_operations.cpp\<close>): get requests with exact match filtering, transactions with roll back.
    \<^item> \<open>Cps_Db_Key\<close> (\<open>src/db/cps_api_db_object_key.cpp\<close>, \<open>src/cps_api_vector_utils.cpp\<close>): the keys objects have in the
      database, search patterns, ranges of work.
    \<^item> \<open>Cps_Db_Connection\<close>, \<open>Cps_Db_Connection_Proofs\<close> (\<open>src/db/cps_api_db_connection.cpp\<close>,
      \<open>src/db/cps_api_db_response.cpp\<close>, \<open>src/db/cps_api_db_connection_tools.cpp\<close>): connections to a database server:
      requests built from keys and objects, flushing with retries and reconnection, replies with events set aside, and the
      pool, which stays within its limit.
    \<^item> \<open>Cps_Redis\<close>, \<open>Cps_Redis_Proofs\<close> (\<open>src/db/cps_redis.cpp\<close>): the commands; what is stored is read back.
    \<^item> \<open>Cps_Db_Pipeline\<close>, \<open>Cps_Db_Pipeline_Proofs\<close> (\<open>src/db/cps_api_db_pipeline.cpp\<close>): lists of objects through a pipe, shown to do
      what the commands do one by one.
    \<^item> \<open>Cps_Db_Events\<close>, \<open>Cps_Db_Events_Proofs\<close> (\<open>src/db/cps_api_db_events.cpp\<close>): the queue of events and the thread that
      sends them, as a step relation over publishers and the thread; events leave in the order of their publication.
    \<^item> \<open>Cps_Operation_Tools\<close> (\<open>src/non-core/cps_api_operation_tools.cpp\<close>): requests of one object with retries.
    \<^item> \<open>Cps_Db_Node\<close> (\<open>src/non-core/cps_api_node.cpp\<close>, \<open>src/db/cps_api_db_node_set.cpp\<close>): groups of database nodes, their
      loading from the local database, resolution to addresses, masters.
    \<^item> \<open>Cps_Db_Direct\<close>, \<open>Cps_Db_Direct_Proofs\<close>, \<open>Cps_Db_Set_Proofs\<close> (\<open>src/db/cps_api_db_direct.cpp\<close>): the database interface of
      applications over all of the above; what is created is read back, deleted and gone, updates merge, and
      retries are bounded.
    \<^item> \<open>Cps_Db_Event_Adapter\<close>, \<open>Cps_Events\<close>, with \<open>Cps_Db_Event_Adapter_Proofs\<close>, \<open>Cps_Event_Wait_Proofs\<close>,
      \<open>Cps_Events_Proofs\<close> (\<open>src/db/cps_api_db_event_adapter.cpp\<close>,
      \<open>src/cps_api_events.cpp\<close>, \<open>src/db/cps_api_db_init.cpp\<close>): the event client, its handles with registrations, filters and
      connections, the wait for an event, and the thread that calls applications back; handles stay well formed (the
      locale \<open>handle_invariant\<close>), an event that has arrived is handed out, nothing else is, and callbacks run in order.
    \<^item> \<open>Cps_Channel\<close>, \<open>Cps_Channel_Proofs\<close> (\<open>src/cps_api_client_ipc.cpp\<close>, \<open>inc/opx/private/cps_api_client_utils.h\<close>): messages
      on sockets; each receiver reads what the sender wrote, and failures leak nothing.
    \<^item> \<open>Cps_Client_Ipc\<close>, \<open>Cps_Client_Ipc_Proofs\<close> (\<open>src/cps_api_client_ipc.cpp\<close>): the cache of owners and the client's side
      of the conversations.
    \<^item> \<open>Cps_Service\<close>, \<open>Cps_Service_Proofs\<close> (\<open>src/cps_api_operation_service.cpp\<close>): handlers, dispatch, the service's side
      of the conversations, counters, registration.
    \<^item> \<open>Cps_Ns\<close>, \<open>Cps_Ns_Proofs\<close> (\<open>src/cps_ns.cpp\<close>): the name server, and the properties that span a service, the name
      server and a client.

  \<^bold>\<open>Bounds.\<close> Properties of objects hold for objects smaller than \<open>2 ^ 62\<close> bytes (\<open>obj_cap\<close>), so that no
  \<open>size_t\<close> sum wraps, and for messages smaller than \<open>2 ^ 31\<close> bytes, because the code compares lengths as
  \<open>int\<close>. A key has fewer than 62 elements, which its setters enforce.

  \<^bold>\<open>Not modelled.\<close> The Python extension, the example and the unit tests; the readers of dictionary files and the
  generated tables; text output of keys and objects; threads, start-up and signal handling, which only call
  the operating system. Of the database layer the tools over the database interface.
\<close>

end
